(* ===== verification/Prelude.thy ===== *)
theory Prelude
  imports
    Complex_Main
    "HOL-Library.Char_ord"
    "HOL-Library.List_Lexorder"
    "HOL-Library.Sublist"
begin

text \<open>
  Shared ground of the development: the named theorem collections, the Python
  built-ins the services rely on (string splitting and stripping, decimal
  printing and parsing, slices, \<^verbatim>\<open>sorted\<close>, truthiness of bytes), JSON documents,
  and the state-and-exception monad in which coroutines are written.

  Conventions. A Python \<^verbatim>\<open>str\<close> is a \<^typ>\<open>string\<close>; ordering on strings is
  lexicographic. A Python \<^verbatim>\<open>int\<close> is an \<^typ>\<open>int\<close>, a counter that starts at
  zero and only grows is a \<^typ>\<open>nat\<close>. A Python \<^verbatim>\<open>float\<close> that carries a time or
  a rate is a \<^typ>\<open>rat\<close>: comparisons and sums are exact, rounding is not modelled.
\<close>

named_theorems io_simps \<open>computation rules of the coroutine monad\<close>
named_theorems key_defs \<open>definitions of key builders\<close>

section \<open>Python strings\<close>

definition startswith :: "string \<Rightarrow> string \<Rightarrow> bool" where
  "startswith s p = prefix p s"

definition endswith :: "string \<Rightarrow> string \<Rightarrow> bool" where
  "endswith s x = suffix x s"

definition py_rstrip :: "char \<Rightarrow> string \<Rightarrow> string" where
  "py_rstrip c s = rev (dropWhile ((=) c) (rev s))"

definition py_lstrip :: "char \<Rightarrow> string \<Rightarrow> string" where
  "py_lstrip c s = dropWhile ((=) c) s"

definition py_removesuffix :: "string \<Rightarrow> string \<Rightarrow> string" where
  "py_removesuffix s x = (if suffix x s then take (length s - length x) s else s)"

fun py_split :: "char \<Rightarrow> string \<Rightarrow> string list" where
  "py_split c [] = [[]]"
| "py_split c (x # xs) =
     (if x = c then [] # py_split c xs
      else case py_split c xs of [] \<Rightarrow> [[x]] | p # ps \<Rightarrow> (x # p) # ps)"

definition py_split1 :: "char \<Rightarrow> string \<Rightarrow> string \<times> string" where
  "py_split1 c s = (takeWhile ((\<noteq>) c) s, drop 1 (dropWhile ((\<noteq>) c) s))"

fun py_join :: "string \<Rightarrow> string list \<Rightarrow> string" where
  "py_join sep [] = []"
| "py_join sep [x] = x"
| "py_join sep (x # y # xs) = x @ sep @ py_join sep (y # xs)"

lemma py_split_not_Nil [simp]: "py_split c s \<noteq> []"
  by (induction s) (auto split: list.splits)

lemma py_split_no_sep [simp]: "c \<notin> set s \<Longrightarrow> py_split c s = [s]"
  by (induction s) auto

lemma py_split_append_sep [simp]: "py_split c (a @ c # b) = py_split c a @ py_split c b"
proof (induction a)
  case (Cons x a)
  then show ?case by (cases "py_split c a") auto
qed simp

lemma startswith_append [simp]: "startswith (p @ s) p"
  by (simp add: startswith_def)

lemma suffix_append_self [simp]: "suffix x (s @ x)"
  by (simp add: suffix_def)

lemma endswith_append [simp]: "endswith (s @ x) x"
  by (simp add: endswith_def)

lemma py_removesuffix_append [simp]: "py_removesuffix (s @ x) x = s"
  by (simp add: py_removesuffix_def)

lemma py_rstrip_snoc [simp]: "py_rstrip c (s @ [c]) = py_rstrip c s"
  by (simp add: py_rstrip_def)

lemma py_rstrip_id: "s = [] \<or> last s \<noteq> c \<Longrightarrow> py_rstrip c s = s"
  by (cases s rule: rev_cases) (auto simp: py_rstrip_def)

lemma py_lstrip_id: "s = [] \<or> hd s \<noteq> c \<Longrightarrow> py_lstrip c s = s"
  by (cases s) (auto simp: py_lstrip_def)

lemma py_split1_append: "c \<notin> set a \<Longrightarrow> py_split1 c (a @ c # b) = (a, b)"
proof -
  assume "c \<notin> set a"
  then have t: "takeWhile ((\<noteq>) c) (a @ c # b) = a" and d: "dropWhile ((\<noteq>) c) (a @ c # b) = c # b"
    by (induction a) auto
  show ?thesis by (simp add: py_split1_def t d)
qed

text \<open>
  The last path segment of an object-store prefix:
  \<^verbatim>\<open>prefix.rstrip("/").split("/")[-1]\<close>, the idiom every listing in the services uses.
\<close>

definition last_segment :: "string \<Rightarrow> string" where
  "last_segment p = last (py_split (CHR ''/'') (py_rstrip (CHR ''/'') p))"

lemma last_segment_dir:
  assumes "CHR ''/'' \<notin> set seg" "seg \<noteq> []"
  shows "last_segment (p @ CHR ''/'' # seg @ ''/'') = seg"
proof -
  have "last seg \<noteq> CHR ''/''" using assms last_in_set by metis
  then have "py_rstrip (CHR ''/'') (p @ CHR ''/'' # seg) = p @ CHR ''/'' # seg"
    using assms(2) by (intro py_rstrip_id) simp
  then have "py_rstrip (CHR ''/'') ((p @ CHR ''/'' # seg) @ [CHR ''/'']) = p @ CHR ''/'' # seg"
    by (simp only: py_rstrip_snoc)
  then show ?thesis using assms by (simp add: last_segment_def)
qed

section \<open>Decimal numbers\<close>

definition digit_char :: "nat \<Rightarrow> char" where
  "digit_char n = char_of (48 + n)"

definition is_digit :: "char \<Rightarrow> bool" where
  "is_digit c = (48 \<le> (of_char c :: nat) \<and> (of_char c :: nat) \<le> 57)"

definition digit_val :: "char \<Rightarrow> nat" where
  "digit_val c = of_char c - 48"

fun str_of_nat :: "nat \<Rightarrow> string" where
  "str_of_nat n = (if n < 10 then [digit_char n] else str_of_nat (n div 10) @ [digit_char (n mod 10)])"

declare str_of_nat.simps [simp del]

text \<open>The text an f-string prints for an integer.\<close>

definition str_of_int :: "int \<Rightarrow> string" where
  "str_of_int i = (if i < 0 then CHR ''-'' # str_of_nat (nat (- i)) else str_of_nat (nat i))"

text \<open>\<^verbatim>\<open>str.isdigit\<close> on ASCII text: non-empty and all decimal digits.\<close>

definition py_isdigit :: "string \<Rightarrow> bool" where
  "py_isdigit s = (s \<noteq> [] \<and> list_all is_digit s)"

definition digits_value :: "string \<Rightarrow> nat" where
  "digits_value s = foldl (\<lambda>a c. 10 * a + digit_val c) 0 s"

text \<open>Whitespace as \<^verbatim>\<open>str.strip()\<close> knows it, for the first 256 code points.\<close>

definition py_isspace :: "char \<Rightarrow> bool" where
  "py_isspace c = ((of_char c :: nat) \<in> set [9, 10, 11, 12, 13, 28, 29, 30, 31, 32, 133, 160])"

definition py_strip :: "string \<Rightarrow> string" where
  "py_strip s = rev (dropWhile py_isspace (rev (dropWhile py_isspace s)))"

text \<open>
  \<^verbatim>\<open>int(text)\<close>: surrounding whitespace, an optional sign, decimal digits with
  single underscores between them; anything else is a \<^verbatim>\<open>ValueError\<close> (\<^const>\<open>None\<close>).
\<close>

fun digits_us :: "nat \<Rightarrow> bool \<Rightarrow> string \<Rightarrow> nat option" where
  "digits_us acc prev [] = (if prev then Some acc else None)"
| "digits_us acc prev (c # cs) =
     (if is_digit c then digits_us (10 * acc + digit_val c) True cs
      else if c = CHR ''_'' \<and> prev then digits_us acc False cs
      else None)"

definition py_int :: "string \<Rightarrow> int option" where
  "py_int s =
     (case py_strip s of
        [] \<Rightarrow> None
      | c # cs \<Rightarrow>
          if c = CHR ''-'' then map_option (\<lambda>n. - int n) (digits_us 0 False cs)
          else if c = CHR ''+'' then map_option int (digits_us 0 False cs)
          else map_option int (digits_us 0 False (c # cs)))"

lemma of_char_digit_char: "n < 10 \<Longrightarrow> (of_char (digit_char n) :: nat) = 48 + n"
  by (simp add: digit_char_def)

lemma is_digit_digit_char [simp]: "n < 10 \<Longrightarrow> is_digit (digit_char n)"
  by (simp add: is_digit_def of_char_digit_char)

lemma digit_val_digit_char [simp]: "n < 10 \<Longrightarrow> digit_val (digit_char n) = n"
  by (simp add: digit_val_def of_char_digit_char)

lemma str_of_nat_digits: "c \<in> set (str_of_nat n) \<Longrightarrow> is_digit c"
proof (induction n rule: str_of_nat.induct)
  case (1 n)
  then show ?case by (subst (asm) str_of_nat.simps) (auto split: if_splits)
qed

lemma str_of_nat_not_Nil [simp]: "str_of_nat n \<noteq> []"
  by (subst str_of_nat.simps) auto

lemma digits_us_append:
  "list_all is_digit s \<Longrightarrow> s \<noteq> [] \<Longrightarrow>
   digits_us acc prev (s @ t) = digits_us (foldl (\<lambda>a c. 10 * a + digit_val c) acc s) True t"
proof (induction s arbitrary: acc prev)
  case (Cons c s)
  then show ?case by (cases "s = []") (simp_all del: digits_us.simps(1))
qed simp

lemma digits_value_str_of_nat [simp]: "digits_value (str_of_nat n) = n"
proof (induction n rule: str_of_nat.induct)
  case (1 n)
  then show ?case
    by (subst str_of_nat.simps) (auto simp: digits_value_def)
qed

lemma digits_us_str_of_nat [simp]: "digits_us 0 False (str_of_nat n) = Some n"
proof -
  have "list_all is_digit (str_of_nat n)" by (auto simp: list_all_iff dest: str_of_nat_digits)
  from digits_us_append [OF this, of 0 False "[]"] show ?thesis
    using digits_value_str_of_nat [of n] by (simp add: digits_value_def)
qed

lemma str_of_nat_inject [simp]: "str_of_nat m = str_of_nat n \<longleftrightarrow> m = n"
  using digits_value_str_of_nat by metis

lemma is_digit_not_space: "is_digit c \<Longrightarrow> \<not> py_isspace c"
  by (auto simp: is_digit_def py_isspace_def)

lemma is_digit_ne:
  "is_digit c \<Longrightarrow> c \<noteq> CHR ''-''" "is_digit c \<Longrightarrow> c \<noteq> CHR ''+''"
  "is_digit c \<Longrightarrow> c \<noteq> CHR ''/''" "is_digit c \<Longrightarrow> c \<noteq> CHR '':''" "is_digit c \<Longrightarrow> c \<noteq> CHR ''_''"
  by (auto simp: is_digit_def)

lemma str_of_int_chars: "c \<in> set (str_of_int i) \<Longrightarrow> c = CHR ''-'' \<or> is_digit c"
  by (auto simp: str_of_int_def dest: str_of_nat_digits split: if_splits)

lemma str_of_int_not_Nil [simp]: "str_of_int i \<noteq> []"
  by (simp add: str_of_int_def)

lemma str_of_int_no_sep [simp]:
  "CHR ''/'' \<notin> set (str_of_int i)" "CHR '':'' \<notin> set (str_of_int i)" "CHR ''_'' \<notin> set (str_of_int i)"
  using str_of_int_chars is_digit_ne by fastforce+

lemma py_strip_id:
  assumes "s \<noteq> []" "\<not> py_isspace (hd s)" "\<not> py_isspace (last s)"
  shows "py_strip s = s"
proof -
  have "dropWhile py_isspace s = s" using assms by (cases s) auto
  moreover have "dropWhile py_isspace (rev s) = rev s"
    using assms by (cases s rule: rev_cases) auto
  ultimately show ?thesis by (simp add: py_strip_def)
qed

lemma str_of_int_no_space: "c \<in> set (str_of_int i) \<Longrightarrow> \<not> py_isspace c"
  using str_of_int_chars is_digit_not_space by (fastforce simp: py_isspace_def)

lemma py_int_str_of_int [simp]: "py_int (str_of_int i) = Some i"
proof -
  have "py_strip (str_of_int i) = str_of_int i"
    using str_of_int_no_space [of _ i] by (intro py_strip_id) simp_all
  moreover obtain c cs where s: "str_of_nat (nat i) = c # cs"
    by (cases "str_of_nat (nat i)") auto
  moreover have "is_digit c" using str_of_nat_digits [of c "nat i"] s by simp
  moreover have "digits_us 0 False (c # cs) = Some (nat i)"
    using digits_us_str_of_nat [of "nat i"] s by simp
  ultimately show ?thesis
    using is_digit_ne [of c] by (auto simp: py_int_def str_of_int_def)
qed

lemma str_of_int_inject [simp]: "str_of_int i = str_of_int j \<longleftrightarrow> i = j"
  using py_int_str_of_int by (metis option.inject)

text \<open>\<^verbatim>\<open>int(x)\<close> of a float truncates towards zero.\<close>

definition py_trunc :: "rat \<Rightarrow> int" where
  "py_trunc q = (if q < 0 then - \<lfloor>- q\<rfloor> else \<lfloor>q\<rfloor>)"

text \<open>
  \<^verbatim>\<open>float(text)\<close>: whitespace, a sign, digits with an optional fraction and exponent.
  Infinity and NaN are not values of the model and are refused here.
\<close>

definition py_float :: "string \<Rightarrow> rat option" where
  "py_float s =
     (let t = py_strip s;
          neg = (t \<noteq> [] \<and> hd t = CHR ''-'');
          u = (if t \<noteq> [] \<and> hd t \<in> set ''+-'' then tl t else t);
          m = takeWhile (\<lambda>c. c \<notin> set ''eE'') u;
          expo = (if m = u then Some 0
                  else let e = drop (Suc (length m)) u in if py_strip e = e then py_int e else None);
          ip = takeWhile (\<lambda>c. c \<noteq> CHR ''.'') m;
          fp = drop (Suc (length ip)) m;
          part = (\<lambda>d. if d = [] then Some 0 else digits_us 0 False d)
      in if ip = [] \<and> fp = [] then None
         else case (part ip, part fp, expo) of
                (Some i, Some f, Some e) \<Rightarrow>
                  let v = (of_nat i + of_nat f / 10 ^ length (filter is_digit fp)) * (10 powi e)
                  in Some (if neg then - v else v)
              | _ \<Rightarrow> None)"

text \<open>\<^verbatim>\<open>str.lower\<close> on the first 256 code points.\<close>

definition lower_char :: "char \<Rightarrow> char" where
  "lower_char c =
     (let n = (of_char c :: nat)
      in if 65 \<le> n \<and> n \<le> 90 \<or> 192 \<le> n \<and> n \<le> 222 \<and> n \<noteq> 215 then char_of (n + 32) else c)"

definition py_lower :: "string \<Rightarrow> string" where
  "py_lower s = map lower_char s"

text \<open>\<^verbatim>\<open>str.upper\<close> on ASCII text.\<close>

definition upper_char :: "char \<Rightarrow> char" where
  "upper_char c = (let n = (of_char c :: nat) in if 97 \<le> n \<and> n \<le> 122 then char_of (n - 32) else c)"

definition py_upper :: "string \<Rightarrow> string" where
  "py_upper s = map upper_char s"

section \<open>Slices and sorting\<close>

text \<open>The slice \<^verbatim>\<open>xs[:n]\<close>; a negative bound counts from the end.\<close>

definition py_take :: "int \<Rightarrow> 'a list \<Rightarrow> 'a list" where
  "py_take n xs = (if 0 \<le> n then take (nat n) xs else take (length xs - nat (- n)) xs)"

definition py_drop :: "int \<Rightarrow> 'a list \<Rightarrow> 'a list" where
  "py_drop n xs = (if 0 \<le> n then drop (nat n) xs else drop (length xs - nat (- n)) xs)"

text \<open>\<^verbatim>\<open>range(a, b, s)\<close> for a positive step.\<close>

definition py_range :: "nat \<Rightarrow> nat \<Rightarrow> nat \<Rightarrow> nat list" where
  "py_range a b s = map (\<lambda>k. a + k * s) [0..<(b - a + s - 1) div s]"

text \<open>\<^verbatim>\<open>sorted(xs, reverse=True)\<close>, and the stable reversed sort with a key.\<close>

definition sorted_desc :: "'a::linorder list \<Rightarrow> 'a list" where
  "sorted_desc xs = rev (sort xs)"

definition sorted_desc_key :: "('a \<Rightarrow> 'k::linorder) \<Rightarrow> 'a list \<Rightarrow> 'a list" where
  "sorted_desc_key f xs = rev (sort_key f (rev xs))"

lemma set_sorted_desc [simp]: "set (sorted_desc xs) = set xs"
  by (simp add: sorted_desc_def)

lemma length_sorted_desc [simp]: "length (sorted_desc xs) = length xs"
  by (simp add: sorted_desc_def)

lemma sorted_desc_wrt: "sorted_wrt (\<ge>) (sorted_desc xs)"
  by (simp add: sorted_desc_def sorted_wrt_rev)

lemma set_sorted_desc_key [simp]: "set (sorted_desc_key f xs) = set xs"
  by (simp add: sorted_desc_key_def)

lemma sorted_desc_key_wrt: "sorted_wrt (\<lambda>a b. f b \<le> f a) (sorted_desc_key f xs)"
  using sorted_sort_key [of f "rev xs"]
  by (simp add: sorted_desc_key_def sorted_wrt_rev sorted_wrt_map)

lemma set_py_take: "set (py_take n xs) \<subseteq> set xs"
  by (simp add: py_take_def set_take_subset)

lemma length_py_take: "0 \<le> n \<Longrightarrow> length (py_take n xs) \<le> nat n"
  by (simp add: py_take_def)

section \<open>Dictionaries\<close>

text \<open>A dict assignment: an existing key keeps its place, a new one goes last.\<close>

fun dict_set :: "('k \<times> 'v) list \<Rightarrow> 'k \<Rightarrow> 'v \<Rightarrow> ('k \<times> 'v) list" where
  "dict_set [] k v = [(k, v)]"
| "dict_set ((k', v') # kvs) k v =
     (if k' = k then (k, v) # kvs else (k', v') # dict_set kvs k v)"

lemma dict_set_keys: "set (map fst (dict_set kvs k v)) = insert k (set (map fst kvs))"
  by (induction kvs k v rule: dict_set.induct) auto

lemma dict_set_distinct: "distinct (map fst kvs) \<Longrightarrow> distinct (map fst (dict_set kvs k v))"
  by (induction kvs k v rule: dict_set.induct) (auto simp: dict_set_keys simp del: set_map)

lemma dict_set_lookup: "map_of (dict_set kvs k v) = (map_of kvs)(k \<mapsto> v)"
  by (induction kvs k v rule: dict_set.induct) auto

lemma dict_set_mem: "kv \<in> set (dict_set kvs k v) \<Longrightarrow> kv = (k, v) \<or> kv \<in> set kvs"
  by (induction kvs k v rule: dict_set.induct) (auto split: if_splits)

section \<open>JSON documents and byte strings\<close>

text \<open>
  A byte string is either opaque (\<^verbatim>\<open>Raw\<close>) or the UTF-8 text of a JSON document
  (\<^verbatim>\<open>Json\<close>). The services never look at the spelling of a JSON text, only at the
  value \<^verbatim>\<open>json.loads\<close> returns, so the text is represented by that value:
  \<^verbatim>\<open>json.dumps(v).encode()\<close> is \<^verbatim>\<open>Json v\<close> and \<^verbatim>\<open>json.loads\<close> fails exactly on
  \<^verbatim>\<open>Raw\<close>. A JSON text is never empty.
\<close>

datatype json =
    JNull
  | JBool bool
  | JInt int
  | JFloat rat
  | JStr string
  | JArr "json list"
  | JObj "(string \<times> json) list"

datatype pybytes = Raw string | Json json

fun json_loads :: "pybytes \<Rightarrow> json option" where
  "json_loads (Json v) = Some v"
| "json_loads (Raw s) = None"

text \<open>\<^verbatim>\<open>if data:\<close> on an optional byte string.\<close>

fun truthy :: "pybytes option \<Rightarrow> bool" where
  "truthy None = False"
| "truthy (Some (Raw s)) = (s \<noteq> [])"
| "truthy (Some (Json v)) = True"

fun jget :: "json \<Rightarrow> string \<Rightarrow> json option" where
  "jget (JObj kvs) k = map_of kvs k"
| "jget _ k = None"

fun json_of_strings :: "string list \<Rightarrow> json" where
  "json_of_strings xs = JArr (map JStr xs)"

text \<open>The list a cached listing holds; the cache only ever stores lists of strings.\<close>

fun strings_of_json :: "json \<Rightarrow> string list option" where
  "strings_of_json (JArr vs) =
     those (map (\<lambda>v. case v of JStr s \<Rightarrow> Some s | _ \<Rightarrow> None) vs)"
| "strings_of_json _ = None"

lemma those_map_Some [simp]: "those (map (\<lambda>x. Some (f x)) xs) = Some (map f xs)"
  by (induction xs) auto

lemma strings_of_json_of_strings [simp]: "strings_of_json (json_of_strings xs) = Some xs"
  by (simp add: comp_def)

lemma truthy_Some: "truthy d \<Longrightarrow> \<exists>b. d = Some b"
  by (cases d) auto

section \<open>Coroutines\<close>

text \<open>
  A coroutine runs in a world \<^typ>\<open>'w\<close> (the object store, Redis, the network,
  the clock: everything behind an \<^verbatim>\<open>await\<close>) and either raises or returns. Its type
  keeps the world of a failed call: effects before the exception stay.
\<close>

datatype exn =
    ClientError string        \<comment> \<open>botocore, with the error code\<close>
  | BotoCoreError
  | TimeoutError              \<comment> \<open>asyncio.TimeoutError\<close>
  | OSError
  | HTTPError                 \<comment> \<open>httpx.HTTPError and its subclasses\<close>
  | RedisError string         \<comment> \<open>redis.exceptions, with the message\<close>
  | RuntimeError
  | ValueError
  | KeyError
  | CancelledError
  | ProviderUnavailableError
  | OtherError string

definition TypeError :: exn where "TypeError = OtherError ''TypeError''"
definition AttributeError :: exn where "AttributeError = OtherError ''AttributeError''"

text \<open>Code that neither awaits nor changes anything either raises or has a value.\<close>

type_synonym 'a outcome = "exn + 'a"

fun andthen :: "'a outcome \<Rightarrow> ('a \<Rightarrow> 'b outcome) \<Rightarrow> 'b outcome" where
  "andthen (Inl e) f = Inl e"
| "andthen (Inr x) f = f x"

definition or_raise :: "exn \<Rightarrow> 'a option \<Rightarrow> 'a outcome" where
  "or_raise e v = (case v of None \<Rightarrow> Inl e | Some x \<Rightarrow> Inr x)"

lemma andthen_eq_Inr: "andthen m f = Inr y \<longleftrightarrow> (\<exists>x. m = Inr x \<and> f x = Inr y)"
  by (cases m) auto

lemma or_raise_simps [simp]: "or_raise e None = Inl e" "or_raise e (Some x) = Inr x"
  by (simp_all add: or_raise_def)

lemma or_raise_eq_Inr [simp]: "or_raise e v = Inr x \<longleftrightarrow> v = Some x"
  by (cases v) auto

type_synonym ('w, 'a) io = "'w \<Rightarrow> (exn + 'a) \<times> 'w"

definition ret :: "'a \<Rightarrow> ('w, 'a) io" where
  "ret x w = (Inr x, w)"

definition raise :: "exn \<Rightarrow> ('w, 'a) io" where
  "raise e w = (Inl e, w)"

definition bnd :: "('w, 'a) io \<Rightarrow> ('a \<Rightarrow> ('w, 'b) io) \<Rightarrow> ('w, 'b) io" where
  "bnd m f w = (case m w of (Inl e, w') \<Rightarrow> (Inl e, w') | (Inr x, w') \<Rightarrow> f x w')"

definition seq :: "('w, 'a) io \<Rightarrow> ('w, 'b) io \<Rightarrow> ('w, 'b) io" where
  "seq m n = bnd m (\<lambda>_. n)"

text \<open>\<^verbatim>\<open>try: m except E: h\<close>, where \<^verbatim>\<open>h e = None\<close> means that \<^verbatim>\<open>e\<close> is not caught.\<close>

definition try_except :: "('w, 'a) io \<Rightarrow> (exn \<Rightarrow> ('w, 'a) io option) \<Rightarrow> ('w, 'a) io" where
  "try_except m h w =
     (case m w of
        (Inl e, w') \<Rightarrow> (case h e of None \<Rightarrow> (Inl e, w') | Some n \<Rightarrow> n w')
      | (Inr x, w') \<Rightarrow> (Inr x, w'))"

text \<open>\<^verbatim>\<open>try: m finally: fin\<close>: \<^verbatim>\<open>fin\<close> runs on every exit, and its own exception wins.\<close>

definition try_finally :: "('w, 'a) io \<Rightarrow> ('w, unit) io \<Rightarrow> ('w, 'a) io" where
  "try_finally m fin w =
     (case m w of (r, w') \<Rightarrow>
        (case fin w' of (Inl e, w'') \<Rightarrow> (Inl e, w'') | (Inr _, w'') \<Rightarrow> (r, w'')))"

text \<open>
  \<^verbatim>\<open>try\<close> with code after it: the caught exception is handed on as a value.
\<close>

definition catching :: "(exn \<Rightarrow> bool) \<Rightarrow> ('w, 'a) io \<Rightarrow> ('w, exn + 'a) io" where
  "catching P m w =
     (case m w of
        (Inl e, w') \<Rightarrow> if P e then (Inr (Inl e), w') else (Inl e, w')
      | (Inr x, w') \<Rightarrow> (Inr (Inr x), w'))"

definition modify :: "('w \<Rightarrow> 'w) \<Rightarrow> ('w, unit) io" where
  "modify f w = (Inr (), f w)"

text \<open>A read of the world that is not a call: a clock, a flag.\<close>

definition reads :: "('w \<Rightarrow> 'a) \<Rightarrow> ('w, 'a) io" where
  "reads f w = (Inr (f w), w)"

text \<open>A \<^verbatim>\<open>for\<close> loop of awaits, collecting the results; it stops at the first exception.\<close>

fun for_each :: "'a list \<Rightarrow> ('a \<Rightarrow> ('w, 'b) io) \<Rightarrow> ('w, 'b list) io" where
  "for_each [] f = ret []"
| "for_each (x # xs) f = bnd (f x) (\<lambda>y. bnd (for_each xs f) (\<lambda>ys. ret (y # ys)))"

text \<open>A \<^verbatim>\<open>for\<close> loop with an accumulator.\<close>

fun for_fold :: "'a list \<Rightarrow> ('a \<Rightarrow> 's \<Rightarrow> ('w, 's) io) \<Rightarrow> 's \<Rightarrow> ('w, 's) io" where
  "for_fold [] f s = ret s"
| "for_fold (x # xs) f s = bnd (f x s) (for_fold xs f)"

text \<open>An object's own attributes beside the world it awaits on.\<close>

definition on_world2 :: "('w, 'a) io \<Rightarrow> ('w \<times> 's, 'a) io" where
  "on_world2 m ws = (case m (fst ws) of (r, w') \<Rightarrow> (r, (w', snd ws)))"

definition on_state2 :: "('s \<Rightarrow> 's) \<Rightarrow> ('w \<times> 's, unit) io" where
  "on_state2 f ws = (Inr (), (fst ws, f (snd ws)))"

lemma ret_apply [simp, io_simps]: "ret x w = (Inr x, w)"
  by (simp add: ret_def)

lemma raise_apply [simp, io_simps]: "raise e w = (Inl e, w)"
  by (simp add: raise_def)

lemma reads_apply [simp, io_simps]: "reads f w = (Inr (f w), w)"
  by (simp add: reads_def)

lemma bnd_apply [io_simps]:
  "bnd m f w = (case m w of (Inl e, w') \<Rightarrow> (Inl e, w') | (Inr x, w') \<Rightarrow> f x w')"
  by (rule bnd_def)

lemma bnd_Inr [simp]: "m w = (Inr x, w') \<Longrightarrow> bnd m f w = f x w'"
  by (simp add: bnd_def)

lemma bnd_Inl [simp]: "m w = (Inl e, w') \<Longrightarrow> bnd m f w = (Inl e, w')"
  by (simp add: bnd_def)

lemma seq_apply [io_simps]:
  "seq m n w = (case m w of (Inl e, w') \<Rightarrow> (Inl e, w') | (Inr x, w') \<Rightarrow> n w')"
  by (simp add: seq_def bnd_def)

lemma try_except_apply [io_simps]:
  "try_except m h w =
     (case m w of
        (Inl e, w') \<Rightarrow> (case h e of None \<Rightarrow> (Inl e, w') | Some n \<Rightarrow> n w')
      | (Inr x, w') \<Rightarrow> (Inr x, w'))"
  by (rule try_except_def)

lemma bnd_ret [simp]: "bnd (ret x) f = f x"
  by (simp add: bnd_def fun_eq_iff)

lemma bnd_raise [simp]: "bnd (raise e) f = raise e"
  by (simp add: bnd_def fun_eq_iff)

lemma bnd_assoc: "bnd (bnd m f) g = bnd m (\<lambda>x. bnd (f x) g)"
  by (auto simp: bnd_def fun_eq_iff split: prod.splits sum.splits)

text \<open>Inversion: a bound computation that returns ran both of its parts.\<close>

lemma bnd_eq_Inr:
  "bnd m f w = (Inr y, w'') \<longleftrightarrow> (\<exists>x w'. m w = (Inr x, w') \<and> f x w' = (Inr y, w''))"
  by (auto simp: bnd_def split: prod.splits sum.splits)

lemma bndE:
  assumes "bnd m f w = (Inr y, w'')"
  obtains x w' where "m w = (Inr x, w')" "f x w' = (Inr y, w'')"
  using assms by (auto simp: bnd_eq_Inr)

lemma for_each_length: "for_each xs f w = (Inr ys, w') \<Longrightarrow> length ys = length xs"
  by (induction xs arbitrary: ys w) (auto simp: bnd_eq_Inr)

section \<open>Triples\<close>

text \<open>
  \<^verbatim>\<open>valid P m Q E\<close>: from a world satisfying \<^verbatim>\<open>P\<close>, \<^verbatim>\<open>m\<close> either returns with \<^verbatim>\<open>Q\<close> or
  raises with \<^verbatim>\<open>E\<close>. Every coroutine of the model is total, so this is also total
  correctness of the run.
\<close>

definition valid ::
  "('w \<Rightarrow> bool) \<Rightarrow> ('w, 'a) io \<Rightarrow> ('a \<Rightarrow> 'w \<Rightarrow> bool) \<Rightarrow> (exn \<Rightarrow> 'w \<Rightarrow> bool) \<Rightarrow> bool" where
  "valid P m Q E \<longleftrightarrow>
     (\<forall>w. P w \<longrightarrow> (case m w of (Inr x, w') \<Rightarrow> Q x w' | (Inl e, w') \<Rightarrow> E e w'))"

named_theorems vcg \<open>rules for triples\<close>

lemma validI:
  "(\<And>w. P w \<Longrightarrow> case m w of (Inr x, w') \<Rightarrow> Q x w' | (Inl e, w') \<Rightarrow> E e w') \<Longrightarrow> valid P m Q E"
  by (simp add: valid_def)

lemma validD:
  "valid P m Q E \<Longrightarrow> P w \<Longrightarrow> m w = (r, w') \<Longrightarrow> (case r of Inr x \<Rightarrow> Q x w' | Inl e \<Rightarrow> E e w')"
  by (auto simp: valid_def split: sum.splits)

lemma valid_ret [vcg]: "(\<And>w. P w \<Longrightarrow> Q x w) \<Longrightarrow> valid P (ret x) Q E"
  by (simp add: valid_def)

lemma valid_raise [vcg]: "(\<And>w. P w \<Longrightarrow> E e w) \<Longrightarrow> valid P (raise e) Q E"
  by (simp add: valid_def)

lemma valid_modify [vcg]: "(\<And>w. P w \<Longrightarrow> Q () (f w)) \<Longrightarrow> valid P (modify f) Q E"
  by (simp add: valid_def modify_def)

lemma valid_reads [vcg]: "(\<And>w. P w \<Longrightarrow> Q (f w) w) \<Longrightarrow> valid P (reads f) Q E"
  by (simp add: valid_def)

lemma valid_bnd:
  assumes "valid P m R E" "\<And>x. valid (R x) (f x) Q E"
  shows "valid P (bnd m f) Q E"
proof (rule validI)
  fix w assume "P w"
  obtain r w' where m: "m w = (r, w')" by (cases "m w")
  have r: "case r of Inr x \<Rightarrow> R x w' | Inl e \<Rightarrow> E e w'" using validD [OF assms(1) \<open>P w\<close> m] .
  show "case bnd m f w of (Inr x, w') \<Rightarrow> Q x w' | (Inl e, w') \<Rightarrow> E e w'"
  proof (cases r)
    case (Inr x)
    then show ?thesis using r m assms(2) [of x] by (simp add: valid_def)
  next
    case (Inl e)
    then show ?thesis using r m by simp
  qed
qed

lemma valid_bnd_reads:
  "(\<And>x. valid (\<lambda>w. P w \<and> x = f w) (g x) Q E) \<Longrightarrow> valid P (bnd (reads f) g) Q E"
  by (rule valid_bnd [where R = "\<lambda>x w. P w \<and> x = f w"]) (auto intro: valid_reads)

lemma valid_seq: "valid P m (\<lambda>_. R) E \<Longrightarrow> valid R n Q E \<Longrightarrow> valid P (seq m n) Q E"
  unfolding seq_def by (rule valid_bnd)

lemma valid_pre: "valid P' m Q E \<Longrightarrow> (\<And>w. P w \<Longrightarrow> P' w) \<Longrightarrow> valid P m Q E"
  by (auto simp: valid_def)

lemma valid_post:
  "valid P m Q' E' \<Longrightarrow> (\<And>x w. Q' x w \<Longrightarrow> Q x w) \<Longrightarrow> (\<And>e w. E' e w \<Longrightarrow> E e w) \<Longrightarrow> valid P m Q E"
  by (fastforce simp: valid_def split: sum.splits)

lemma valid_finally:
  assumes "valid P m Q E"
    and "\<And>x. valid (Q x) fin (\<lambda>_. Q' x) E'" "\<And>e. valid (E e) fin (\<lambda>_. E' e) E'"
  shows "valid P (try_finally m fin) Q' E'"
proof (rule validI)
  fix w assume "P w"
  obtain r w' where m: "m w = (r, w')" by (cases "m w")
  have r: "case r of Inr x \<Rightarrow> Q x w' | Inl e \<Rightarrow> E e w'" using validD [OF assms(1) \<open>P w\<close> m] .
  obtain r2 w2 where f: "fin w' = (r2, w2)" by (cases "fin w'")
  show "case try_finally m fin w of (Inr x, w') \<Rightarrow> Q' x w' | (Inl e, w') \<Rightarrow> E' e w'"
  proof (cases r)
    case (Inr x)
    then show ?thesis using r m f assms(2) [of x]
      by (auto simp: valid_def try_finally_def split: sum.splits)
  next
    case (Inl e)
    then show ?thesis using r m f assms(3) [of e]
      by (auto simp: valid_def try_finally_def split: sum.splits)
  qed
qed

lemma valid_catching:
  "valid P m (\<lambda>x. Q (Inr x)) (\<lambda>e w. if C e then Q (Inl e) w else E e w) \<Longrightarrow> valid P (catching C m) Q E"
  by (fastforce simp: valid_def catching_def split: sum.splits prod.splits if_splits)

lemma valid_conj:
  "valid P m Q E \<Longrightarrow> valid P' m Q' E' \<Longrightarrow>
   valid (\<lambda>w. P w \<and> P' w) m (\<lambda>x w. Q x w \<and> Q' x w) (\<lambda>e w. E e w \<and> E' e w)"
  by (fastforce simp: valid_def split: sum.splits)

section \<open>Frames\<close>

text \<open>\<^verbatim>\<open>keeps v m\<close>: whatever \<^verbatim>\<open>m\<close> does, it leaves the view \<^verbatim>\<open>v\<close> of the world as it was.\<close>

definition keeps :: "('w \<Rightarrow> 'v) \<Rightarrow> ('w, 'a) io \<Rightarrow> bool" where
  "keeps v m \<longleftrightarrow> (\<forall>w. v (snd (m w)) = v w)"

named_theorems frame \<open>rules for \<^verbatim>\<open>keeps\<close>\<close>

lemma keepsD: "keeps v m \<Longrightarrow> m w = (r, w') \<Longrightarrow> v w' = v w"
  unfolding keeps_def by (metis snd_conv)

lemma keeps_pure [frame]: "keeps v (ret x)" "keeps v (raise e)" "keeps v (reads f)"
  by (simp_all add: keeps_def)

lemma keeps_bnd [frame]: "keeps v m \<Longrightarrow> (\<And>x. keeps v (f x)) \<Longrightarrow> keeps v (bnd m f)"
  by (auto simp: keeps_def bnd_def split: prod.splits sum.splits) (metis snd_conv)+

lemma keeps_seq [frame]: "keeps v m \<Longrightarrow> keeps v n \<Longrightarrow> keeps v (seq m n)"
  unfolding seq_def by (rule keeps_bnd)

lemma keeps_catching [frame]: "keeps v m \<Longrightarrow> keeps v (catching C m)"
  by (auto simp: keeps_def catching_def split: prod.splits sum.splits) (metis snd_conv)+

lemma keeps_on_world2 [frame]: "keeps v m \<Longrightarrow> keeps (\<lambda>ws. v (fst ws)) (on_world2 m)"
  by (auto simp: keeps_def on_world2_def split: prod.splits) (metis snd_conv)

lemma keeps_on_state2 [frame]: "keeps (\<lambda>ws. v (fst ws)) (on_state2 f)"
  by (simp add: keeps_def on_state2_def)

section \<open>Invariants\<close>

text \<open>\<^verbatim>\<open>preserves I m\<close>: whatever \<^verbatim>\<open>m\<close> does, also when it raises, \<^verbatim>\<open>I\<close> stays true of the world.\<close>

definition preserves :: "('w \<Rightarrow> bool) \<Rightarrow> ('w, 'a) io \<Rightarrow> bool" where
  "preserves I m \<longleftrightarrow> (\<forall>w. I w \<longrightarrow> I (snd (m w)))"

named_theorems inv \<open>rules for \<^verbatim>\<open>preserves\<close>\<close>

lemma preservesI: "(\<And>w. I w \<Longrightarrow> I (snd (m w))) \<Longrightarrow> preserves I m"
  by (simp add: preserves_def)

lemma preservesD: "preserves I m \<Longrightarrow> I w \<Longrightarrow> I (snd (m w))"
  by (simp add: preserves_def)

lemma preserves_pure [inv]: "preserves I (ret x)" "preserves I (raise e)" "preserves I (reads f)"
  by (simp_all add: preserves_def)

lemma preserves_bnd [inv]: "preserves I m \<Longrightarrow> (\<And>x. preserves I (f x)) \<Longrightarrow> preserves I (bnd m f)"
  by (fastforce simp: preserves_def bnd_def split: prod.splits sum.splits)

lemma preserves_seq [inv]: "preserves I m \<Longrightarrow> preserves I n \<Longrightarrow> preserves I (seq m n)"
  unfolding seq_def by (rule preserves_bnd)

lemma preserves_catching [inv]: "preserves I m \<Longrightarrow> preserves I (catching C m)"
  by (fastforce simp: preserves_def catching_def split: prod.splits sum.splits)

lemma preserves_funpow: "preserves I m \<Longrightarrow> I w \<Longrightarrow> I (((\<lambda>w. snd (m w)) ^^ n) w)"
  by (induction n) (auto simp: preserves_def)

end
