(* ===== verification/Basemap_Config.thy ===== *)
theory Basemap_Config
  imports Prelude
begin

text \<open>
  Base map providers and tile arithmetic (\<^verbatim>\<open>services/basemap_config.py\<close>): the
  provider catalogue, its merge with the environment and the settings toggles, the
  Web Mercator tile grid of a bounding box, and the source address of a tile.

  A zoom level is a \<^typ>\<open>nat\<close>, a tile coordinate an \<^typ>\<open>int\<close>. Degrees are real
  numbers because the latitude formula uses \<^const>\<open>tan\<close> and \<^const>\<open>arsinh\<close>; metres are
  rational numbers. Rounding of floats is not modelled. The process environment is
  a map from variable names to values.
\<close>

section \<open>Data\<close>

datatype provider_kind = XYZ | WMS

record wms_params =
  wp_layer_name :: string
  wp_workspace_url :: string
  wp_image_format :: string
  wp_wms_version :: string

text \<open>The dataclass defaults of \<^verbatim>\<open>image_format\<close> and \<^verbatim>\<open>wms_version\<close>.\<close>

definition wms_defaults :: "string \<Rightarrow> string \<Rightarrow> wms_params" where
  "wms_defaults layer url =
     \<lparr> wp_layer_name = layer, wp_workspace_url = url,
       wp_image_format = ''image/png'', wp_wms_version = ''1.3.0'' \<rparr>"

record basemap_provider =
  bp_provider_id :: string
  bp_name :: string
  bp_source_url_template :: string
  bp_is_tms :: bool
  bp_min_zoom :: nat
  bp_max_zoom :: nat
  bp_cache_max_zoom :: nat
  bp_attribution :: string
  bp_kind :: provider_kind
  bp_wms :: "wms_params option"
  bp_is_overlay :: bool

record bounding_box =
  bb_lat_min :: real
  bb_lat_max :: real
  bb_lon_min :: real
  bb_lon_max :: real

record provider_defaults =
  pd_name :: string
  pd_is_tms :: bool
  pd_min_zoom :: nat
  pd_max_zoom :: nat
  pd_cache_max_zoom :: nat
  pd_attribution :: string
  pd_kind :: provider_kind
  pd_wms :: "wms_params option"
  pd_is_overlay :: bool

definition PROVIDER_DEFAULTS :: "(string \<times> provider_defaults) list" where
  "PROVIDER_DEFAULTS =
    [ (''argenmap'', \<lparr> pd_name = ''Argenmap'', pd_is_tms = True, pd_min_zoom = 3, pd_max_zoom = 21,
        pd_cache_max_zoom = 11, pd_attribution = ''Instituto Geogr'' @ [CHR 0xE1] @ ''fico Nacional + OpenStreetMap contributors'',
        pd_kind = XYZ, pd_wms = None, pd_is_overlay = False \<rparr>),
      (''argenmapGris'', \<lparr> pd_name = ''Argenmap gris'', pd_is_tms = True, pd_min_zoom = 3, pd_max_zoom = 21,
        pd_cache_max_zoom = 11, pd_attribution = ''Instituto Geogr'' @ [CHR 0xE1] @ ''fico Nacional'',
        pd_kind = XYZ, pd_wms = None, pd_is_overlay = False \<rparr>),
      (''argenmapOscuro'', \<lparr> pd_name = ''Argenmap oscuro'', pd_is_tms = True, pd_min_zoom = 3, pd_max_zoom = 21,
        pd_cache_max_zoom = 11, pd_attribution = ''Instituto Geogr'' @ [CHR 0xE1] @ ''fico Nacional'',
        pd_kind = XYZ, pd_wms = None, pd_is_overlay = False \<rparr>),
      (''argenmapTopografico'', \<lparr> pd_name = ''Argenmap topogr'' @ [CHR 0xE1] @ ''fico'', pd_is_tms = True, pd_min_zoom = 3, pd_max_zoom = 21,
        pd_cache_max_zoom = 11, pd_attribution = ''Instituto Geogr'' @ [CHR 0xE1] @ ''fico Nacional'',
        pd_kind = XYZ, pd_wms = None, pd_is_overlay = False \<rparr>),
      (''satellite'', \<lparr> pd_name = ''Im'' @ [CHR 0xE1] @ ''genes satelitales Esri'', pd_is_tms = False, pd_min_zoom = 3, pd_max_zoom = 17,
        pd_cache_max_zoom = 11, pd_attribution = ''Tiles '' @ [CHR 0xA9] @ '' Esri'',
        pd_kind = XYZ, pd_wms = None, pd_is_overlay = False \<rparr>),
      (''topographic'', \<lparr> pd_name = ''Mapa topogr'' @ [CHR 0xE1] @ ''fico Esri'', pd_is_tms = False, pd_min_zoom = 3, pd_max_zoom = 8,
        pd_cache_max_zoom = 8, pd_attribution = ''Tiles '' @ [CHR 0xA9] @ '' Esri'',
        pd_kind = XYZ, pd_wms = None, pd_is_overlay = False \<rparr>),
      (''googleSatellite'', \<lparr> pd_name = ''Im'' @ [CHR 0xE1] @ ''genes satelitales Google'', pd_is_tms = False, pd_min_zoom = 3, pd_max_zoom = 20,
        pd_cache_max_zoom = 11, pd_attribution = [CHR 0xA9] @ '' Google'',
        pd_kind = XYZ, pd_wms = None, pd_is_overlay = False \<rparr>),
      (''oceanBase'', \<lparr> pd_name = ''Mapa Esri Fondo Oce'' @ [CHR 0xE1] @ ''nico'', pd_is_tms = False, pd_min_zoom = 3, pd_max_zoom = 16,
        pd_cache_max_zoom = 11, pd_attribution = ''Tiles '' @ [CHR 0xA9] @ '' Esri'',
        pd_kind = XYZ, pd_wms = None, pd_is_overlay = False \<rparr>),
      (''ign-provincia'', \<lparr> pd_name = ''Provincia (IGN)'', pd_is_tms = False, pd_min_zoom = 3, pd_max_zoom = 18,
        pd_cache_max_zoom = 11, pd_attribution = ''Instituto Geogr'' @ [CHR 0xE1] @ ''fico Nacional'',
        pd_kind = WMS, pd_wms = Some (wms_defaults ''provincia_FA003''
        ''https://wms.ign.gob.ar/geoserver/limites/wms''), pd_is_overlay = True \<rparr>),
      (''ign-limite-internacional'', \<lparr> pd_name = ''L'' @ [CHR 0xED] @ ''mite internacional (IGN)'', pd_is_tms = False, pd_min_zoom = 3, pd_max_zoom = 18,
        pd_cache_max_zoom = 11, pd_attribution = ''Instituto Geogr'' @ [CHR 0xE1] @ ''fico Nacional'',
        pd_kind = WMS, pd_wms = Some (wms_defaults ''linea_de_limite_FA004''
        ''https://wms.ign.gob.ar/geoserver/limites/wms''), pd_is_overlay = True \<rparr>),
      (''ign-limite-interdepartamental-o-de-partido'', \<lparr> pd_name = ''L'' @ [CHR 0xED] @ ''mite interdepartamental o de partido (IGN)'', pd_is_tms = False, pd_min_zoom = 4, pd_max_zoom = 18,
        pd_cache_max_zoom = 11, pd_attribution = ''Instituto Geogr'' @ [CHR 0xE1] @ ''fico Nacional'',
        pd_kind = WMS, pd_wms = Some (wms_defaults ''ign:linea_de_limite_070110''
        ''https://wms.ign.gob.ar/geoserver/ows''), pd_is_overlay = True \<rparr>),
      (''ign-localidad'', \<lparr> pd_name = ''Localidad (IGN)'', pd_is_tms = False, pd_min_zoom = 5, pd_max_zoom = 18,
        pd_cache_max_zoom = 11, pd_attribution = ''Instituto Geogr'' @ [CHR 0xE1] @ ''fico Nacional'',
        pd_kind = WMS, pd_wms = Some (wms_defaults ''ign:localidad_bahra''
        ''https://wms.ign.gob.ar/geoserver/ows''), pd_is_overlay = True \<rparr>),
      (''ign-sublocalidad'', \<lparr> pd_name = ''Sublocalidad (IGN)'', pd_is_tms = False, pd_min_zoom = 7, pd_max_zoom = 18,
        pd_cache_max_zoom = 11, pd_attribution = ''Instituto Geogr'' @ [CHR 0xE1] @ ''fico Nacional'',
        pd_kind = WMS, pd_wms = Some (wms_defaults ''ign:sublocalidad_entidad_bahra''
        ''https://wms.ign.gob.ar/geoserver/ows''), pd_is_overlay = True \<rparr>),
      (''ign-gobierno-local'', \<lparr> pd_name = ''Gobierno Local (IGN)'', pd_is_tms = False, pd_min_zoom = 5, pd_max_zoom = 18,
        pd_cache_max_zoom = 11, pd_attribution = ''Instituto Geogr'' @ [CHR 0xE1] @ ''fico Nacional'',
        pd_kind = WMS, pd_wms = Some (wms_defaults ''gobiernoslocales_2022''
        ''https://wms.ign.gob.ar/geoserver/limites/wms''), pd_is_overlay = True \<rparr>) ]"

section \<open>Loading the registry\<close>

text \<open>\<^verbatim>\<open>str.upper\<close> on the ASCII letters; provider ids are ASCII.\<close>

definition ascii_upper :: "string \<Rightarrow> string" where
  "ascii_upper = map (\<lambda>c. if 97 \<le> (of_char c :: nat) \<and> (of_char c :: nat) \<le> 122
                            then char_of ((of_char c :: nat) - 32) else c)"

definition env_prefix :: "string \<Rightarrow> string" where
  "env_prefix pid = ''BASEMAP_'' @ ascii_upper pid"

definition load_provider :: "(string \<rightharpoonup> string) \<Rightarrow> string \<Rightarrow> basemap_provider option" where
  "load_provider env pid =
     (case map_of PROVIDER_DEFAULTS pid of
        None \<Rightarrow> None
      | Some d \<Rightarrow>
          if pd_kind d = WMS then
            (case pd_wms d of
               None \<Rightarrow> None
             | Some w \<Rightarrow>
                 let workspace_url =
                       (case env (env_prefix pid @ ''_WORKSPACE_URL'') of
                          Some u \<Rightarrow> u | None \<Rightarrow> wp_workspace_url w)
                 in Some \<lparr> bp_provider_id = pid, bp_name = pd_name d, bp_source_url_template = [],
                           bp_is_tms = pd_is_tms d, bp_min_zoom = pd_min_zoom d,
                           bp_max_zoom = pd_max_zoom d, bp_cache_max_zoom = pd_cache_max_zoom d,
                           bp_attribution = pd_attribution d, bp_kind = WMS,
                           bp_wms = Some \<lparr> wp_layer_name = wp_layer_name w,
                                           wp_workspace_url = workspace_url,
                                           wp_image_format = wp_image_format w,
                                           wp_wms_version = wp_wms_version w \<rparr>,
                           bp_is_overlay = pd_is_overlay d \<rparr>)
          else
            (let url = (case env (env_prefix pid @ ''_URL'') of Some u \<Rightarrow> u | None \<Rightarrow> [])
             in if url = [] then None
                else Some \<lparr> bp_provider_id = pid, bp_name = pd_name d, bp_source_url_template = url,
                            bp_is_tms = pd_is_tms d, bp_min_zoom = pd_min_zoom d,
                            bp_max_zoom = pd_max_zoom d, bp_cache_max_zoom = pd_cache_max_zoom d,
                            bp_attribution = pd_attribution d, bp_kind = XYZ, bp_wms = None,
                            bp_is_overlay = pd_is_overlay d \<rparr>))"

text \<open>One settings entry: \<^verbatim>\<open>cfg.get("id")\<close> and \<^verbatim>\<open>cfg.get("enabled", True)\<close>.\<close>

record provider_toggle =
  pt_id :: "string option"
  pt_enabled :: "bool option"

fun load_providers_from ::
  "(string \<rightharpoonup> string) \<Rightarrow> provider_toggle list \<Rightarrow> (string \<times> basemap_provider) list
     \<Rightarrow> (string \<times> basemap_provider) list" where
  "load_providers_from env [] providers = providers"
| "load_providers_from env (cfg # cfgs) providers =
     load_providers_from env cfgs
       (if pt_enabled cfg = Some False then providers
        else case pt_id cfg of
               None \<Rightarrow> providers
             | Some pid \<Rightarrow>
                 if pid = [] then providers
                 else case load_provider env pid of
                        None \<Rightarrow> providers
                      | Some p \<Rightarrow> dict_set providers (bp_provider_id p) p)"

definition load_providers ::
  "(string \<rightharpoonup> string) \<Rightarrow> provider_toggle list \<Rightarrow> (string \<times> basemap_provider) list" where
  "load_providers env config_list = load_providers_from env config_list []"

section \<open>Tile arithmetic\<close>

text \<open>\<^verbatim>\<open>int(x)\<close> on a float truncates towards zero.\<close>

definition py_trunc :: "real \<Rightarrow> int" where
  "py_trunc r = (if 0 \<le> r then \<lfloor>r\<rfloor> else \<lceil>r\<rceil>)"

definition lon_to_tile_x :: "real \<Rightarrow> nat \<Rightarrow> int" where
  "lon_to_tile_x lon zoom = py_trunc ((lon + 180) / 360 * 2 ^ zoom)"

definition lat_to_tile_y :: "real \<Rightarrow> nat \<Rightarrow> int" where
  "lat_to_tile_y lat zoom =
     (let lat_rad = lat * pi / 180; n = 2 ^ zoom
      in py_trunc ((1 - arsinh (tan lat_rad) / pi) / 2 * n))"

definition tms_y_flip :: "int \<Rightarrow> nat \<Rightarrow> int" where
  "tms_y_flip y zoom = 2 ^ zoom - 1 - y"

definition tile_range :: "nat \<Rightarrow> bounding_box \<Rightarrow> int \<times> int \<times> int \<times> int" where
  "tile_range zoom bbox =
     (let x_min = lon_to_tile_x (bb_lon_min bbox) zoom;
          x_max = lon_to_tile_x (bb_lon_max bbox) zoom;
          y_min = lat_to_tile_y (bb_lat_max bbox) zoom;
          y_max = lat_to_tile_y (bb_lat_min bbox) zoom;
          max_tile = 2 ^ zoom - 1
      in (max 0 x_min, min max_tile x_max, max 0 y_min, min max_tile y_max))"

definition iter_tiles :: "nat \<Rightarrow> bounding_box \<Rightarrow> (nat \<times> int \<times> int) list" where
  "iter_tiles zoom bbox =
     (let (x_min, x_max, y_min, y_max) = tile_range zoom bbox
      in concat (map (\<lambda>x. map (\<lambda>y. (zoom, x, y)) [y_min..y_max]) [x_min..x_max]))"

definition count_tiles :: "nat \<Rightarrow> bounding_box \<Rightarrow> int" where
  "count_tiles zoom bbox =
     (let (x_min, x_max, y_min, y_max) = tile_range zoom bbox
      in if x_max < x_min \<or> y_max < y_min then 0
         else (x_max - x_min + 1) * (y_max - y_min + 1))"

definition WEB_MERCATOR_HALF_EXTENT :: rat where
  "WEB_MERCATOR_HALF_EXTENT = 20037508342789244 / 1000000000"

definition tile_bbox_3857 :: "nat \<Rightarrow> int \<Rightarrow> int \<Rightarrow> rat \<times> rat \<times> rat \<times> rat" where
  "tile_bbox_3857 z x y =
     (let tile_size = (2 * WEB_MERCATOR_HALF_EXTENT) / 2 ^ z;
          min_x = - WEB_MERCATOR_HALF_EXTENT + of_int x * tile_size;
          max_x = min_x + tile_size;
          max_y = WEB_MERCATOR_HALF_EXTENT - of_int y * tile_size;
          min_y = max_y - tile_size
      in (min_x, min_y, max_x, max_y))"

section \<open>Source addresses\<close>

text \<open>
  A WMS address is kept as its parts: base, separator and the query dictionary
  before percent-encoding, whose four BBOX floats stay numbers.
\<close>

datatype query_value = QStr string | QInt int | QBBox rat rat rat rat

datatype source_url =
    TileUrl string
  | GetMapUrl string char "(string \<times> query_value) list"

text \<open>
  \<^verbatim>\<open>template.format(z=.., x=.., y=..)\<close> for plain replacement fields and doubled
  braces. Any other field is a \<^verbatim>\<open>KeyError\<close> and a stray brace a \<^verbatim>\<open>ValueError\<close>, both
  \<^const>\<open>None\<close>. A field with a conversion or a format specification is outside the
  model and gives \<^const>\<open>None\<close> as well.
\<close>

fun format_zxy :: "string \<Rightarrow> string \<Rightarrow> string \<Rightarrow> string \<Rightarrow> string option" where
  "format_zxy z x y [] = Some []"
| "format_zxy z x y (c # cs) =
     (if c = CHR ''{'' then
        (case cs of
           k # d # rest \<Rightarrow>
             if k = CHR ''{'' then map_option ((#) (CHR ''{'')) (format_zxy z x y (d # rest))
             else if d = CHR ''}'' \<and> k = CHR ''z'' then map_option ((@) z) (format_zxy z x y rest)
             else if d = CHR ''}'' \<and> k = CHR ''x'' then map_option ((@) x) (format_zxy z x y rest)
             else if d = CHR ''}'' \<and> k = CHR ''y'' then map_option ((@) y) (format_zxy z x y rest)
             else None
         | [k] \<Rightarrow> if k = CHR ''{'' then Some ''{'' else None
         | [] \<Rightarrow> None)
      else if c = CHR ''}'' then
        (case cs of
           k # rest \<Rightarrow> if k = CHR ''}'' then map_option ((#) (CHR ''}'')) (format_zxy z x y rest) else None
         | [] \<Rightarrow> None)
      else map_option ((#) c) (format_zxy z x y cs))"

text \<open>\<^const>\<open>None\<close> is the failed \<^verbatim>\<open>assert provider.wms is not None\<close>.\<close>

definition build_wms_url :: "basemap_provider \<Rightarrow> nat \<Rightarrow> int \<Rightarrow> int \<Rightarrow> source_url option" where
  "build_wms_url provider z x y =
     (case bp_wms provider of
        None \<Rightarrow> None
      | Some w \<Rightarrow>
          let (min_x, min_y, max_x, max_y) = tile_bbox_3857 z x y;
              params =
                [ (''service'', QStr ''WMS''), (''version'', QStr (wp_wms_version w)),
                  (''request'', QStr ''GetMap''), (''layers'', QStr (wp_layer_name w)),
                  (''styles'', QStr ''''), (''format'', QStr (wp_image_format w)),
                  (''transparent'', QStr ''true''), (''crs'', QStr ''EPSG:3857''),
                  (''width'', QInt 256), (''height'', QInt 256),
                  (''bbox'', QBBox min_x min_y max_x max_y) ];
              separator = (if CHR ''?'' \<in> set (wp_workspace_url w) then CHR ''&'' else CHR ''?'')
          in Some (GetMapUrl (wp_workspace_url w) separator params))"

definition build_source_url :: "basemap_provider \<Rightarrow> nat \<Rightarrow> int \<Rightarrow> int \<Rightarrow> source_url option" where
  "build_source_url provider z x y =
     (if bp_kind provider = WMS then build_wms_url provider z x y
      else
        let actual_y = (if bp_is_tms provider then tms_y_flip y z else y)
        in map_option TileUrl
             (format_zxy (str_of_int (int z)) (str_of_int x) (str_of_int actual_y)
                (bp_source_url_template provider)))"

section \<open>The tile grid\<close>

lemma py_trunc_mono: "r \<le> s \<Longrightarrow> py_trunc r \<le> py_trunc s"
proof -
  assume rs: "r \<le> s"
  show ?thesis
  proof (cases "0 \<le> r \<or> s < 0")
    case True
    then show ?thesis using rs by (auto simp: py_trunc_def floor_mono ceiling_mono)
  next
    case False
    then have "\<lceil>r\<rceil> \<le> 0" "0 \<le> \<lfloor>s\<rfloor>" by (simp_all add: ceiling_le_iff)
    then have "\<lceil>r\<rceil> \<le> \<lfloor>s\<rfloor>" by linarith
    then show ?thesis using False by (simp add: py_trunc_def)
  qed
qed

lemma lon_to_tile_x_mono: "a \<le> b \<Longrightarrow> lon_to_tile_x a zoom \<le> lon_to_tile_x b zoom"
  unfolding lon_to_tile_x_def
  by (intro py_trunc_mono mult_right_mono divide_right_mono) auto

lemma tan_deg_mono:
  assumes "-90 < a" "a \<le> b" "b < 90"
  shows "tan (a * pi / 180) \<le> tan (b * pi / 180)"
proof -
  have lo: "- (pi / 2) < a * pi / 180"
    using mult_strict_right_mono [OF assms(1) pi_gt_zero] by simp
  have hi: "b * pi / 180 < pi / 2"
    using mult_strict_right_mono [OF assms(3) pi_gt_zero] by simp
  have "a * pi / 180 \<le> b * pi / 180" using assms(2) by (simp add: divide_right_mono mult_right_mono)
  then show ?thesis using lo hi by (metis order_le_less tan_monotone)
qed

text \<open>Tile rows count from the north: the row falls as the latitude grows.\<close>

lemma lat_to_tile_y_antimono:
  assumes "-90 < a" "a \<le> b" "b < 90"
  shows "lat_to_tile_y b zoom \<le> lat_to_tile_y a zoom"
proof -
  have "arsinh (tan (a * pi / 180)) \<le> arsinh (tan (b * pi / 180))"
    using tan_deg_mono [OF assms] by (simp flip: not_less)
  then have "(1 - arsinh (tan (b * pi / 180)) / pi) / 2 * 2 ^ zoom
        \<le> (1 - arsinh (tan (a * pi / 180)) / pi) / 2 * 2 ^ zoom"
    by (intro mult_right_mono divide_right_mono diff_left_mono) (auto simp: divide_right_mono)
  then show ?thesis by (simp add: lat_to_tile_y_def py_trunc_mono)
qed

lemma lon_to_tile_x_range:
  assumes "-180 \<le> lon" "lon < 180"
  shows "0 \<le> lon_to_tile_x lon zoom \<and> lon_to_tile_x lon zoom < 2 ^ zoom"
proof -
  let ?r = "(lon + 180) / 360 * 2 ^ zoom"
  have "0 \<le> ?r" using assms by simp
  moreover have "(lon + 180) / 360 < 1" using assms by simp
  then have "?r < 1 * 2 ^ zoom" by (intro mult_strict_right_mono) auto
  ultimately show ?thesis by (simp add: lon_to_tile_x_def py_trunc_def floor_less_iff)
qed

lemma set_iter_tiles:
  "(z, x, y) \<in> set (iter_tiles zoom bbox) \<longleftrightarrow>
     z = zoom \<and>
     (case tile_range zoom bbox of (x_min, x_max, y_min, y_max) \<Rightarrow>
        x_min \<le> x \<and> x \<le> x_max \<and> y_min \<le> y \<and> y \<le> y_max)"
  by (cases "tile_range zoom bbox") (force simp: iter_tiles_def)

lemma distinct_grid: "distinct (concat (map (\<lambda>x. map (\<lambda>y. (z, x, y)) ys) xs))"
  if "distinct xs" "distinct ys"
  using that by (induction xs) (auto simp: distinct_map inj_on_def)

lemma length_grid: "length (concat (map (\<lambda>x. map (\<lambda>y. (z, x, y)) ys) xs)) = length xs * length ys"
  by (induction xs) auto

lemma length_iter_tiles: "int (length (iter_tiles zoom bbox)) = count_tiles zoom bbox"
  by (cases "tile_range zoom bbox")
     (auto simp: iter_tiles_def count_tiles_def length_grid)

lemma distinct_iter_tiles: "distinct (iter_tiles zoom bbox)"
  by (cases "tile_range zoom bbox") (auto simp: iter_tiles_def distinct_grid)

lemma iter_tiles_in_world:
  "(z, x, y) \<in> set (iter_tiles zoom bbox) \<Longrightarrow>
     z = zoom \<and> 0 \<le> x \<and> x < 2 ^ zoom \<and> 0 \<le> y \<and> y < 2 ^ zoom"
  by (auto simp: set_iter_tiles tile_range_def Let_def)

text \<open>
  The sweep order of a zoom level visits every tile of the clamped range once
  and nothing outside the world grid, and \<^verbatim>\<open>count_tiles\<close>, which the scraper uses
  to plan and to report progress, is exactly the length of that order.
\<close>

theorem iter_tiles_enumerates:
  "distinct (iter_tiles zoom bbox)
   \<and> int (length (iter_tiles zoom bbox)) = count_tiles zoom bbox
   \<and> set (iter_tiles zoom bbox) \<subseteq> {zoom} \<times> {0..<2 ^ zoom} \<times> {0..<2 ^ zoom}"
  using distinct_iter_tiles length_iter_tiles iter_tiles_in_world by fastforce

text \<open>
  The tiles swept for a bounding box cover it: the tile under any point of the
  box that lies on the grid is among those \<^verbatim>\<open>iter_tiles\<close> yields.
\<close>

theorem iter_tiles_cover_bbox:
  assumes "bb_lon_min bbox \<le> lon" "lon \<le> bb_lon_max bbox" "-180 \<le> lon" "lon < 180"
    and "-90 < bb_lat_min bbox" "bb_lat_min bbox \<le> lat" "lat \<le> bb_lat_max bbox" "bb_lat_max bbox < 90"
    and "0 \<le> lat_to_tile_y lat zoom" "lat_to_tile_y lat zoom < 2 ^ zoom"
  shows "(zoom, lon_to_tile_x lon zoom, lat_to_tile_y lat zoom) \<in> set (iter_tiles zoom bbox)"
  using assms lon_to_tile_x_range [of lon zoom]
    lon_to_tile_x_mono [of "bb_lon_min bbox" lon zoom] lon_to_tile_x_mono [of lon "bb_lon_max bbox" zoom]
    lat_to_tile_y_antimono [of lat "bb_lat_max bbox" zoom] lat_to_tile_y_antimono [of "bb_lat_min bbox" lat zoom]
  by (auto simp: set_iter_tiles tile_range_def Let_def)

theorem iter_tiles_cover_bbox_witness:
  "(1, 1, 1) \<in> set (iter_tiles 1 \<lparr> bb_lat_min = -10, bb_lat_max = 10, bb_lon_min = -20, bb_lon_max = 20 \<rparr>)"
  using iter_tiles_cover_bbox
    [of "\<lparr> bb_lat_min = -10, bb_lat_max = 10, bb_lon_min = -20, bb_lon_max = 20 \<rparr>" 0 0 1]
  by (simp add: lon_to_tile_x_def lat_to_tile_y_def py_trunc_def)

text \<open>
  The TMS row flip is an involution that maps the rows of a zoom level onto
  themselves, so every stored XYZ tile asks its TMS provider for one distinct row.
\<close>

lemma tms_flip_involution:
  "tms_y_flip (tms_y_flip y zoom) zoom = y
   \<and> (0 \<le> tms_y_flip y zoom \<and> tms_y_flip y zoom < 2 ^ zoom \<longleftrightarrow> 0 \<le> y \<and> y < 2 ^ zoom)"
  by (auto simp: tms_y_flip_def)

section \<open>Projected bounding boxes\<close>

text \<open>
  The EPSG:3857 boxes tile the projected world: a box has positive extent, right
  and lower neighbours share an edge exactly, the four children of a tile are its
  quadrants, and the single tile of zoom zero is the whole square.
\<close>

theorem tile_bbox_grid:
  "case tile_bbox_3857 z x y of (min_x, min_y, max_x, max_y) \<Rightarrow>
     min_x < max_x \<and> min_y < max_y
     \<and> fst (tile_bbox_3857 z (x + 1) y) = max_x
     \<and> snd (snd (snd (tile_bbox_3857 z x (y + 1)))) = min_y
     \<and> tile_bbox_3857 (Suc z) (2 * x) (2 * y)
         = (min_x, (min_y + max_y) / 2, (min_x + max_x) / 2, max_y)
     \<and> tile_bbox_3857 (Suc z) (2 * x + 1) (2 * y + 1)
         = ((min_x + max_x) / 2, min_y, max_x, (min_y + max_y) / 2)
     \<and> tile_bbox_3857 0 0 0
         = (- WEB_MERCATOR_HALF_EXTENT, - WEB_MERCATOR_HALF_EXTENT,
            WEB_MERCATOR_HALF_EXTENT, WEB_MERCATOR_HALF_EXTENT)"
proof -
  have "(0::rat) < 2 * WEB_MERCATOR_HALF_EXTENT / 2 ^ z"
    by (simp add: WEB_MERCATOR_HALF_EXTENT_def)
  then show ?thesis
    by (auto simp: tile_bbox_3857_def Let_def field_simps)
qed

section \<open>The registry\<close>

text \<open>What the catalogue promises of each row.\<close>

fun defaults_ok :: "provider_defaults \<Rightarrow> bool" where
  "defaults_ok d =
     (pd_min_zoom d \<le> pd_cache_max_zoom d \<and> pd_cache_max_zoom d \<le> pd_max_zoom d
      \<and> (pd_kind d = WMS \<longleftrightarrow> pd_wms d \<noteq> None)
      \<and> (pd_is_overlay d \<longleftrightarrow> pd_kind d = WMS))"

lemma provider_defaults_ok: "list_all (\<lambda>(pid, d). pid \<noteq> [] \<and> defaults_ok d) PROVIDER_DEFAULTS"
  by (simp add: PROVIDER_DEFAULTS_def)

lemma provider_default_row:
  "map_of PROVIDER_DEFAULTS pid = Some d \<Longrightarrow> pid \<noteq> [] \<and> defaults_ok d"
  using provider_defaults_ok map_of_SomeD by (fastforce simp: list_all_iff)

fun provider_ok :: "string \<Rightarrow> basemap_provider \<Rightarrow> bool" where
  "provider_ok pid p =
     (bp_provider_id p = pid \<and> pid \<in> fst ` set PROVIDER_DEFAULTS
      \<and> bp_min_zoom p \<le> bp_cache_max_zoom p \<and> bp_cache_max_zoom p \<le> bp_max_zoom p
      \<and> (bp_kind p = WMS \<longleftrightarrow> bp_wms p \<noteq> None)
      \<and> (bp_kind p = XYZ \<longleftrightarrow> bp_source_url_template p \<noteq> [])
      \<and> (bp_is_overlay p \<longleftrightarrow> bp_kind p = WMS))"

lemma load_provider_ok: "load_provider env pid = Some p \<Longrightarrow> provider_ok pid p"
  using provider_default_row [of pid]
  by (fastforce simp: load_provider_def Let_def split: option.splits if_splits
        dest: map_of_SomeD provider_kind.exhaust intro: rev_image_eqI)

lemma load_providers_from_ok:
  assumes "\<forall>(k, p) \<in> set acc. provider_ok k p" "distinct (map fst acc)"
  shows "(\<forall>(k, p) \<in> set (load_providers_from env cfgs acc). provider_ok k p)
         \<and> distinct (map fst (load_providers_from env cfgs acc))"
  using assms
proof (induction env cfgs acc rule: load_providers_from.induct)
  case (2 env cfg cfgs acc)
  have step: "(\<forall>(k, q) \<in> set (dict_set acc (bp_provider_id p) p). provider_ok k q)
              \<and> distinct (map fst (dict_set acc (bp_provider_id p) p))"
    if "load_provider env pid = Some p" for pid p
  proof -
    have "provider_ok (bp_provider_id p) p" using load_provider_ok [OF that] by simp
    then have "case kv of (k, q) \<Rightarrow> provider_ok k q"
      if "kv \<in> set (dict_set acc (bp_provider_id p) p)" for kv
      using dict_set_mem [OF that] 2(2) by (elim disjE) (simp, blast)
    then show ?thesis using dict_set_distinct [OF 2(3)] by blast
  qed
  let ?acc = "if pt_enabled cfg = Some False then acc
        else case pt_id cfg of
               None \<Rightarrow> acc
             | Some pid \<Rightarrow>
                 if pid = [] then acc
                 else case load_provider env pid of
                        None \<Rightarrow> acc
                      | Some p \<Rightarrow> dict_set acc (bp_provider_id p) p"
  have "(\<forall>(k, p) \<in> set ?acc. provider_ok k p) \<and> distinct (map fst ?acc)"
    using 2(2,3) step by (simp split: option.split)
  then show ?case using 2(1) by simp
qed simp

text \<open>
  Whatever the settings toggles and the environment say, the registry has one
  entry per provider id, each a catalogue provider with ordered zoom limits, an
  address of the kind it needs (a template for XYZ, WMS parameters for WMS), and
  the overlay flag exactly on the WMS layers; a WMS source address never runs into
  the assertion of \<^verbatim>\<open>_build_wms_url\<close>.
\<close>

theorem registry_well_formed:
  assumes "(pid, p) \<in> set (load_providers env config_list)"
  shows "distinct (map fst (load_providers env config_list))
         \<and> provider_ok pid p
         \<and> (bp_kind p = WMS \<longrightarrow> build_source_url p z x y \<noteq> None)"
proof -
  have "(\<forall>(k, p) \<in> set (load_providers env config_list). provider_ok k p)
        \<and> distinct (map fst (load_providers env config_list))"
    unfolding load_providers_def by (rule load_providers_from_ok) auto
  then have "provider_ok pid p" and d: "distinct (map fst (load_providers env config_list))"
    using assms by auto
  moreover have "bp_kind p = WMS \<longrightarrow> build_source_url p z x y \<noteq> None"
    using calculation(1)
    by (auto simp: build_source_url_def build_wms_url_def Let_def split: option.splits prod.splits)
  ultimately show ?thesis by simp
qed

theorem registry_well_formed_witness:
  "provider_ok ''ign-localidad''
     (the (map_of (load_providers Map.empty
             [\<lparr> pt_id = Some ''ign-localidad'', pt_enabled = None \<rparr>]) ''ign-localidad''))"
proof -
  have m: "(''ign-localidad'',
         the (map_of (load_providers Map.empty
                [\<lparr> pt_id = Some ''ign-localidad'', pt_enabled = None \<rparr>]) ''ign-localidad''))
      \<in> set (load_providers Map.empty [\<lparr> pt_id = Some ''ign-localidad'', pt_enabled = None \<rparr>])"
    by (simp add: load_providers_def load_provider_def PROVIDER_DEFAULTS_def Let_def wms_defaults_def)
  show ?thesis using registry_well_formed [OF m, of 5 10 19] by blast
qed

text \<open>
  A disabled entry, an entry without id and an unknown id add nothing; a known
  XYZ provider is registered exactly when its address variable is set and not empty.
\<close>

lemma load_providers_single:
  assumes "map_of PROVIDER_DEFAULTS pid = Some d" "pd_kind d = XYZ"
  shows "(pid \<in> fst ` set (load_providers env [\<lparr> pt_id = Some pid, pt_enabled = en \<rparr>])) \<longleftrightarrow>
           en \<noteq> Some False \<and> (\<exists>u. env (''BASEMAP_'' @ ascii_upper pid @ ''_URL'') = Some u \<and> u \<noteq> [])"
  using provider_default_row [OF assms(1)] assms
  by (auto simp: load_providers_def load_provider_def env_prefix_def Let_def split: option.splits)

section \<open>Addresses\<close>

lemma format_zxy_literal:
  "CHR ''{'' \<notin> set a \<Longrightarrow> CHR ''}'' \<notin> set a \<Longrightarrow>
   format_zxy z x y (a @ t) = map_option ((@) a) (format_zxy z x y t)"
proof (induction a)
  case (Cons c a)
  then show ?case by (cases "format_zxy z x y t") auto
qed (cases "format_zxy z x y t", auto)

lemma format_zxy_field:
  "format_zxy z x y (''{z}'' @ t) = map_option ((@) z) (format_zxy z x y t)"
  "format_zxy z x y (''{x}'' @ t) = map_option ((@) x) (format_zxy z x y t)"
  "format_zxy z x y (''{y}'' @ t) = map_option ((@) y) (format_zxy z x y t)"
  by simp_all

text \<open>
  The address of an XYZ tile under the canonical template: zoom, column and row
  are printed in place of the fields, the row flipped for a TMS provider, and the
  addresses of two tiles coincide only for the same tile.
\<close>

theorem xyz_address:
  assumes "bp_kind p = XYZ" "bp_source_url_template p = host @ ''{z}/{x}/{y}'' @ ext"
    and "CHR ''{'' \<notin> set host" "CHR ''}'' \<notin> set host" "CHR ''{'' \<notin> set ext" "CHR ''}'' \<notin> set ext"
    and "CHR ''/'' \<notin> set ext"
  shows "build_source_url p z x y =
           Some (TileUrl (host @ str_of_int (int z) @ ''/'' @ str_of_int x @ ''/''
                          @ str_of_int (if bp_is_tms p then tms_y_flip y z else y) @ ext))
         \<and> (build_source_url p z x y = build_source_url p z' x' y' \<longleftrightarrow> (z, x, y) = (z', x', y'))"
proof -
  have lit: "format_zxy a b c ext = Some ext" for a b c
    using format_zxy_literal [OF assms(5,6), of a b c "[]"] by simp
  have addr: "build_source_url p z x y =
           Some (TileUrl (host @ str_of_int (int z) @ ''/'' @ str_of_int x @ ''/''
                          @ str_of_int (if bp_is_tms p then tms_y_flip y z else y) @ ext))" for z x y
    using assms(1,2) by (simp add: build_source_url_def format_zxy_literal [OF assms(3,4)] lit Let_def)
  have inj: "str_of_int a @ CHR ''/'' # s = str_of_int b @ CHR ''/'' # t \<longleftrightarrow> a = b \<and> s = t" for a b s t
    using py_split1_append [of "CHR ''/''" "str_of_int a" s] py_split1_append [of "CHR ''/''" "str_of_int b" t]
    by (metis Pair_inject str_of_int_inject str_of_int_no_sep(1))
  show ?thesis by (auto simp: addr inj tms_y_flip_def)
qed

theorem xyz_address_witness:
  "build_source_url \<lparr> bp_provider_id = ''argenmap'', bp_name = [],
       bp_source_url_template = ''https://t/{z}/{x}/{y}.png'', bp_is_tms = True, bp_min_zoom = 3,
       bp_max_zoom = 21, bp_cache_max_zoom = 11, bp_attribution = [], bp_kind = XYZ, bp_wms = None,
       bp_is_overlay = False \<rparr> 3 2 1
     = Some (TileUrl (''https://t/'' @ str_of_int 3 @ ''/'' @ str_of_int 2 @ ''/'' @ str_of_int 6 @ ''.png''))"
  using xyz_address [of "\<lparr> bp_provider_id = ''argenmap'', bp_name = [],
       bp_source_url_template = ''https://t/{z}/{x}/{y}.png'', bp_is_tms = True, bp_min_zoom = 3,
       bp_max_zoom = 21, bp_cache_max_zoom = 11, bp_attribution = [], bp_kind = XYZ, bp_wms = None,
       bp_is_overlay = False \<rparr>" "''https://t/''" "''.png''" 3 2 1 3 2 1]
  by (simp add: tms_y_flip_def)

end
