(* ===== verification/Storage_Circuit.thy ===== *)
theory Storage_Circuit
  imports Prelude
begin

text \<open>
  The circuit breaker of \<^verbatim>\<open>services/storage_circuit.py\<close>. The object is the record
  \<^verbatim>\<open>circuit\<close>; a method that changes it takes the record and returns the new one
  together with the transition it reports. \<^verbatim>\<open>time_fn\<close> is an argument of every call:
  a method that reads the clock twice takes both readings. Then the interface
  \<^verbatim>\<open>gate\<close> that the sweep and the tile reader rely on, its interpretation, the step
  relation of a breaker shared by concurrent callers, and its invariant.
\<close>

section \<open>State\<close>

record circuit_transition =
  tr_name :: string
  tr_opened :: bool
  tr_probe_failed :: bool
  tr_recovered :: bool
  tr_cooldown :: rat
  tr_failures :: nat
  tr_downtime :: rat

record circuit =
  c_name :: string
  c_window :: int
  c_min_samples :: int
  c_threshold :: rat
  c_base_cooldown :: rat
  c_max_cooldown :: rat
  c_max_consecutive_trips :: int
  c_recent :: "bool list"        \<comment> \<open>True = failure, oldest first\<close>
  c_open_until :: rat            \<comment> \<open>0 = closed\<close>
  c_cooldown :: rat
  c_consecutive_trips :: nat
  c_failures_while_open :: nat
  c_opened_at :: rat

definition DEFAULT_WINDOW :: int where "DEFAULT_WINDOW = 20"
definition DEFAULT_MIN_SAMPLES :: int where "DEFAULT_MIN_SAMPLES = 10"
definition DEFAULT_THRESHOLD :: rat where "DEFAULT_THRESHOLD = 8 / 10"
definition DEFAULT_BASE_COOLDOWN :: rat where "DEFAULT_BASE_COOLDOWN = 1"
definition DEFAULT_MAX_COOLDOWN :: rat where "DEFAULT_MAX_COOLDOWN = 30"
definition DEFAULT_MAX_CONSECUTIVE_TRIPS :: int where "DEFAULT_MAX_CONSECUTIVE_TRIPS = 6"

lemmas circuit_defaults =
  DEFAULT_WINDOW_def DEFAULT_MIN_SAMPLES_def DEFAULT_THRESHOLD_def
  DEFAULT_BASE_COOLDOWN_def DEFAULT_MAX_COOLDOWN_def DEFAULT_MAX_CONSECUTIVE_TRIPS_def

text \<open>\<^verbatim>\<open>StorageCircuit.__init__\<close>.\<close>

definition new_circuit :: "string \<Rightarrow> int \<Rightarrow> int \<Rightarrow> rat \<Rightarrow> rat \<Rightarrow> rat \<Rightarrow> int \<Rightarrow> circuit" where
  "new_circuit name window min_samples threshold base_cooldown max_cooldown max_trips =
     \<lparr> c_name = name, c_window = window, c_min_samples = min_samples,
       c_threshold = threshold, c_base_cooldown = base_cooldown,
       c_max_cooldown = max_cooldown, c_max_consecutive_trips = max_trips,
       c_recent = [], c_open_until = 0, c_cooldown = base_cooldown,
       c_consecutive_trips = 0, c_failures_while_open = 0, c_opened_at = 0 \<rparr>"

definition default_circuit :: "string \<Rightarrow> circuit" where
  "default_circuit name =
     new_circuit name DEFAULT_WINDOW DEFAULT_MIN_SAMPLES DEFAULT_THRESHOLD
       DEFAULT_BASE_COOLDOWN DEFAULT_MAX_COOLDOWN DEFAULT_MAX_CONSECUTIVE_TRIPS"

section \<open>Operations\<close>

definition is_open :: "circuit \<Rightarrow> bool" where
  "is_open c = (c_open_until c > 0)"

definition exhausted :: "circuit \<Rightarrow> bool" where
  "exhausted c = (int (c_consecutive_trips c) \<ge> c_max_consecutive_trips c)"

definition cooldown_remaining :: "rat \<Rightarrow> circuit \<Rightarrow> rat" where
  "cooldown_remaining now c = (if \<not> is_open c then 0 else max 0 (c_open_until c - now))"

definition in_probe_window :: "rat \<Rightarrow> circuit \<Rightarrow> bool" where
  "in_probe_window now c = (is_open c \<and> now \<ge> c_open_until c)"

definition allows_write :: "rat \<Rightarrow> circuit \<Rightarrow> bool" where
  "allows_write now c = (\<not> is_open c \<or> in_probe_window now c)"

definition allows_attempt :: "rat \<Rightarrow> circuit \<Rightarrow> bool" where
  "allows_attempt now c = allows_write now c"

text \<open>\<^verbatim>\<open>sum(self._recent)\<close>: the failures in the rolling window.\<close>

definition recent_failures :: "bool list \<Rightarrow> nat" where
  "recent_failures bs = length (filter id bs)"

definition observe :: "bool \<Rightarrow> circuit \<Rightarrow> circuit" where
  "observe failed c =
     (let r = c_recent c @ [failed]
      in c\<lparr>c_recent := if int (length r) > c_window c then tl r else r\<rparr>)"

definition should_open :: "circuit \<Rightarrow> bool" where
  "should_open c =
     (if int (length (c_recent c)) < c_min_samples c then False
      else of_nat (recent_failures (c_recent c)) / of_nat (length (c_recent c)) > c_threshold c)"

definition open_circuit :: "rat \<Rightarrow> circuit \<Rightarrow> circuit_transition \<times> circuit" where
  "open_circuit now c =
     (let failures = recent_failures (c_recent c)
      in (\<lparr> tr_name = c_name c, tr_opened = True, tr_probe_failed = False, tr_recovered = False,
            tr_cooldown = c_base_cooldown c, tr_failures = failures, tr_downtime = 0 \<rparr>,
          c\<lparr> c_cooldown := c_base_cooldown c,
             c_open_until := now + c_base_cooldown c,
             c_opened_at := now,
             c_consecutive_trips := 0,
             c_failures_while_open := failures,
             c_recent := [] \<rparr>))"

definition rearm :: "rat \<Rightarrow> circuit \<Rightarrow> circuit_transition \<times> circuit" where
  "rearm now c =
     (let cooldown = min (c_cooldown c * 2) (c_max_cooldown c)
      in (\<lparr> tr_name = c_name c, tr_opened = False, tr_probe_failed = True, tr_recovered = False,
            tr_cooldown = cooldown, tr_failures = c_failures_while_open c, tr_downtime = 0 \<rparr>,
          c\<lparr> c_consecutive_trips := Suc (c_consecutive_trips c),
             c_cooldown := cooldown,
             c_open_until := now + cooldown \<rparr>))"

definition close_circuit :: "rat \<Rightarrow> circuit \<Rightarrow> circuit_transition \<times> circuit" where
  "close_circuit now c =
     (\<lparr> tr_name = c_name c, tr_opened = False, tr_probe_failed = False, tr_recovered = True,
        tr_cooldown = 0, tr_failures = c_failures_while_open c,
        tr_downtime = now - c_opened_at c \<rparr>,
      c\<lparr> c_recent := [], c_open_until := 0, c_cooldown := c_base_cooldown c,
         c_consecutive_trips := 0, c_failures_while_open := 0, c_opened_at := 0 \<rparr>)"

text \<open>\<^verbatim>\<open>t1\<close> is the reading of the probe-window test, \<^verbatim>\<open>t2\<close> the one of the transition.\<close>

definition record_success :: "rat \<Rightarrow> rat \<Rightarrow> circuit \<Rightarrow> circuit_transition option \<times> circuit" where
  "record_success t1 t2 c =
     (if is_open c then
        (if in_probe_window t1 c then (case close_circuit t2 c of (tr, c') \<Rightarrow> (Some tr, c'))
         else (None, c))
      else (None, observe False c))"

definition record_failure :: "rat \<Rightarrow> rat \<Rightarrow> circuit \<Rightarrow> circuit_transition option \<times> circuit" where
  "record_failure t1 t2 c0 =
     (let c = c0\<lparr>c_failures_while_open := Suc (c_failures_while_open c0)\<rparr>
      in if is_open c then
           (if in_probe_window t1 c then (case rearm t2 c of (tr, c') \<Rightarrow> (Some tr, c'))
            else (None, c))
         else
           (let c1 = observe True c
            in if should_open c1 then (case open_circuit t2 c1 of (tr, c') \<Rightarrow> (Some tr, c'))
               else (None, c1)))"

lemmas circuit_op_defs =
  record_success_def record_failure_def observe_def open_circuit_def rearm_def close_circuit_def

text \<open>Configuration is written once, by the constructor.\<close>

definition same_config :: "circuit \<Rightarrow> circuit \<Rightarrow> bool" where
  "same_config a b =
     (c_name a = c_name b \<and> c_window a = c_window b \<and> c_min_samples a = c_min_samples b \<and>
      c_threshold a = c_threshold b \<and> c_base_cooldown a = c_base_cooldown b \<and>
      c_max_cooldown a = c_max_cooldown b \<and>
      c_max_consecutive_trips a = c_max_consecutive_trips b)"

lemma record_config [simp]:
  "same_config (snd (record_success t1 t2 c)) c" "same_config (snd (record_failure t1 t2 c)) c"
  by (auto simp: circuit_op_defs same_config_def Let_def)

section \<open>The gate interface\<close>

text \<open>
  What a caller of a breaker relies on: whether it may act now, how long it has to
  wait otherwise, and how outcomes move the gate.
\<close>

locale gate =
  fixes admits :: "rat \<Rightarrow> 'g \<Rightarrow> bool"
    and remaining :: "rat \<Rightarrow> 'g \<Rightarrow> rat"
    and tripped :: "'g \<Rightarrow> bool"
    and ok :: "rat \<Rightarrow> rat \<Rightarrow> 'g \<Rightarrow> 'g"
    and fail :: "rat \<Rightarrow> rat \<Rightarrow> 'g \<Rightarrow> 'g"
  assumes remaining_nonneg: "0 \<le> remaining t g"
    and admits_iff: "admits t g \<longleftrightarrow> remaining t g = 0"
    and remaining_shift: "t \<le> t' \<Longrightarrow> remaining t' g = max 0 (remaining t g - (t' - t))"
    and untripped_admits: "\<not> tripped g \<Longrightarrow> admits t g"
    and ok_recovers: "admits t1 g \<Longrightarrow> \<not> tripped (ok t1 t2 g)"
    and blocked_ok: "\<not> admits t1 g \<Longrightarrow> ok t1 t2 g = g"
    and blocked_fail: "\<not> admits t1 g \<Longrightarrow> remaining t (fail t1 t2 g) = remaining t g"
begin

text \<open>Sleeping for what the gate says is exactly enough: it admits then and not before.\<close>

lemma admits_after_wait: "admits (t + remaining t g) g"
  using remaining_shift [of t "t + remaining t g" g] remaining_nonneg [of t g]
  by (simp add: admits_iff)

lemma blocked_before_deadline: "0 \<le> d \<Longrightarrow> d < remaining t g \<Longrightarrow> \<not> admits (t + d) g"
  using remaining_shift [of t "t + d" g] by (simp add: admits_iff)

text \<open>Once a gate admits it keeps admitting until somebody reports.\<close>

lemma admits_mono: "admits t g \<Longrightarrow> t \<le> t' \<Longrightarrow> admits t' g"
  using remaining_shift [of t t' g] by (simp add: admits_iff)

text \<open>A straggler's report leaves the schedule alone.\<close>

lemma straggler_admits: "\<not> admits t1 g \<Longrightarrow> admits t (fail t1 t2 g) \<longleftrightarrow> admits t g"
  by (simp add: admits_iff blocked_fail)

text \<open>A gate can always be driven back to the untripped state: wait, act, succeed.\<close>

lemma recovery: "\<not> tripped (ok (t + remaining t g) t2 g)"
  by (rule ok_recovers [OF admits_after_wait])

end

lemma is_open_observe [simp]: "is_open (observe b c) = is_open c"
  by (simp add: observe_def is_open_def Let_def)

lemma is_open_close [simp]: "\<not> is_open (snd (close_circuit t c))"
  by (simp add: close_circuit_def is_open_def)

lemma allows_write_alt: "allows_write t c = (\<not> is_open c \<or> c_open_until c \<le> t)"
  by (auto simp: allows_write_def in_probe_window_def)

interpretation breaker: gate allows_write cooldown_remaining is_open
  "\<lambda>t1 t2 c. snd (record_success t1 t2 c)" "\<lambda>t1 t2 c. snd (record_failure t1 t2 c)"
proof unfold_locales
  fix t :: rat and c
  show "0 \<le> cooldown_remaining t c" by (simp add: cooldown_remaining_def)
next
  fix t :: rat and c
  show "allows_write t c \<longleftrightarrow> cooldown_remaining t c = 0"
    by (auto simp: allows_write_alt cooldown_remaining_def max_def)
next
  fix t t' :: rat and c
  assume "t \<le> t'"
  then show "cooldown_remaining t' c = max 0 (cooldown_remaining t c - (t' - t))"
    by (auto simp: cooldown_remaining_def max_def)
next
  fix t :: rat and c
  assume "\<not> is_open c"
  then show "allows_write t c" by (simp add: allows_write_def)
next
  fix t1 t2 :: rat and c
  assume "allows_write t1 c"
  then show "\<not> is_open (snd (record_success t1 t2 c))"
    by (auto simp: record_success_def allows_write_def split: prod.splits)
       (metis is_open_close snd_conv)
next
  fix t1 t2 :: rat and c
  assume "\<not> allows_write t1 c"
  then show "snd (record_success t1 t2 c) = c"
    by (auto simp: record_success_def allows_write_def)
next
  fix t1 t2 t :: rat and c
  assume "\<not> allows_write t1 c"
  then show "cooldown_remaining t (snd (record_failure t1 t2 c)) = cooldown_remaining t c"
    by (auto simp: record_failure_def allows_write_def in_probe_window_def Let_def
        cooldown_remaining_def is_open_def)
qed

section \<open>Runs of a shared breaker\<close>

text \<open>
  Callers on one event loop report outcomes in any order; the clock never goes back.
  \<^verbatim>\<open>circuit_run c0 t c\<close>: the breaker created as \<^verbatim>\<open>c0\<close> can be \<^verbatim>\<open>c\<close> at time \<^verbatim>\<open>t\<close>.
\<close>

inductive circuit_run :: "circuit \<Rightarrow> rat \<Rightarrow> circuit \<Rightarrow> bool" for c0 where
  start: "0 \<le> t \<Longrightarrow> circuit_run c0 t c0"
| success: "circuit_run c0 t c \<Longrightarrow> t \<le> t1 \<Longrightarrow> t1 \<le> t2 \<Longrightarrow>
     circuit_run c0 t2 (snd (record_success t1 t2 c))"
| failure: "circuit_run c0 t c \<Longrightarrow> t \<le> t1 \<Longrightarrow> t1 \<le> t2 \<Longrightarrow>
     circuit_run c0 t2 (snd (record_failure t1 t2 c))"

definition valid_config :: "circuit \<Rightarrow> bool" where
  "valid_config c =
     (0 < c_base_cooldown c \<and> c_base_cooldown c \<le> c_max_cooldown c \<and>
      1 \<le> c_window c \<and> 1 \<le> c_min_samples c \<and> 0 \<le> c_threshold c)"

text \<open>The cooldown the schedule prescribes after \<^verbatim>\<open>n\<close> failed probes.\<close>

definition backoff :: "circuit \<Rightarrow> nat \<Rightarrow> rat" where
  "backoff c n = min (c_base_cooldown c * 2 ^ n) (c_max_cooldown c)"

definition closed_inv :: "circuit \<Rightarrow> bool" where
  "closed_inv c =
     (c_open_until c = 0 \<and> c_consecutive_trips c = 0 \<and>
      c_cooldown c = c_base_cooldown c \<and> c_opened_at c = 0)"

definition open_inv :: "rat \<Rightarrow> circuit \<Rightarrow> bool" where
  "open_inv t c =
     (c_recent c = [] \<and> c_cooldown c = backoff c (c_consecutive_trips c) \<and>
      c_opened_at c + (\<Sum>i<c_consecutive_trips c. backoff c i) \<le> c_open_until c - c_cooldown c \<and>
      c_open_until c - c_cooldown c \<le> t)"

definition circuit_inv :: "rat \<Rightarrow> circuit \<Rightarrow> bool" where
  "circuit_inv t c =
     (0 \<le> t \<and> valid_config c \<and> int (length (c_recent c)) \<le> c_window c \<and>
      (if is_open c then open_inv t c else closed_inv c))"

lemma backoff_mono_max: "valid_config c \<Longrightarrow> 0 < backoff c n \<and> backoff c n \<le> c_max_cooldown c"
  by (auto simp: backoff_def valid_config_def)

lemma backoff_Suc: "valid_config c \<Longrightarrow> min (backoff c n * 2) (c_max_cooldown c) = backoff c (Suc n)"
  by (auto simp: backoff_def valid_config_def min_def)

lemma backoff_0: "valid_config c \<Longrightarrow> backoff c 0 = c_base_cooldown c"
  by (simp add: backoff_def valid_config_def)

lemma observe_inv: "circuit_inv t c \<Longrightarrow> \<not> is_open c \<Longrightarrow> t \<le> t' \<Longrightarrow> circuit_inv t' (observe b c)"
  by (auto simp: circuit_inv_def observe_def valid_config_def closed_inv_def is_open_def Let_def)

lemma open_circuit_inv:
  assumes "circuit_inv t c" "t \<le> t'"
  shows "circuit_inv t' (snd (open_circuit t' c))"
proof -
  let ?c = "snd (open_circuit t' c)"
  have v: "valid_config ?c" and t': "0 \<le> t'" using assms
    by (auto simp: circuit_inv_def open_circuit_def valid_config_def Let_def)
  have "is_open ?c" using v t'
    by (auto simp: is_open_def open_circuit_def valid_config_def Let_def)
  moreover have "open_inv t' ?c" using backoff_0 [OF v]
    by (auto simp: open_inv_def open_circuit_def Let_def)
  ultimately show ?thesis using v t'
    by (auto simp: circuit_inv_def open_circuit_def valid_config_def Let_def)
qed

lemma close_circuit_inv:
  "circuit_inv t c \<Longrightarrow> t \<le> t' \<Longrightarrow> circuit_inv t' (snd (close_circuit t2 c))"
  by (auto simp: circuit_inv_def close_circuit_def is_open_def valid_config_def closed_inv_def)

lemma rearm_inv:
  assumes inv: "circuit_inv t c" and op: "is_open c" and le: "t \<le> t1" "t1 \<le> t2"
    and win: "in_probe_window t1 c"
  shows "circuit_inv t2 (snd (rearm t2 c))"
proof -
  let ?c = "snd (rearm t2 c)" and ?n = "c_consecutive_trips c"
  have v: "valid_config c" and t: "0 \<le> t" and o: "open_inv t c"
    using inv op by (auto simp: circuit_inv_def)
  have bo: "backoff ?c = backoff c" by (auto simp: backoff_def rearm_def Let_def fun_eq_iff)
  have cd: "c_cooldown ?c = backoff c (Suc ?n)" using o backoff_Suc [OF v, of ?n]
    by (simp add: rearm_def Let_def open_inv_def)
  have ou: "c_open_until ?c = t2 + c_cooldown ?c" by (simp add: rearm_def Let_def)
  have "c_open_until c \<le> t2" using win le by (simp add: in_probe_window_def)
  moreover have "c_opened_at c + (\<Sum>i<Suc ?n. backoff c i) \<le> c_open_until c"
    using o by (simp add: open_inv_def)
  ultimately have "c_opened_at ?c + (\<Sum>i<c_consecutive_trips ?c. backoff ?c i) \<le> t2"
    unfolding bo by (simp add: rearm_def Let_def)
  moreover have "c_recent ?c = []" "c_consecutive_trips ?c = Suc ?n"
    using o by (simp_all add: rearm_def Let_def open_inv_def)
  ultimately have "open_inv t2 ?c" using cd ou bo by (simp add: open_inv_def)
  moreover have "is_open ?c"
    using ou cd backoff_mono_max [OF v, of "Suc ?n"] t le by (simp add: is_open_def)
  moreover have "valid_config ?c" using v by (simp add: valid_config_def rearm_def Let_def)
  moreover have "int (length (c_recent ?c)) \<le> c_window ?c" "0 \<le> t2"
    using inv t le by (simp_all add: circuit_inv_def rearm_def Let_def)
  ultimately show ?thesis by (simp add: circuit_inv_def)
qed

lemma count_failure_inv:
  "circuit_inv t c \<Longrightarrow> t \<le> t' \<Longrightarrow> circuit_inv t' (c\<lparr>c_failures_while_open := n\<rparr>)"
  by (auto simp: circuit_inv_def valid_config_def is_open_def closed_inv_def open_inv_def backoff_def)

lemma inv_later: "circuit_inv t c \<Longrightarrow> t \<le> t' \<Longrightarrow> circuit_inv t' c"
  by (auto simp: circuit_inv_def open_inv_def)

lemma record_success_inv:
  assumes "circuit_inv t c" "t \<le> t1" "t1 \<le> t2"
  shows "circuit_inv t2 (snd (record_success t1 t2 c))"
proof -
  from assms have le: "t \<le> t2" by simp
  have "snd (record_success t1 t2 c) =
      (if \<not> is_open c then observe False c
       else if in_probe_window t1 c then snd (close_circuit t2 c) else c)"
    by (simp add: record_success_def split: prod.splits)
  then show ?thesis
    using inv_later [OF assms(1) le] observe_inv [OF assms(1) _ le] close_circuit_inv [OF assms(1) le]
    by simp
qed

lemma record_failure_inv:
  assumes "circuit_inv t c" "t \<le> t1" "t1 \<le> t2"
  shows "circuit_inv t2 (snd (record_failure t1 t2 c))"
proof -
  let ?c = "c\<lparr>c_failures_while_open := Suc (c_failures_while_open c)\<rparr>"
  from assms have le: "t \<le> t2" by simp
  have inv: "circuit_inv t ?c" using count_failure_inv [OF assms(1) order_refl] .
  show ?thesis
  proof (cases "is_open ?c")
    case True
    then show ?thesis
      using rearm_inv [OF inv True assms(2,3)] inv_later [OF inv le]
      by (auto simp: record_failure_def Let_def split: prod.splits)
  next
    case False
    have "circuit_inv t2 (observe True ?c)" by (rule observe_inv [OF inv False le])
    then show ?thesis using False open_circuit_inv [OF _ order_refl, of t2 "observe True ?c"]
      by (auto simp: record_failure_def Let_def split: prod.splits)
  qed
qed

lemma new_circuit_inv:
  "valid_config (new_circuit n w m th b mx k) \<Longrightarrow> 0 \<le> t \<Longrightarrow>
   circuit_inv t (new_circuit n w m th b mx k)"
  by (auto simp: circuit_inv_def new_circuit_def valid_config_def is_open_def closed_inv_def)

lemma circuit_run_inv:
  assumes "circuit_run c0 t c" "\<And>t. 0 \<le> t \<Longrightarrow> circuit_inv t c0"
  shows "circuit_inv t c"
  using assms
  by (induction rule: circuit_run.induct) (auto intro: record_success_inv record_failure_inv)

lemma circuit_run_config: "circuit_run c0 t c \<Longrightarrow> same_config c c0"
proof (induction rule: circuit_run.induct)
  case (success t c t1 t2)
  then show ?case using record_config(1) [of t1 t2 c] by (simp add: same_config_def)
next
  case (failure t c t1 t2)
  then show ?case using record_config(2) [of t1 t2 c] by (simp add: same_config_def)
qed (simp add: same_config_def)

section \<open>Properties\<close>

text \<open>
  C11. In every run of a breaker built with a sensible configuration (positive base
  cooldown not above the maximum, a window and a sample minimum of at least one)
  the state stays well formed: the rolling window never exceeds its size; a closed
  breaker is fully reset (no trips, base cooldown); an open one has an empty window, a
  cooldown of base times two to the number of failed probes capped at the maximum, and
  the pauses served since it opened add up to the schedule.
\<close>

theorem circuit_invariant:
  assumes "valid_config (new_circuit n w m th b mx k)"
    and "circuit_run (new_circuit n w m th b mx k) t c"
  shows "int (length (c_recent c)) \<le> w \<and>
    (if is_open c
     then c_recent c = [] \<and>
       c_cooldown c = min (b * 2 ^ c_consecutive_trips c) mx \<and>
       c_opened_at c + (\<Sum>i<c_consecutive_trips c. min (b * 2 ^ i) mx) \<le> t \<and>
       c_open_until c \<le> t + mx
     else c_consecutive_trips c = 0 \<and> c_cooldown c = b \<and> c_opened_at c = 0)"
proof -
  have inv: "circuit_inv t c"
    by (rule circuit_run_inv [OF assms(2) new_circuit_inv [OF assms(1)]])
  have cfg: "c_window c = w" "c_base_cooldown c = b" "c_max_cooldown c = mx"
    using circuit_run_config [OF assms(2)] by (simp_all add: same_config_def new_circuit_def)
  have "c_cooldown c \<le> mx" if "is_open c"
    using that inv backoff_mono_max [of c] cfg by (simp add: open_inv_def circuit_inv_def)
  then show ?thesis using inv cfg
    by (auto simp: circuit_inv_def open_inv_def closed_inv_def backoff_def)
qed

lemma demo_valid: "valid_config (new_circuit ''S3'' 2 1 (1/2) 1 30 6)"
  by (simp add: valid_config_def new_circuit_def)

lemma demo_open: "snd (record_failure 5 5 (new_circuit ''S3'' 2 1 (1/2) 1 30 6)) =
    (new_circuit ''S3'' 2 1 (1/2) 1 30 6)
      \<lparr>c_open_until := 6, c_opened_at := 5, c_failures_while_open := 1\<rparr>"
  by (simp add: circuit_op_defs new_circuit_def is_open_def should_open_def recent_failures_def Let_def)

lemma demo_run:
  "circuit_run (new_circuit ''S3'' 2 1 (1/2) 1 30 6) 5
     (snd (record_failure 5 5 (new_circuit ''S3'' 2 1 (1/2) 1 30 6)))"
  by (rule circuit_run.failure [OF circuit_run.start [of 0]]) simp_all

theorem circuit_invariant_witness:
  "(let c = snd (record_failure 5 5 (new_circuit ''S3'' 2 1 (1/2) 1 30 6))
    in is_open c \<and> c_cooldown c = 1 \<and> c_opened_at c \<le> 5 \<and> c_open_until c \<le> 35)"
  using circuit_invariant [OF demo_valid demo_run] unfolding demo_open
  by (simp add: is_open_def new_circuit_def)

text \<open>
  The default breaker gives up no earlier than promised: when it reports
  \<^verbatim>\<open>exhausted\<close>, it is open and at least 61 seconds (1 + 2 + 4 + 8 + 16 + 30) have
  passed since it opened, spent waiting between failed probes.
\<close>

theorem exhausted_after_61_seconds:
  assumes "circuit_run (default_circuit n) t c" and "exhausted c"
  shows "is_open c \<and> 6 \<le> c_consecutive_trips c \<and> c_opened_at c + 61 \<le> t"
proof -
  have v: "valid_config (default_circuit n)"
    by (simp add: default_circuit_def new_circuit_def valid_config_def circuit_defaults)
  have inv: "circuit_inv t c"
    using circuit_run_inv [OF assms(1)] new_circuit_inv v by (simp add: default_circuit_def)
  have cfg: "c_base_cooldown c = 1" "c_max_cooldown c = 30" "c_max_consecutive_trips c = 6"
    using circuit_run_config [OF assms(1)]
    by (simp_all add: same_config_def default_circuit_def new_circuit_def circuit_defaults)
  have six: "6 \<le> c_consecutive_trips c" using assms(2) cfg by (simp add: exhausted_def)
  then have op: "is_open c" using inv by (auto simp: circuit_inv_def closed_inv_def split: if_splits)
  have "(\<Sum>i<6. backoff c i) \<le> (\<Sum>i<c_consecutive_trips c. backoff c i)"
    using six backoff_mono_max [of c] inv
    by (intro sum_mono2) (auto simp: circuit_inv_def intro: less_imp_le)
  moreover have "(\<Sum>i<6. backoff c i) = 61"
    using cfg by (simp add: backoff_def eval_nat_numeral lessThan_Suc)
  ultimately show ?thesis using inv op six by (auto simp: circuit_inv_def open_inv_def)
qed

text \<open>Ten failures open the default breaker; six failed probes on schedule exhaust it.\<close>

definition outage_reports :: "rat list" where
  "outage_reports = replicate 10 0 @ [1, 3, 7, 15, 31, 61]"

fun report_failures :: "rat list \<Rightarrow> circuit \<Rightarrow> circuit" where
  "report_failures [] c = c"
| "report_failures (t # ts) c = report_failures ts (snd (record_failure t t c))"

lemma report_failures_run:
  "circuit_run c0 t c \<Longrightarrow> sorted (t # ts) \<Longrightarrow> circuit_run c0 (last (t # ts)) (report_failures ts c)"
proof (induction ts arbitrary: t c)
  case (Cons u ts)
  then have "circuit_run c0 u (snd (record_failure u u c))"
    by (intro circuit_run.failure [OF Cons.prems(1)]) auto
  then show ?case using Cons by auto
qed simp

theorem exhausted_after_61_seconds_witness:
  "exhausted (report_failures outage_reports (default_circuit ''S3'')) \<and>
   c_opened_at (report_failures outage_reports (default_circuit ''S3'')) + 61 \<le> 61"
proof -
  have ex: "exhausted (report_failures outage_reports (default_circuit ''S3''))"
    by code_simp
  have run: "circuit_run (default_circuit ''S3'') 61
      (report_failures outage_reports (default_circuit ''S3''))"
    using report_failures_run [OF circuit_run.start [of 0], of outage_reports]
    by (simp add: outage_reports_def eval_nat_numeral)
  show ?thesis using ex exhausted_after_61_seconds [OF run ex] by simp
qed

text \<open>
  Stragglers never move the schedule: a failure reported while the breaker is open
  and its cooldown has not elapsed is counted, reports no transition, and changes
  nothing else; a success reported then changes nothing at all.
\<close>

theorem straggler_keeps_schedule:
  assumes "\<not> allows_write t1 c"
  shows "record_failure t1 t2 c = (None, c\<lparr>c_failures_while_open := Suc (c_failures_while_open c)\<rparr>) \<and>
         record_success t1 t2 c = (None, c)"
  using assms
  by (auto simp: record_failure_def record_success_def allows_write_def in_probe_window_def
      is_open_def Let_def)

theorem straggler_keeps_schedule_witness:
  "\<not> allows_write 5 (snd (record_failure 5 5 (new_circuit ''S3'' 2 1 (1/2) 1 30 6))) \<and>
   fst (record_failure 5 5 (snd (record_failure 5 5 (new_circuit ''S3'' 2 1 (1/2) 1 30 6)))) = None"
proof -
  have "\<not> allows_write 5 (snd (record_failure 5 5 (new_circuit ''S3'' 2 1 (1/2) 1 30 6)))"
    by (simp add: demo_open allows_write_def in_probe_window_def is_open_def)
  then show ?thesis using straggler_keeps_schedule by simp
qed

text \<open>
  C28. The breaker cannot wedge shut. Whatever its state, sleeping for
  \<^verbatim>\<open>cooldown_remaining()\<close> is exactly enough for the next write to be admitted, no
  shorter sleep is enough, and a success reported from then on closes it.
\<close>

theorem breaker_never_wedges:
  "allows_write (t + cooldown_remaining t c) c \<and>
   (\<forall>d \<in> {0..<cooldown_remaining t c}. \<not> allows_write (t + d) c) \<and>
   \<not> is_open (snd (record_success (t + cooldown_remaining t c) t2 c))"
  using breaker.admits_after_wait [of t c] breaker.blocked_before_deadline [of _ t c]
    breaker.recovery [of t c t2] by simp

theorem breaker_never_wedges_witness:
  "cooldown_remaining 2 (default_circuit ''S3''\<lparr>c_open_until := 5\<rparr>) = 3 \<and>
   \<not> allows_write (2 + 1) (default_circuit ''S3''\<lparr>c_open_until := 5\<rparr>)"
proof -
  have c: "cooldown_remaining 2 (default_circuit ''S3''\<lparr>c_open_until := 5\<rparr>) = 3"
    by (simp add: cooldown_remaining_def is_open_def)
  have "(1::rat) \<in> {0..<3}" by simp
  then show ?thesis
    using c breaker_never_wedges [of 2 "default_circuit ''S3''\<lparr>c_open_until := 5\<rparr>"]
    unfolding c by blast
qed

text \<open>
  A closed breaker under a sequence of reports: the outcome of each (true is a failure) and the
  clock readings of the call.
\<close>

definition report :: "circuit \<Rightarrow> bool \<times> rat \<times> rat \<Rightarrow> circuit_transition option \<times> circuit" where
  "report c = (\<lambda>(failed, t1, t2). if failed then record_failure t1 t2 c else record_success t1 t2 c)"














end
