(* ===== verification/Basemap_State_Store.thy ===== *)
theory Basemap_State_Store
  imports Prelude
begin

text \<open>
  The scraper's cold store (\<^verbatim>\<open>clients/basemap_state_store.py\<close>). A database file
  holds five tables; four are keyed by provider id and are maps here, the failed
  queue is a list of rows without repetition, in insertion order (the order a
  \<^verbatim>\<open>SELECT\<close> without \<^verbatim>\<open>ORDER BY\<close> returns is not relied on by any property). A
  statement is a function on the tables; a method of the class first requires the
  connection. \<^verbatim>\<open>_access_lock\<close> serialises the statements, so each is one step.
  \<^verbatim>\<open>int(time.time())\<close> is a parameter \<^verbatim>\<open>now\<close>.
\<close>

section \<open>Rows and tables\<close>

record cursor =
  cur_zoom :: nat
  cur_tile_index :: nat

record provider_health =
  ph_consecutive_trips :: int
  ph_cooldown_until :: int
  ph_last_tripped_at :: int
  ph_last_reason :: string

record scrape_stats =
  st_attempted :: nat
  st_ok :: nat
  st_failed :: nat
  st_completed :: bool
  st_swept_at :: int

record basemap_db =
  db_cursor :: "string \<rightharpoonup> cursor \<times> int"
  db_failed :: "(string \<times> nat \<times> int \<times> int) list"
  db_last_completed :: "string \<rightharpoonup> int"
  db_health :: "string \<rightharpoonup> provider_health \<times> int"
  db_stats :: "string \<rightharpoonup> scrape_stats"

text \<open>A new database: the tables of \<^verbatim>\<open>_SCHEMA_SQL\<close>, empty.\<close>

definition empty_db :: basemap_db where
  "empty_db = \<lparr> db_cursor = Map.empty, db_failed = [], db_last_completed = Map.empty,
                db_health = Map.empty, db_stats = Map.empty \<rparr>"

section \<open>Statements\<close>

definition get_cursor_sync :: "string \<Rightarrow> basemap_db \<Rightarrow> cursor option" where
  "get_cursor_sync pid db = map_option fst (db_cursor db pid)"

definition set_cursor_sync :: "int \<Rightarrow> string \<Rightarrow> nat \<Rightarrow> nat \<Rightarrow> basemap_db \<Rightarrow> basemap_db" where
  "set_cursor_sync now pid zoom tile_index db =
     db\<lparr> db_cursor := (db_cursor db)(pid \<mapsto> (\<lparr> cur_zoom = zoom, cur_tile_index = tile_index \<rparr>, now)) \<rparr>"

definition clear_cursor_sync :: "string \<Rightarrow> basemap_db \<Rightarrow> basemap_db" where
  "clear_cursor_sync pid db = db\<lparr> db_cursor := (db_cursor db)(pid := None) \<rparr>"

definition add_failed_sync :: "string \<Rightarrow> nat \<Rightarrow> int \<Rightarrow> int \<Rightarrow> basemap_db \<Rightarrow> basemap_db" where
  "add_failed_sync pid zoom x y db =
     (if (pid, zoom, x, y) \<in> set (db_failed db) then db
      else db\<lparr> db_failed := db_failed db @ [(pid, zoom, x, y)] \<rparr>)"

definition remove_failed_sync :: "string \<Rightarrow> nat \<Rightarrow> int \<Rightarrow> int \<Rightarrow> basemap_db \<Rightarrow> basemap_db" where
  "remove_failed_sync pid zoom x y db =
     db\<lparr> db_failed := filter (\<lambda>r. r \<noteq> (pid, zoom, x, y)) (db_failed db) \<rparr>"

definition list_failed_sync :: "string \<Rightarrow> nat \<Rightarrow> basemap_db \<Rightarrow> (int \<times> int) list" where
  "list_failed_sync pid zoom db =
     map (\<lambda>(p, z, x, y). (x, y)) (filter (\<lambda>(p, z, x, y). p = pid \<and> z = zoom) (db_failed db))"

definition clear_failed_sync :: "string \<Rightarrow> nat \<Rightarrow> basemap_db \<Rightarrow> basemap_db" where
  "clear_failed_sync pid zoom db =
     db\<lparr> db_failed := filter (\<lambda>(p, z, x, y). \<not> (p = pid \<and> z = zoom)) (db_failed db) \<rparr>"

definition clear_failed_for_provider_sync :: "string \<Rightarrow> basemap_db \<Rightarrow> basemap_db" where
  "clear_failed_for_provider_sync pid db =
     db\<lparr> db_failed := filter (\<lambda>(p, z, x, y). p \<noteq> pid) (db_failed db) \<rparr>"

definition get_last_completed_sync :: "string \<Rightarrow> basemap_db \<Rightarrow> int option" where
  "get_last_completed_sync pid db = db_last_completed db pid"

definition set_last_completed_sync :: "string \<Rightarrow> int \<Rightarrow> basemap_db \<Rightarrow> basemap_db" where
  "set_last_completed_sync pid timestamp db =
     db\<lparr> db_last_completed := (db_last_completed db)(pid \<mapsto> timestamp) \<rparr>"

definition get_health_sync :: "string \<Rightarrow> basemap_db \<Rightarrow> provider_health option" where
  "get_health_sync pid db = map_option fst (db_health db pid)"

definition open_circuit_sync ::
  "int \<Rightarrow> string \<Rightarrow> int \<Rightarrow> int \<Rightarrow> string \<Rightarrow> basemap_db \<Rightarrow> basemap_db" where
  "open_circuit_sync now pid consecutive_trips cooldown_until reason db =
     db\<lparr> db_health := (db_health db)(pid \<mapsto>
           (\<lparr> ph_consecutive_trips = consecutive_trips, ph_cooldown_until = cooldown_until,
              ph_last_tripped_at = now, ph_last_reason = reason \<rparr>, now)) \<rparr>"

definition close_circuit_sync :: "string \<Rightarrow> basemap_db \<Rightarrow> basemap_db" where
  "close_circuit_sync pid db = db\<lparr> db_health := (db_health db)(pid := None) \<rparr>"

definition set_scrape_stats_sync ::
  "int \<Rightarrow> string \<Rightarrow> nat \<Rightarrow> nat \<Rightarrow> nat \<Rightarrow> bool \<Rightarrow> basemap_db \<Rightarrow> basemap_db" where
  "set_scrape_stats_sync now pid attempted ok failed completed db =
     db\<lparr> db_stats := (db_stats db)(pid \<mapsto>
           \<lparr> st_attempted = attempted, st_ok = ok, st_failed = failed,
             st_completed = completed, st_swept_at = now \<rparr>) \<rparr>"

definition get_scrape_stats_sync :: "string \<Rightarrow> basemap_db \<Rightarrow> scrape_stats option" where
  "get_scrape_stats_sync pid db = db_stats db pid"

section \<open>The connection\<close>

text \<open>
  A store object: the file behind its path (\<^const>\<open>None\<close> before the first open) and
  whether \<^verbatim>\<open>_conn\<close> is set. Closing keeps the file.
\<close>

record state_store =
  ss_file :: "basemap_db option"
  ss_connected :: bool

definition new_store :: "basemap_db option \<Rightarrow> state_store" where
  "new_store file = \<lparr> ss_file = file, ss_connected = False \<rparr>"

text \<open>\<^verbatim>\<open>CREATE TABLE IF NOT EXISTS\<close> on every open: existing rows stay.\<close>

definition open_and_init :: "state_store \<Rightarrow> state_store" where
  "open_and_init s =
     s\<lparr> ss_file := Some (case ss_file s of None \<Rightarrow> empty_db | Some db \<Rightarrow> db), ss_connected := True \<rparr>"

definition connect :: "state_store \<Rightarrow> state_store" where
  "connect s = (if ss_connected s then s else open_and_init s)"

definition close :: "state_store \<Rightarrow> state_store" where
  "close s = (if ss_connected s then s\<lparr> ss_connected := False \<rparr> else s)"

definition require_conn :: "(state_store, basemap_db) io" where
  "require_conn s =
     (case ss_file s of
        Some db \<Rightarrow> if ss_connected s then (Inr db, s) else (Inl RuntimeError, s)
      | None \<Rightarrow> (Inl RuntimeError, s))"

text \<open>A reading and a writing method: lock, require the connection, run the statement.\<close>

definition query :: "(basemap_db \<Rightarrow> 'a) \<Rightarrow> (state_store, 'a) io" where
  "query q = bnd require_conn (\<lambda>db. ret (q db))"

definition execute :: "(basemap_db \<Rightarrow> basemap_db) \<Rightarrow> (state_store, unit) io" where
  "execute u = bnd require_conn (\<lambda>db s. (Inr (), s\<lparr> ss_file := Some (u db) \<rparr>))"

section \<open>Invariant\<close>

fun db_ok :: "basemap_db \<Rightarrow> bool" where
  "db_ok db = distinct (db_failed db)"

definition store_ok :: "state_store \<Rightarrow> bool" where
  "store_ok s = (case ss_file s of None \<Rightarrow> \<not> ss_connected s | Some db \<Rightarrow> db_ok db)"

lemmas db_defs =
  get_cursor_sync_def set_cursor_sync_def clear_cursor_sync_def add_failed_sync_def
  remove_failed_sync_def list_failed_sync_def clear_failed_sync_def
  clear_failed_for_provider_sync_def get_last_completed_sync_def set_last_completed_sync_def
  get_health_sync_def open_circuit_sync_def close_circuit_sync_def set_scrape_stats_sync_def
  get_scrape_stats_sync_def

lemma db_ok_statements [simp]:
  "db_ok empty_db"
  "db_ok (set_cursor_sync now pid zoom i db) = db_ok db"
  "db_ok (clear_cursor_sync pid db) = db_ok db"
  "db_ok (set_last_completed_sync pid t db) = db_ok db"
  "db_ok (open_circuit_sync now pid trips t reason db) = db_ok db"
  "db_ok (close_circuit_sync pid db) = db_ok db"
  "db_ok (set_scrape_stats_sync now pid a b c d db) = db_ok db"
  "db_ok db \<Longrightarrow> db_ok (add_failed_sync pid zoom x y db)"
  "db_ok db \<Longrightarrow> db_ok (remove_failed_sync pid zoom x y db)"
  "db_ok db \<Longrightarrow> db_ok (clear_failed_sync pid zoom db)"
  "db_ok db \<Longrightarrow> db_ok (clear_failed_for_provider_sync pid db)"
  by (simp_all add: db_defs empty_db_def)

section \<open>Keyed tables\<close>

text \<open>
  What the scraper relies on for each of the four tables keyed by provider: an
  upsert is seen by the next read of that provider and by no other, a delete
  removes that row only.
\<close>

locale keyed_table =
  fixes get :: "'k \<Rightarrow> 't \<Rightarrow> 'v option"
    and put :: "'k \<Rightarrow> 'v \<Rightarrow> 't \<Rightarrow> 't"
  assumes get_put: "get k' (put k v t) = (if k' = k then Some v else get k' t)"
begin

lemma put_overwrites: "get k' (put k v (put k u t)) = get k' (put k v t)"
  by (simp add: get_put)

lemma put_commutes: "k \<noteq> l \<Longrightarrow> get k' (put k v (put l u t)) = get k' (put l u (put k v t))"
  by (simp add: get_put)

text \<open>A log of upserts leaves the last value written for each key.\<close>

lemma replay: "get k (fold (\<lambda>(k, v). put k v) writes t)
                 = (case map_of (rev writes) k of Some v \<Rightarrow> Some v | None \<Rightarrow> get k t)"
  by (induction writes arbitrary: t) (auto simp: get_put map_add_def split: option.splits)

end

locale erasable_table = keyed_table +
  fixes del :: "'k \<Rightarrow> 't \<Rightarrow> 't"
  assumes get_del: "get k' (del k t) = (if k' = k then None else get k' t)"
begin

lemma del_put: "get k' (del k (put k v t)) = get k' (del k t)"
  by (simp add: get_del get_put)

lemma del_idem: "get k' (del k (del k t)) = get k' (del k t)"
  by (simp add: get_del)

lemma put_after_del: "get k (put k v (del k t)) = Some v"
  by (simp add: get_put)

end

interpretation cursors: erasable_table get_cursor_sync
    "\<lambda>pid c. set_cursor_sync now pid (cur_zoom c) (cur_tile_index c)" clear_cursor_sync for now
  by unfold_locales (auto simp: db_defs)

interpretation completions: keyed_table get_last_completed_sync set_last_completed_sync
  by unfold_locales (auto simp: db_defs)

interpretation healths: erasable_table get_health_sync
    "\<lambda>pid h. open_circuit_sync (ph_last_tripped_at h) pid (ph_consecutive_trips h)
               (ph_cooldown_until h) (ph_last_reason h)" close_circuit_sync
  by unfold_locales (auto simp: db_defs)

interpretation statistics: keyed_table get_scrape_stats_sync
    "\<lambda>pid s. set_scrape_stats_sync (st_swept_at s) pid (st_attempted s) (st_ok s)
               (st_failed s) (st_completed s)"
  by unfold_locales (auto simp: db_defs)

section \<open>The failed queue\<close>

text \<open>
  The failed table as the scraper uses it: a finite set of tiles per provider and
  zoom. The laws relate each statement to that set.
\<close>

locale tile_queue =
  fixes tiles :: "'p \<Rightarrow> 'z \<Rightarrow> 't \<Rightarrow> 'xy set"
    and push :: "'p \<Rightarrow> 'z \<Rightarrow> 'xy \<Rightarrow> 't \<Rightarrow> 't"
    and drop_tile :: "'p \<Rightarrow> 'z \<Rightarrow> 'xy \<Rightarrow> 't \<Rightarrow> 't"
    and clear :: "'p \<Rightarrow> 'z \<Rightarrow> 't \<Rightarrow> 't"
    and clear_all :: "'p \<Rightarrow> 't \<Rightarrow> 't"
  assumes tiles_push:
      "tiles p' z' (push p z t q) = (if p' = p \<and> z' = z then insert t (tiles p' z' q) else tiles p' z' q)"
    and tiles_drop:
      "tiles p' z' (drop_tile p z t q) = (if p' = p \<and> z' = z then tiles p' z' q - {t} else tiles p' z' q)"
    and tiles_clear: "tiles p' z' (clear p z q) = (if p' = p \<and> z' = z then {} else tiles p' z' q)"
    and tiles_clear_all: "tiles p' z' (clear_all p q) = (if p' = p then {} else tiles p' z' q)"
begin

lemma push_idem: "tiles p' z' (push p z t (push p z t q)) = tiles p' z' (push p z t q)"
  by (simp add: tiles_push)

lemma drop_push: "tiles p' z' (drop_tile p z t (push p z t q)) = tiles p' z' (drop_tile p z t q)"
  by (simp add: tiles_push tiles_drop)

lemma tiles_push_all:
  "tiles p z (fold (push p z) ts q) = tiles p z q \<union> set ts"
  by (induction ts arbitrary: q) (auto simp: tiles_push)

text \<open>Clearing a zoom that has no rows left, as the end of a zoom does, changes no other queue.\<close>

lemma clear_empty: "tiles p z q = {} \<Longrightarrow> tiles p' z' (clear p z q) = tiles p' z' q"
  by (auto simp: tiles_clear)

end

definition failed_tiles :: "string \<Rightarrow> nat \<Rightarrow> basemap_db \<Rightarrow> (int \<times> int) set" where
  "failed_tiles pid zoom db = set (list_failed_sync pid zoom db)"

lemma failed_tiles_iff: "(x, y) \<in> failed_tiles pid zoom db \<longleftrightarrow> (pid, zoom, x, y) \<in> set (db_failed db)"
  by (force simp: failed_tiles_def list_failed_sync_def)

lemma failed_tiles_alt: "failed_tiles pid zoom db = {(x, y). (pid, zoom, x, y) \<in> set (db_failed db)}"
  by (auto simp: failed_tiles_iff)

interpretation failed_queue: tile_queue failed_tiles
    "\<lambda>pid zoom (x, y). add_failed_sync pid zoom x y"
    "\<lambda>pid zoom (x, y). remove_failed_sync pid zoom x y"
    clear_failed_sync clear_failed_for_provider_sync
  by unfold_locales (auto simp: failed_tiles_alt add_failed_sync_def remove_failed_sync_def
      clear_failed_sync_def clear_failed_for_provider_sync_def split: if_splits)

lemma failed_tiles_other [simp]:
  "failed_tiles p z (set_cursor_sync now pid zoom i db) = failed_tiles p z db"
  "failed_tiles p z (clear_cursor_sync pid db) = failed_tiles p z db"
  "failed_tiles p z (set_last_completed_sync pid t db) = failed_tiles p z db"
  "failed_tiles p z (open_circuit_sync now pid trips t reason db) = failed_tiles p z db"
  "failed_tiles p z (close_circuit_sync pid db) = failed_tiles p z db"
  "failed_tiles p z (set_scrape_stats_sync now pid a b c d db) = failed_tiles p z db"
  by (simp_all add: failed_tiles_alt db_defs)

lemma failed_tiles_add [simp]:
  "failed_tiles p z (add_failed_sync pid zoom x y db) =
     (if p = pid \<and> z = zoom then insert (x, y) (failed_tiles p z db) else failed_tiles p z db)"
  using failed_queue.tiles_push [of p z pid zoom "(x, y)" db] by simp

lemma failed_tiles_remove [simp]:
  "failed_tiles p z (remove_failed_sync pid zoom x y db) =
     (if p = pid \<and> z = zoom then failed_tiles p z db - {(x, y)} else failed_tiles p z db)"
  using failed_queue.tiles_drop [of p z pid zoom "(x, y)" db] by simp

lemma get_cursor_set [simp]:
  "get_cursor_sync p (set_cursor_sync now pid zoom i db) =
     (if p = pid then Some \<lparr> cur_zoom = zoom, cur_tile_index = i \<rparr> else get_cursor_sync p db)"
  using cursors.get_put [of p now pid "\<lparr> cur_zoom = zoom, cur_tile_index = i \<rparr>" db] by simp

lemma get_cursor_other [simp]:
  "get_cursor_sync p (add_failed_sync pid zoom x y db) = get_cursor_sync p db"
  "get_cursor_sync p (remove_failed_sync pid zoom x y db) = get_cursor_sync p db"
  "get_cursor_sync p (clear_failed_sync pid zoom db) = get_cursor_sync p db"
  "get_cursor_sync p (clear_failed_for_provider_sync pid db) = get_cursor_sync p db"
  "get_cursor_sync p (set_last_completed_sync pid t db) = get_cursor_sync p db"
  "get_cursor_sync p (open_circuit_sync now pid trips t reason db) = get_cursor_sync p db"
  "get_cursor_sync p (close_circuit_sync pid db) = get_cursor_sync p db"
  "get_cursor_sync p (set_scrape_stats_sync now pid a b c d db) = get_cursor_sync p db"
  by (simp_all add: db_defs)

lemma get_last_completed_other [simp]:
  "get_last_completed_sync p (set_cursor_sync now pid zoom i db) = get_last_completed_sync p db"
  "get_last_completed_sync p (clear_cursor_sync pid db) = get_last_completed_sync p db"
  "get_last_completed_sync p (add_failed_sync pid zoom x y db) = get_last_completed_sync p db"
  "get_last_completed_sync p (remove_failed_sync pid zoom x y db) = get_last_completed_sync p db"
  "get_last_completed_sync p (clear_failed_sync pid zoom db) = get_last_completed_sync p db"
  "get_last_completed_sync p (clear_failed_for_provider_sync pid db) = get_last_completed_sync p db"
  "get_last_completed_sync p (open_circuit_sync now pid trips t reason db) = get_last_completed_sync p db"
  "get_last_completed_sync p (close_circuit_sync pid db) = get_last_completed_sync p db"
  "get_last_completed_sync p (set_scrape_stats_sync now pid a b c d db) = get_last_completed_sync p db"
  by (simp_all add: db_defs)

lemma get_cursor_clear [simp]:
  "get_cursor_sync p (clear_cursor_sync pid db) = (if p = pid then None else get_cursor_sync p db)"
  by (rule cursors.get_del)

lemma get_last_completed_set [simp]:
  "get_last_completed_sync p (set_last_completed_sync pid t db) =
     (if p = pid then Some t else get_last_completed_sync p db)"
  by (rule completions.get_put)

lemma get_health_simps [simp]:
  "get_health_sync p (open_circuit_sync now pid trips t reason db) =
     (if p = pid then Some \<lparr> ph_consecutive_trips = trips, ph_cooldown_until = t,
                             ph_last_tripped_at = now, ph_last_reason = reason \<rparr>
      else get_health_sync p db)"
  "get_health_sync p (close_circuit_sync pid db) = (if p = pid then None else get_health_sync p db)"
  "get_health_sync p (set_cursor_sync now pid zoom i db) = get_health_sync p db"
  "get_health_sync p (clear_cursor_sync pid db) = get_health_sync p db"
  "get_health_sync p (add_failed_sync pid zoom x y db) = get_health_sync p db"
  "get_health_sync p (remove_failed_sync pid zoom x y db) = get_health_sync p db"
  "get_health_sync p (clear_failed_sync pid zoom db) = get_health_sync p db"
  "get_health_sync p (clear_failed_for_provider_sync pid db) = get_health_sync p db"
  "get_health_sync p (set_last_completed_sync pid t db) = get_health_sync p db"
  "get_health_sync p (set_scrape_stats_sync now pid a b c d db) = get_health_sync p db"
  by (simp_all add: db_defs)

section \<open>Sessions\<close>

text \<open>One step of a client of the store, including process restarts.\<close>

datatype store_op =
    Connect
  | Close
  | Restart      \<comment> \<open>a new store object on the same file\<close>
  | SetCursor int string nat nat
  | ClearCursor string
  | AddFailed string nat int int
  | RemoveFailed string nat int int
  | ClearFailed string nat
  | ClearFailedProvider string
  | SetLastCompleted string int
  | OpenCircuit int string int int string
  | CloseCircuit string
  | SetStats int string nat nat nat bool

fun statement :: "store_op \<Rightarrow> basemap_db \<Rightarrow> basemap_db" where
  "statement (SetCursor now pid z i) = set_cursor_sync now pid z i"
| "statement (ClearCursor pid) = clear_cursor_sync pid"
| "statement (AddFailed pid z x y) = add_failed_sync pid z x y"
| "statement (RemoveFailed pid z x y) = remove_failed_sync pid z x y"
| "statement (ClearFailed pid z) = clear_failed_sync pid z"
| "statement (ClearFailedProvider pid) = clear_failed_for_provider_sync pid"
| "statement (SetLastCompleted pid t) = set_last_completed_sync pid t"
| "statement (OpenCircuit now pid n t r) = open_circuit_sync now pid n t r"
| "statement (CloseCircuit pid) = close_circuit_sync pid"
| "statement (SetStats now pid a ok f c) = set_scrape_stats_sync now pid a ok f c"
| "statement _ = (\<lambda>db. db)"

fun store_step :: "store_op \<Rightarrow> state_store \<Rightarrow> state_store" where
  "store_step Connect s = connect s"
| "store_step Close s = close s"
| "store_step Restart s = new_store (ss_file s)"
| "store_step st s = snd (execute (statement st) s)"

fun provider_of :: "store_op \<Rightarrow> string option" where
  "provider_of (SetCursor now pid z i) = Some pid"
| "provider_of (ClearCursor pid) = Some pid"
| "provider_of (AddFailed pid z x y) = Some pid"
| "provider_of (RemoveFailed pid z x y) = Some pid"
| "provider_of (ClearFailed pid z) = Some pid"
| "provider_of (ClearFailedProvider pid) = Some pid"
| "provider_of (SetLastCompleted pid t) = Some pid"
| "provider_of (OpenCircuit now pid n t r) = Some pid"
| "provider_of (CloseCircuit pid) = Some pid"
| "provider_of (SetStats now pid a ok f c) = Some pid"
| "provider_of _ = None"

text \<open>Everything the store holds for one provider.\<close>

definition provider_rows ::
  "string \<Rightarrow> basemap_db \<Rightarrow> cursor option \<times> (nat \<Rightarrow> (int \<times> int) set) \<times> int option
     \<times> provider_health option \<times> scrape_stats option" where
  "provider_rows pid db =
     (get_cursor_sync pid db, (\<lambda>z. failed_tiles pid z db), get_last_completed_sync pid db,
      get_health_sync pid db, get_scrape_stats_sync pid db)"

lemma execute_apply:
  "execute u s = (case ss_file s of
       Some db \<Rightarrow> if ss_connected s then (Inr (), s\<lparr> ss_file := Some (u db) \<rparr>) else (Inl RuntimeError, s)
     | None \<Rightarrow> (Inl RuntimeError, s))"
  by (simp add: execute_def bnd_def require_conn_def split: option.split)

lemma query_apply:
  "query q s = (case ss_file s of
       Some db \<Rightarrow> if ss_connected s then (Inr (q db), s) else (Inl RuntimeError, s)
     | None \<Rightarrow> (Inl RuntimeError, s))"
  by (simp add: query_def bnd_def require_conn_def split: option.split)

lemma statement_ok: "db_ok db \<Longrightarrow> db_ok (statement st db)"
  by (cases st) (auto simp del: db_ok.simps)

lemma execute_store_ok: "store_ok s \<Longrightarrow> store_ok (snd (execute (statement st) s))"
  using statement_ok by (auto simp: execute_apply store_ok_def split: option.splits simp del: db_ok.simps)

lemma store_step_ok: "store_ok s \<Longrightarrow> store_ok (store_step st s)"
proof (cases st)
  case Connect
  assume "store_ok s"
  then show ?thesis using Connect
    by (auto simp: connect_def open_and_init_def store_ok_def empty_db_def split: option.splits)
next
  case Restart
  assume "store_ok s"
  then show ?thesis using Restart by (auto simp: new_store_def store_ok_def split: option.splits)
next
  case Close
  assume "store_ok s"
  then show ?thesis using Close by (auto simp: close_def store_ok_def split: option.splits)
qed (simp_all add: execute_store_ok del: statement.simps)

text \<open>
  Over any session of connects, closes, process restarts and statements the
  store keeps its shape: a connected store has its tables and the failed queue
  never holds a row twice, so \<^verbatim>\<open>INSERT OR IGNORE\<close> is idempotent.
\<close>

theorem store_invariant:
  "store_ok (fold store_step steps (new_store None))"
proof -
  have "store_ok s \<Longrightarrow> store_ok (fold store_step steps s)" for s
    by (induction steps arbitrary: s) (auto simp: store_step_ok)
  then show ?thesis by (simp add: store_ok_def new_store_def)
qed

lemma statement_other_provider:
  "provider_of st \<noteq> Some pid \<Longrightarrow> provider_rows pid (statement st db) = provider_rows pid db"
  by (cases st)
     (auto simp: provider_rows_def failed_tiles_alt fun_eq_iff db_defs)

text \<open>
  Rows belong to one provider: any statements issued for other providers, with
  restarts and reconnections between them, leave everything the store holds for this
  provider (cursor, failed queue, completion stamp, health, statistics) as it was.
\<close>

theorem providers_do_not_interfere:
  assumes "ss_file s = Some db"
    and "\<forall>st \<in> set steps. provider_of st \<noteq> Some pid"
  shows "\<exists>db'. ss_file (fold store_step steps s) = Some db' \<and> provider_rows pid db' = provider_rows pid db"
  using assms
proof (induction steps arbitrary: s db)
  case (Cons st steps)
  have "\<exists>db1. ss_file (store_step st s) = Some db1 \<and> provider_rows pid db1 = provider_rows pid db"
    using Cons.prems statement_other_provider [of st pid db]
    by (cases st) (auto simp: connect_def open_and_init_def close_def new_store_def execute_apply)
  then show ?case using Cons.IH Cons.prems(2) by fastforce
qed simp

theorem providers_do_not_interfere_witness:
  "\<exists>db'. ss_file (fold store_step [Restart, Connect, SetCursor 9 ''b'' 4 17, ClearFailedProvider ''b'']
            \<lparr> ss_file = Some (add_failed_sync ''a'' 3 1 2 empty_db), ss_connected = True \<rparr>) = Some db'
         \<and> provider_rows ''a'' db' = provider_rows ''a'' (add_failed_sync ''a'' 3 1 2 empty_db)"
  by (rule providers_do_not_interfere) simp_all

text \<open>
  The resume position survives the process: after \<^verbatim>\<open>set_cursor\<close>, closing and
  reopening the file (by any number of new store objects) reads the same cursor, and
  a store that is not connected refuses both reads and writes.
\<close>

theorem cursor_survives_restart:
  assumes "ss_file s = Some db" "ss_connected s"
  shows "fst (query (get_cursor_sync pid)
              (connect (((new_store \<circ> ss_file) ^^ n)
                 (close (snd (execute (set_cursor_sync now pid zoom i) s))))))
           = Inr (Some \<lparr> cur_zoom = zoom, cur_tile_index = i \<rparr>)
         \<and> fst (query (get_cursor_sync pid) (close s)) = Inl RuntimeError
         \<and> execute u (close s) = (Inl RuntimeError, close s)"
proof -
  have "ss_file (((new_store \<circ> ss_file) ^^ n) t) = ss_file t" for n and t :: state_store
    by (induction n) (simp_all add: new_store_def)
  then show ?thesis
    using assms
    by (auto simp: query_apply execute_apply close_def connect_def open_and_init_def)
qed

theorem cursor_survives_restart_witness:
  "fst (query (get_cursor_sync ''a'')
        (connect (((new_store \<circ> ss_file) ^^ 2)
           (close (snd (execute (set_cursor_sync 7 ''a'' 5 42)
              \<lparr> ss_file = Some empty_db, ss_connected = True \<rparr>))))))
     = Inr (Some \<lparr> cur_zoom = 5, cur_tile_index = 42 \<rparr>)"
  using cursor_survives_restart
    [of "\<lparr> ss_file = Some empty_db, ss_connected = True \<rparr>" empty_db "''a''" 2 7 5 42] by simp

end
