(* ===== verification/S3_Keys.thy ===== *)
theory S3_Keys
  imports Prelude
begin

text \<open>
  Object keys of the bucket (the static key builders of \<^verbatim>\<open>clients/s3_client.py\<close>)
  and the parser \<^verbatim>\<open>_parse_zxy\<close> that every tile sync applies to the keys it lists.
\<close>

section \<open>Key builders\<close>

text \<open>The common tail \<^verbatim>\<open>{z}/{x}/{y}\<close> of a tile key.\<close>

definition zxy_tail :: "int \<Rightarrow> int \<Rightarrow> int \<Rightarrow> string" where
  "zxy_tail z x y = str_of_int z @ ''/'' @ str_of_int x @ ''/'' @ str_of_int y"

definition build_wrf_tile_key :: "string \<Rightarrow> string \<Rightarrow> string \<Rightarrow> int \<Rightarrow> int \<Rightarrow> int \<Rightarrow> string" where
  "build_wrf_tile_key product_id init_tag fxxx z x y =
     ''tiles/wrf-arg4k/'' @ product_id @ ''/'' @ init_tag @ ''/'' @ fxxx @ ''/'' @ zxy_tail z x y @ ''.webp''"

definition build_wrf_cog_key :: "string \<Rightarrow> string \<Rightarrow> string \<Rightarrow> string" where
  "build_wrf_cog_key product_id init_tag fxxx =
     ''cog/wrf-arg4k/'' @ product_id @ ''/'' @ init_tag @ ''/'' @ fxxx @ ''.tif''"

definition build_wrf_geojson_key :: "string \<Rightarrow> string \<Rightarrow> string \<Rightarrow> string \<Rightarrow> string" where
  "build_wrf_geojson_key product_id init_tag fxxx layer =
     ''geojson/wrf-arg4k/'' @ product_id @ ''/'' @ init_tag @ ''/'' @ fxxx @ ''/'' @ layer @ ''.json''"

definition build_wrf_barb_tile_key :: "string \<Rightarrow> string \<Rightarrow> string \<Rightarrow> int \<Rightarrow> int \<Rightarrow> int \<Rightarrow> string" where
  "build_wrf_barb_tile_key product_id init_tag fxxx z x y =
     ''geojson/wrf-arg4k/'' @ product_id @ ''/'' @ init_tag @ ''/'' @ fxxx @ ''/barbs/'' @ zxy_tail z x y @ ''.json''"

definition build_ecmwf_tp_tile_key :: "string \<Rightarrow> string \<Rightarrow> int \<Rightarrow> int \<Rightarrow> int \<Rightarrow> string" where
  "build_ecmwf_tp_tile_key forecast_ts period_ts z x y =
     ''tiles/ecmwf-ifs/total-precipitation/'' @ forecast_ts @ ''/'' @ period_ts @ ''/'' @ zxy_tail z x y @ ''.webp''"

definition build_ecmwf_tp_cog_key :: "string \<Rightarrow> string \<Rightarrow> string" where
  "build_ecmwf_tp_cog_key forecast_ts period_ts =
     ''cog/ecmwf-ifs/total-precipitation/'' @ forecast_ts @ ''/'' @ period_ts @ ''.tif''"

definition build_ecmwf_mslp_cog_key :: "string \<Rightarrow> string \<Rightarrow> string" where
  "build_ecmwf_mslp_cog_key forecast_ts timestamp_ts =
     ''cog/ecmwf-ifs/mean-sea-level-pressure/'' @ forecast_ts @ ''/'' @ timestamp_ts @ ''.tif''"

definition build_ecmwf_mslp_geojson_key :: "string \<Rightarrow> string \<Rightarrow> string" where
  "build_ecmwf_mslp_geojson_key forecast_ts timestamp_ts =
     ''geojson/ecmwf-ifs/mean-sea-level-pressure/'' @ forecast_ts @ ''/'' @ timestamp_ts @ ''.json''"

definition gfs_step_id :: "string \<Rightarrow> string \<Rightarrow> string" where
  "gfs_step_id cycle fxxx = cycle @ ''_'' @ fxxx"

definition gfs_cog_cycle_prefix :: "string \<Rightarrow> string" where
  "gfs_cog_cycle_prefix s3_segment = ''cog/gfs/'' @ s3_segment @ ''/''"

definition build_gfs_tile_key :: "string \<Rightarrow> string \<Rightarrow> string \<Rightarrow> int \<Rightarrow> int \<Rightarrow> int \<Rightarrow> string" where
  "build_gfs_tile_key s3_segment cycle fxxx z x y =
     ''tiles/gfs/'' @ s3_segment @ ''/'' @ cycle @ ''/'' @ gfs_step_id cycle fxxx @ ''/'' @ zxy_tail z x y @ ''.webp''"

definition build_gfs_cog_key :: "string \<Rightarrow> string \<Rightarrow> string \<Rightarrow> string" where
  "build_gfs_cog_key s3_segment cycle fxxx =
     ''cog/gfs/'' @ s3_segment @ ''/'' @ cycle @ ''/'' @ gfs_step_id cycle fxxx @ ''.tif''"

definition build_gfs_secondary_cog_key :: "string \<Rightarrow> string \<Rightarrow> string \<Rightarrow> string \<Rightarrow> string" where
  "build_gfs_secondary_cog_key s3_segment cycle variable fxxx =
     ''cog/gfs/'' @ s3_segment @ ''/'' @ cycle @ ''/'' @ variable @ ''/'' @ gfs_step_id cycle fxxx @ ''.tif''"

definition gfs_geojson_cycle_prefix :: "string \<Rightarrow> string \<Rightarrow> string" where
  "gfs_geojson_cycle_prefix s3_segment cycle = ''geojson/gfs/'' @ s3_segment @ ''/'' @ cycle @ ''/''"

definition build_gfs_geojson_key :: "string \<Rightarrow> string \<Rightarrow> string \<Rightarrow> string \<Rightarrow> string" where
  "build_gfs_geojson_key s3_segment cycle fxxx layer =
     gfs_geojson_cycle_prefix s3_segment cycle @ gfs_step_id cycle fxxx @ ''_'' @ layer @ ''.json''"

definition build_gfs_barb_tile_key :: "string \<Rightarrow> string \<Rightarrow> string \<Rightarrow> int \<Rightarrow> int \<Rightarrow> int \<Rightarrow> string" where
  "build_gfs_barb_tile_key s3_segment cycle fxxx z x y =
     ''geojson/gfs/'' @ s3_segment @ ''/'' @ cycle @ ''/'' @ gfs_step_id cycle fxxx @ ''_barbs/'' @ zxy_tail z x y @ ''.json''"

definition build_satellite_tile_key :: "string \<Rightarrow> string \<Rightarrow> int \<Rightarrow> int \<Rightarrow> int \<Rightarrow> string" where
  "build_satellite_tile_key channel_dir tileset_id z x y =
     ''tiles/'' @ channel_dir @ ''/'' @ tileset_id @ ''/'' @ zxy_tail z x y @ ''.webp''"

definition build_radar_tile_key ::
  "string \<Rightarrow> string \<Rightarrow> string \<Rightarrow> string \<Rightarrow> int \<Rightarrow> int \<Rightarrow> int \<Rightarrow> string \<Rightarrow> string" where
  "build_radar_tile_key radar_id variable_id tileset_id elevation_id z x y network =
     ''tiles/radar/'' @ network @ ''/'' @ radar_id @ ''/'' @ variable_id @ ''/'' @
     elevation_id @ ''/'' @ tileset_id @ ''/'' @ zxy_tail z x y @ ''.webp''"

definition build_basemap_tile_key :: "string \<Rightarrow> int \<Rightarrow> int \<Rightarrow> int \<Rightarrow> string" where
  "build_basemap_tile_key provider_id z x y =
     ''basemap/'' @ provider_id @ ''/'' @ zxy_tail z x y @ ''.png''"

section \<open>Parsing\<close>

text \<open>\<^verbatim>\<open>parts[-3]\<close>, \<^verbatim>\<open>parts[-2]\<close>, \<^verbatim>\<open>parts[-1]\<close>, each through \<^verbatim>\<open>int\<close>; a \<^verbatim>\<open>ValueError\<close> is \<^const>\<open>None\<close>.\<close>

definition parse_zxy :: "string \<Rightarrow> (int \<times> int \<times> int) option" where
  "parse_zxy s3_key =
     (let parts = py_split (CHR ''/'') s3_key; n = length parts
      in if n < 3 then None
         else case (py_int (parts ! (n - 3)), py_int (parts ! (n - 2)),
                    py_int (py_removesuffix (parts ! (n - 1)) ''.webp'')) of
                (Some z, Some x, Some y) \<Rightarrow> Some (z, x, y)
              | _ \<Rightarrow> None)"

section \<open>Round trip\<close>

lemma py_split_three:
  assumes "CHR ''/'' \<notin> set a" "CHR ''/'' \<notin> set b" "CHR ''/'' \<notin> set c"
  shows "py_split (CHR ''/'') (p @ CHR ''/'' # a @ CHR ''/'' # b @ CHR ''/'' # c)
           = py_split (CHR ''/'') p @ [a, b, c]"
  using assms by simp

text \<open>Any key that ends in \<^verbatim>\<open>/{z}/{x}/{y}.webp\<close> parses back to its coordinates.\<close>

lemma parse_zxy_tail:
  "parse_zxy (p @ CHR ''/'' # zxy_tail z x y @ ''.webp'') = Some (z, x, y)"
proof -
  have s: "py_split (CHR ''/'') (p @ CHR ''/'' # zxy_tail z x y @ ''.webp'')
          = py_split (CHR ''/'') p @ [str_of_int z, str_of_int x, str_of_int y @ ''.webp'']"
    by (simp add: zxy_tail_def)
  obtain n where n: "length (py_split (CHR ''/'') p) = Suc n"
    by (cases "py_split (CHR ''/'') p") auto
  show ?thesis unfolding parse_zxy_def s Let_def by (simp add: n nth_append)
qed

lemma parse_zxy_tail_eq: "k = p @ CHR ''/'' # zxy_tail z x y @ ''.webp'' \<Longrightarrow> parse_zxy k = Some (z, x, y)"
  by (simp add: parse_zxy_tail)

text \<open>
  Every raster tile key the writers build is read back to its own \<^verbatim>\<open>(z, x, y)\<close> by
  the parser of the sync, whatever the identifiers in front; no tile of a well-formed
  tileset is skipped as malformed.
\<close>

theorem tile_keys_parse_back:
  "parse_zxy (build_satellite_tile_key channel_dir tileset_id z x y) = Some (z, x, y)
   \<and> parse_zxy (build_radar_tile_key radar variable tileset elevation z x y network) = Some (z, x, y)
   \<and> parse_zxy (build_wrf_tile_key product init_tag fxxx z x y) = Some (z, x, y)
   \<and> parse_zxy (build_ecmwf_tp_tile_key forecast period z x y) = Some (z, x, y)
   \<and> parse_zxy (build_gfs_tile_key segment cycle fxxx z x y) = Some (z, x, y)"
proof (intro conjI)
  show "parse_zxy (build_satellite_tile_key channel_dir tileset_id z x y) = Some (z, x, y)"
    by (rule parse_zxy_tail_eq [where p = "''tiles/'' @ channel_dir @ ''/'' @ tileset_id"])
       (simp add: build_satellite_tile_key_def)
  show "parse_zxy (build_radar_tile_key radar variable tileset elevation z x y network) = Some (z, x, y)"
    by (rule parse_zxy_tail_eq
          [where p = "''tiles/radar/'' @ network @ ''/'' @ radar @ ''/'' @ variable @ ''/'' @ elevation @ ''/'' @ tileset"])
       (simp add: build_radar_tile_key_def)
  show "parse_zxy (build_wrf_tile_key product init_tag fxxx z x y) = Some (z, x, y)"
    by (rule parse_zxy_tail_eq
          [where p = "''tiles/wrf-arg4k/'' @ product @ ''/'' @ init_tag @ ''/'' @ fxxx"])
       (simp add: build_wrf_tile_key_def)
  show "parse_zxy (build_ecmwf_tp_tile_key forecast period z x y) = Some (z, x, y)"
    by (rule parse_zxy_tail_eq
          [where p = "''tiles/ecmwf-ifs/total-precipitation/'' @ forecast @ ''/'' @ period"])
       (simp add: build_ecmwf_tp_tile_key_def)
  show "parse_zxy (build_gfs_tile_key segment cycle fxxx z x y) = Some (z, x, y)"
    by (rule parse_zxy_tail_eq
          [where p = "''tiles/gfs/'' @ segment @ ''/'' @ cycle @ ''/'' @ gfs_step_id cycle fxxx"])
       (simp add: build_gfs_tile_key_def)
qed

text \<open>A base map key names its provider, zoom, column and row uniquely.\<close>

lemma slash_field_inject:
  "CHR ''/'' \<notin> set a \<Longrightarrow> CHR ''/'' \<notin> set b \<Longrightarrow>
   a @ CHR ''/'' # s = b @ CHR ''/'' # t \<longleftrightarrow> a = b \<and> s = t"
  by (metis py_split1_append Pair_inject)

lemma zxy_tail_inject: "zxy_tail z x y = zxy_tail z' x' y' \<longleftrightarrow> (z, x, y) = (z', x', y')"
  by (auto simp: zxy_tail_def slash_field_inject)

lemma basemap_tile_key_inject:
  assumes "CHR ''/'' \<notin> set pid" "CHR ''/'' \<notin> set pid'"
  shows "build_basemap_tile_key pid z x y = build_basemap_tile_key pid' z' x' y'
           \<longleftrightarrow> (pid, z, x, y) = (pid', z', x', y')"
  using assms by (auto simp: build_basemap_tile_key_def slash_field_inject zxy_tail_inject)

end
