(* ===== verification/Basemap_Scraper.thy ===== *)
theory Basemap_Scraper
  imports Storage_Circuit Basemap_Config Basemap_State_Store S3_Keys
begin

text \<open>
  The background scraper (\<^verbatim>\<open>services/basemap_scraper_service.py\<close>): sweep of a
  provider over its zoom levels with a resumable cursor, a queue of failed tiles, a
  rate-based circuit breaker per provider and a storage circuit shared by all.

  What the service awaits is a record of operations on a world \<^typ>\<open>'s\<close>
  (\<^verbatim>\<open>backend\<close>): clocks, sleep, tile download, bucket upload, Redis writes, lifecycle
  call, metrics. The event loop is one of them: \<^verbatim>\<open>be_next\<close> is the next completion
  \<^verbatim>\<open>asyncio.as_completed\<close> yields among the tasks not consumed yet, with the outcome
  that task returned; while the sweep waits, tasks and other providers' sweeps may
  change the circuits, the world and other rows of the store. \<^verbatim>\<open>be_cancel\<close> cancels
  and awaits the remaining tasks. So every interleaving is one behaviour of a
  backend, and the theorems quantify over backends.

  The sweep's own objects (\<^verbatim>\<open>_ProviderSweepState\<close>, \<^verbatim>\<open>_SweepProgress\<close>, the task list)
  are the record \<^verbatim>\<open>sweep\<close>; \<^verbatim>\<open>co_history\<close> is a history variable, the completions
  consumed so far, which no code reads. Log lines are not modelled.
\<close>

section \<open>Data\<close>

datatype tile_outcome = OK | MISSING | UNAVAILABLE | STORAGE_ERROR | STORAGE_SKIPPED

record sweep_state =
  sw_attempted :: nat
  sw_failed :: nat
  sw_tripped :: bool
  sw_storage_abandoned :: bool
  sw_last_reason :: string
  sw_failure_samples :: "string list"
  sw_storage_errors :: nat
  sw_recent :: "bool list"      \<comment> \<open>True = UNAVAILABLE, oldest first\<close>

definition new_sweep_state :: sweep_state where
  "new_sweep_state =
     \<lparr> sw_attempted = 0, sw_failed = 0, sw_tripped = False, sw_storage_abandoned = False,
       sw_last_reason = [], sw_failure_samples = [], sw_storage_errors = 0, sw_recent = [] \<rparr>"

text \<open>\<^verbatim>\<open>done_above\<close> is a set; the list has no repetition.\<close>

record sweep_progress =
  pg_start :: rat
  pg_total :: nat
  pg_resume_index :: nat
  pg_watermark :: nat
  pg_last_flushed :: nat
  pg_last_flush_time :: rat
  pg_next_time :: rat
  pg_last_log :: rat
  pg_next_pct :: nat
  pg_ok :: nat
  pg_failed :: nat
  pg_processed :: nat
  pg_done_above :: "nat list"

text \<open>The settings the constructor copies, and its arguments.\<close>

record scraper_config =
  sg_sync_interval :: int
  sg_providers :: "(string \<times> basemap_provider) list"
  sg_bbox :: bounding_box
  sg_tile_ttl :: int
  sg_s3_object_ttl_days :: int
  sg_redis_writes_enabled :: bool
  sg_parallelism_mode :: string
  sg_cache_max_zoom :: nat
  sg_checkpoint_every :: int
  sg_checkpoint_seconds :: rat
  sg_fanout_window :: nat
  sg_error_rate_threshold :: rat
  sg_error_rate_min_samples :: nat
  sg_error_rate_window :: nat
  sg_cooldown_schedule :: "int list"

definition PROGRESS_PCT_STEP :: nat where "PROGRESS_PCT_STEP = 10"
definition PROGRESS_TIME_INTERVAL_S :: rat where "PROGRESS_TIME_INTERVAL_S = 30"
definition PROGRESS_MIN_INTERVAL_S :: rat where "PROGRESS_MIN_INTERVAL_S = 1"
definition STORAGE_RETRY_FLOOR_SECONDS :: rat where "STORAGE_RETRY_FLOOR_SECONDS = 60"
definition STORAGE_MAX_COOLDOWN_SECONDS :: rat where "STORAGE_MAX_COOLDOWN_SECONDS = 30"

text \<open>The mutable fields of the service, its store and the world.\<close>

record 's service =
  sv_lifecycle_applied :: bool
  sv_storage_retry_due :: bool
  sv_s3_circuit :: circuit
  sv_redis_circuit :: circuit
  sv_storage_down_this_cycle :: bool
  sv_store :: state_store
  sv_world :: 's

definition storage_circuit :: "string \<Rightarrow> circuit" where
  "storage_circuit name =
     new_circuit name DEFAULT_WINDOW DEFAULT_MIN_SAMPLES DEFAULT_THRESHOLD
       DEFAULT_BASE_COOLDOWN STORAGE_MAX_COOLDOWN_SECONDS DEFAULT_MAX_CONSECUTIVE_TRIPS"

definition new_service :: "state_store \<Rightarrow> 's \<Rightarrow> 's service" where
  "new_service store world =
     \<lparr> sv_lifecycle_applied = False, sv_storage_retry_due = False,
       sv_s3_circuit = storage_circuit ''S3'', sv_redis_circuit = storage_circuit ''Redis'',
       sv_storage_down_this_cycle = False, sv_store = store, sv_world = world \<rparr>"

text \<open>
  \<^verbatim>\<open>be_naps\<close> is the number of sleeps after which the wait for storage is cancelled:
  the only way that loop ends when the clock never reaches the deadline.
\<close>

record 's backend =
  be_time :: "'s \<Rightarrow> rat \<times> 's"
  be_monotonic :: "'s \<Rightarrow> rat \<times> 's"
  be_sleep :: "rat \<Rightarrow> ('s, unit) io"
  be_naps :: nat
  be_download_tile :: "source_url \<Rightarrow> ('s, pybytes option) io"
  be_upload_tile :: "string \<Rightarrow> pybytes \<Rightarrow> ('s, unit) io"
  be_store_basemap_tile :: "string \<Rightarrow> nat \<Rightarrow> int \<Rightarrow> int \<Rightarrow> pybytes \<Rightarrow> int \<Rightarrow> ('s, unit) io"
  be_clear_basemap_tile_miss :: "string \<Rightarrow> nat \<Rightarrow> int \<Rightarrow> int \<Rightarrow> ('s, unit) io"
  be_ensure_lifecycle :: "int \<Rightarrow> ('s, bool) io"
  be_record_sync_cycle :: "(nat \<Rightarrow> nat \<Rightarrow> string \<Rightarrow> ('s, unit) io) option"
  be_next :: "basemap_provider \<Rightarrow> nat \<Rightarrow> nat list \<Rightarrow> ('s service, nat \<times> tile_outcome) io"
  be_cancel :: "nat list \<Rightarrow> ('s service, unit) io"

record 's sweep =
  co_sweep :: sweep_state
  co_progress :: sweep_progress
  co_tasks :: "nat list"
  co_history :: "(nat \<times> tile_outcome) list"
  co_service :: "'s service"

section \<open>Reaching the parts of the state\<close>

definition on_world :: "('s, 'a) io \<Rightarrow> ('s service, 'a) io" where
  "on_world m sv = (case m (sv_world sv) of (r, w) \<Rightarrow> (r, sv\<lparr> sv_world := w \<rparr>))"

definition on_store :: "(state_store, 'a) io \<Rightarrow> ('s service, 'a) io" where
  "on_store m sv = (case m (sv_store sv) of (r, st) \<Rightarrow> (r, sv\<lparr> sv_store := st \<rparr>))"

definition on_service :: "('s service, 'a) io \<Rightarrow> ('s sweep, 'a) io" where
  "on_service m co = (case m (co_service co) of (r, sv) \<Rightarrow> (r, co\<lparr> co_service := sv \<rparr>))"

text \<open>\<^verbatim>\<open>time.monotonic()\<close>, and \<^verbatim>\<open>int(time.time())\<close> (times are not negative).\<close>

definition monotonic :: "'s backend \<Rightarrow> ('s service, rat) io" where
  "monotonic be = on_world (\<lambda>w. case be_monotonic be w of (t, w') \<Rightarrow> (Inr t, w'))"

definition unix_time :: "'s backend \<Rightarrow> ('s service, int) io" where
  "unix_time be = on_world (\<lambda>w. case be_time be w of (t, w') \<Rightarrow> (Inr \<lfloor>t\<rfloor>, w'))"

definition set_cursor :: "'s backend \<Rightarrow> string \<Rightarrow> nat \<Rightarrow> nat \<Rightarrow> ('s service, unit) io" where
  "set_cursor be pid zoom tile_index =
     bnd (unix_time be) (\<lambda>now. on_store (execute (set_cursor_sync now pid zoom tile_index)))"

section \<open>One tile\<close>

text \<open>The exceptions each handler names.\<close>

fun is_s3_outage :: "exn \<Rightarrow> bool" where
  "is_s3_outage (ClientError c) = True"
| "is_s3_outage BotoCoreError = True"
| "is_s3_outage TimeoutError = True"
| "is_s3_outage OSError = True"
| "is_s3_outage _ = False"

fun is_redis_outage :: "exn \<Rightarrow> bool" where
  "is_redis_outage HTTPError = True"
| "is_redis_outage TimeoutError = True"
| "is_redis_outage OSError = True"
| "is_redis_outage _ = False"

definition persist_to_s3 ::
  "'s backend \<Rightarrow> basemap_provider \<Rightarrow> nat \<Rightarrow> int \<Rightarrow> int \<Rightarrow> pybytes \<Rightarrow> ('s service, bool) io" where
  "persist_to_s3 be provider z x y data =
     bnd (catching is_s3_outage
            (on_world (be_upload_tile be (build_basemap_tile_key (bp_provider_id provider) (int z) x y) data)))
       (\<lambda>r. bnd (monotonic be) (\<lambda>t1. bnd (monotonic be) (\<lambda>t2.
          case r of
            Inl exc \<Rightarrow>
              seq (modify (\<lambda>sv. sv\<lparr> sv_s3_circuit := snd (record_failure t1 t2 (sv_s3_circuit sv)) \<rparr>))
                  (ret False)
          | Inr _ \<Rightarrow>
              seq (modify (\<lambda>sv. sv\<lparr> sv_s3_circuit := snd (record_success t1 t2 (sv_s3_circuit sv)) \<rparr>))
                  (ret True))))"

definition write_through_redis ::
  "scraper_config \<Rightarrow> 's backend \<Rightarrow> basemap_provider \<Rightarrow> nat \<Rightarrow> int \<Rightarrow> int \<Rightarrow> pybytes \<Rightarrow> ('s service, unit) io" where
  "write_through_redis cfg be provider z x y data =
     (if \<not> sg_redis_writes_enabled cfg then ret ()
      else bnd (monotonic be) (\<lambda>t0. bnd (reads sv_redis_circuit) (\<lambda>c.
        if \<not> allows_write t0 c then ret ()
        else bnd (catching is_redis_outage
                   (seq (on_world (be_store_basemap_tile be (bp_provider_id provider) z x y data (sg_tile_ttl cfg)))
                        (on_world (be_clear_basemap_tile_miss be (bp_provider_id provider) z x y))))
          (\<lambda>r. bnd (monotonic be) (\<lambda>t1. bnd (monotonic be) (\<lambda>t2.
             modify (\<lambda>sv. sv\<lparr> sv_redis_circuit :=
               snd ((case r of Inl exc \<Rightarrow> record_failure t1 t2 | Inr _ \<Rightarrow> record_success t1 t2)
                      (sv_redis_circuit sv)) \<rparr>)))))))"

text \<open>
  A template the address cannot be built from raises out of the task. The download
  reports an exhausted retry budget as \<^verbatim>\<open>ProviderUnavailableError\<close>.
\<close>

definition download_and_store ::
  "scraper_config \<Rightarrow> 's backend \<Rightarrow> basemap_provider \<Rightarrow> nat \<Rightarrow> int \<Rightarrow> int \<Rightarrow> ('s service, tile_outcome) io" where
  "download_and_store cfg be provider z x y =
     bnd (monotonic be) (\<lambda>t. bnd (reads sv_s3_circuit) (\<lambda>c.
       if \<not> allows_write t c then ret STORAGE_SKIPPED
       else case build_source_url provider z x y of
         None \<Rightarrow> raise (OtherError ''source url'')
       | Some url \<Rightarrow>
         bnd (catching (\<lambda>e. e = ProviderUnavailableError) (on_world (be_download_tile be url)))
           (\<lambda>r. case r of
              Inl exc \<Rightarrow> ret UNAVAILABLE
            | Inr data \<Rightarrow>
                if \<not> truthy data then ret MISSING
                else bnd (persist_to_s3 be provider z x y (the data)) (\<lambda>stored.
                  if \<not> stored then ret STORAGE_ERROR
                  else seq (write_through_redis cfg be provider z x y (the data)) (ret OK)))))"

section \<open>The provider breaker\<close>

text \<open>\<^verbatim>\<open>f"{rate:.1%}"\<close>, an exact tie rounded up.\<close>

definition fmt_percent1 :: "rat \<Rightarrow> string" where
  "fmt_percent1 r =
     (let n = \<lfloor>r * 1000 + 1 / 2\<rfloor> in str_of_int (n div 10) @ ''.'' @ str_of_int (n mod 10) @ ''%'')"

definition failure_sample :: "nat \<Rightarrow> int \<Rightarrow> int \<Rightarrow> string" where
  "failure_sample z x y = ''z='' @ str_of_int (int z) @ '' x='' @ str_of_int x @ '' y='' @ str_of_int y"

definition window_rate :: "bool list \<Rightarrow> rat" where
  "window_rate window = of_nat (recent_failures window) / of_nat (length window)"

definition trip_reason :: "bool list \<Rightarrow> string list \<Rightarrow> string" where
  "trip_reason window samples =
     ''tasa de error reciente '' @ fmt_percent1 (window_rate window) @ '' ('' @
     str_of_nat (recent_failures window) @ ''/'' @ str_of_nat (length window) @ '' de las '' @
     [CHR 0xFA] @ ''ltimas fetches; samples: '' @ py_join '', '' samples @ '')''"

text \<open>
  \<^verbatim>\<open>_update_sweep_state\<close>. The configured minimum sample is positive, so the window is
  never empty where the rate is taken.
\<close>

definition update_sweep_state ::
  "scraper_config \<Rightarrow> circuit \<Rightarrow> tile_outcome \<Rightarrow> nat \<Rightarrow> int \<Rightarrow> int \<Rightarrow> sweep_state \<Rightarrow> sweep_state" where
  "update_sweep_state cfg s3_circuit outcome z x y sw =
     (if outcome = MISSING then sw
      else if outcome = STORAGE_ERROR \<or> outcome = STORAGE_SKIPPED then
        (let sw1 = sw\<lparr> sw_storage_errors := Suc (sw_storage_errors sw) \<rparr>
         in if exhausted s3_circuit then sw1\<lparr> sw_storage_abandoned := True \<rparr> else sw1)
      else
        (let is_failure = (outcome = UNAVAILABLE);
             sw1 = sw\<lparr> sw_attempted := Suc (sw_attempted sw) \<rparr>;
             sw2 = (if is_failure
                    then sw1\<lparr> sw_failed := Suc (sw_failed sw1),
                              sw_failure_samples :=
                                (if length (sw_failure_samples sw1) < 3
                                 then sw_failure_samples sw1 @ [failure_sample z x y]
                                 else sw_failure_samples sw1) \<rparr>
                    else sw1);
             w1 = sw_recent sw2 @ [is_failure];
             window = (if length w1 > sg_error_rate_window cfg then tl w1 else w1);
             sw3 = sw2\<lparr> sw_recent := window \<rparr>
         in if \<not> sw_tripped sw3 \<and> length window \<ge> sg_error_rate_min_samples cfg
               \<and> window_rate window > sg_error_rate_threshold cfg
            then sw3\<lparr> sw_tripped := True,
                      sw_last_reason := trip_reason window (sw_failure_samples sw3) \<rparr>
            else sw3))"

abbreviation halted :: "sweep_state \<Rightarrow> bool" where
  "halted sw \<equiv> sw_tripped sw \<or> sw_storage_abandoned sw"

section \<open>Watermark\<close>

text \<open>\<^verbatim>\<open>while watermark in done_above\<close>.\<close>

fun drain_above :: "nat \<Rightarrow> nat list \<Rightarrow> nat \<times> nat list" where
  "drain_above watermark done_above =
     (if watermark \<in> set done_above then drain_above (Suc watermark) (removeAll watermark done_above)
      else (watermark, done_above))"

definition step_watermark :: "nat \<Rightarrow> nat \<Rightarrow> nat list \<Rightarrow> nat \<times> nat list" where
  "step_watermark idx watermark done_above =
     (if idx = watermark then drain_above (Suc watermark) done_above
      else if watermark < idx then (watermark, List.insert idx done_above)
      else (watermark, done_above))"

text \<open>Returns the new watermark, the remaining set and whether the cursor was flushed.\<close>

definition advance_watermark ::
  "scraper_config \<Rightarrow> 's backend \<Rightarrow> basemap_provider \<Rightarrow> nat \<Rightarrow> nat \<Rightarrow> nat \<Rightarrow> nat list \<Rightarrow> nat \<Rightarrow> rat
     \<Rightarrow> ('s service, nat \<times> nat list \<times> bool) io" where
  "advance_watermark cfg be provider zoom idx watermark0 done_above0 last_flushed last_flush_time =
     (case step_watermark idx watermark0 done_above0 of (watermark, done_above) \<Rightarrow>
        let advanced = int watermark - int last_flushed
        in bnd (monotonic be) (\<lambda>now.
             if (advanced \<ge> sg_checkpoint_every cfg \<or> now - last_flush_time \<ge> sg_checkpoint_seconds cfg)
                \<and> advanced > 0
             then seq (set_cursor be (bp_provider_id provider) zoom watermark)
                      (ret (watermark, done_above, True))
             else ret (watermark, done_above, False)))"

text \<open>\<^verbatim>\<open>while progress.next_pct <= pct\<close>.\<close>

function bump_pct :: "nat \<Rightarrow> nat \<Rightarrow> nat" where
  "bump_pct pct next_pct =
     (if next_pct \<le> pct then bump_pct pct (next_pct + PROGRESS_PCT_STEP) else next_pct)"
  by pat_completeness auto

termination bump_pct
  by (relation "measure (\<lambda>(pct, next_pct). Suc pct - next_pct)") (auto simp: PROGRESS_PCT_STEP_def)

definition maybe_log_progress :: "rat \<Rightarrow> sweep_progress \<Rightarrow> sweep_progress" where
  "maybe_log_progress now pg =
     (let denom = pg_total pg - pg_resume_index pg;
          pct = (if denom > 0 then pg_processed pg * 100 div denom else 100);
          due = (pct \<ge> pg_next_pct pg \<or> now \<ge> pg_next_time pg)
      in if \<not> (due \<and> pg_processed pg < denom \<and> now - pg_last_log pg \<ge> PROGRESS_MIN_INTERVAL_S)
         then pg
         else pg\<lparr> pg_next_pct := bump_pct pct (pg_next_pct pg),
                  pg_next_time := now + PROGRESS_TIME_INTERVAL_S,
                  pg_last_log := now \<rparr>)"

section \<open>One zoom level\<close>

definition handle_completion ::
  "scraper_config \<Rightarrow> 's backend \<Rightarrow> basemap_provider \<Rightarrow> nat \<Rightarrow> nat \<Rightarrow> nat \<times> int \<times> int \<Rightarrow> tile_outcome
     \<Rightarrow> ('s sweep, unit) io" where
  "handle_completion cfg be provider zoom idx tile outcome =
     (case tile of (z, x, y) \<Rightarrow>
        seq (modify (\<lambda>co. co\<lparr> co_sweep :=
               update_sweep_state cfg (sv_s3_circuit (co_service co)) outcome z x y (co_sweep co) \<rparr>))
       (seq (if outcome = OK
             then modify (\<lambda>co. co\<lparr> co_progress := (co_progress co)\<lparr> pg_ok := Suc (pg_ok (co_progress co)) \<rparr> \<rparr>)
             else seq (modify (\<lambda>co. co\<lparr> co_progress :=
                         (co_progress co)\<lparr> pg_failed := Suc (pg_failed (co_progress co)) \<rparr> \<rparr>))
                      (if outcome \<noteq> STORAGE_SKIPPED
                       then on_service (on_store (execute (add_failed_sync (bp_provider_id provider) z x y)))
                       else ret ()))
       (seq (modify (\<lambda>co. co\<lparr> co_progress :=
               (co_progress co)\<lparr> pg_processed := Suc (pg_processed (co_progress co)) \<rparr> \<rparr>))
       (bnd (reads co_progress) (\<lambda>pg.
        bnd (on_service (advance_watermark cfg be provider zoom idx (pg_watermark pg)
               (pg_done_above pg) (pg_last_flushed pg) (pg_last_flush_time pg)))
          (\<lambda>(watermark, done_above, flushed).
             seq (modify (\<lambda>co. co\<lparr> co_progress :=
                    (co_progress co)\<lparr> pg_watermark := watermark, pg_done_above := done_above \<rparr> \<rparr>))
            (seq (if flushed
                  then bnd (on_service (monotonic be)) (\<lambda>now. modify (\<lambda>co. co\<lparr> co_progress :=
                         (co_progress co)\<lparr> pg_last_flushed := watermark, pg_last_flush_time := now \<rparr> \<rparr>))
                  else ret ())
            (bnd (on_service (monotonic be)) (\<lambda>now.
               modify (\<lambda>co. co\<lparr> co_progress := maybe_log_progress now (co_progress co) \<rparr>))))))))))"

text \<open>
  The loop over \<^verbatim>\<open>as_completed(tasks)\<close>, \<^verbatim>\<open>n\<close> futures to come. A task that raised, or a
  cancellation of the sweep, comes out of \<^verbatim>\<open>be_next\<close> as an exception.
\<close>

fun drain_tasks ::
  "scraper_config \<Rightarrow> 's backend \<Rightarrow> basemap_provider \<Rightarrow> nat \<Rightarrow> (nat \<times> int \<times> int) list \<Rightarrow> nat
     \<Rightarrow> ('s sweep, unit) io" where
  "drain_tasks cfg be provider zoom coords 0 = ret ()"
| "drain_tasks cfg be provider zoom coords (Suc n) =
     bnd (reads co_tasks) (\<lambda>tasks.
     bnd (on_service (be_next be provider zoom tasks)) (\<lambda>(idx, outcome).
     seq (modify (\<lambda>co. co\<lparr> co_tasks := removeAll idx (co_tasks co),
                           co_history := co_history co @ [(idx, outcome)] \<rparr>))
    (seq (handle_completion cfg be provider zoom idx (coords ! idx) outcome)
    (bnd (reads co_sweep) (\<lambda>sw.
       if halted sw then ret () else drain_tasks cfg be provider zoom coords n)))))"

definition sweep_chunk ::
  "scraper_config \<Rightarrow> 's backend \<Rightarrow> basemap_provider \<Rightarrow> nat \<Rightarrow> (nat \<times> int \<times> int) list \<Rightarrow> nat \<Rightarrow> nat
     \<Rightarrow> ('s sweep, unit) io" where
  "sweep_chunk cfg be provider zoom coords chunk_start chunk_end =
     seq (modify (\<lambda>co. co\<lparr> co_tasks := [chunk_start..<chunk_end] \<rparr>))
      (try_finally (drain_tasks cfg be provider zoom coords (chunk_end - chunk_start))
        (bnd (reads co_tasks) (\<lambda>pending.
           if pending = [] then ret () else on_service (be_cancel be pending))))"

fun await_storage_cooldown_n :: "'s backend \<Rightarrow> nat \<Rightarrow> ('s service, unit) io" where
  "await_storage_cooldown_n be naps =
     bnd (monotonic be) (\<lambda>now. bnd (reads sv_s3_circuit) (\<lambda>c.
       let remaining = cooldown_remaining now c
       in if remaining > 0
          then (case naps of
                  0 \<Rightarrow> raise CancelledError
                | Suc n \<Rightarrow> seq (on_world (be_sleep be remaining)) (await_storage_cooldown_n be n))
          else ret ()))"

declare await_storage_cooldown_n.simps [simp del]

definition await_storage_cooldown :: "'s backend \<Rightarrow> ('s service, unit) io" where
  "await_storage_cooldown be = await_storage_cooldown_n be (be_naps be)"

fun sweep_chunks ::
  "scraper_config \<Rightarrow> 's backend \<Rightarrow> basemap_provider \<Rightarrow> nat \<Rightarrow> (nat \<times> int \<times> int) list \<Rightarrow> nat list
     \<Rightarrow> ('s sweep, unit) io" where
  "sweep_chunks cfg be provider zoom coords [] = ret ()"
| "sweep_chunks cfg be provider zoom coords (chunk_start # rest) =
     seq (on_service (await_storage_cooldown be))
    (bnd (reads co_sweep) (\<lambda>sw0.
       if sw_storage_abandoned sw0 then ret ()
       else seq (sweep_chunk cfg be provider zoom coords chunk_start
                   (min (chunk_start + sg_fanout_window cfg) (length coords)))
           (bnd (reads co_sweep) (\<lambda>sw.
              if halted sw then ret () else sweep_chunks cfg be provider zoom coords rest))))"

definition new_progress :: "rat \<Rightarrow> nat \<Rightarrow> nat \<Rightarrow> sweep_progress" where
  "new_progress start tot resume_index =
     \<lparr> pg_start = start, pg_total = tot, pg_resume_index = resume_index,
       pg_watermark = resume_index, pg_last_flushed = resume_index, pg_last_flush_time = start,
       pg_next_time = start + PROGRESS_TIME_INTERVAL_S, pg_last_log = start,
       pg_next_pct = PROGRESS_PCT_STEP, pg_ok = 0, pg_failed = 0, pg_processed = 0,
       pg_done_above = [] \<rparr>"

text \<open>A zero step makes \<^verbatim>\<open>range\<close> raise inside the \<^verbatim>\<open>try\<close>.\<close>

definition run_indexed_sweep ::
  "scraper_config \<Rightarrow> 's backend \<Rightarrow> basemap_provider \<Rightarrow> nat \<Rightarrow> (nat \<times> int \<times> int) list \<Rightarrow> nat
     \<Rightarrow> ('s sweep, nat \<times> nat) io" where
  "run_indexed_sweep cfg be provider zoom coords resume_index =
     (let tot = length coords
      in if resume_index \<ge> tot
         then seq (on_service (set_cursor be (bp_provider_id provider) (Suc zoom) 0)) (ret (0, 0))
         else
           bnd (on_service (monotonic be)) (\<lambda>start.
           seq (modify (\<lambda>co. co\<lparr> co_progress := new_progress start tot resume_index, co_history := [] \<rparr>))
          (seq (try_finally
                  (if sg_fanout_window cfg = 0 then raise ValueError
                   else sweep_chunks cfg be provider zoom coords
                          (py_range resume_index tot (sg_fanout_window cfg)))
                  (bnd (reads co_progress) (\<lambda>pg.
                     on_service (set_cursor be (bp_provider_id provider)
                       (if pg_watermark pg \<ge> tot then Suc zoom else zoom)
                       (if pg_watermark pg \<ge> tot then 0 else pg_watermark pg)))))
          (bnd (reads co_progress) (\<lambda>pg. ret (pg_ok pg, pg_failed pg))))))"

fun retry_tiles ::
  "scraper_config \<Rightarrow> 's backend \<Rightarrow> basemap_provider \<Rightarrow> nat \<Rightarrow> (int \<times> int) list \<Rightarrow> nat \<Rightarrow> nat
     \<Rightarrow> ('s sweep, nat \<times> nat) io" where
  "retry_tiles cfg be provider zoom [] ok failed = ret (ok, failed)"
| "retry_tiles cfg be provider zoom ((x, y) # rest) ok failed =
     bnd (on_service (download_and_store cfg be provider zoom x y)) (\<lambda>outcome.
     seq (modify (\<lambda>co. co\<lparr> co_sweep :=
            update_sweep_state cfg (sv_s3_circuit (co_service co)) outcome zoom x y (co_sweep co) \<rparr>))
    (seq (if outcome = OK
          then on_service (on_store (execute (remove_failed_sync (bp_provider_id provider) zoom x y)))
          else ret ())
    (let ok' = (if outcome = OK then Suc ok else ok);
         failed' = (if outcome = OK then failed else Suc failed)
     in bnd (reads co_sweep) (\<lambda>sw.
          if halted sw then ret (ok', failed')
          else retry_tiles cfg be provider zoom rest ok' failed'))))"

definition retry_failed_tiles ::
  "scraper_config \<Rightarrow> 's backend \<Rightarrow> basemap_provider \<Rightarrow> nat \<Rightarrow> ('s sweep, nat \<times> nat) io" where
  "retry_failed_tiles cfg be provider zoom =
     bnd (on_service (on_store (query (list_failed_sync (bp_provider_id provider) zoom)))) (\<lambda>failed_tiles.
       if failed_tiles = [] then ret (0, 0)
       else retry_tiles cfg be provider zoom failed_tiles 0 0)"

definition scrape_zoom ::
  "scraper_config \<Rightarrow> 's backend \<Rightarrow> basemap_provider \<Rightarrow> nat \<Rightarrow> nat \<Rightarrow> ('s sweep, nat \<times> nat) io" where
  "scrape_zoom cfg be provider zoom resume_index =
     bnd (retry_failed_tiles cfg be provider zoom) (\<lambda>(retry_ok, retry_failed).
     bnd (reads co_sweep) (\<lambda>sw.
       if halted sw then ret (retry_ok, retry_failed)
       else
         bnd (run_indexed_sweep cfg be provider zoom (iter_tiles zoom (sg_bbox cfg)) resume_index)
           (\<lambda>(sweep_ok, sweep_failed).
         bnd (on_service (on_store (query (list_failed_sync (bp_provider_id provider) zoom)))) (\<lambda>remaining.
         seq (if remaining = []
              then on_service (on_store (execute (clear_failed_sync (bp_provider_id provider) zoom)))
              else ret ())
             (ret (retry_ok + sweep_ok, retry_failed + sweep_failed))))))"

section \<open>One provider\<close>

definition compute_cooldown :: "scraper_config \<Rightarrow> int \<Rightarrow> int" where
  "compute_cooldown cfg consecutive_trips =
     (if sg_cooldown_schedule cfg = [] then 300
      else let idx = min (consecutive_trips - 1) (int (length (sg_cooldown_schedule cfg)) - 1)
           in sg_cooldown_schedule cfg ! nat (max idx 0))"

definition record_sweep_stats ::
  "'s backend \<Rightarrow> string \<Rightarrow> nat \<Rightarrow> nat \<Rightarrow> bool \<Rightarrow> ('s service, unit) io" where
  "record_sweep_stats be pid downloaded failed completed =
     bnd (unix_time be) (\<lambda>now.
       on_store (execute (set_scrape_stats_sync now pid (downloaded + failed) downloaded failed completed)))"

definition finish_abandoned_sweep ::
  "'s backend \<Rightarrow> basemap_provider \<Rightarrow> nat \<Rightarrow> nat \<Rightarrow> ('s service, unit) io" where
  "finish_abandoned_sweep be provider downloaded failed =
     seq (modify (\<lambda>sv. sv\<lparr> sv_storage_retry_due := True, sv_storage_down_this_cycle := True \<rparr>))
         (record_sweep_stats be (bp_provider_id provider) downloaded failed False)"

text \<open>\<^verbatim>\<open>for zoom in range(zoom_start, max_zoom + 1)\<close> with its accumulators.\<close>

fun scrape_zooms ::
  "scraper_config \<Rightarrow> 's backend \<Rightarrow> basemap_provider \<Rightarrow> nat \<Rightarrow> nat \<Rightarrow> nat list \<Rightarrow> nat \<Rightarrow> nat
     \<Rightarrow> ('s sweep, nat \<times> nat) io" where
  "scrape_zooms cfg be provider zoom_start index_start [] downloaded failed = ret (downloaded, failed)"
| "scrape_zooms cfg be provider zoom_start index_start (zoom # zooms) downloaded failed =
     bnd (scrape_zoom cfg be provider zoom (if zoom = zoom_start then index_start else 0))
       (\<lambda>(zoom_ok, zoom_failed).
     bnd (reads co_sweep) (\<lambda>sw.
       if halted sw then ret (downloaded + zoom_ok, failed + zoom_failed)
       else scrape_zooms cfg be provider zoom_start index_start zooms
              (downloaded + zoom_ok) (failed + zoom_failed)))"

text \<open>A coroutine with fresh sweep objects, returning them with its result.\<close>

definition with_sweep :: "('s sweep, 'a) io \<Rightarrow> ('s service, 'a \<times> sweep_state) io" where
  "with_sweep m sv =
     (case m \<lparr> co_sweep = new_sweep_state, co_progress = new_progress 0 0 0, co_tasks = [],
                co_history = [], co_service = sv \<rparr> of
        (Inl e, co) \<Rightarrow> (Inl e, co_service co)
      | (Inr x, co) \<Rightarrow> (Inr (x, co_sweep co), co_service co))"

text \<open>The three ways a sweep that started ends.\<close>

definition end_tripped ::
  "scraper_config \<Rightarrow> 's backend \<Rightarrow> basemap_provider \<Rightarrow> provider_health option \<Rightarrow> sweep_state \<Rightarrow> nat \<Rightarrow> nat
     \<Rightarrow> ('s service, nat \<times> nat) io" where
  "end_tripped cfg be provider health sw downloaded failed =
     (let pid = bp_provider_id provider;
          prior_trips = (case health of Some h \<Rightarrow> ph_consecutive_trips h | None \<Rightarrow> 0);
          trips = (if downloaded > 0 then 1 else prior_trips + 1);
          cooldown_seconds = compute_cooldown cfg trips
      in bnd (unix_time be) (\<lambda>t.
         bnd (unix_time be) (\<lambda>now.
         seq (on_store (execute (open_circuit_sync now pid trips (t + cooldown_seconds) (sw_last_reason sw))))
        (seq (record_sweep_stats be pid downloaded failed False)
             (ret (downloaded, failed))))))"

definition end_storage_errors ::
  "'s backend \<Rightarrow> basemap_provider \<Rightarrow> nat \<Rightarrow> nat \<Rightarrow> ('s service, nat \<times> nat) io" where
  "end_storage_errors be provider downloaded failed =
     (let pid = bp_provider_id provider
      in seq (on_store (execute (clear_cursor_sync pid)))
        (seq (modify (\<lambda>sv. sv\<lparr> sv_storage_retry_due := True \<rparr>))
        (seq (record_sweep_stats be pid downloaded failed False)
             (ret (downloaded, failed)))))"

definition end_completed ::
  "'s backend \<Rightarrow> basemap_provider \<Rightarrow> nat \<Rightarrow> nat \<Rightarrow> ('s service, nat \<times> nat) io" where
  "end_completed be provider downloaded failed =
     (let pid = bp_provider_id provider
      in seq (on_store (execute (clear_cursor_sync pid)))
        (seq (on_store (execute (clear_failed_for_provider_sync pid)))
        (bnd (unix_time be) (\<lambda>now.
         seq (on_store (execute (set_last_completed_sync pid now)))
        (seq (on_store (execute (close_circuit_sync pid)))
        (seq (record_sweep_stats be pid downloaded failed True)
             (ret (downloaded, failed))))))))"

definition finish_sweep ::
  "scraper_config \<Rightarrow> 's backend \<Rightarrow> basemap_provider \<Rightarrow> provider_health option \<Rightarrow> sweep_state \<Rightarrow> nat \<Rightarrow> nat
     \<Rightarrow> ('s service, nat \<times> nat) io" where
  "finish_sweep cfg be provider health sw downloaded failed =
     (if sw_tripped sw then end_tripped cfg be provider health sw downloaded failed
      else if sw_storage_abandoned sw
      then seq (finish_abandoned_sweep be provider downloaded failed) (ret (downloaded, failed))
      else if sw_storage_errors sw > 0 then end_storage_errors be provider downloaded failed
      else end_completed be provider downloaded failed)"

definition scrape_provider ::
  "scraper_config \<Rightarrow> 's backend \<Rightarrow> basemap_provider \<Rightarrow> ('s service, nat \<times> nat) io" where
  "scrape_provider cfg be provider =
     (let pid = bp_provider_id provider
      in bnd (reads sv_storage_down_this_cycle) (\<lambda>down.
         if down then ret (0, 0)
         else
           bnd (unix_time be) (\<lambda>now.
           bnd (on_store (query (get_health_sync pid))) (\<lambda>health.
           if (case health of Some h \<Rightarrow> ph_cooldown_until h > now | None \<Rightarrow> False) then ret (0, 0)
           else
             let max_zoom = min (bp_cache_max_zoom provider) (sg_cache_max_zoom cfg)
             in bnd (on_store (query (get_cursor_sync pid))) (\<lambda>cursor.
                bnd (if cursor = None then on_store (query (get_last_completed_sync pid)) else ret None)
                  (\<lambda>last_completed.
                if (case last_completed of Some t \<Rightarrow> (t + sg_sync_interval cfg) - now > 0 | None \<Rightarrow> False)
                then ret (0, 0)
                else
                  let zoom_start = (case cursor of Some c \<Rightarrow> cur_zoom c | None \<Rightarrow> bp_min_zoom provider);
                      index_start = (case cursor of Some c \<Rightarrow> cur_tile_index c | None \<Rightarrow> 0)
                  in bnd (with_sweep (scrape_zooms cfg be provider zoom_start index_start
                            [zoom_start..<Suc max_zoom] 0 0))
                       (\<lambda>((downloaded, failed), sw).
                          finish_sweep cfg be provider health sw downloaded failed)))))))"

section \<open>One cycle\<close>

definition ensure_lifecycle_applied :: "scraper_config \<Rightarrow> 's backend \<Rightarrow> ('s service, unit) io" where
  "ensure_lifecycle_applied cfg be =
     bnd (reads sv_lifecycle_applied) (\<lambda>applied.
       if applied then ret ()
       else bnd (on_world (be_ensure_lifecycle be (sg_s3_object_ttl_days cfg))) (\<lambda>ok.
         if ok then modify (\<lambda>sv. sv\<lparr> sv_lifecycle_applied := True \<rparr>) else ret ()))"

text \<open>
  \<^verbatim>\<open>urlparse(template).netloc\<close> for an address without control characters: a leading
  scheme is dropped, then the authority follows two slashes.
\<close>

definition is_scheme_char :: "char \<Rightarrow> bool" where
  "is_scheme_char c =
     (let n = (of_char c :: nat)
      in (97 \<le> n \<and> n \<le> 122) \<or> (65 \<le> n \<and> n \<le> 90) \<or> (48 \<le> n \<and> n \<le> 57)
         \<or> c = CHR ''+'' \<or> c = CHR ''-'' \<or> c = CHR ''.'')"

definition is_alpha :: "char \<Rightarrow> bool" where
  "is_alpha c = (let n = (of_char c :: nat) in (97 \<le> n \<and> n \<le> 122) \<or> (65 \<le> n \<and> n \<le> 90))"

definition url_netloc :: "string \<Rightarrow> string" where
  "url_netloc url =
     (let scheme = takeWhile ((\<noteq>) (CHR '':'')) url;
          rest = (if CHR '':'' \<in> set url \<and> scheme \<noteq> [] \<and> is_alpha (hd scheme) \<and> list_all is_scheme_char scheme
                  then drop (Suc (length scheme)) url else url)
      in if prefix ''//'' rest
         then takeWhile (\<lambda>c. c \<noteq> CHR ''/'' \<and> c \<noteq> CHR ''?'' \<and> c \<noteq> CHR ''#'') (drop 2 rest)
         else [])"

text \<open>\<^verbatim>\<open>by_host[host].append(provider)\<close> on a \<^verbatim>\<open>defaultdict(list)\<close>.\<close>

fun append_group :: "('k \<times> 'v list) list \<Rightarrow> 'k \<Rightarrow> 'v \<Rightarrow> ('k \<times> 'v list) list" where
  "append_group [] k v = [(k, [v])]"
| "append_group ((k', vs) # gs) k v =
     (if k' = k then (k', vs @ [v]) # gs else (k', vs) # append_group gs k v)"

definition build_scrape_groups :: "scraper_config \<Rightarrow> basemap_provider list list" where
  "build_scrape_groups cfg =
     (let providers = map snd (sg_providers cfg)
      in if providers = [] then []
         else if sg_parallelism_mode cfg = ''full'' then map (\<lambda>p. [p]) providers
         else if sg_parallelism_mode cfg = ''per_origin''
         then map snd (foldl (\<lambda>gs p. append_group gs (url_netloc (bp_source_url_template p)) p) [] providers)
         else [providers])"

text \<open>\<^verbatim>\<open>_record_cycle\<close>: never aborts the scrape (a cancellation still does).\<close>

definition record_cycle :: "'s backend \<Rightarrow> nat \<Rightarrow> nat \<Rightarrow> ('s service, unit) io" where
  "record_cycle be downloaded errors =
     (case be_record_sync_cycle be of
        None \<Rightarrow> ret ()
      | Some rec \<Rightarrow>
          bnd (catching (\<lambda>e. e \<noteq> CancelledError)
                 (on_world (rec downloaded errors (if errors > 0 then ''error'' else ''ok''))))
              (\<lambda>_. ret ()))"

fun scrape_group ::
  "scraper_config \<Rightarrow> 's backend \<Rightarrow> basemap_provider list \<Rightarrow> nat \<Rightarrow> nat \<Rightarrow> ('s service, nat \<times> nat) io" where
  "scrape_group cfg be [] ok failed = ret (ok, failed)"
| "scrape_group cfg be (provider # rest) ok failed =
     bnd (scrape_provider cfg be provider) (\<lambda>(downloaded, group_failed).
     seq (if downloaded > 0 \<or> group_failed > 0 then record_cycle be downloaded group_failed else ret ())
         (scrape_group cfg be rest (ok + downloaded) (failed + group_failed)))"

text \<open>
  One cycle. The groups run one after another here: exact in the default sequential
  mode, which has one group, and one of the schedules of \<^verbatim>\<open>gather\<close> otherwise.
\<close>

definition run_sync :: "scraper_config \<Rightarrow> 's backend \<Rightarrow> ('s service, (nat \<times> nat) list) io" where
  "run_sync cfg be =
     seq (modify (\<lambda>sv. sv\<lparr> sv_storage_retry_due := False, sv_storage_down_this_cycle := False \<rparr>))
    (seq (ensure_lifecycle_applied cfg be)
         (for_each (build_scrape_groups cfg) (\<lambda>g. scrape_group cfg be g 0 0)))"

fun soonest_due ::
  "scraper_config \<Rightarrow> int \<Rightarrow> string list \<Rightarrow> rat \<Rightarrow> bool \<Rightarrow> (state_store, rat \<times> bool) io" where
  "soonest_due cfg now [] soonest any_ready = ret (soonest, any_ready)"
| "soonest_due cfg now (pid # pids) soonest any_ready =
     bnd (query (get_health_sync pid)) (\<lambda>health.
       let cooldown_remaining =
             (case health of
                Some h \<Rightarrow> if ph_cooldown_until h > now then ph_cooldown_until h - now else 0
              | None \<Rightarrow> 0)
       in if cooldown_remaining > 0
          then soonest_due cfg now pids (min soonest (of_int cooldown_remaining)) any_ready
          else bnd (query (get_cursor_sync pid)) (\<lambda>cursor.
            if cursor \<noteq> None then soonest_due cfg now pids soonest True
            else bnd (query (get_last_completed_sync pid)) (\<lambda>last.
              let remaining = (case last of None \<Rightarrow> 0 | Some t \<Rightarrow> max 0 ((t + sg_sync_interval cfg) - now))
              in if remaining \<le> 0 then soonest_due cfg now pids soonest True
                 else soonest_due cfg now pids (min soonest (of_int remaining)) any_ready)))"

definition compute_next_sleep :: "scraper_config \<Rightarrow> 's backend \<Rightarrow> rat \<Rightarrow> ('s service, rat) io" where
  "compute_next_sleep cfg be default_sleep =
     bnd (reads sv_storage_retry_due) (\<lambda>retry_due.
       if retry_due then ret STORAGE_RETRY_FLOOR_SECONDS
       else
         bnd (unix_time be) (\<lambda>now.
         bnd (on_store (soonest_due cfg now (map fst (sg_providers cfg)) default_sleep False))
           (\<lambda>(soonest, any_ready). ret (if any_ready then 0 else max 60 soonest))))"

end
