(* ===== verification/Basemap_Sweep.thy ===== *)
theory Basemap_Sweep
  imports Basemap_Scraper
begin

text \<open>
  Correctness of the resumable sweep: the watermark is the least index not finished,
  the cursor on disk never runs ahead of it, and whatever ends a zoom (its end, a
  trip, an abandonment, an exception, a cancellation) leaves a cursor from which no
  attempted tile is lost.
\<close>

section \<open>Watermark\<close>

declare drain_above.simps [simp del] bump_pct.simps [simp del]

definition watermark_inv :: "nat \<Rightarrow> nat set \<Rightarrow> nat \<Rightarrow> nat list \<Rightarrow> bool" where
  "watermark_inv resume D wm da \<longleftrightarrow>
     resume \<le> wm \<and> {resume..<wm} \<subseteq> D \<and> wm \<notin> D \<and> set da = {i \<in> D. wm < i} \<and> (\<forall>i\<in>D. resume \<le> i)"

lemma drain_above_spec:
  assumes "drain_above w da = (w', da')"
  shows "w \<le> w' \<and> {w..<w'} \<subseteq> set da \<and> w' \<notin> set da \<and> set da' = set da - {w..<w'}"
  using assms
proof (induction w da rule: drain_above.induct)
  case (1 w da)
  show ?case
  proof (cases "w \<in> set da")
    case True
    then have "drain_above (Suc w) (removeAll w da) = (w', da')"
      using "1.prems" by (simp add: drain_above.simps [of w da])
    from "1.IH" [OF True this]
    have ih: "Suc w \<le> w'" "{Suc w..<w'} \<subseteq> set da - {w}" "w' \<notin> set da - {w}"
        "set da' = set da - {w} - {Suc w..<w'}" by auto
    have "{w..<w'} = insert w {Suc w..<w'}" using ih(1) by auto
    then show ?thesis using True ih by auto
  next
    case False
    then show ?thesis using "1.prems" by (simp add: drain_above.simps [of w da])
  qed
qed

lemma step_watermark_inv:
  assumes inv: "watermark_inv resume D wm da" and idx: "idx \<notin> D" "resume \<le> idx"
    and st: "step_watermark idx wm da = (wm', da')"
  shows "watermark_inv resume (insert idx D) wm' da' \<and> wm \<le> wm'"
proof (cases "idx = wm")
  case True
  then have "drain_above (Suc wm) da = (wm', da')" using st by (simp add: step_watermark_def)
  from drain_above_spec [OF this]
  have d: "Suc wm \<le> wm'" "{Suc wm..<wm'} \<subseteq> set da" "wm' \<notin> set da" "set da' = set da - {Suc wm..<wm'}"
    by auto
  have "{resume..<wm'} = {resume..<wm} \<union> {wm} \<union> {Suc wm..<wm'}"
    using d(1) inv by (auto simp: watermark_inv_def)
  then show ?thesis using inv True d unfolding watermark_inv_def by auto
next
  case False
  then have "wm < idx" using inv idx by (auto simp: watermark_inv_def subset_iff)
  then show ?thesis using inv idx False st by (auto simp: step_watermark_def watermark_inv_def)
qed

lemma watermark_least:
  "watermark_inv resume D wm da \<Longrightarrow> wm = (LEAST i. resume \<le> i \<and> i \<notin> D)"
  by (rule Least_equality [symmetric])
     (auto simp: watermark_inv_def subset_iff not_less [symmetric])

lemma watermark_inv_start: "watermark_inv resume {} resume []"
  by (simp add: watermark_inv_def)

fun watermarks :: "nat list \<Rightarrow> nat \<times> nat list \<Rightarrow> nat \<times> nat list" where
  "watermarks [] p = p"
| "watermarks (i # is) p = watermarks is (step_watermark i (fst p) (snd p))"

lemma watermarks_inv:
  assumes "watermark_inv resume D (fst p) (snd p)" "distinct is" "set is \<inter> D = {}" "\<forall>i\<in>set is. resume \<le> i"
  shows "watermark_inv resume (D \<union> set is) (fst (watermarks is p)) (snd (watermarks is p))"
  using assms
proof (induction "is" p arbitrary: D rule: watermarks.induct)
  case (2 i js p)
  obtain wm' da' where st: "step_watermark i (fst p) (snd p) = (wm', da')"
    by (cases "step_watermark i (fst p) (snd p)")
  have "watermark_inv resume (insert i D) wm' da'"
    using step_watermark_inv [OF 2(2) _ _ st] 2(3-5) by auto
  then show ?case using "2.IH" [of "insert i D"] 2(3-5) st by auto
qed simp

text \<open>
  C8. Completions may arrive in any order: after handling distinct indices from the
  resume point on, the watermark is exactly the least index not handled, and the side
  set holds exactly the handled indices above it.
\<close>

theorem watermark_is_least_unhandled:
  assumes "distinct is" "\<forall>i\<in>set is. resume \<le> i"
  shows "fst (watermarks is (resume, [])) = (LEAST i. resume \<le> i \<and> i \<notin> set is)
         \<and> set (snd (watermarks is (resume, []))) = {i \<in> set is. fst (watermarks is (resume, [])) < i}"
proof -
  have "watermark_inv resume ({} \<union> set is) (fst (watermarks is (resume, []))) (snd (watermarks is (resume, [])))"
    by (rule watermarks_inv) (use assms in \<open>auto simp: watermark_inv_start\<close>)
  then show ?thesis using watermark_least by (auto simp: watermark_inv_def)
qed

theorem watermark_is_least_unhandled_witness:
  "fst (watermarks [6, 4, 5, 9] (4, [])) = (LEAST i. 4 \<le> i \<and> i \<notin> set [6, 4, 5, 9])"
  using watermark_is_least_unhandled [of "[6, 4, 5, 9]" 4] by simp

section \<open>The store behind the service\<close>

definition store_open :: "state_store \<Rightarrow> bool" where
  "store_open s = (ss_connected s \<and> ss_file s \<noteq> None)"

abbreviation db_of :: "'s service \<Rightarrow> basemap_db" where
  "db_of sv \<equiv> the (ss_file (sv_store sv))"

lemma on_store_execute:
  "store_open (sv_store sv) \<Longrightarrow>
   on_store (execute u) sv = (Inr (), sv\<lparr> sv_store := (sv_store sv)\<lparr> ss_file := Some (u (db_of sv)) \<rparr> \<rparr>)"
  by (auto simp: store_open_def on_store_def execute_apply)

lemma on_store_query:
  "store_open (sv_store sv) \<Longrightarrow> on_store (query q) sv = (Inr (q (db_of sv)), sv)"
  by (auto simp: store_open_def on_store_def query_apply)

lemma monotonic_run:
  "\<exists>t w. monotonic be sv = (Inr t, sv\<lparr> sv_world := w \<rparr>)"
  by (auto simp: monotonic_def on_world_def split: prod.splits)

lemma unix_time_run:
  "\<exists>t w. unix_time be sv = (Inr t, sv\<lparr> sv_world := w \<rparr>)"
  by (auto simp: unix_time_def on_world_def split: prod.splits)

text \<open>What a step of the service that only writes the store may change.\<close>

definition only_db :: "'s service \<Rightarrow> basemap_db \<Rightarrow> 's service \<Rightarrow> bool" where
  "only_db sv db sv' \<longleftrightarrow>
     sv_store sv' = (sv_store sv)\<lparr> ss_file := Some db \<rparr>
     \<and> sv_s3_circuit sv' = sv_s3_circuit sv \<and> sv_redis_circuit sv' = sv_redis_circuit sv
     \<and> sv_lifecycle_applied sv' = sv_lifecycle_applied sv
     \<and> sv_storage_retry_due sv' = sv_storage_retry_due sv
     \<and> sv_storage_down_this_cycle sv' = sv_storage_down_this_cycle sv"

lemma only_db_simps:
  "only_db sv db sv' \<Longrightarrow> db_of sv' = db"
  "only_db sv db sv' \<Longrightarrow> store_open (sv_store sv') = ss_connected (sv_store sv)"
  "only_db sv db sv' \<Longrightarrow> sv_s3_circuit sv' = sv_s3_circuit sv"
  by (auto simp: only_db_def store_open_def)

lemma set_cursor_run:
  assumes "store_open (sv_store sv)"
  shows "\<exists>now sv'. set_cursor be pid zoom i sv = (Inr (), sv')
           \<and> only_db sv (set_cursor_sync now pid zoom i (db_of sv)) sv'"
proof -
  obtain t w where t: "unix_time be sv = (Inr t, sv\<lparr> sv_world := w \<rparr>)" using unix_time_run [of be sv] by blast
  let ?sv' = "sv\<lparr> sv_world := w,
      sv_store := (sv_store sv)\<lparr> ss_file := Some (set_cursor_sync t pid zoom i (db_of sv)) \<rparr> \<rparr>"
  have "set_cursor be pid zoom i sv = (Inr (), ?sv')"
    using assms by (simp add: set_cursor_def bnd_apply t on_store_execute)
  then show ?thesis by (intro exI [of _ t] exI [of _ ?sv']) (auto simp: only_db_def)
qed

lemma advance_watermark_run:
  assumes "store_open (sv_store sv)" "step_watermark idx wm da = (wm', da')"
  shows "\<exists>fl now sv'. advance_watermark cfg be provider zoom idx wm da lf lft sv = (Inr (wm', da', fl), sv')
           \<and> only_db sv (if fl then set_cursor_sync now (bp_provider_id provider) zoom wm' (db_of sv)
                          else db_of sv) sv'
           \<and> (fl \<longrightarrow> lf < wm')"
proof -
  obtain t w where t: "monotonic be sv = (Inr t, sv\<lparr> sv_world := w \<rparr>)" using monotonic_run [of be sv] by blast
  let ?sv = "sv\<lparr> sv_world := w \<rparr>"
  obtain now sv' where c: "set_cursor be (bp_provider_id provider) zoom wm' ?sv = (Inr (), sv')"
    and o: "only_db ?sv (set_cursor_sync now (bp_provider_id provider) zoom wm' (db_of ?sv)) sv'"
    using set_cursor_run [of ?sv] assms(1) by fastforce
  have o': "only_db sv (set_cursor_sync now (bp_provider_id provider) zoom wm' (db_of sv)) sv'"
    using o by (auto simp: only_db_def)
  have n: "only_db sv (db_of sv) ?sv"
    using assms(1) by (auto simp: only_db_def store_open_def)
  show ?thesis
  proof (cases "(int wm' - int lf \<ge> sg_checkpoint_every cfg \<or> t - lft \<ge> sg_checkpoint_seconds cfg)
                \<and> int wm' - int lf > 0")
    case True
    then show ?thesis using o' c t assms(2)
      by (intro exI [of _ True] exI [of _ now] exI [of _ sv'])
         (auto simp: advance_watermark_def Let_def seq_def)
  next
    case False
    then show ?thesis using n t assms(2)
      by (intro exI [of _ False] exI [of _ ?sv])
         (auto simp: advance_watermark_def Let_def)
  qed
qed

section \<open>Handling one completion\<close>

lemma maybe_log_progress_simps [simp]:
  "pg_watermark (maybe_log_progress now pg) = pg_watermark pg"
  "pg_done_above (maybe_log_progress now pg) = pg_done_above pg"
  "pg_last_flushed (maybe_log_progress now pg) = pg_last_flushed pg"
  "pg_ok (maybe_log_progress now pg) = pg_ok pg"
  "pg_failed (maybe_log_progress now pg) = pg_failed pg"
  "pg_processed (maybe_log_progress now pg) = pg_processed pg"
  by (simp_all add: maybe_log_progress_def Let_def)

definition queued :: "string \<Rightarrow> tile_outcome \<Rightarrow> nat \<times> int \<times> int \<Rightarrow> basemap_db \<Rightarrow> basemap_db" where
  "queued pid outcome tile db =
     (if outcome = OK \<or> outcome = STORAGE_SKIPPED then db
      else case tile of (z, x, y) \<Rightarrow> add_failed_sync pid z x y db)"

definition completed_progress :: "tile_outcome \<Rightarrow> nat \<Rightarrow> nat list \<Rightarrow> bool \<Rightarrow> sweep_progress \<Rightarrow> sweep_progress \<Rightarrow> bool" where
  "completed_progress outcome wm' da' fl pg pg' \<longleftrightarrow>
     pg_watermark pg' = wm' \<and> pg_done_above pg' = da'
     \<and> pg_last_flushed pg' = (if fl then wm' else pg_last_flushed pg)
     \<and> pg_processed pg' = Suc (pg_processed pg)
     \<and> pg_ok pg' = (if outcome = OK then Suc (pg_ok pg) else pg_ok pg)
     \<and> pg_failed pg' = (if outcome = OK then pg_failed pg else Suc (pg_failed pg))"

lemma handle_completion_run:
  assumes op: "store_open (sv_store (co_service co))"
    and st: "step_watermark idx (pg_watermark (co_progress co)) (pg_done_above (co_progress co)) = (wm', da')"
  shows "\<exists>co' fl now. handle_completion cfg be provider zoom idx tile outcome co = (Inr (), co')
     \<and> co_sweep co' = (case tile of (z, x, y) \<Rightarrow>
          update_sweep_state cfg (sv_s3_circuit (co_service co)) outcome z x y (co_sweep co))
     \<and> co_tasks co' = co_tasks co \<and> co_history co' = co_history co
     \<and> only_db (co_service co)
          (let db1 = queued (bp_provider_id provider) outcome tile (db_of (co_service co))
           in if fl then set_cursor_sync now (bp_provider_id provider) zoom wm' db1 else db1) (co_service co')
     \<and> completed_progress outcome wm' da' fl (co_progress co) (co_progress co')
     \<and> (fl \<longrightarrow> pg_last_flushed (co_progress co) < wm')"
proof -
  let ?pid = "bp_provider_id provider" and ?sv = "co_service co" and ?pg = "co_progress co"
  obtain z x y where tile: "tile = (z, x, y)" by (cases tile)
  let ?sv1 = "if outcome = OK \<or> outcome = STORAGE_SKIPPED then ?sv
              else ?sv\<lparr> sv_store := (sv_store ?sv)\<lparr> ss_file := Some (add_failed_sync ?pid z x y (db_of ?sv)) \<rparr> \<rparr>"
  have op1: "store_open (sv_store ?sv1)" using op by (simp add: store_open_def)
  have db1: "db_of ?sv1 = queued ?pid outcome tile (db_of ?sv)" by (simp add: queued_def tile)
  obtain fl now sv2 where adv: "advance_watermark cfg be provider zoom idx (pg_watermark ?pg) (pg_done_above ?pg)
        (pg_last_flushed ?pg) (pg_last_flush_time ?pg) ?sv1 = (Inr (wm', da', fl), sv2)"
    and o2: "only_db ?sv1 (if fl then set_cursor_sync now ?pid zoom wm' (db_of ?sv1) else db_of ?sv1) sv2"
    and lt: "fl \<longrightarrow> pg_last_flushed ?pg < wm'"
    using advance_watermark_run [OF op1 st, of cfg be provider zoom "pg_last_flushed ?pg" "pg_last_flush_time ?pg"]
    by blast
  obtain t3 w3 where m3: "monotonic be sv2 = (Inr t3, sv2\<lparr> sv_world := w3 \<rparr>)"
    using monotonic_run [of be sv2] by blast
  obtain t4 w4 where m4: "monotonic be (sv2\<lparr> sv_world := w3 \<rparr>) = (Inr t4, sv2\<lparr> sv_world := w3, sv_world := w4 \<rparr>)"
    using monotonic_run [of be "sv2\<lparr> sv_world := w3 \<rparr>"] by blast
  let ?co' = "snd (handle_completion cfg be provider zoom idx tile outcome co)"
  have run: "handle_completion cfg be provider zoom idx tile outcome co = (Inr (), ?co')"
    using adv op m3 m4
    by (cases fl; cases outcome)
       (simp_all add: handle_completion_def tile seq_def bnd_apply modify_def on_service_def on_store_execute)
  have svc: "co_service ?co' = sv2\<lparr> sv_world := (if fl then w4 else w3) \<rparr>"
    using adv op m3 m4
    by (cases fl; cases outcome)
       (simp_all add: handle_completion_def tile seq_def bnd_apply modify_def on_service_def on_store_execute)
  have rest: "co_sweep ?co' = update_sweep_state cfg (sv_s3_circuit ?sv) outcome z x y (co_sweep co)
     \<and> co_tasks ?co' = co_tasks co \<and> co_history ?co' = co_history co"
    using adv op m3 m4
    by (cases fl; cases outcome)
       (simp_all add: handle_completion_def tile seq_def bnd_apply modify_def on_service_def on_store_execute)
  have pg: "completed_progress outcome wm' da' fl ?pg (co_progress ?co')"
    using adv op m3 m4
    by (cases fl; cases outcome)
       (simp_all add: handle_completion_def tile seq_def bnd_apply modify_def on_service_def on_store_execute
          completed_progress_def)
  have "only_db ?sv (let db1 = queued ?pid outcome tile (db_of ?sv)
           in if fl then set_cursor_sync now ?pid zoom wm' db1 else db1) (co_service ?co')"
    using o2 unfolding svc db1 by (auto simp: only_db_def Let_def split: if_splits)
  then show ?thesis using run rest pg lt tile by (intro exI [of _ ?co'] exI [of _ fl] exI [of _ now]) simp
qed

section \<open>Invariant of a sweep\<close>

text \<open>
  What the event loop guarantees a sweep while it awaits: the next completion is one
  of its own tasks, the store stays open, and other coroutines do not write this
  provider's rows (they are keyed by provider, and one sweep runs per provider).
\<close>

definition scheduler_ok :: "'s backend \<Rightarrow> string \<Rightarrow> bool" where
  "scheduler_ok be pid \<longleftrightarrow>
     (\<forall>provider zoom tasks sv. tasks \<noteq> [] \<longrightarrow> store_open (sv_store sv) \<longrightarrow>
        (case be_next be provider zoom tasks sv of (r, sv') \<Rightarrow>
           store_open (sv_store sv') \<and> provider_rows pid (db_of sv') = provider_rows pid (db_of sv)
           \<and> (case r of Inl e \<Rightarrow> True | Inr (i, oc) \<Rightarrow> i \<in> set tasks))
      \<and> (case be_cancel be tasks sv of (r, sv') \<Rightarrow>
           store_open (sv_store sv') \<and> provider_rows pid (db_of sv') = provider_rows pid (db_of sv)))"

lemma scheduler_next:
  assumes "scheduler_ok be pid" "tasks \<noteq> []" "store_open (sv_store sv)"
    and "be_next be provider zoom tasks sv = (r, sv')"
  shows "store_open (sv_store sv') \<and> provider_rows pid (db_of sv') = provider_rows pid (db_of sv)
         \<and> (case r of Inl e \<Rightarrow> True | Inr (i, oc) \<Rightarrow> i \<in> set tasks)"
proof -
  have "case be_next be provider zoom tasks sv of (r, sv') \<Rightarrow>
           store_open (sv_store sv') \<and> provider_rows pid (db_of sv') = provider_rows pid (db_of sv)
           \<and> (case r of Inl e \<Rightarrow> True | Inr (i, oc) \<Rightarrow> i \<in> set tasks)"
    by (rule assms(1) [unfolded scheduler_ok_def, rule_format, OF assms(2,3), THEN conjunct1])
  then show ?thesis by (simp add: assms(4))
qed

lemma scheduler_cancel:
  assumes "scheduler_ok be pid" "tasks \<noteq> []" "store_open (sv_store sv)" "be_cancel be tasks sv = (r, sv')"
  shows "store_open (sv_store sv') \<and> provider_rows pid (db_of sv') = provider_rows pid (db_of sv)"
proof -
  have "case be_cancel be tasks sv of (r, sv') \<Rightarrow>
           store_open (sv_store sv') \<and> provider_rows pid (db_of sv') = provider_rows pid (db_of sv)"
    by (rule assms(1) [unfolded scheduler_ok_def, rule_format, OF assms(2,3), THEN conjunct2])
  then show ?thesis by (simp add: assms(4))
qed

abbreviation handled :: "'s sweep \<Rightarrow> nat set" where
  "handled co \<equiv> fst ` set (co_history co)"

definition sweep_inv ::
  "string \<Rightarrow> nat \<Rightarrow> (nat \<times> int \<times> int) list \<Rightarrow> nat \<Rightarrow> cursor option \<Rightarrow> 's sweep \<Rightarrow> bool" where
  "sweep_inv pid zoom coords resume c0 co \<longleftrightarrow>
     (let pg = co_progress co; H = co_history co; db = db_of (co_service co)
      in store_open (sv_store (co_service co))
         \<and> distinct (map fst H) \<and> handled co \<subseteq> {resume..<length coords}
         \<and> watermark_inv resume (handled co) (pg_watermark pg) (pg_done_above pg)
         \<and> pg_ok pg = length (filter (\<lambda>h. snd h = OK) H) \<and> pg_ok pg + pg_failed pg = length H
         \<and> pg_processed pg = length H
         \<and> (\<forall>(i, oc) \<in> set H. oc \<noteq> OK \<longrightarrow> oc \<noteq> STORAGE_SKIPPED \<longrightarrow> snd (coords ! i) \<in> failed_tiles pid zoom db)
         \<and> resume \<le> pg_last_flushed pg \<and> pg_last_flushed pg \<le> pg_watermark pg
         \<and> get_cursor_sync pid db =
             (if pg_last_flushed pg = resume then c0
              else Some \<lparr> cur_zoom = zoom, cur_tile_index = pg_last_flushed pg \<rparr>))"

lemma sweep_inv_env:
  assumes "sweep_inv pid zoom coords resume c0 co" "store_open (sv_store sv')"
    and "provider_rows pid (db_of sv') = provider_rows pid (db_of (co_service co))"
  shows "sweep_inv pid zoom coords resume c0 (co\<lparr> co_service := sv' \<rparr>)"
proof -
  have "failed_tiles pid zoom (db_of sv') = failed_tiles pid zoom (db_of (co_service co))"
       "get_cursor_sync pid (db_of sv') = get_cursor_sync pid (db_of (co_service co))"
    using assms(3) by (auto simp: provider_rows_def fun_eq_iff)
  then show ?thesis using assms(1,2) by (simp add: sweep_inv_def Let_def)
qed

lemma sweep_inv_completion:
  assumes inv: "sweep_inv pid zoom coords resume c0 co"
    and idx: "idx \<in> {resume..<length coords}" "idx \<notin> handled co"
    and zoom: "\<forall>t \<in> set coords. fst t = zoom"
    and pid: "pid = bp_provider_id provider"
    and co1_def: "co1 = co\<lparr> co_tasks := ts, co_history := co_history co @ [(idx, oc)] \<rparr>"
  shows "\<exists>co'. handle_completion cfg be provider zoom idx (coords ! idx) oc co1 = (Inr (), co')
           \<and> sweep_inv pid zoom coords resume c0 co' \<and> co_tasks co' = ts
           \<and> co_history co' = co_history co @ [(idx, oc)]"
proof -
  obtain wm' da' where st:
      "step_watermark idx (pg_watermark (co_progress co)) (pg_done_above (co_progress co)) = (wm', da')"
    by (cases "step_watermark idx (pg_watermark (co_progress co)) (pg_done_above (co_progress co))")
  have op: "store_open (sv_store (co_service co1))" using inv by (simp add: co1_def sweep_inv_def Let_def)
  obtain co' fl now where run:
      "handle_completion cfg be provider zoom idx (coords ! idx) oc co1 = (Inr (), co')"
    and keep: "co_tasks co' = co_tasks co1" "co_history co' = co_history co1"
    and db: "only_db (co_service co1)
          (let db1 = queued pid oc (coords ! idx) (db_of (co_service co1))
           in if fl then set_cursor_sync now pid zoom wm' db1 else db1) (co_service co')"
    and pg: "completed_progress oc wm' da' fl (co_progress co1) (co_progress co')"
    and fl: "fl \<longrightarrow> pg_last_flushed (co_progress co1) < wm'"
    using handle_completion_run [OF op, of idx wm' da' cfg be provider zoom "coords ! idx" oc] st pid
    by (auto simp: co1_def)
  have wm: "watermark_inv resume (insert idx (handled co)) wm' da'"
       "pg_watermark (co_progress co) \<le> wm'"
    using step_watermark_inv [OF _ idx(2) _ st, of resume] inv idx(1) by (auto simp: sweep_inv_def Let_def)
  obtain x y where tile: "coords ! idx = (zoom, x, y)"
    using zoom idx(1) by (metis atLeastLessThan_iff nth_mem prod.collapse)
  have q: "failed_tiles pid zoom (db_of (co_service co')) =
        (if oc = OK \<or> oc = STORAGE_SKIPPED then failed_tiles pid zoom (db_of (co_service co))
         else insert (x, y) (failed_tiles pid zoom (db_of (co_service co))))"
    using db by (simp add: only_db_def Let_def queued_def tile co1_def)
  have c: "get_cursor_sync pid (db_of (co_service co')) =
        (if fl then Some \<lparr> cur_zoom = zoom, cur_tile_index = wm' \<rparr>
         else get_cursor_sync pid (db_of (co_service co)))"
    using db by (simp add: only_db_def Let_def queued_def tile co1_def)
  have "store_open (sv_store (co_service co'))"
    using db op by (simp add: only_db_def store_open_def)
  then have "sweep_inv pid zoom coords resume c0 co'"
    using inv idx wm pg fl q c tile keep
    by (auto simp: sweep_inv_def Let_def completed_progress_def co1_def split: if_splits)
  then show ?thesis using run keep by (auto simp: co1_def)
qed

section \<open>Draining the tasks of a chunk\<close>

definition drain_inv ::
  "string \<Rightarrow> nat \<Rightarrow> (nat \<times> int \<times> int) list \<Rightarrow> nat \<Rightarrow> cursor option \<Rightarrow> nat set \<Rightarrow> 's sweep \<Rightarrow> bool" where
  "drain_inv pid zoom coords resume c0 S co \<longleftrightarrow>
     sweep_inv pid zoom coords resume c0 co \<and> distinct (co_tasks co)
     \<and> set (co_tasks co) \<inter> handled co = {} \<and> set (co_tasks co) \<subseteq> {resume..<length coords}
     \<and> handled co \<union> set (co_tasks co) = S"

lemma drain_tasks_valid:
  assumes sched: "scheduler_ok be (bp_provider_id provider)"
    and zoom: "\<forall>t \<in> set coords. fst t = zoom"
  shows "valid (\<lambda>co. drain_inv (bp_provider_id provider) zoom coords resume c0 S co \<and> length (co_tasks co) = n)
           (drain_tasks cfg be provider zoom coords n)
           (\<lambda>_ co. drain_inv (bp_provider_id provider) zoom coords resume c0 S co
                    \<and> (halted (co_sweep co) \<or> co_tasks co = []))
           (\<lambda>_. drain_inv (bp_provider_id provider) zoom coords resume c0 S)"
proof (induction n)
  case 0
  show ?case by (auto simp: valid_def)
next
  case (Suc n)
  let ?pid = "bp_provider_id provider"
  let ?I = "drain_inv ?pid zoom coords resume c0 S"
  show ?case
  proof (rule validI)
    fix co :: "'a sweep"
    assume "?I co \<and> length (co_tasks co) = Suc n"
    then have inv: "?I co" and len: "length (co_tasks co) = Suc n" by auto
    then have ne: "co_tasks co \<noteq> []" and op: "store_open (sv_store (co_service co))"
      by (auto simp: drain_inv_def sweep_inv_def Let_def)
    obtain r sv' where nx: "be_next be provider zoom (co_tasks co) (co_service co) = (r, sv')"
      by (cases "be_next be provider zoom (co_tasks co) (co_service co)")
    have env: "store_open (sv_store sv')" "provider_rows ?pid (db_of sv') = provider_rows ?pid (db_of (co_service co))"
      "case r of Inl e \<Rightarrow> True | Inr (i, oc) \<Rightarrow> i \<in> set (co_tasks co)"
      using scheduler_next [OF sched ne op nx] by auto
    let ?co = "co\<lparr> co_service := sv' \<rparr>"
    have inv': "?I ?co" using inv sweep_inv_env [OF _ env(1,2)] by (auto simp: drain_inv_def)
    show "case drain_tasks cfg be provider zoom coords (Suc n) co of
            (Inr x, w') \<Rightarrow> ?I w' \<and> (halted (co_sweep w') \<or> co_tasks w' = [])
          | (Inl e, w') \<Rightarrow> ?I w'"
    proof (cases r)
      case (Inl e)
      then show ?thesis using nx inv' by (simp add: bnd_apply on_service_def)
    next
      case (Inr p)
      obtain idx oc where p: "p = (idx, oc)" by (cases p)
      have it: "idx \<in> set (co_tasks co)" using env(3) Inr p by simp
      let ?ts = "removeAll idx (co_tasks co)"
      have s1: "sweep_inv ?pid zoom coords resume c0 ?co" and s2: "idx \<in> {resume..<length coords}"
        and s3: "idx \<notin> handled ?co"
        using inv' it by (auto simp: drain_inv_def)
      obtain co' where h: "handle_completion cfg be provider zoom idx (coords ! idx) oc
            (?co\<lparr> co_tasks := ?ts, co_history := co_history ?co @ [(idx, oc)] \<rparr>) = (Inr (), co')"
        and si: "sweep_inv ?pid zoom coords resume c0 co'" "co_tasks co' = ?ts"
          "co_history co' = co_history co @ [(idx, oc)]"
        using sweep_inv_completion [OF s1 s2 s3 zoom refl refl, where ts = ?ts and oc = oc and cfg = cfg and be = be] by auto
      have len': "length (co_tasks co') = n"
      proof -
        have "distinct (co_tasks co)" using inv by (simp add: drain_inv_def)
        then have "removeAll idx (co_tasks co) = remove1 idx (co_tasks co)"
          by (simp add: distinct_remove1_removeAll)
        then show ?thesis using len it si(2) by (simp add: length_remove1)
      qed
      have I': "?I co'"
        using inv it si unfolding drain_inv_def by (auto simp: distinct_removeAll)
      have eq: "drain_tasks cfg be provider zoom coords (Suc n) co =
          (if halted (co_sweep co') then (Inr (), co') else drain_tasks cfg be provider zoom coords n co')"
        using nx h Inr p by (simp add: bnd_apply seq_def modify_def on_service_def)
      show ?thesis
        unfolding eq using I' len' Suc.IH [unfolded valid_def, rule_format, of co'] by simp
    qed
  qed
qed

section \<open>A whole zoom level\<close>

definition chunk_inv ::
  "string \<Rightarrow> nat \<Rightarrow> (nat \<times> int \<times> int) list \<Rightarrow> nat \<Rightarrow> cursor option \<Rightarrow> nat \<Rightarrow> 's sweep \<Rightarrow> bool" where
  "chunk_inv pid zoom coords resume c0 k co \<longleftrightarrow>
     sweep_inv pid zoom coords resume c0 co
     \<and> (halted (co_sweep co) \<or> handled co = {resume..<k})"

lemma sweep_chunk_valid:
  assumes sched: "scheduler_ok be (bp_provider_id provider)" and zoom: "\<forall>t \<in> set coords. fst t = zoom"
    and range: "resume \<le> a" "a \<le> b" "b \<le> length coords"
  shows "valid (\<lambda>co. sweep_inv (bp_provider_id provider) zoom coords resume c0 co \<and> handled co = {resume..<a})
           (sweep_chunk cfg be provider zoom coords a b)
           (\<lambda>_. chunk_inv (bp_provider_id provider) zoom coords resume c0 b)
           (\<lambda>_. sweep_inv (bp_provider_id provider) zoom coords resume c0)"
proof -
  let ?pid = "bp_provider_id provider"
  let ?I = "drain_inv ?pid zoom coords resume c0 {resume..<b}"
  let ?fin = "bnd (reads co_tasks) (\<lambda>pending. if pending = [] then ret () else on_service (be_cancel be pending))"
  have cancel: "valid Q ?fin (\<lambda>_. Q') (\<lambda>_. sweep_inv ?pid zoom coords resume c0)"
    if q: "\<And>co. Q co \<Longrightarrow> sweep_inv ?pid zoom coords resume c0 co"
      and q': "\<And>co. Q co \<Longrightarrow> co_tasks co = [] \<Longrightarrow> Q' co"
      and q'': "\<And>co sv'. Q co \<Longrightarrow> co_tasks co \<noteq> [] \<Longrightarrow>
                  sweep_inv ?pid zoom coords resume c0 (co\<lparr> co_service := sv' \<rparr>) \<Longrightarrow> Q' (co\<lparr> co_service := sv' \<rparr>)"
    for Q Q' :: "'a sweep \<Rightarrow> bool"
  proof (rule validI)
    fix co assume Q: "Q co"
    show "case ?fin co of (Inr x, w') \<Rightarrow> Q' w' | (Inl e, w') \<Rightarrow> sweep_inv ?pid zoom coords resume c0 w'"
    proof (cases "co_tasks co = []")
      case True
      then show ?thesis using q' [OF Q] by (simp add: bnd_apply)
    next
      case False
      obtain r sv' where c: "be_cancel be (co_tasks co) (co_service co) = (r, sv')"
        by (cases "be_cancel be (co_tasks co) (co_service co)")
      have "sweep_inv ?pid zoom coords resume c0 (co\<lparr> co_service := sv' \<rparr>)"
        using scheduler_cancel [OF sched False _ c] q [OF Q]
        by (intro sweep_inv_env) (auto simp: sweep_inv_def Let_def)
      then show ?thesis using False c q'' [OF Q False] by (auto simp: bnd_apply on_service_def split: sum.split)
    qed
  qed
  have body: "valid (\<lambda>co. ?I co \<and> length (co_tasks co) = b - a)
      (try_finally (drain_tasks cfg be provider zoom coords (b - a)) ?fin)
      (\<lambda>_. chunk_inv ?pid zoom coords resume c0 b) (\<lambda>_. sweep_inv ?pid zoom coords resume c0)"
    by (rule valid_finally [OF drain_tasks_valid [OF sched zoom]]; rule cancel)
       (auto simp: drain_inv_def chunk_inv_def)
  show ?thesis
    unfolding sweep_chunk_def
    by (rule valid_seq [OF valid_modify body])
       (use range in \<open>auto simp: drain_inv_def sweep_inv_def Let_def\<close>)
qed

lemma py_range_Cons: "0 < s \<Longrightarrow> a < b \<Longrightarrow> py_range a b s = a # py_range (a + s) b s"
proof -
  assume s: "0 < s" and ab: "a < b"
  have "b - a + s - 1 = (b - (a + s) + s - 1) + s \<or> b \<le> a + s" using ab by linarith
  then have n: "(b - a + s - 1) div s = Suc ((b - (a + s) + s - 1) div s)"
  proof
    assume e: "b - a + s - 1 = (b - (a + s) + s - 1) + s"
    have "((b - (a + s) + s - 1) + s) div s = Suc ((b - (a + s) + s - 1) div s)"
      using s by (simp only: div_add_self2)
    then show ?thesis unfolding e .
  next
    assume "b \<le> a + s"
    then have "b - (a + s) + s - 1 = s - 1" "s \<le> b - a + s - 1" "b - a + s - 1 < 2 * s" using ab s by auto
    then show ?thesis using s by (simp add: div_nat_eqI)
  qed
  show ?thesis
    unfolding py_range_def n by (simp add: upt_conv_Cons map_Suc_upt [symmetric] comp_def add.assoc del: upt_Suc)
qed

lemma py_range_Nil: "0 < s \<Longrightarrow> b \<le> a \<Longrightarrow> py_range a b s = []"
  by (simp add: py_range_def)

lemma on_service_valid:
  "valid P m Q E \<Longrightarrow> valid (\<lambda>co. P (co_service co)) (on_service m)
     (\<lambda>x co. Q x (co_service co)) (\<lambda>e co. E e (co_service co))"
  by (fastforce simp: valid_def on_service_def split: prod.splits sum.splits)

text \<open>Waiting for storage changes the world only.\<close>

lemma await_storage_keeps:
  "await_storage_cooldown_n be n sv = (r, sv') \<Longrightarrow> \<exists>w. sv' = sv\<lparr> sv_world := w \<rparr>"
proof (induction n arbitrary: sv)
  case 0
  obtain t w where m: "monotonic be sv = (Inr t, sv\<lparr> sv_world := w \<rparr>)" using monotonic_run [of be sv] by blast
  show ?case using 0 m
    by (auto simp: await_storage_cooldown_n.simps [of be 0] bnd_apply Let_def split: if_splits)
next
  case (Suc n)
  obtain t w where m: "monotonic be sv = (Inr t, sv\<lparr> sv_world := w \<rparr>)" using monotonic_run [of be sv] by blast
  obtain r2 w2 where s: "be_sleep be (cooldown_remaining t (sv_s3_circuit sv)) w = (r2, w2)"
    by (cases "be_sleep be (cooldown_remaining t (sv_s3_circuit sv)) w")
  show ?case using Suc m s
    by (cases r2)
       (fastforce simp: await_storage_cooldown_n.simps [of be "Suc n"] bnd_apply Let_def seq_def on_world_def
          split: if_splits)+
qed

lemma await_storage_valid:
  assumes "\<And>co w. P co \<Longrightarrow> P (co\<lparr> co_service := (co_service co)\<lparr> sv_world := w \<rparr> \<rparr>)"
  shows "valid P (on_service (await_storage_cooldown be)) (\<lambda>_. P) (\<lambda>_. P)"
proof (rule validI)
  fix co assume P: "P co"
  obtain r sv' where a: "await_storage_cooldown_n be (be_naps be) (co_service co) = (r, sv')"
    by (cases "await_storage_cooldown_n be (be_naps be) (co_service co)")
  obtain w where "sv' = (co_service co)\<lparr> sv_world := w \<rparr>" using await_storage_keeps [OF a] by blast
  then show "case on_service (await_storage_cooldown be) co of (Inr x, w') \<Rightarrow> P w' | (Inl e, w') \<Rightarrow> P w'"
    using a assms [OF P] by (simp add: on_service_def await_storage_cooldown_def split: sum.split)
qed

lemma sweep_inv_world:
  "sweep_inv pid zoom coords resume c0 (co\<lparr> co_service := (co_service co)\<lparr> sv_world := w \<rparr> \<rparr>)
     = sweep_inv pid zoom coords resume c0 co"
  by (simp add: sweep_inv_def Let_def)

lemma sweep_chunks_valid:
  assumes sched: "scheduler_ok be (bp_provider_id provider)" and zoom: "\<forall>t \<in> set coords. fst t = zoom"
    and w: "0 < sg_fanout_window cfg" and a: "resume \<le> a"
  shows "valid (\<lambda>co. sweep_inv (bp_provider_id provider) zoom coords resume c0 co
                      \<and> handled co = {resume..<min a (length coords)})
           (sweep_chunks cfg be provider zoom coords (py_range a (length coords) (sg_fanout_window cfg)))
           (\<lambda>_. chunk_inv (bp_provider_id provider) zoom coords resume c0 (length coords))
           (\<lambda>_. sweep_inv (bp_provider_id provider) zoom coords resume c0)"
  using a
proof (induction "length coords - a" arbitrary: a rule: less_induct)
  case less
  let ?pid = "bp_provider_id provider" and ?W = "sg_fanout_window cfg" and ?n = "length coords"
  let ?I = "sweep_inv ?pid zoom coords resume c0"
  show ?case
  proof (cases "a < ?n")
    case False
    then show ?thesis using w
      by (simp add: py_range_Nil) (rule valid_ret, auto simp: chunk_inv_def)
  next
    case True
    let ?b = "min (a + ?W) ?n"
    have rest: "valid (\<lambda>co. chunk_inv ?pid zoom coords resume c0 ?b co)
        (bnd (reads co_sweep) (\<lambda>sw. if halted sw then ret ()
           else sweep_chunks cfg be provider zoom coords (py_range (a + ?W) ?n ?W)))
        (\<lambda>_. chunk_inv ?pid zoom coords resume c0 ?n) (\<lambda>_. ?I)"
    proof (rule valid_bnd_reads)
      show "valid (\<lambda>co. chunk_inv ?pid zoom coords resume c0 ?b co \<and> sw = co_sweep co)
          (if halted sw then ret ()
           else sweep_chunks cfg be provider zoom coords (py_range (a + ?W) ?n ?W))
          (\<lambda>_. chunk_inv ?pid zoom coords resume c0 ?n) (\<lambda>_. ?I)" for sw
      proof (cases "halted sw")
        case True
        then show ?thesis by (simp, intro valid_ret) (auto simp: chunk_inv_def)
      next
        case False
        have "valid (\<lambda>co. ?I co \<and> handled co = {resume..<?b})
           (sweep_chunks cfg be provider zoom coords (py_range (a + ?W) ?n ?W))
           (\<lambda>_. chunk_inv ?pid zoom coords resume c0 ?n) (\<lambda>_. ?I)"
          using less.hyps [of "a + ?W"] True w less.prems by simp
        then show ?thesis using False
          by (auto intro: valid_pre simp: chunk_inv_def)
      qed
    qed
    have wait: "valid (\<lambda>co. ?I co \<and> handled co = {resume..<a}) (on_service (await_storage_cooldown be))
        (\<lambda>_ co. ?I co \<and> handled co = {resume..<a}) (\<lambda>_ co. ?I co \<and> handled co = {resume..<a})"
      by (rule await_storage_valid) (simp add: sweep_inv_world)
    have chunk: "valid (\<lambda>co. ?I co \<and> handled co = {resume..<a})
        (sweep_chunk cfg be provider zoom coords a ?b) (\<lambda>_. chunk_inv ?pid zoom coords resume c0 ?b) (\<lambda>_. ?I)"
      by (rule sweep_chunk_valid [OF sched zoom]) (use less.prems True in auto)
    have after: "valid (\<lambda>co. ?I co \<and> handled co = {resume..<a})
        (bnd (reads co_sweep) (\<lambda>sw0. if sw_storage_abandoned sw0 then ret ()
          else seq (sweep_chunk cfg be provider zoom coords a ?b)
             (bnd (reads co_sweep) (\<lambda>sw. if halted sw then ret ()
               else sweep_chunks cfg be provider zoom coords (py_range (a + ?W) ?n ?W)))))
        (\<lambda>_. chunk_inv ?pid zoom coords resume c0 ?n) (\<lambda>_. ?I)"
    proof (rule valid_bnd_reads)
      show "valid (\<lambda>co. (?I co \<and> handled co = {resume..<a}) \<and> sw0 = co_sweep co)
        (if sw_storage_abandoned sw0 then ret ()
          else seq (sweep_chunk cfg be provider zoom coords a ?b)
             (bnd (reads co_sweep) (\<lambda>sw. if halted sw then ret ()
               else sweep_chunks cfg be provider zoom coords (py_range (a + ?W) ?n ?W))))
        (\<lambda>_. chunk_inv ?pid zoom coords resume c0 ?n) (\<lambda>_. ?I)" for sw0
      proof (cases "sw_storage_abandoned sw0")
        case True
        then show ?thesis by (simp, intro valid_ret) (auto simp: chunk_inv_def)
      next
        case False
        then show ?thesis
          by (simp, intro valid_pre [OF valid_seq [OF chunk rest]]) simp
      qed
    qed
    have "valid (\<lambda>co. ?I co \<and> handled co = {resume..<a})
        (sweep_chunks cfg be provider zoom coords (py_range a ?n ?W))
        (\<lambda>_. chunk_inv ?pid zoom coords resume c0 ?n) (\<lambda>_. ?I)"
      unfolding py_range_Cons [OF w True] sweep_chunks.simps
      by (rule valid_seq [OF valid_post [OF wait] after]) auto
    then show ?thesis using True by simp
  qed
qed

text \<open>What the sweep of a zoom leaves, however it ended.\<close>

definition zoom_end ::
  "string \<Rightarrow> nat \<Rightarrow> (nat \<times> int \<times> int) list \<Rightarrow> nat \<Rightarrow> 's sweep \<Rightarrow> bool" where
  "zoom_end pid zoom coords resume co \<longleftrightarrow>
     (let db = db_of (co_service co); next_index = (LEAST i. resume \<le> i \<and> i \<notin> handled co)
      in get_cursor_sync pid db =
           Some (if next_index \<ge> length coords then \<lparr> cur_zoom = Suc zoom, cur_tile_index = 0 \<rparr>
                 else \<lparr> cur_zoom = zoom, cur_tile_index = next_index \<rparr>)
         \<and> distinct (map fst (co_history co)) \<and> handled co \<subseteq> {resume..<length coords}
         \<and> (\<forall>(i, oc) \<in> set (co_history co).
              oc \<noteq> OK \<longrightarrow> oc \<noteq> STORAGE_SKIPPED \<longrightarrow> snd (coords ! i) \<in> failed_tiles pid zoom db))"

definition zoom_counts :: "(nat \<times> int \<times> int) list \<Rightarrow> nat \<Rightarrow> nat \<times> nat \<Rightarrow> 's sweep \<Rightarrow> bool" where
  "zoom_counts coords resume p co \<longleftrightarrow>
     fst p = length (filter (\<lambda>h. snd h = OK) (co_history co))
     \<and> fst p + snd p = length (co_history co)
     \<and> (halted (co_sweep co) \<or> handled co = {resume..<length coords})"

lemma run_indexed_sweep_valid:
  assumes sched: "scheduler_ok be (bp_provider_id provider)" and zoom: "\<forall>t \<in> set coords. fst t = zoom"
    and resume: "resume < length coords"
  shows "valid (\<lambda>co. store_open (sv_store (co_service co)))
           (run_indexed_sweep cfg be provider zoom coords resume)
           (\<lambda>p co. zoom_end (bp_provider_id provider) zoom coords resume co \<and> zoom_counts coords resume p co)
           (\<lambda>_. zoom_end (bp_provider_id provider) zoom coords resume)"
proof (rule validI)
  fix co :: "'a sweep"
  assume op: "store_open (sv_store (co_service co))"
  let ?pid = "bp_provider_id provider" and ?n = "length coords" and ?W = "sg_fanout_window cfg"
  let ?c0 = "get_cursor_sync ?pid (db_of (co_service co))"
  let ?I = "sweep_inv ?pid zoom coords resume ?c0"
  let ?fin = "bnd (reads co_progress) (\<lambda>pg. on_service (set_cursor be ?pid
       (if pg_watermark pg \<ge> ?n then Suc zoom else zoom) (if pg_watermark pg \<ge> ?n then 0 else pg_watermark pg)))"
  let ?m = "if ?W = 0 then raise ValueError else sweep_chunks cfg be provider zoom coords (py_range resume ?n ?W)"
  obtain t w where m: "monotonic be (co_service co) = (Inr t, (co_service co)\<lparr> sv_world := w \<rparr>)"
    using monotonic_run [of be "co_service co"] by blast
  let ?co = "co\<lparr> co_service := (co_service co)\<lparr> sv_world := w \<rparr>,
                  co_progress := new_progress t ?n resume, co_history := [] \<rparr>"
  have start: "?I ?co \<and> handled ?co = {resume..<min resume ?n}"
    using op by (simp add: sweep_inv_def Let_def new_progress_def watermark_inv_start)
  have body: "valid (\<lambda>co. ?I co \<and> handled co = {resume..<min resume ?n}) ?m
      (\<lambda>_. chunk_inv ?pid zoom coords resume ?c0 ?n) (\<lambda>_. ?I)"
  proof (cases "?W = 0")
    case True
    then show ?thesis by (simp, intro valid_raise) simp
  next
    case False
    then show ?thesis using sweep_chunks_valid [OF sched zoom _ order_refl, of cfg resume ?c0] by simp
  qed
  have fin: "valid (\<lambda>co. ?I co \<and> (b \<longrightarrow> halted (co_sweep co) \<or> handled co = {resume..<?n})) ?fin
      (\<lambda>_ co. zoom_end ?pid zoom coords resume co
              \<and> pg_ok (co_progress co) = length (filter (\<lambda>h. snd h = OK) (co_history co))
              \<and> pg_ok (co_progress co) + pg_failed (co_progress co) = length (co_history co)
              \<and> (b \<longrightarrow> halted (co_sweep co) \<or> handled co = {resume..<?n})) (\<lambda>_ _. False)" for b
  proof (rule validI)
    fix co :: "'a sweep" assume inv: "?I co \<and> (b \<longrightarrow> halted (co_sweep co) \<or> handled co = {resume..<?n})"
    let ?wm = "pg_watermark (co_progress co)"
    have o: "store_open (sv_store (co_service co))" using inv by (simp add: sweep_inv_def Let_def)
    have wm: "?wm = (LEAST i. resume \<le> i \<and> i \<notin> handled co)"
      using inv by (intro watermark_least) (auto simp: sweep_inv_def Let_def)
    obtain now sv' where c: "set_cursor be ?pid (if ?wm \<ge> ?n then Suc zoom else zoom)
          (if ?wm \<ge> ?n then 0 else ?wm) (co_service co) = (Inr (), sv')"
      and d: "only_db (co_service co) (set_cursor_sync now ?pid (if ?wm \<ge> ?n then Suc zoom else zoom)
          (if ?wm \<ge> ?n then 0 else ?wm) (db_of (co_service co))) sv'"
      using set_cursor_run [OF o] by blast
    have db: "db_of sv' = set_cursor_sync now ?pid (if ?wm \<ge> ?n then Suc zoom else zoom)
          (if ?wm \<ge> ?n then 0 else ?wm) (db_of (co_service co))"
      using d by (simp add: only_db_def)
    have "zoom_end ?pid zoom coords resume (co\<lparr> co_service := sv' \<rparr>)"
      using inv by (simp add: zoom_end_def Let_def db wm [symmetric] sweep_inv_def)
    then show "case ?fin co of
        (Inr x, co) \<Rightarrow> zoom_end ?pid zoom coords resume co
              \<and> pg_ok (co_progress co) = length (filter (\<lambda>h. snd h = OK) (co_history co))
              \<and> pg_ok (co_progress co) + pg_failed (co_progress co) = length (co_history co)
              \<and> (b \<longrightarrow> halted (co_sweep co) \<or> handled co = {resume..<?n})
      | (Inl e, co) \<Rightarrow> False"
      using c inv by (simp add: bnd_apply on_service_def sweep_inv_def Let_def)
  qed
  have tf: "valid (\<lambda>co. ?I co \<and> handled co = {resume..<min resume ?n}) (try_finally ?m ?fin)
      (\<lambda>_ co. zoom_end ?pid zoom coords resume co
              \<and> zoom_counts coords resume (pg_ok (co_progress co), pg_failed (co_progress co)) co)
      (\<lambda>_. zoom_end ?pid zoom coords resume)"
    by (rule valid_finally [OF body])
       (rule valid_post [OF valid_pre [OF fin [of True]]]
             valid_post [OF valid_pre [OF fin [of False]]]; simp add: chunk_inv_def zoom_counts_def)+
  obtain r co2 where tr: "try_finally ?m ?fin ?co = (r, co2)" by (cases "try_finally ?m ?fin ?co")
  have "case r of Inr x \<Rightarrow> zoom_end ?pid zoom coords resume co2
              \<and> zoom_counts coords resume (pg_ok (co_progress co2), pg_failed (co_progress co2)) co2
          | Inl e \<Rightarrow> zoom_end ?pid zoom coords resume co2"
    using validD [OF tf start tr] .
  then show "case run_indexed_sweep cfg be provider zoom coords resume co of
      (Inr p, co) \<Rightarrow> zoom_end ?pid zoom coords resume co \<and> zoom_counts coords resume p co
    | (Inl e, co) \<Rightarrow> zoom_end ?pid zoom coords resume co"
    using m tr resume
    by (cases r) (simp_all add: run_indexed_sweep_def Let_def seq_def bnd_apply on_service_def modify_def)
qed

text \<open>
  C1. However the sweep of a zoom level ends (all tiles handled, provider tripped,
  storage abandoned, a task's exception, cancellation), the cursor on disk is the least
  index not handled, or the next zoom when there is none; each index is handled at most
  once; and every tile handled without success, except those skipped under an open
  storage circuit, is in the failed queue. On a normal return the counts are those of
  the handled tiles, and unless the sweep was halted every tile from the resume point
  was handled.
\<close>

theorem zoom_resume_sound:
  assumes "scheduler_ok be (bp_provider_id provider)" "\<forall>t \<in> set coords. fst t = zoom"
    and "resume < length coords" "store_open (sv_store (co_service co))"
    and "run_indexed_sweep cfg be provider zoom coords resume co = (r, co')"
  shows "zoom_end (bp_provider_id provider) zoom coords resume co'
         \<and> (case r of Inr p \<Rightarrow> zoom_counts coords resume p co' | Inl e \<Rightarrow> True)"
  using validD [OF run_indexed_sweep_valid [OF assms(1-3)] assms(4,5)] by (auto split: sum.splits)

section \<open>A scripted event loop\<close>

text \<open>
  A concrete backend: the world is the list of completions to come; an exhausted
  script cancels the sweep. It instantiates the theorems.
\<close>

definition scripted :: "(nat \<times> tile_outcome) list backend" where
  "scripted =
     \<lparr> be_time = (\<lambda>w. (0, w)), be_monotonic = (\<lambda>w. (0, w)), be_sleep = (\<lambda>d w. (Inr (), w)), be_naps = 0,
       be_download_tile = (\<lambda>u w. (Inr None, w)), be_upload_tile = (\<lambda>k d w. (Inr (), w)),
       be_store_basemap_tile = (\<lambda>p z x y d ttl w. (Inr (), w)),
       be_clear_basemap_tile_miss = (\<lambda>p z x y w. (Inr (), w)),
       be_ensure_lifecycle = (\<lambda>d w. (Inr True, w)), be_record_sync_cycle = None,
       be_next = (\<lambda>provider zoom tasks sv.
          case sv_world sv of
            [] \<Rightarrow> (Inl CancelledError, sv)
          | (i, oc) # rest \<Rightarrow>
              if i \<in> set tasks then (Inr (i, oc), sv\<lparr> sv_world := rest \<rparr>) else (Inl CancelledError, sv)),
       be_cancel = (\<lambda>tasks sv. (Inr (), sv)) \<rparr>"

lemma scripted_scheduler_ok: "scheduler_ok scripted pid"
  by (auto simp: scheduler_ok_def scripted_def split: list.splits)

definition demo_config :: scraper_config where
  "demo_config =
     \<lparr> sg_sync_interval = 604800, sg_providers = [],
       sg_bbox = \<lparr> bb_lat_min = -10, bb_lat_max = 10, bb_lon_min = -20, bb_lon_max = 20 \<rparr>,
       sg_tile_ttl = 60, sg_s3_object_ttl_days = 30, sg_redis_writes_enabled = False,
       sg_parallelism_mode = ''sequential'', sg_cache_max_zoom = 11, sg_checkpoint_every = 200,
       sg_checkpoint_seconds = 5, sg_fanout_window = 2, sg_error_rate_threshold = 5 / 100,
       sg_error_rate_min_samples = 1, sg_error_rate_window = 200,
       sg_cooldown_schedule = [300, 900, 3600, 10800, 21600] \<rparr>"

definition demo_provider :: basemap_provider where
  "demo_provider =
     \<lparr> bp_provider_id = ''p'', bp_name = ''P'', bp_source_url_template = ''https://t/{z}/{x}/{y}'',
       bp_is_tms = False, bp_min_zoom = 1, bp_max_zoom = 3, bp_cache_max_zoom = 3, bp_attribution = [],
       bp_kind = XYZ, bp_wms = None, bp_is_overlay = False \<rparr>"

definition demo_sweep :: "(nat \<times> tile_outcome) list \<Rightarrow> (nat \<times> tile_outcome) list sweep" where
  "demo_sweep script =
     \<lparr> co_sweep = new_sweep_state, co_progress = new_progress 0 0 0, co_tasks = [], co_history = [],
       co_service = new_service \<lparr> ss_file = Some empty_db, ss_connected = True \<rparr> script \<rparr>"

definition demo_tiles :: "(nat \<times> int \<times> int) list" where
  "demo_tiles = [(1, 0, 0), (1, 0, 1), (1, 1, 0), (1, 1, 1)]"

theorem zoom_resume_sound_witness:
  "zoom_end ''p'' 1 demo_tiles 0
     (snd (run_indexed_sweep demo_config scripted demo_provider 1 demo_tiles 0
             (demo_sweep [(1, MISSING), (0, OK), (3, OK)])))"
proof -
  have "zoom_end (bp_provider_id demo_provider) 1 demo_tiles 0
     (snd (run_indexed_sweep demo_config scripted demo_provider 1 demo_tiles 0
             (demo_sweep [(1, MISSING), (0, OK), (3, OK)])))"
    by (rule zoom_resume_sound [THEN conjunct1, OF scripted_scheduler_ok _ _ _ surjective_pairing])
       (simp_all add: demo_tiles_def demo_sweep_def new_service_def store_open_def)
  then show ?thesis by (simp add: demo_provider_def)
qed

text \<open>
  A tile skipped under an open storage circuit is not queued, and the cursor passes it:
  here tile 0 is skipped, tile 1 finds the provider down and trips the breaker, and
  the cursor kept for the next cycle is 2. The resumed sweep starts after tile 0.
\<close>

theorem skipped_tile_left_behind:
  "case run_indexed_sweep demo_config scripted demo_provider 1 demo_tiles 0
          (demo_sweep [(0, STORAGE_SKIPPED), (1, UNAVAILABLE)]) of
     (r, co) \<Rightarrow>
       r = Inr (0, 2) \<and> sw_tripped (co_sweep co)
       \<and> get_cursor_sync ''p'' (db_of (co_service co)) = Some \<lparr> cur_zoom = 1, cur_tile_index = 2 \<rparr>
       \<and> failed_tiles ''p'' 1 (db_of (co_service co)) = {(0, 1)}"
proof -
  have r: "py_range 0 (Suc (Suc (Suc (Suc 0)))) 2 = [0, 2]" by (simp add: py_range_Cons py_range_Nil)
  have e: "failed_tiles ''p'' z empty_db = {}" for z by (simp add: failed_tiles_alt empty_db_def)
  show ?thesis
    by (simp add: run_indexed_sweep_def Let_def demo_sweep_def demo_tiles_def demo_config_def demo_provider_def
        scripted_def r e upt_rec seq_def bnd_apply on_service_def on_world_def modify_def monotonic_def unix_time_def
        new_service_def storage_circuit_def new_circuit_def await_storage_cooldown_def
        await_storage_cooldown_n.simps cooldown_remaining_def is_open_def new_progress_def
        sweep_chunk_def try_finally_def handle_completion_def update_sweep_state_def new_sweep_state_def
        exhausted_def circuit_defaults advance_watermark_def step_watermark_def drain_above.simps
        maybe_log_progress_def PROGRESS_PCT_STEP_def PROGRESS_TIME_INTERVAL_S_def PROGRESS_MIN_INTERVAL_S_def
        window_rate_def recent_failures_def on_store_def execute_apply set_cursor_def)
qed

end
