(* ===== verification/Basemap_Cycle.thy ===== *)
theory Basemap_Cycle
  imports Basemap_Sweep "HOL-Library.Multiset"
begin

text \<open>
  The decisions around the sweep: the provider breaker over a sequence of outcomes, the
  end of a sweep on each of its four branches, cooldown and scheduling, the wait for
  storage, and a single tile's path through download, bucket and hot cache.
\<close>

section \<open>The provider breaker\<close>

definition definitive :: "tile_outcome \<Rightarrow> bool" where
  "definitive oc = (oc = OK \<or> oc = UNAVAILABLE)"

definition take_last :: "nat \<Rightarrow> 'a list \<Rightarrow> 'a list" where
  "take_last n xs = drop (length xs - n) xs"

lemma take_last_snoc:
  "(let w1 = take_last n xs @ [x] in if n < length w1 then tl w1 else w1) = take_last n (xs @ [x])"
proof (cases "n \<le> length xs")
  case True
  show ?thesis
  proof (cases n)
    case 0
    then show ?thesis by (simp add: take_last_def)
  next
    case (Suc m)
    then have "drop (length xs - n) xs \<noteq> []" "Suc (length xs - n) = Suc (length xs) - n"
      using True by auto
    then show ?thesis using True Suc
      by (simp add: take_last_def Let_def tl_append2 tl_drop drop_Suc [symmetric])
  qed
qed (simp add: take_last_def Let_def)

text \<open>The state after a sequence of outcomes, each with the storage circuit seen at its time.\<close>

definition accrue ::
  "scraper_config \<Rightarrow> (circuit \<times> tile_outcome \<times> nat \<times> int \<times> int) list \<Rightarrow> sweep_state \<Rightarrow> sweep_state" where
  "accrue cfg = fold (\<lambda>(c, oc, z, x, y). update_sweep_state cfg c oc z x y)"

abbreviation outcomes :: "(circuit \<times> tile_outcome \<times> nat \<times> int \<times> int) list \<Rightarrow> tile_outcome list" where
  "outcomes evs \<equiv> map (\<lambda>e. fst (snd e)) evs"

text \<open>The flags of the definitive outcomes, oldest first.\<close>

definition flags :: "tile_outcome list \<Rightarrow> bool list" where
  "flags ocs = map (\<lambda>oc. oc = UNAVAILABLE) (filter definitive ocs)"

definition judged_down :: "scraper_config \<Rightarrow> bool list \<Rightarrow> bool" where
  "judged_down cfg window \<longleftrightarrow>
     sg_error_rate_min_samples cfg \<le> length window \<and> sg_error_rate_threshold cfg < window_rate window"

lemma update_counts:
  "sw_attempted (update_sweep_state cfg c oc z x y sw) = sw_attempted sw + (if definitive oc then 1 else 0)"
  "sw_failed (update_sweep_state cfg c oc z x y sw) = sw_failed sw + (if oc = UNAVAILABLE then 1 else 0)"
  "sw_storage_errors (update_sweep_state cfg c oc z x y sw) =
     sw_storage_errors sw + (if oc = STORAGE_ERROR \<or> oc = STORAGE_SKIPPED then 1 else 0)"
  by (cases oc; simp add: update_sweep_state_def definitive_def Let_def)+

lemma update_recent:
  "sw_recent (update_sweep_state cfg c oc z x y sw) =
     (if definitive oc
      then (let w1 = sw_recent sw @ [oc = UNAVAILABLE]
            in if sg_error_rate_window cfg < length w1 then tl w1 else w1)
      else sw_recent sw)"
  by (cases oc; simp add: update_sweep_state_def definitive_def Let_def)

lemma update_tripped:
  "sw_tripped (update_sweep_state cfg c oc z x y sw) \<longleftrightarrow>
     sw_tripped sw \<or> (definitive oc \<and> judged_down cfg (sw_recent (update_sweep_state cfg c oc z x y sw)))"
  by (cases oc; auto simp: update_sweep_state_def definitive_def judged_down_def Let_def)

lemma update_abandoned:
  "sw_storage_abandoned (update_sweep_state cfg c oc z x y sw) \<longleftrightarrow>
     sw_storage_abandoned sw \<or> ((oc = STORAGE_ERROR \<or> oc = STORAGE_SKIPPED) \<and> exhausted c)"
  by (cases oc; auto simp: update_sweep_state_def Let_def)

lemma accrue_snoc: "accrue cfg (evs @ [(c, oc, z, x, y)]) sw = update_sweep_state cfg c oc z x y (accrue cfg evs sw)"
  by (simp add: accrue_def)

lemma accrue_window:
  "sw_recent (accrue cfg evs new_sweep_state) = take_last (sg_error_rate_window cfg) (flags (outcomes evs))"
proof (induction evs rule: rev_induct)
  case Nil
  then show ?case by (simp add: accrue_def new_sweep_state_def take_last_def flags_def)
next
  case (snoc e evs)
  obtain c oc z x y where e: "e = (c, oc, z, x, y)" by (cases e)
  show ?case
    unfolding e accrue_snoc update_recent snoc.IH
    using take_last_snoc [of "sg_error_rate_window cfg" "flags (outcomes evs)" "oc = UNAVAILABLE"]
    by (simp add: flags_def)
qed

lemma accrue_counts:
  "sw_attempted (accrue cfg evs new_sweep_state) = length (filter definitive (outcomes evs))
   \<and> sw_failed (accrue cfg evs new_sweep_state) = length (filter ((=) UNAVAILABLE) (outcomes evs))
   \<and> sw_storage_errors (accrue cfg evs new_sweep_state)
       = length (filter (\<lambda>oc. oc = STORAGE_ERROR \<or> oc = STORAGE_SKIPPED) (outcomes evs))"
proof (induction evs rule: rev_induct)
  case Nil
  then show ?case by (simp add: accrue_def new_sweep_state_def)
next
  case (snoc e evs)
  obtain c oc z x y where e: "e = (c, oc, z, x, y)" by (cases e)
  then show ?case using snoc by (auto simp: accrue_snoc update_counts)
qed

lemma accrue_tripped:
  "sw_tripped (accrue cfg evs new_sweep_state) \<longleftrightarrow>
     (\<exists>k < length evs. definitive (outcomes evs ! k)
        \<and> judged_down cfg (take_last (sg_error_rate_window cfg) (flags (outcomes (take (Suc k) evs)))))"
proof (induction evs rule: rev_induct)
  case Nil
  then show ?case by (simp add: accrue_def new_sweep_state_def)
next
  case (snoc e evs)
  obtain c oc z x y where e: "e = (c, oc, z, x, y)" by (cases e)
  have w: "sw_recent (update_sweep_state cfg c oc z x y (accrue cfg evs new_sweep_state))
           = take_last (sg_error_rate_window cfg) (flags (outcomes (evs @ [e])))"
    using accrue_window [of cfg "evs @ [e]"] by (simp add: e accrue_snoc)
  define Q where "Q xs k \<longleftrightarrow> definitive (outcomes xs ! k)
      \<and> judged_down cfg (take_last (sg_error_rate_window cfg) (flags (outcomes (take (Suc k) xs))))" for xs k
  have old: "Q (evs @ [e]) k \<longleftrightarrow> Q evs k" if "k < length evs" for k
    using that by (simp add: Q_def nth_append)
  have new: "Q (evs @ [e]) (length evs) \<longleftrightarrow> definitive oc
      \<and> judged_down cfg (take_last (sg_error_rate_window cfg) (flags (outcomes (evs @ [e]))))"
    by (simp add: Q_def e nth_append)
  have "sw_tripped (accrue cfg (evs @ [e]) new_sweep_state) \<longleftrightarrow>
      (\<exists>k < length evs. Q evs k) \<or> Q (evs @ [e]) (length evs)"
    using snoc.IH unfolding new by (simp add: e accrue_snoc update_tripped w [unfolded e] Q_def)
  also have "\<dots> \<longleftrightarrow> (\<exists>k < length (evs @ [e]). Q (evs @ [e]) k)"
    using old less_Suc_eq by auto
  finally show ?case unfolding Q_def .
qed

text \<open>
  C5. The provider breaker over any sequence of outcomes: the window is exactly the last
  \<^verbatim>\<open>error_rate_window\<close> definitive fetches, missing tiles and storage failures never
  enter it, the counters count what they say, and the provider is tripped exactly when
  at some definitive fetch the window held the minimum sample and its failure share was
  above the threshold.
\<close>

theorem breaker_judges_recent_window:
  "sw_recent (accrue cfg evs new_sweep_state)
     = take_last (sg_error_rate_window cfg) (flags (outcomes evs))
   \<and> sw_attempted (accrue cfg evs new_sweep_state) = length (flags (outcomes evs))
   \<and> sw_failed (accrue cfg evs new_sweep_state) = length (filter ((=) UNAVAILABLE) (outcomes evs))
   \<and> sw_storage_errors (accrue cfg evs new_sweep_state)
       = length (filter (\<lambda>oc. oc = STORAGE_ERROR \<or> oc = STORAGE_SKIPPED) (outcomes evs))
   \<and> (sw_tripped (accrue cfg evs new_sweep_state) \<longleftrightarrow>
        (\<exists>k < length evs. definitive (outcomes evs ! k)
           \<and> judged_down cfg (take_last (sg_error_rate_window cfg) (flags (outcomes (take (Suc k) evs))))))"
  using accrue_window accrue_counts accrue_tripped by (simp add: flags_def)

section \<open>The end of a sweep\<close>

text \<open>The \<^verbatim>\<open>k\<close>-th reading of the clock from a world, in whole seconds.\<close>

fun clock_reading :: "'s backend \<Rightarrow> 's \<Rightarrow> nat \<Rightarrow> int" where
  "clock_reading be w 0 = \<lfloor>fst (be_time be w)\<rfloor>"
| "clock_reading be w (Suc k) = clock_reading be (snd (be_time be w)) k"

lemma unix_time_reads:
  "unix_time be sv = (Inr (clock_reading be (sv_world sv) 0), sv\<lparr> sv_world := snd (be_time be (sv_world sv)) \<rparr>)"
  by (simp add: unix_time_def on_world_def split: prod.split)

text \<open>
  What the end of a sweep leaves behind, the whole database: a tripped provider waits for the
  rung of the schedule its consecutive trips have reached, the first one when the sweep stored
  new tiles.
\<close>

definition rung :: "int list \<Rightarrow> int \<Rightarrow> int" where
  "rung schedule trips =
     (if schedule = [] then 300
      else if trips \<le> 1 then hd schedule
      else if int (length schedule) \<le> trips then last schedule
      else schedule ! (nat trips - 1))"

lemma compute_cooldown_rung: "compute_cooldown cfg trips = rung (sg_cooldown_schedule cfg) trips"
proof (cases "sg_cooldown_schedule cfg = []")
  case False
  let ?l = "sg_cooldown_schedule cfg"
  have idx: "nat (max (min (trips - 1) (int (length ?l) - 1)) 0) =
      (if trips \<le> 1 then 0 else if int (length ?l) \<le> trips then length ?l - 1 else nat trips - 1)"
    using False by (cases ?l) auto
  show ?thesis using False by (simp add: compute_cooldown_def rung_def Let_def idx hd_conv_nth last_conv_nth)
qed (simp add: compute_cooldown_def rung_def)

definition stats_row :: "nat \<Rightarrow> nat \<Rightarrow> bool \<Rightarrow> int \<Rightarrow> scrape_stats" where
  "stats_row d f completed swept_at =
     \<lparr> st_attempted = d + f, st_ok = d, st_failed = f, st_completed = completed, st_swept_at = swept_at \<rparr>"

definition swept_db ::
  "scraper_config \<Rightarrow> provider_health option \<Rightarrow> sweep_state \<Rightarrow> string \<Rightarrow> nat \<Rightarrow> nat \<Rightarrow> (nat \<Rightarrow> int)
     \<Rightarrow> basemap_db \<Rightarrow> basemap_db" where
  "swept_db cfg health sw pid d f t db =
     (let trips = (if d > 0 then 1 else (case health of Some h \<Rightarrow> ph_consecutive_trips h | None \<Rightarrow> 0) + 1);
          stats = (\<lambda>completed now. (db_stats db)(pid \<mapsto> stats_row d f completed now))
      in if sw_tripped sw then
           db\<lparr> db_health := (db_health db)(pid \<mapsto>
                 (\<lparr> ph_consecutive_trips = trips, ph_cooldown_until = t 0 + rung (sg_cooldown_schedule cfg) trips,
                    ph_last_tripped_at = t 1, ph_last_reason = sw_last_reason sw \<rparr>, t 1)),
               db_stats := stats False (t 2) \<rparr>
         else if sw_storage_abandoned sw then db\<lparr> db_stats := stats False (t 0) \<rparr>
         else if sw_storage_errors sw > 0 then
           db\<lparr> db_cursor := (db_cursor db)(pid := None), db_stats := stats False (t 0) \<rparr>
         else
           \<lparr> db_cursor = (db_cursor db)(pid := None),
             db_failed = filter (\<lambda>(p, z, x, y). p \<noteq> pid) (db_failed db),
             db_last_completed = (db_last_completed db)(pid \<mapsto> t 0),
             db_health = (db_health db)(pid := None),
             db_stats = stats True (t 1) \<rparr>)"

text \<open>The flags of the cycle: who has to come back for lost uploads, and whether storage is down.\<close>

definition swept_flags :: "sweep_state \<Rightarrow> 's service \<Rightarrow> 's service \<Rightarrow> bool" where
  "swept_flags sw sv sv' \<longleftrightarrow>
     (sv_storage_retry_due sv' \<longleftrightarrow>
        sv_storage_retry_due sv \<or> \<not> sw_tripped sw \<and> (sw_storage_abandoned sw \<or> sw_storage_errors sw > 0)) \<and>
     (sv_storage_down_this_cycle sv' \<longleftrightarrow>
        sv_storage_down_this_cycle sv \<or> \<not> sw_tripped sw \<and> sw_storage_abandoned sw) \<and>
     sv_s3_circuit sv' = sv_s3_circuit sv \<and> sv_redis_circuit sv' = sv_redis_circuit sv \<and>
     sv_lifecycle_applied sv' = sv_lifecycle_applied sv"

lemma failed_tiles_cleared [simp]: "failed_tiles pid z (clear_failed_for_provider_sync pid db) = {}"
  using failed_queue.tiles_clear_all [of pid z pid db] by simp

lemma store_open_file [simp]: "store_open s \<Longrightarrow> store_open (s\<lparr> ss_file := Some db \<rparr>)"
  by (simp add: store_open_def)

lemmas sweep_ends =
  finish_sweep_def end_tripped_def finish_abandoned_sweep_def end_storage_errors_def end_completed_def
  record_sweep_stats_def

lemmas sweep_statements =
  open_circuit_sync_def close_circuit_sync_def set_scrape_stats_sync_def clear_cursor_sync_def
  clear_failed_for_provider_sync_def set_last_completed_sync_def

lemma finish_sweep_run:
  assumes "store_open (sv_store sv)"
  shows "\<exists>sv'. finish_sweep cfg be provider health sw d f sv = (Inr (d, f), sv') \<and>
     store_open (sv_store sv') \<and> swept_flags sw sv sv' \<and>
     db_of sv' = swept_db cfg health sw (bp_provider_id provider) d f (clock_reading be (sv_world sv)) (db_of sv)"
  using assms
  by (simp add: sweep_ends sweep_statements Let_def bnd_apply seq_def modify_def unix_time_reads on_store_execute
      swept_db_def stats_row_def swept_flags_def compute_cooldown_rung numeral_2_eq_2)

text \<open>
  C0. A sweep that started always ends in one of four book-kept ways, none of which raises on an
  open store, and each leaves exactly the database and flags the policy asks for. A tripped provider
  keeps its cursor and queue and waits, from the first clock reading, for the rung of its consecutive
  trips, counted anew when the sweep stored new tiles; a sweep abandoned to dead storage keeps
  everything and flags the cycle; storage errors clear the cursor but not the queue and ask for
  a retry; and only a clean sweep stamps \<^verbatim>\<open>last_completed\<close> with the clock, clears cursor, queue
  and health. Every end records the counts of the sweep; nothing else of the database changes,
  no other provider's rows in particular.
\<close>

theorem sweep_end_bookkeeping:
  assumes "store_open (sv_store sv)"
  shows "\<exists>sv'. finish_sweep cfg be provider health sw d f sv = (Inr (d, f), sv') \<and>
     store_open (sv_store sv') \<and> swept_flags sw sv sv' \<and>
     db_of sv' = swept_db cfg health sw (bp_provider_id provider) d f (clock_reading be (sv_world sv)) (db_of sv)"
  by (rule finish_sweep_run [OF assms])

theorem sweep_end_bookkeeping_witness:
  "\<exists>sv'. finish_sweep demo_config scripted demo_provider None (new_sweep_state\<lparr> sw_tripped := True \<rparr>) 0 7
            (new_service \<lparr> ss_file = Some (set_cursor_sync 1 ''p'' 5 42 empty_db), ss_connected = True \<rparr> [])
          = (Inr (0, 7), sv') \<and> store_open (sv_store sv') \<and>
     swept_flags (new_sweep_state\<lparr> sw_tripped := True \<rparr>)
       (new_service \<lparr> ss_file = Some (set_cursor_sync 1 ''p'' 5 42 empty_db), ss_connected = True \<rparr>
         ([] :: (nat \<times> tile_outcome) list)) sv' \<and>
     db_of sv' = swept_db demo_config None (new_sweep_state\<lparr> sw_tripped := True \<rparr>) (bp_provider_id demo_provider) 0 7
       (clock_reading scripted (sv_world (new_service \<lparr> ss_file = Some (set_cursor_sync 1 ''p'' 5 42 empty_db), ss_connected = True \<rparr>
         ([] :: (nat \<times> tile_outcome) list))))
       (db_of (new_service \<lparr> ss_file = Some (set_cursor_sync 1 ''p'' 5 42 empty_db), ss_connected = True \<rparr>
         ([] :: (nat \<times> tile_outcome) list)))"
  by (rule sweep_end_bookkeeping) (simp add: new_service_def store_open_def)

section \<open>Cooldown and scheduling\<close>

lemma compute_cooldown_in_schedule:
  "sg_cooldown_schedule cfg \<noteq> [] \<Longrightarrow> compute_cooldown cfg n \<in> set (sg_cooldown_schedule cfg)"
  by (auto simp: compute_cooldown_def Let_def intro!: nth_mem) (simp add: nat_less_iff min_def max_def)

text \<open>Repeated trips never shorten the cooldown under a sorted schedule.\<close>

lemma compute_cooldown_mono:
  assumes "sorted (sg_cooldown_schedule cfg)" "m \<le> n"
  shows "compute_cooldown cfg m \<le> compute_cooldown cfg n"
proof (cases "sg_cooldown_schedule cfg = []")
  case True
  then show ?thesis by (simp add: compute_cooldown_def)
next
  case False
  let ?l = "length (sg_cooldown_schedule cfg)"
  have "nat (max (min (m - 1) (int ?l - 1)) 0) \<le> nat (max (min (n - 1) (int ?l - 1)) 0)"
    using assms(2) by (intro nat_mono max.mono min.mono) auto
  moreover have "nat (max (min (n - 1) (int ?l - 1)) 0) < ?l" using False by (simp add: nat_less_iff min_def max_def)
  ultimately show ?thesis using False assms(1)
    by (simp add: compute_cooldown_def Let_def sorted_nth_mono)
qed

text \<open>Seconds until a provider may be swept: its cooldown, else nothing for an unfinished
  sweep, else what is left of the interval.\<close>

definition due_in :: "scraper_config \<Rightarrow> int \<Rightarrow> basemap_db \<Rightarrow> string \<Rightarrow> int" where
  "due_in cfg now db pid =
     (let cooling = (case get_health_sync pid db of Some h \<Rightarrow> max 0 (ph_cooldown_until h - now) | None \<Rightarrow> 0)
      in if cooling > 0 then cooling
         else if get_cursor_sync pid db \<noteq> None then 0
         else case get_last_completed_sync pid db of
                None \<Rightarrow> 0 | Some t \<Rightarrow> max 0 ((t + sg_sync_interval cfg) - now))"

lemma due_in_nonneg: "0 \<le> due_in cfg now db pid"
  by (simp add: due_in_def Let_def split: option.split)

lemma query_open: "store_open s \<Longrightarrow> query q s = (Inr (q (the (ss_file s))), s)"
  by (auto simp: store_open_def query_apply)

definition soonest_of :: "rat \<Rightarrow> int list \<Rightarrow> rat" where
  "soonest_of s ws = foldl min s (map of_int (filter (\<lambda>w. 0 < w) ws))"

lemma soonest_due_run:
  assumes "store_open s"
  shows "soonest_due cfg now pids soonest any_ready s =
     (Inr (soonest_of soonest (map (due_in cfg now (the (ss_file s))) pids),
           any_ready \<or> (\<exists>pid \<in> set pids. due_in cfg now (the (ss_file s)) pid = 0)), s)"
proof (induction pids arbitrary: soonest any_ready)
  case Nil
  then show ?case by (simp add: soonest_of_def)
next
  case (Cons pid pids)
  let ?db = "the (ss_file s)"
  have step: "soonest_due cfg now (pid # pids) soonest any_ready s =
     (if due_in cfg now ?db pid > 0
      then soonest_due cfg now pids (min soonest (of_int (due_in cfg now ?db pid))) any_ready s
      else soonest_due cfg now pids soonest True s)"
    by (simp add: bnd_apply query_open [OF assms] due_in_def Let_def split: option.split)
  show ?case unfolding step
    using Cons.IH due_in_nonneg [of cfg now ?db pid] by (simp add: soonest_of_def)
qed

lemma soonest_of_bounds:
  "soonest_of s ws \<le> s \<and> (\<forall>w \<in> set ws. 0 < w \<longrightarrow> soonest_of s ws \<le> of_int w)"
proof (induction ws arbitrary: s)
  case (Cons w ws)
  have "soonest_of s (w # ws) = (if 0 < w then soonest_of (min s (of_int w)) ws else soonest_of s ws)"
    by (simp add: soonest_of_def)
  then show ?case using Cons.IH [of "min s (of_int w)"] Cons.IH [of s] by auto
qed (simp add: soonest_of_def)

text \<open>
  The pause before the next cycle. After storage errors it is the 60 second probe;
  otherwise it is zero exactly when some provider is due (never swept, an unfinished
  sweep outside its cooldown, or its interval over), and else at least 60 seconds, never
  past the time the first provider becomes due (when that is later than a minute) nor
  past the default.
\<close>

theorem next_sleep_spec:
  assumes "store_open (sv_store sv)"
  shows "\<exists>now r sv'. compute_next_sleep cfg be default_sleep sv = (Inr r, sv') \<and> sv_store sv' = sv_store sv
     \<and> (if sv_storage_retry_due sv then r = 60
        else (r = 0 \<longleftrightarrow> (\<exists>pid \<in> fst ` set (sg_providers cfg). due_in cfg now (db_of sv) pid = 0))
             \<and> (r \<noteq> 0 \<longrightarrow> 60 \<le> r \<and> r \<le> max 60 default_sleep
                 \<and> (\<forall>pid \<in> fst ` set (sg_providers cfg). r \<le> max 60 (of_int (due_in cfg now (db_of sv) pid)))))"
proof (cases "sv_storage_retry_due sv")
  case True
  then show ?thesis
    by (simp add: compute_next_sleep_def bnd_apply STORAGE_RETRY_FLOOR_SECONDS_def)
next
  case False
  obtain now w where t: "unix_time be sv = (Inr now, sv\<lparr> sv_world := w \<rparr>)" using unix_time_run [of be sv] by blast
  let ?pids = "map fst (sg_providers cfg)"
  let ?ws = "map (due_in cfg now (db_of sv)) ?pids"
  let ?ready = "\<exists>pid \<in> set ?pids. due_in cfg now (db_of sv) pid = 0"
  let ?s = "soonest_of default_sleep ?ws"
  have run: "compute_next_sleep cfg be default_sleep sv =
      (Inr (if ?ready then 0 else max 60 ?s), sv\<lparr> sv_world := w \<rparr>)"
    using False soonest_due_run [OF assms, of cfg now ?pids default_sleep False]
    by (simp add: compute_next_sleep_def bnd_apply t on_store_def)
  have b: "?s \<le> default_sleep" "\<forall>pid \<in> set ?pids. 0 < due_in cfg now (db_of sv) pid \<longrightarrow>
      ?s \<le> of_int (due_in cfg now (db_of sv) pid)"
    using soonest_of_bounds [of default_sleep ?ws] by auto
  have "\<not> ?ready \<Longrightarrow> \<forall>pid \<in> set ?pids. ?s \<le> of_int (due_in cfg now (db_of sv) pid)"
    using b(2) due_in_nonneg [of cfg now "db_of sv"] by (metis order_le_less)
  then have near: "\<not> ?ready \<Longrightarrow> pid \<in> set ?pids \<Longrightarrow> max 60 ?s \<le> max 60 (of_int (due_in cfg now (db_of sv) pid))" for pid
    by (intro max.mono) auto
  have far: "max 60 ?s \<le> max 60 default_sleep" using b(1) by (intro max.mono) auto
  have pos: "max 60 ?s \<noteq> 0" by (simp add: max_def)
  show ?thesis
  proof (cases ?ready)
    case True
    then show ?thesis using run False by (intro exI [of _ now] exI [of _ 0]) auto
  next
    case no: False
    then show ?thesis using run False far pos near [OF no]
      by (intro exI [of _ now] exI [of _ "max 60 ?s"]) (simp add: ball_simps)
  qed
qed

theorem next_sleep_spec_witness:
  "\<exists>now r sv'. compute_next_sleep demo_config scripted 604800
        (new_service \<lparr> ss_file = Some empty_db, ss_connected = True \<rparr> []) = (Inr r, sv')
      \<and> sv_store sv' = sv_store (new_service \<lparr> ss_file = Some empty_db, ss_connected = True \<rparr> ([] :: (nat \<times> tile_outcome) list))
      \<and> 60 \<le> r"
  using next_sleep_spec [of "new_service \<lparr> ss_file = Some empty_db, ss_connected = True \<rparr> ([] :: (nat \<times> tile_outcome) list)"
      demo_config scripted 604800]
  by (auto simp: new_service_def store_open_def demo_config_def)

section \<open>Waiting for storage\<close>

lemma await_storage_ends:
  assumes clock: "\<And>w. be_monotonic be w = (m w, w)"
    and sleep: "\<And>d w. 0 < d \<Longrightarrow> \<exists>w'. be_sleep be d w = (Inr (), w') \<and> m w + \<delta> \<le> m w'"
    and d: "0 < \<delta>" and n: "c_open_until (sv_s3_circuit sv) - m (sv_world sv) \<le> of_nat n * \<delta>"
  shows "\<exists>w'. await_storage_cooldown_n be n sv = (Inr (), sv\<lparr> sv_world := w' \<rparr>)
              \<and> allows_write (m w') (sv_s3_circuit sv)"
  using n
proof (induction n arbitrary: sv)
  case 0
  then show ?case
    by (intro exI [of _ "sv_world sv"])
       (auto simp: await_storage_cooldown_n.simps [of be 0] bnd_apply monotonic_def on_world_def clock
          cooldown_remaining_def allows_write_def in_probe_window_def Let_def)
next
  case (Suc n)
  let ?rem = "cooldown_remaining (m (sv_world sv)) (sv_s3_circuit sv)"
  show ?case
  proof (cases "0 < ?rem")
    case True
    obtain w' where s: "be_sleep be ?rem (sv_world sv) = (Inr (), w')" "m (sv_world sv) + \<delta> \<le> m w'"
      using sleep [OF True] by blast
    have "c_open_until (sv_s3_circuit (sv\<lparr> sv_world := w' \<rparr>)) - m (sv_world (sv\<lparr> sv_world := w' \<rparr>)) \<le> of_nat n * \<delta>"
      using Suc.prems s(2) by (simp add: algebra_simps)
    from Suc.IH [OF this] show ?thesis using True s(1)
      by (auto simp: await_storage_cooldown_n.simps [of be "Suc n"] bnd_apply seq_def monotonic_def on_world_def clock Let_def)
  next
    case False
    then show ?thesis
      by (intro exI [of _ "sv_world sv"])
         (auto simp: await_storage_cooldown_n.simps [of be "Suc n"] bnd_apply monotonic_def on_world_def clock
            cooldown_remaining_def allows_write_def in_probe_window_def Let_def split: if_splits)
  qed
qed

text \<open>
  C25. The wait at a chunk boundary ends, even with timers that wake early: if every
  sleep moves the clock forward by at least some \<^verbatim>\<open>\<delta>\<close>, the loop returns after at most
  remaining/\<^verbatim>\<open>\<delta>\<close> passes, without touching the circuit, at a moment when the circuit
  admits the next write, so the chunk that follows is not skipped wholesale.
\<close>

theorem await_storage_cooldown_returns:
  assumes "\<And>w. be_monotonic be w = (m w, w)"
    and "\<And>d w. 0 < d \<Longrightarrow> \<exists>w'. be_sleep be d w = (Inr (), w') \<and> m w + \<delta> \<le> m w'"
    and "0 < \<delta>" "c_open_until (sv_s3_circuit sv) - m (sv_world sv) \<le> of_nat (be_naps be) * \<delta>"
  shows "\<exists>w'. await_storage_cooldown be sv = (Inr (), sv\<lparr> sv_world := w' \<rparr>)
              \<and> allows_write (m w') (sv_s3_circuit sv)"
  unfolding await_storage_cooldown_def by (rule await_storage_ends [OF assms])

text \<open>A clock of whole seconds that every sleep advances by one.\<close>

definition ticking :: "nat \<Rightarrow> rat backend" where
  "ticking naps =
     \<lparr> be_time = (\<lambda>w. (w, w)), be_monotonic = (\<lambda>w. (w, w)), be_sleep = (\<lambda>d w. (Inr (), w + 1)), be_naps = naps,
       be_download_tile = (\<lambda>u w. (Inr None, w)), be_upload_tile = (\<lambda>k d w. (Inr (), w)),
       be_store_basemap_tile = (\<lambda>p z x y d ttl w. (Inr (), w)),
       be_clear_basemap_tile_miss = (\<lambda>p z x y w. (Inr (), w)),
       be_ensure_lifecycle = (\<lambda>d w. (Inr True, w)), be_record_sync_cycle = None,
       be_next = (\<lambda>provider zoom tasks sv. (Inl CancelledError, sv)),
       be_cancel = (\<lambda>tasks sv. (Inr (), sv)) \<rparr>"

theorem await_storage_cooldown_returns_witness:
  "\<exists>w'. await_storage_cooldown (ticking 30)
          ((new_service (new_store None) 100)\<lparr> sv_s3_circuit := (storage_circuit ''S3'')\<lparr> c_open_until := 130 \<rparr> \<rparr>)
        = (Inr (), (new_service (new_store None) 100)
             \<lparr> sv_s3_circuit := (storage_circuit ''S3'')\<lparr> c_open_until := 130 \<rparr>, sv_world := w' \<rparr>)
      \<and> allows_write w' ((storage_circuit ''S3'')\<lparr> c_open_until := 130 \<rparr>)"
  using await_storage_cooldown_returns [of "ticking 30" "\<lambda>w. w" 1
      "(new_service (new_store None) 100)\<lparr> sv_s3_circuit := (storage_circuit ''S3'')\<lparr> c_open_until := 130 \<rparr> \<rparr>"]
  by (simp add: ticking_def new_service_def)

section \<open>One tile\<close>

lemma monotonic_apply: "be_monotonic be (sv_world sv) = (t, w) \<Longrightarrow> monotonic be sv = (Inr t, sv\<lparr> sv_world := w \<rparr>)"
  by (simp add: monotonic_def on_world_def)

lemma persist_to_s3_run:
  assumes "be_upload_tile be (build_basemap_tile_key (bp_provider_id provider) (int z) x y) data (sv_world sv) = (r, w3)"
    and "be_monotonic be w3 = (t1, w4)" "be_monotonic be w4 = (t2, w5)"
  shows "persist_to_s3 be provider z x y data sv =
     (case r of
        Inr _ \<Rightarrow> (Inr True, sv\<lparr> sv_world := w5, sv_s3_circuit := snd (record_success t1 t2 (sv_s3_circuit sv)) \<rparr>)
      | Inl e \<Rightarrow>
          if is_s3_outage e
          then (Inr False, sv\<lparr> sv_world := w5, sv_s3_circuit := snd (record_failure t1 t2 (sv_s3_circuit sv)) \<rparr>)
          else (Inl e, sv\<lparr> sv_world := w3 \<rparr>))"
  using assms
  by (cases r) (simp_all add: persist_to_s3_def catching_def on_world_def monotonic_def bnd_apply seq_def modify_def)

lemma keeps_on_world: "(\<And>sv w. v (sv\<lparr> sv_world := w \<rparr>) = v sv) \<Longrightarrow> keeps v (on_world m)"
  by (simp add: keeps_def on_world_def split: prod.split)

lemma write_through_frame:
  "keeps (\<lambda>sv. (sv_store sv, sv_s3_circuit sv)) (write_through_redis cfg be provider z x y data)"
  unfolding write_through_redis_def monotonic_def
  by (auto intro!: frame keeps_on_world simp: keeps_def [of _ "modify f" for f] modify_def)

lemma write_through_keeps:
  "write_through_redis cfg be provider z x y data sv = (r, sv') \<Longrightarrow>
   sv_store sv' = sv_store sv \<and> sv_s3_circuit sv' = sv_s3_circuit sv"
  by (drule keepsD [OF write_through_frame]) simp

text \<open>
  C0. What the outcome of a tile says of the calls made, and what it leaves, in full.
  \<^verbatim>\<open>STORAGE_SKIPPED\<close> is returned exactly when the storage circuit refuses, and only the clock was
  read: no provider quota is spent on a tile that cannot be stored. \<^verbatim>\<open>UNAVAILABLE\<close> and
  \<^verbatim>\<open>MISSING\<close> end at the download: the state is the one the download left, so nothing was written and
  no circuit heard of it. \<^verbatim>\<open>STORAGE_ERROR\<close> means one upload of the downloaded bytes under the
  tile's key that failed, told to the storage circuit and nothing after it; \<^verbatim>\<open>OK\<close> that the bucket accepted
  those bytes, that the circuit was told, and that only the hot cache was written after that.
\<close>

theorem tile_outcome_meaning:
  assumes "download_and_store cfg be provider z x y sv = (Inr oc, sv')"
    and "be_monotonic be (sv_world sv) = (t, w1)"
  shows "(oc = STORAGE_SKIPPED \<longleftrightarrow> \<not> allows_write t (sv_s3_circuit sv)) \<and>
    (let key = build_basemap_tile_key (bp_provider_id provider) (int z) x y
     in case oc of
       STORAGE_SKIPPED \<Rightarrow> sv' = sv\<lparr> sv_world := w1 \<rparr>
     | UNAVAILABLE \<Rightarrow> (\<exists>url w2. build_source_url provider z x y = Some url \<and>
          be_download_tile be url w1 = (Inl ProviderUnavailableError, w2) \<and> sv' = sv\<lparr> sv_world := w2 \<rparr>)
     | MISSING \<Rightarrow> (\<exists>url d w2. build_source_url provider z x y = Some url \<and>
          be_download_tile be url w1 = (Inr d, w2) \<and> \<not> truthy d \<and> sv' = sv\<lparr> sv_world := w2 \<rparr>)
     | STORAGE_ERROR \<Rightarrow> (\<exists>url data w2 e w3 t1 w4 t2 w5. build_source_url provider z x y = Some url \<and>
          be_download_tile be url w1 = (Inr (Some data), w2) \<and> truthy (Some data) \<and>
          be_upload_tile be key data w2 = (Inl e, w3) \<and> is_s3_outage e \<and>
          be_monotonic be w3 = (t1, w4) \<and> be_monotonic be w4 = (t2, w5) \<and>
          sv' = sv\<lparr> sv_world := w5, sv_s3_circuit := snd (record_failure t1 t2 (sv_s3_circuit sv)) \<rparr>)
     | OK \<Rightarrow> (\<exists>url data w2 w3 t1 w4 t2 w5. build_source_url provider z x y = Some url \<and>
          be_download_tile be url w1 = (Inr (Some data), w2) \<and> truthy (Some data) \<and>
          be_upload_tile be key data w2 = (Inr (), w3) \<and>
          be_monotonic be w3 = (t1, w4) \<and> be_monotonic be w4 = (t2, w5) \<and>
          write_through_redis cfg be provider z x y data
            (sv\<lparr> sv_world := w5, sv_s3_circuit := snd (record_success t1 t2 (sv_s3_circuit sv)) \<rparr>) = (Inr (), sv') \<and>
          sv_store sv' = sv_store sv \<and> sv_s3_circuit sv' = snd (record_success t1 t2 (sv_s3_circuit sv))))"
proof (cases "allows_write t (sv_s3_circuit sv)")
  case False
  then show ?thesis using assms by (auto simp: download_and_store_def bnd_apply monotonic_apply)
next
  case True
  let ?key = "build_basemap_tile_key (bp_provider_id provider) (int z) x y"
  obtain url where url: "build_source_url provider z x y = Some url"
    using assms True by (cases "build_source_url provider z x y") (auto simp: download_and_store_def bnd_apply monotonic_apply)
  obtain r w2 where dl: "be_download_tile be url w1 = (r, w2)" by (cases "be_download_tile be url w1")
  let ?sv2 = "sv\<lparr> sv_world := w2 \<rparr>"
  have run: "(case r of
        Inl e \<Rightarrow> if e = ProviderUnavailableError then (Inr UNAVAILABLE, ?sv2) else (Inl e, ?sv2)
      | Inr d \<Rightarrow> (if \<not> truthy d then ret MISSING
          else bnd (persist_to_s3 be provider z x y (the d)) (\<lambda>stored.
            if \<not> stored then ret STORAGE_ERROR
            else seq (write_through_redis cfg be provider z x y (the d)) (ret OK))) ?sv2) = (Inr oc, sv')"
    using assms True url dl
    by (cases r) (auto simp: download_and_store_def bnd_apply monotonic_apply catching_def on_world_def split: if_splits)
  show ?thesis
  proof (cases r)
    case (Inl e)
    then show ?thesis using run True url dl by (auto split: if_splits)
  next
    case (Inr d)
    show ?thesis
    proof (cases "truthy d")
      case False
      then show ?thesis using run Inr True url dl by auto
    next
      case yes: True
      obtain data where d: "d = Some data" using truthy_Some [OF yes] by blast
      obtain r3 w3 where up: "be_upload_tile be ?key data w2 = (r3, w3)" by (cases "be_upload_tile be ?key data w2")
      obtain t1 w4 where c1: "be_monotonic be w3 = (t1, w4)" by (cases "be_monotonic be w3")
      obtain t2 w5 where c2: "be_monotonic be w4 = (t2, w5)" by (cases "be_monotonic be w4")
      have "be_upload_tile be ?key data (sv_world ?sv2) = (r3, w3)" using up by simp
      note persist = persist_to_s3_run [OF this c1 c2]
      show ?thesis
      proof (cases r3)
        case fail: (Inl e)
        then have "is_s3_outage e" using run yes persist by (auto simp: Inr d bnd_apply split: if_splits)
        then show ?thesis using run yes persist fail url dl up c1 c2 True by (simp add: Inr d bnd_apply)
      next
        case ok: (Inr u)
        let ?sv3 = "sv\<lparr> sv_world := w5, sv_s3_circuit := snd (record_success t1 t2 (sv_s3_circuit sv)) \<rparr>"
        have oc: "oc = OK" and wt: "write_through_redis cfg be provider z x y data ?sv3 = (Inr (), sv')"
          using run yes persist ok by (auto simp: Inr d bnd_apply seq_def split: sum.splits prod.splits)
        show ?thesis using write_through_keeps [OF wt] wt oc ok url dl up c1 c2 True yes by (simp add: Inr d)
      qed
    qed
  qed
qed

text \<open>A backend whose provider and bucket answer, and whose Redis is down.\<close>

definition redis_down :: "rat backend" where
  "redis_down = (ticking 0)\<lparr> be_download_tile := (\<lambda>u w. (Inr (Some (Raw ''png'')), w)),
      be_store_basemap_tile := (\<lambda>p z x y d ttl w. (Inl (RedisError ''Connection refused''), w)) \<rparr>"

theorem tile_outcome_meaning_witness:
  "\<exists>sv' url data w2 w3 t1 w4 t2 w5. build_source_url demo_provider 1 0 1 = Some url \<and>
     be_download_tile redis_down url 5 = (Inr (Some data), w2) \<and> truthy (Some data) \<and>
     be_upload_tile redis_down (build_basemap_tile_key (bp_provider_id demo_provider) 1 0 1) data w2 = (Inr (), w3) \<and>
     be_monotonic redis_down w3 = (t1, w4) \<and> be_monotonic redis_down w4 = (t2, w5) \<and>
     sv_s3_circuit (sv' :: rat service) = snd (record_success t1 t2 (storage_circuit ''S3''))"
proof -
  have run: "download_and_store demo_config redis_down demo_provider 1 0 1 (new_service (new_store None) 5)
      = (Inr OK, snd (download_and_store demo_config redis_down demo_provider 1 0 1 (new_service (new_store None) 5)))"
    by (simp add: download_and_store_def redis_down_def ticking_def demo_config_def demo_provider_def
        new_service_def storage_circuit_def new_circuit_def bnd_apply monotonic_def on_world_def allows_write_def
        is_open_def build_source_url_def catching_def persist_to_s3_def seq_def modify_def write_through_redis_def)
  have "be_monotonic redis_down (sv_world (new_service (new_store None) 5)) = (5, 5)"
    by (simp add: redis_down_def ticking_def new_service_def)
  note facts = tile_outcome_meaning [OF run this, unfolded Let_def tile_outcome.case]
  have circuit: "sv_s3_circuit (new_service (new_store None) 5) = storage_circuit ''S3''" by (simp add: new_service_def)
  show ?thesis using facts unfolding circuit of_nat_1
    by (elim conjE exE) (intro exI conjI, assumption+)
qed

text \<open>
  The handler of the hot-cache write names \<^verbatim>\<open>httpx\<close> and socket errors only: an exception of
  the Redis client itself leaves \<^verbatim>\<open>_download_and_store\<close> although the tile is stored.
\<close>

lemma redis_exception_escapes:
  "fst (download_and_store (demo_config\<lparr> sg_redis_writes_enabled := True \<rparr>) redis_down demo_provider 1 0 1
          (new_service (new_store None) 5)) = Inl (RedisError ''Connection refused'')"
  by (simp add: download_and_store_def redis_down_def ticking_def demo_config_def demo_provider_def
      new_service_def storage_circuit_def new_circuit_def bnd_apply monotonic_def on_world_def allows_write_def
      is_open_def build_source_url_def catching_def persist_to_s3_def seq_def modify_def write_through_redis_def
      record_success_def observe_def Let_def)

section \<open>Groups\<close>

lemma append_group_concat: "mset (concat (map snd (append_group gs k v))) = add_mset v (mset (concat (map snd gs)))"
  by (induction gs k v rule: append_group.induct) auto

lemma append_group_nonempty: "\<forall>g \<in> set gs. snd g \<noteq> [] \<Longrightarrow> \<forall>g \<in> set (append_group gs k v). snd g \<noteq> []"
  by (induction gs k v rule: append_group.induct) auto

lemma fold_groups:
  assumes "\<forall>g \<in> set gs. snd g \<noteq> []"
  shows "mset (concat (map snd (foldl (\<lambda>gs p. append_group gs (h p) p) gs ps))) = mset ps + mset (concat (map snd gs))
         \<and> (\<forall>g \<in> set (foldl (\<lambda>gs p. append_group gs (h p) p) gs ps). snd g \<noteq> [])"
  using assms
proof (induction ps arbitrary: gs)
  case (Cons p ps)
  then show ?case using Cons.IH [OF append_group_nonempty [OF Cons.prems]] by (simp add: append_group_concat)
qed simp

text \<open>In every mode the groups split the enabled providers: none lost, none twice, no empty group.\<close>

lemma scrape_groups_partition:
  "mset (concat (build_scrape_groups cfg)) = mset (map snd (sg_providers cfg))
   \<and> [] \<notin> set (build_scrape_groups cfg)"
proof -
  have "mset (concat (map ((\<lambda>p. [p]) \<circ> snd) ps)) = image_mset snd (mset ps)"
    for ps :: "(string \<times> basemap_provider) list" by (induction ps) auto
  then show ?thesis
    using fold_groups [of "[]" "\<lambda>p. url_netloc (bp_source_url_template p)" "map snd (sg_providers cfg)"]
    by (auto simp: build_scrape_groups_def Let_def)
qed

end
