(* ===== verification/Basemap_Flight.thy ===== *)
theory Basemap_Flight
  imports Prelude
begin

text \<open>
  Requests that share one lookup: the table of futures in flight of
  \<^verbatim>\<open>services/basemap_tile_reader.py\<close> (keyed by provider and tile) and of
  \<^verbatim>\<open>services/basemap_service.py\<close> (keyed by provider). The first request for a key leads: it
  puts a future into the table, runs the lookup, settles the future with what the lookup
  returned or raised, and takes the key out. A request that finds the key awaits that future.
  Cancelling a task that awaits a future cancels the future.

  A state holds every request made so far, in order of arrival; \<^verbatim>\<open>fl_resolved\<close> and
  \<^verbatim>\<open>fl_cancelled\<close> are history, which no code reads: the outcome of each finished lookup and
  the futures of cancelled waiters.
\<close>

section \<open>State and operations\<close>

datatype ('k, 'a) request =
    Leading 'k nat                 \<comment> \<open>runs the lookup, with its future\<close>
  | Waiting nat                    \<comment> \<open>awaits a future\<close>
  | Answered nat "exn + 'a"

record ('k, 'a) flights =
  fl_inflight :: "'k \<Rightarrow> nat option"
  fl_future :: "nat \<Rightarrow> (exn + 'a) option"
  fl_next :: nat
  fl_requests :: "('k, 'a) request list"
  fl_resolved :: "nat \<Rightarrow> (exn + 'a) option"
  fl_cancelled :: "nat set"

definition no_flights :: "('k, 'a) flights" where
  "no_flights =
     \<lparr> fl_inflight = Map.empty, fl_future = Map.empty, fl_next = 0, fl_requests = [],
       fl_resolved = Map.empty, fl_cancelled = {} \<rparr>"

definition arrive :: "'k \<Rightarrow> ('k, 'a) flights \<Rightarrow> ('k, 'a) flights" where
  "arrive key s =
     (case fl_inflight s key of
        Some f \<Rightarrow> s\<lparr> fl_requests := fl_requests s @ [Waiting f] \<rparr>
      | None \<Rightarrow>
          s\<lparr> fl_inflight := (fl_inflight s)(key \<mapsto> fl_next s), fl_next := Suc (fl_next s),
             fl_requests := fl_requests s @ [Leading key (fl_next s)] \<rparr>)"

text \<open>\<^verbatim>\<open>if not fut.done(): fut.set_result(..)\<close> or \<^verbatim>\<open>set_exception\<close>, then the \<^verbatim>\<open>finally\<close>.\<close>

definition settle :: "nat \<Rightarrow> exn + 'a \<Rightarrow> (nat \<Rightarrow> (exn + 'a) option) \<Rightarrow> nat \<Rightarrow> (exn + 'a) option" where
  "settle f r futures = (if futures f = None then futures(f \<mapsto> r) else futures)"

definition finish :: "nat \<Rightarrow> exn + 'a \<Rightarrow> ('k, 'a) flights \<Rightarrow> ('k, 'a) flights" where
  "finish i r s =
     (case fl_requests s ! i of
        Leading key f \<Rightarrow>
          s\<lparr> fl_future := settle f r (fl_future s),
             fl_inflight := (fl_inflight s)(key := None),
             fl_resolved := (fl_resolved s)(f \<mapsto> r),
             fl_requests := (fl_requests s)[i := Answered f r] \<rparr>
      | _ \<Rightarrow> s)"

definition wake :: "nat \<Rightarrow> ('k, 'a) flights \<Rightarrow> ('k, 'a) flights" where
  "wake i s =
     (case fl_requests s ! i of
        Waiting f \<Rightarrow>
          (case fl_future s f of
             Some r \<Rightarrow> s\<lparr> fl_requests := (fl_requests s)[i := Answered f r] \<rparr>
           | None \<Rightarrow> s)
      | _ \<Rightarrow> s)"

definition cancel_waiter :: "nat \<Rightarrow> ('k, 'a) flights \<Rightarrow> ('k, 'a) flights" where
  "cancel_waiter i s =
     (case fl_requests s ! i of
        Waiting f \<Rightarrow>
          s\<lparr> fl_future := settle f (Inl CancelledError) (fl_future s),
             fl_cancelled := insert f (fl_cancelled s),
             fl_requests := (fl_requests s)[i := Answered f (Inl CancelledError)] \<rparr>
      | _ \<Rightarrow> s)"

lemmas flight_ops = arrive_def finish_def wake_def cancel_waiter_def settle_def

inductive reachable_flights :: "('k, 'a) flights \<Rightarrow> bool" where
  start: "reachable_flights no_flights"
| arrives: "reachable_flights s \<Longrightarrow> reachable_flights (arrive key s)"
| finishes: "reachable_flights s \<Longrightarrow> i < length (fl_requests s) \<Longrightarrow> reachable_flights (finish i r s)"
| wakes: "reachable_flights s \<Longrightarrow> i < length (fl_requests s) \<Longrightarrow> reachable_flights (wake i s)"
| cancelled: "reachable_flights s \<Longrightarrow> i < length (fl_requests s) \<Longrightarrow> reachable_flights (cancel_waiter i s)"

section \<open>Invariant\<close>

definition explained :: "('k, 'a) flights \<Rightarrow> nat \<Rightarrow> exn + 'a \<Rightarrow> bool" where
  "explained s f r \<longleftrightarrow> fl_resolved s f = Some r \<or> r = Inl CancelledError \<and> f \<in> fl_cancelled s"

text \<open>What each request needs of the tables, and what the tables need of the requests.\<close>

fun request_ok :: "('k, 'a) flights \<Rightarrow> ('k, 'a) request \<Rightarrow> bool" where
  "request_ok s (Leading key f) = (fl_inflight s key = Some f \<and> fl_resolved s f = None)"
| "request_ok s (Waiting f) = (f < fl_next s \<and> (fl_future s f = None \<longrightarrow> f \<in> ran (fl_inflight s)))"
| "request_ok s (Answered f r) = explained s f r"

definition leaders :: "('k, 'a) flights \<Rightarrow> 'k \<Rightarrow> nat \<Rightarrow> nat set" where
  "leaders s key f = {i. i < length (fl_requests s) \<and> fl_requests s ! i = Leading key f}"

definition flights_ok :: "('k, 'a) flights \<Rightarrow> bool" where
  "flights_ok s \<longleftrightarrow>
     (\<forall>q \<in> set (fl_requests s). request_ok s q)
   \<and> (\<forall>key f. fl_inflight s key = Some f \<longrightarrow> f < fl_next s \<and> (\<exists>i. leaders s key f = {i}))
   \<and> (\<forall>k1 k2 f. fl_inflight s k1 = Some f \<longrightarrow> fl_inflight s k2 = Some f \<longrightarrow> k1 = k2)
   \<and> (\<forall>f r. fl_future s f = Some r \<longrightarrow> f < fl_next s \<and> explained s f r)
   \<and> (\<forall>f. fl_resolved s f \<noteq> None \<longrightarrow> f < fl_next s)"

lemma flights_okD:
  assumes "flights_ok s"
  shows "q \<in> set (fl_requests s) \<Longrightarrow> request_ok s q"
    and "fl_inflight s key = Some f \<Longrightarrow> f < fl_next s"
    and "fl_inflight s key = Some f \<Longrightarrow> \<exists>i. leaders s key f = {i}"
    and "fl_inflight s k1 = Some f \<Longrightarrow> fl_inflight s k2 = Some f \<Longrightarrow> k1 = k2"
    and "fl_future s f = Some r \<Longrightarrow> f < fl_next s \<and> explained s f r"
    and "fl_resolved s f = Some r \<Longrightarrow> f < fl_next s"
  using assms unfolding flights_ok_def by blast+

lemma no_flights_ok: "flights_ok no_flights"
  by (simp add: flights_ok_def no_flights_def)

lemma leaders_append:
  "leaders (s\<lparr> fl_requests := fl_requests s @ [q] \<rparr>) key f =
     leaders s key f \<union> (if q = Leading key f then {length (fl_requests s)} else {})"
  by (auto simp: leaders_def nth_append less_Suc_eq split: if_splits)

lemma leaders_update:
  assumes "i < length (fl_requests s)" "\<And>k g. q \<noteq> Leading k g"
  shows "leaders (s\<lparr> fl_requests := (fl_requests s)[i := q] \<rparr>) key f = leaders s key f - {i}"
  using assms by (auto simp: leaders_def nth_list_update split: if_splits)

lemma leaders_more [simp]:
  "leaders (s\<lparr> fl_inflight := a \<rparr>) = leaders s" "leaders (s\<lparr> fl_future := b \<rparr>) = leaders s"
  "leaders (s\<lparr> fl_next := c \<rparr>) = leaders s" "leaders (s\<lparr> fl_resolved := d \<rparr>) = leaders s"
  "leaders (s\<lparr> fl_cancelled := e \<rparr>) = leaders s"
  by (auto simp: leaders_def fun_eq_iff)

lemma no_leader: "flights_ok s \<Longrightarrow> fl_inflight s key \<noteq> Some f \<Longrightarrow> leaders s key f = {}"
  unfolding leaders_def by (auto dest!: flights_okD(1) [OF _ nth_mem])

lemma arrive_ok:
  assumes ok: "flights_ok s"
  shows "flights_ok (arrive key s)"
proof (cases "fl_inflight s key")
  case (Some f)
  have w: "request_ok s' (Waiting f)" if "fl_inflight s' = fl_inflight s" "fl_next s' = fl_next s" for s' :: "('a, 'b) flights"
    using Some flights_okD(2) [OF ok Some] that by (auto intro: ranI)
  have q: "request_ok (s\<lparr> fl_requests := x \<rparr>) q = request_ok s q" for x q
    by (cases q) (simp_all add: explained_def)
  show ?thesis
    using ok Some w [of s] unfolding flights_ok_def
    by (auto simp: arrive_def q leaders_append explained_def)
next
  case None
  let ?n = "fl_next s"
  let ?s = "s\<lparr> fl_inflight := (fl_inflight s)(key \<mapsto> ?n), fl_next := Suc ?n,
               fl_requests := fl_requests s @ [Leading key ?n] \<rparr>"
  have fresh: "fl_resolved s ?n = None" using flights_okD(6) [OF ok, of ?n] by (cases "fl_resolved s ?n") auto
  have q: "request_ok ?s q" if "request_ok s q" for q
    using that None by (cases q) (auto simp: explained_def ran_def, metis option.distinct(1))
  have l: "leaders ?s k f = leaders s k f \<union> (if k = key \<and> f = ?n then {length (fl_requests s)} else {})" for k f
    using leaders_append [of s "Leading key ?n" k f] by (simp add: leaders_def)
  have "leaders ?s key ?n = {length (fl_requests s)}" using l no_leader [OF ok] None by simp
  moreover have "\<exists>i. leaders ?s k f = {i}" if "fl_inflight s k = Some f" for k f
    using l [of k f] flights_okD(3) [OF ok that] that None by auto
  moreover have "f < ?n" if "fl_inflight s k = Some f" for k f using flights_okD(2) [OF ok that] .
  ultimately have "flights_ok ?s"
    using ok q fresh None flights_okD(1) [OF ok] flights_okD(4,5,6) [OF ok]
    unfolding flights_ok_def by (auto simp: explained_def less_Suc_eq)
  then show ?thesis using None by (simp add: arrive_def)
qed

lemma request_okI:
  assumes "request_ok s q"
    and "\<And>key f. q = Leading key f \<Longrightarrow> fl_inflight s' key = Some f \<and> fl_resolved s' f = None"
    and "fl_next s' = fl_next s"
    and "\<And>f. fl_future s' f = None \<Longrightarrow> fl_future s f = None \<and> (f \<in> ran (fl_inflight s) \<longrightarrow> f \<in> ran (fl_inflight s'))"
    and "\<And>f r. explained s f r \<Longrightarrow> explained s' f r"
  shows "request_ok s' q"
  using assms by (cases q) auto

lemma finish_ok:
  assumes ok: "flights_ok s" and i: "i < length (fl_requests s)"
  shows "flights_ok (finish i r s)"
proof (cases "fl_requests s ! i")
  case (Leading key f)
  let ?t = "s\<lparr> fl_future := settle f r (fl_future s), fl_inflight := (fl_inflight s)(key := None),
               fl_resolved := (fl_resolved s)(f \<mapsto> r) \<rparr>"
  let ?s = "?t\<lparr> fl_requests := (fl_requests s)[i := Answered f r] \<rparr>"
  have m: "Leading key f \<in> set (fl_requests s)" using Leading i by (metis nth_mem)
  have lead: "fl_inflight s key = Some f" "fl_resolved s f = None" using flights_okD(1) [OF ok m] by auto
  obtain j where "leaders s key f = {j}" using flights_okD(3) [OF ok lead(1)] by blast
  moreover have "i \<in> leaders s key f" using Leading i by (simp add: leaders_def)
  ultimately have only: "leaders s key f = {i}" by simp
  have ex: "explained ?s g x" if "explained s g x" for g x
    using that lead(2) by (auto simp: explained_def)
  have "request_ok ?s q" if q: "q \<in> set (fl_requests s)" and nq: "q \<noteq> Leading key f" for q
  proof (rule request_okI [OF flights_okD(1) [OF ok q]])
    show "fl_inflight ?s k = Some g \<and> fl_resolved ?s g = None" if "q = Leading k g" for k g
    proof -
      have k: "fl_inflight s k = Some g" "fl_resolved s g = None" using flights_okD(1) [OF ok q] that by auto
      then have "k \<noteq> key" "g \<noteq> f" using that nq lead flights_okD(4) [OF ok lead(1), of k] by auto
      then show ?thesis using k by simp
    qed
    show "fl_future s g = None \<and> (g \<in> ran (fl_inflight s) \<longrightarrow> g \<in> ran (fl_inflight ?s))"
      if "fl_future ?s g = None" for g
      using that lead by (auto simp: settle_def ran_def split: if_splits) (metis option.distinct(1) option.inject)+
  qed (use ex in auto)
  moreover have "q \<noteq> Leading key f" if mem: "q \<in> set ((fl_requests s)[i := Answered f r])" for q
  proof
    assume "q = Leading key f"
    then obtain j where j: "j < length (fl_requests s)" "(fl_requests s)[i := Answered f r] ! j = Leading key f"
      using mem by (auto simp: in_set_conv_nth)
    then have "j \<noteq> i" using i by auto
    then have "j \<in> leaders s key f" using j by (simp add: leaders_def)
    then show False using only \<open>j \<noteq> i\<close> by simp
  qed
  moreover have "request_ok ?s (Answered f r)" by (simp add: explained_def)
  moreover have "q = Answered f r \<or> q \<in> set (fl_requests s)" if "q \<in> set (fl_requests ?s)" for q
    using set_update_subset_insert [of "fl_requests s" i "Answered f r"] that by auto
  ultimately have "\<forall>q \<in> set (fl_requests ?s). request_ok ?s q" by fastforce
  moreover have "\<exists>j. leaders ?s k g = {j}" if "fl_inflight ?s k = Some g" for k g
  proof -
    have "k \<noteq> key" "fl_inflight s k = Some g" using that by (auto split: if_splits)
    then obtain j where j: "leaders s k g = {j}" using flights_okD(3) [OF ok] by blast
    have "leaders ?s k g = leaders s k g - {i}"
      using leaders_update [of i ?t "Answered f r" k g] i by simp
    moreover have "fl_requests s ! j = Leading k g" using j unfolding leaders_def by blast
    then have "j \<noteq> i" using Leading \<open>k \<noteq> key\<close> by auto
    ultimately show ?thesis using j by auto
  qed
  ultimately have "flights_ok ?s"
    using flights_okD(2,4,5,6) [OF ok] flights_okD(2) [OF ok lead(1)] ex
    unfolding flights_ok_def by (auto simp: settle_def explained_def split: if_splits)
  then show ?thesis using Leading by (simp add: finish_def)
qed (simp_all add: finish_def ok)

lemma wake_ok:
  assumes ok: "flights_ok s" and i: "i < length (fl_requests s)"
  shows "flights_ok (wake i s)"
proof (cases "\<exists>f r. fl_requests s ! i = Waiting f \<and> fl_future s f = Some r")
  case True
  then obtain f r where w: "fl_requests s ! i = Waiting f" "fl_future s f = Some r" by blast
  let ?s = "s\<lparr> fl_requests := (fl_requests s)[i := Answered f r] \<rparr>"
  have q: "request_ok ?s q = request_ok s q" for q by (cases q) (simp_all add: explained_def)
  have e: "explained s f r" using flights_okD(5) [OF ok w(2)] by simp
  have "request_ok s q" if "q \<in> set (fl_requests ?s)" for q
    using that e flights_okD(1) [OF ok] by (auto dest!: set_update_subset_insert [THEN subsetD])
  moreover have "leaders ?s k g = leaders s k g" for k g
    using leaders_update [OF i, of "Answered f r" k g] w by (auto simp: leaders_def)
  ultimately have "flights_ok ?s" using ok unfolding flights_ok_def by (auto simp: q explained_def)
  then show ?thesis using w by (simp add: wake_def)
next
  case False
  then have "wake i s = s" by (auto simp: wake_def split: request.splits option.splits)
  then show ?thesis using ok by simp
qed

lemma cancel_waiter_ok:
  assumes ok: "flights_ok s" and i: "i < length (fl_requests s)"
  shows "flights_ok (cancel_waiter i s)"
proof (cases "fl_requests s ! i")
  case (Waiting f)
  let ?t = "s\<lparr> fl_future := settle f (Inl CancelledError) (fl_future s), fl_cancelled := insert f (fl_cancelled s) \<rparr>"
  let ?s = "?t\<lparr> fl_requests := (fl_requests s)[i := Answered f (Inl CancelledError)] \<rparr>"
  have m: "Waiting f \<in> set (fl_requests s)" using Waiting i by (metis nth_mem)
  have f: "f < fl_next s" using flights_okD(1) [OF ok m] by simp
  have ex: "explained ?s g x" if "explained s g x" for g x using that by (auto simp: explained_def)
  have "request_ok ?s q" if q: "q \<in> set (fl_requests s)" for q
    by (rule request_okI [OF flights_okD(1) [OF ok q]])
       (use flights_okD(1) [OF ok q] ex in \<open>auto simp: settle_def split: if_splits\<close>)
  then have "request_ok ?s q" if "q \<in> set (fl_requests ?s)" for q
    using that by (auto simp: explained_def dest!: set_update_subset_insert [THEN subsetD])
  moreover have "leaders ?s k g = leaders s k g" for k g
  proof -
    have "leaders ?s k g = leaders s k g - {i}"
      using leaders_update [of i ?t "Answered f (Inl CancelledError)" k g] i by simp
    also have "\<dots> = leaders s k g" using Waiting by (auto simp: leaders_def)
    finally show ?thesis .
  qed
  moreover have "g < fl_next s \<and> explained ?s g x" if "fl_future ?s g = Some x" for g x
    using that f ex flights_okD(5) [OF ok, of g x] by (auto simp: settle_def explained_def split: if_splits)
  ultimately have "flights_ok ?s" using ok unfolding flights_ok_def by simp
  then show ?thesis using Waiting by (simp add: cancel_waiter_def)
qed (simp_all add: cancel_waiter_def ok)

lemma reachable_flights_ok: "reachable_flights s \<Longrightarrow> flights_ok s"
  by (induction rule: reachable_flights.induct)
     (simp_all add: no_flights_ok arrive_ok finish_ok wake_ok cancel_waiter_ok)

section \<open>Properties\<close>

text \<open>
  C10. One lookup per key. In every reachable state at most one request leads for a key; every
  request that waits either waits for a lookup that is still running or can be answered now, so
  none is left behind; and every answer given is the outcome of the lookup it waited for, unless a
  request that waited with it was cancelled. So without cancellation all requests that shared a
  lookup get the same answer.
\<close>

theorem single_flight:
  assumes "reachable_flights s"
  shows "(\<forall>i j key f g. i < length (fl_requests s) \<and> j < length (fl_requests s)
            \<and> fl_requests s ! i = Leading key f \<and> fl_requests s ! j = Leading key g \<longrightarrow> i = j)
       \<and> (\<forall>f. Waiting f \<in> set (fl_requests s) \<longrightarrow>
            fl_future s f \<noteq> None \<or> (\<exists>key. Leading key f \<in> set (fl_requests s)))
       \<and> (\<forall>f r. Answered f r \<in> set (fl_requests s) \<and> f \<notin> fl_cancelled s \<longrightarrow> fl_resolved s f = Some r)"
proof -
  note ok = reachable_flights_ok [OF assms]
  have "i = j" if ij: "i < length (fl_requests s)" "j < length (fl_requests s)"
    and l: "fl_requests s ! i = Leading key f" "fl_requests s ! j = Leading key g" for i j key f g
  proof -
    have "request_ok s (Leading key f)" "request_ok s (Leading key g)"
      using flights_okD(1) [OF ok nth_mem] ij l by metis+
    then have "f = g" and k: "fl_inflight s key = Some f" by auto
    obtain n where "leaders s key f = {n}" using flights_okD(3) [OF ok k] by blast
    moreover have "{i, j} \<subseteq> leaders s key f" using ij l \<open>f = g\<close> by (simp add: leaders_def)
    ultimately show ?thesis by simp
  qed
  moreover have "fl_future s f \<noteq> None \<or> (\<exists>key. Leading key f \<in> set (fl_requests s))"
    if wf: "Waiting f \<in> set (fl_requests s)" for f
  proof (cases "fl_future s f")
    case None
    then obtain key where k: "fl_inflight s key = Some f"
      using flights_okD(1) [OF ok wf] by (auto simp: ran_def)
    obtain n where "leaders s key f = {n}" using flights_okD(3) [OF ok k] by blast
    then have "n < length (fl_requests s)" "fl_requests s ! n = Leading key f" by (auto simp: leaders_def)
    then show ?thesis by (metis nth_mem)
  qed simp
  moreover have "fl_resolved s f = Some r" if "Answered f r \<in> set (fl_requests s)" "f \<notin> fl_cancelled s" for f r
    using flights_okD(1) [OF ok that(1)] that(2) by (simp add: explained_def)
  ultimately show ?thesis by blast
qed

text \<open>Three requests for one tile and one for another; the first lookup has finished and one waiter woken.\<close>

definition demo_flights :: "(nat, nat) flights" where
  "demo_flights = wake 1 (finish 0 (Inr 42) (arrive 7 (arrive 8 (arrive 7 (arrive 7 no_flights)))))"

lemma demo_flights_reachable: "reachable_flights demo_flights"
  unfolding demo_flights_def
  by (intro reachable_flights.intros) (simp_all add: arrive_def finish_def no_flights_def)

lemma demo_flights_requests:
  "fl_requests demo_flights = [Answered 0 (Inr 42), Answered 0 (Inr 42), Leading 8 1, Waiting 0]"
  by (simp add: demo_flights_def flight_ops no_flights_def)

theorem single_flight_witness:
  "fl_requests demo_flights = [Answered 0 (Inr 42), Answered 0 (Inr 42), Leading 8 1, Waiting 0]
   \<and> fl_future demo_flights 0 \<noteq> None \<and> fl_resolved demo_flights 0 = Some (Inr 42)"
proof -
  note r = demo_flights_requests and p = single_flight [OF demo_flights_reachable]
  have "0 \<notin> fl_cancelled demo_flights" by (simp add: demo_flights_def flight_ops no_flights_def)
  then have "fl_resolved demo_flights 0 = Some (Inr 42)" using p by (simp add: r)
  moreover have "fl_future demo_flights 0 \<noteq> None" using p by (simp add: r)
  ultimately show ?thesis using r by simp
qed

text \<open>
  Cancelling one waiter fails the others: the future is shared, so every request that waited
  with it is answered by the cancellation, and so is a later request for the same key, while the
  lookup still runs.
\<close>

theorem cancelled_waiter_fails_others:
  assumes "i < length (fl_requests s)" "j < length (fl_requests s)" "i \<noteq> j"
    and "fl_requests s ! i = Waiting f" "fl_requests s ! j = Waiting f" "fl_future s f = None"
  shows "fl_requests (wake j (cancel_waiter i s)) ! j = Answered f (Inl CancelledError)
       \<and> fl_inflight (wake j (cancel_waiter i s)) = fl_inflight s"
  using assms by (simp add: cancel_waiter_def wake_def settle_def)

end
