(* ===== verification/Http_Tile.thy ===== *)
theory Http_Tile
  imports Basemap_Config
begin

text \<open>
  The HTTP client for map tiles (\<^verbatim>\<open>clients/http_tile_client.py\<close>). The \<^verbatim>\<open>httpx\<close> client, the
  clock and the retry loop of \<^verbatim>\<open>tenacity\<close> are parameters, a record of calls on a world
  \<^typ>\<open>'w\<close>. What the retry loop does is the locale \<^verbatim>\<open>tile_upstream\<close>, its documented behaviour:
  attempts one after the other until one does not raise a retried exception or the stop
  condition holds, and the last attempt's outcome (\<^verbatim>\<open>reraise=True\<close>). The two semaphores
  bound concurrency and are not modelled.
\<close>

section \<open>State\<close>

record http_response =
  hr_status_code :: int
  hr_content :: pybytes
  hr_content_type :: "string option"


text \<open>
  The policy handed to \<^verbatim>\<open>AsyncRetrying\<close>: both stop conditions, the bounds of the
  exponential wait and the retried exceptions.
\<close>

record retry_policy =
  rp_stop_after_attempt :: int
  rp_stop_after_delay :: rat
  rp_wait_initial :: rat
  rp_wait_max :: rat
  rp_retry_if :: "exn \<Rightarrow> bool"

record 'w http =
  hx_client :: "'w \<Rightarrow> bool"                  \<comment> \<open>\<^verbatim>\<open>self._client is not None\<close>\<close>
  hx_set_client :: "bool \<Rightarrow> 'w \<Rightarrow> 'w"
  hx_aclose :: "('w, unit) io"
  hx_get :: "source_url \<Rightarrow> ('w, http_response) io"
  hx_sleep :: "rat \<Rightarrow> ('w, unit) io"
  hx_retrying :: "retry_policy \<Rightarrow> ('w, pybytes option) io \<Rightarrow> ('w, pybytes option) io"

section \<open>Operations\<close>



definition http_connect :: "'w http \<Rightarrow> ('w, unit) io" where
  "http_connect H =
     bnd (reads (hx_client H)) (\<lambda>c. if c then ret () else modify (hx_set_client H True))"

definition http_close :: "'w http \<Rightarrow> ('w, unit) io" where
  "http_close H =
     bnd (reads (hx_client H)) (\<lambda>c.
       if c then seq (hx_aclose H) (modify (hx_set_client H False)) else ret ())"








section \<open>What the upstream answer means\<close>



text \<open>
  The runs of a retry loop over an attempt \<^verbatim>\<open>m\<close>: the worlds the attempts started in, the
  outcome and the last world. Between two attempts the loop sleeps.
\<close>

inductive retry_run ::
  "(exn \<Rightarrow> bool) \<Rightarrow> ('w, 'a) io \<Rightarrow> 'w list \<Rightarrow> (exn + 'a) \<Rightarrow> 'w \<Rightarrow> bool" for P m where
  ended: "m w = (r, w') \<Longrightarrow> retry_run P m [w] r w'"
| again: "m w = (Inl e, w1) \<Longrightarrow> P e \<Longrightarrow> retry_run P m ws r w' \<Longrightarrow> retry_run P m (w # ws) r w'"

inductive_cases retry_run_NilE: "retry_run P m [] r w'"



section \<open>A scripted upstream\<close>






section \<open>Properties\<close>






end
