(* ===== verification/Redis_Keys.thy ===== *)
theory Redis_Keys
  imports Prelude
begin

text \<open>
  The key schema of the Redis cache: the keys each method of
  \<^verbatim>\<open>clients/redis_client.py\<close> writes and reads, and the classifier of
  \<^verbatim>\<open>services/redis_metrics_service.py\<close>. The schema is shown unambiguous: every key
  parses back to the entry it stands for.
\<close>

section \<open>Keys\<close>

definition radar_ns :: "string \<Rightarrow> string" where
  "radar_ns network = (if network = ''sinarame'' then ''radar'' else ''radar-'' @ network)"

text \<open>\<^verbatim>\<open>{z}/{x}/{y}\<close>, and the variant with colons of the base map keys.\<close>

definition slash_zxy :: "int \<Rightarrow> int \<Rightarrow> int \<Rightarrow> string" where
  "slash_zxy z x y = str_of_int z @ ''/'' @ str_of_int x @ ''/'' @ str_of_int y"

definition colon_zxy :: "int \<Rightarrow> int \<Rightarrow> int \<Rightarrow> string" where
  "colon_zxy z x y = str_of_int z @ '':'' @ str_of_int x @ '':'' @ str_of_int y"

definition satellite_tile_key :: "string \<Rightarrow> string \<Rightarrow> int \<Rightarrow> int \<Rightarrow> int \<Rightarrow> string" where
  "satellite_tile_key channel_dir tileset_id z x y =
     ''tile:sat:'' @ channel_dir @ ''/'' @ tileset_id @ ''/'' @ slash_zxy z x y"

definition satellite_index_key :: "string \<Rightarrow> string" where
  "satellite_index_key channel_dir = ''idx:sat:'' @ channel_dir"

definition radar_tile_key ::
  "string \<Rightarrow> string \<Rightarrow> string \<Rightarrow> string \<Rightarrow> string \<Rightarrow> int \<Rightarrow> int \<Rightarrow> int \<Rightarrow> string" where
  "radar_tile_key network radar_id variable_id tileset_id elevation_id z x y =
     ''tile:'' @ radar_ns network @ '':'' @ radar_id @ ''/'' @ variable_id @ ''/'' @
     tileset_id @ ''_'' @ elevation_id @ ''/'' @ slash_zxy z x y"

definition radar_root_key :: "string \<Rightarrow> string" where
  "radar_root_key network = ''idx:'' @ radar_ns network @ '':radars''"

definition radar_variables_key :: "string \<Rightarrow> string \<Rightarrow> string" where
  "radar_variables_key network radar_id = ''idx:'' @ radar_ns network @ '':'' @ radar_id @ '':variables''"

definition radar_elevations_key :: "string \<Rightarrow> string \<Rightarrow> string \<Rightarrow> string" where
  "radar_elevations_key network radar_id variable_id =
     ''idx:'' @ radar_ns network @ '':'' @ radar_id @ '':'' @ variable_id @ '':elevations''"

definition radar_tilesets_key :: "string \<Rightarrow> string \<Rightarrow> string \<Rightarrow> string \<Rightarrow> string" where
  "radar_tilesets_key network radar_id variable_id elevation_id =
     ''idx:'' @ radar_ns network @ '':'' @ radar_id @ '':'' @ variable_id @ '':'' @ elevation_id @ '':tilesets''"

definition ecmwf_tp_tile_key :: "string \<Rightarrow> string \<Rightarrow> int \<Rightarrow> int \<Rightarrow> int \<Rightarrow> string" where
  "ecmwf_tp_tile_key forecast_ts period_ts z x y =
     ''tile:ecmwf_tp:'' @ forecast_ts @ ''/'' @ period_ts @ ''/'' @ slash_zxy z x y"

definition ecmwf_tp_forecasts_key :: string where
  "ecmwf_tp_forecasts_key = ''idx:ecmwf_tp:forecasts''"

definition ecmwf_tp_periods_key :: "string \<Rightarrow> string" where
  "ecmwf_tp_periods_key forecast_ts = ''idx:ecmwf_tp:'' @ forecast_ts @ '':periods''"

definition ecmwf_mslp_geojson_key :: "string \<Rightarrow> string \<Rightarrow> string" where
  "ecmwf_mslp_geojson_key forecast_ts timestamp_ts =
     ''geojson:ecmwf_mslp:'' @ forecast_ts @ ''/'' @ timestamp_ts"

definition ecmwf_mslp_forecasts_key :: string where
  "ecmwf_mslp_forecasts_key = ''idx:ecmwf_mslp:forecasts''"

definition ecmwf_mslp_timestamps_key :: "string \<Rightarrow> string" where
  "ecmwf_mslp_timestamps_key forecast_ts = ''idx:ecmwf_mslp:'' @ forecast_ts @ '':timestamps''"

definition wrf_tile_key :: "string \<Rightarrow> string \<Rightarrow> string \<Rightarrow> int \<Rightarrow> int \<Rightarrow> int \<Rightarrow> string" where
  "wrf_tile_key product_id init_tag fxxx z x y =
     ''tile:wrf:'' @ product_id @ ''/'' @ init_tag @ ''/'' @ fxxx @ ''/'' @ slash_zxy z x y"

definition WRF_PRODUCTS_KEY :: string where
  "WRF_PRODUCTS_KEY = ''idx:wrf:products''"

definition wrf_init_runs_key :: "string \<Rightarrow> string" where
  "wrf_init_runs_key product_id = ''idx:wrf:'' @ product_id @ '':init_runs''"

definition wrf_steps_key :: "string \<Rightarrow> string \<Rightarrow> string" where
  "wrf_steps_key product_id init_tag = ''idx:wrf:'' @ product_id @ '':'' @ init_tag @ '':steps''"

definition wrf_geojson_key :: "string \<Rightarrow> string \<Rightarrow> string \<Rightarrow> string \<Rightarrow> string" where
  "wrf_geojson_key product_id init_tag fxxx layer =
     ''geojson:wrf:'' @ product_id @ ''/'' @ init_tag @ ''/'' @ fxxx @ ''/'' @ layer"

definition wrf_layers_key :: "string \<Rightarrow> string \<Rightarrow> string \<Rightarrow> string" where
  "wrf_layers_key product_id init_tag fxxx =
     ''idx:wrf:'' @ product_id @ '':'' @ init_tag @ '':'' @ fxxx @ '':layers''"

definition wrf_overlays_done_key :: "string \<Rightarrow> string \<Rightarrow> string \<Rightarrow> string" where
  "wrf_overlays_done_key product_id init_tag fxxx =
     ''idx:wrf:'' @ product_id @ '':'' @ init_tag @ '':'' @ fxxx @ '':overlays_done''"

definition gfs_cycles_key :: "string \<Rightarrow> string" where
  "gfs_cycles_key product_id = ''idx:gfs:'' @ product_id @ '':cycles''"

definition gfs_steps_key :: "string \<Rightarrow> string \<Rightarrow> string" where
  "gfs_steps_key product_id cycle = ''idx:gfs:'' @ product_id @ '':'' @ cycle @ '':steps''"

definition gfs_geojson_key :: "string \<Rightarrow> string \<Rightarrow> string \<Rightarrow> string \<Rightarrow> string" where
  "gfs_geojson_key product_id cycle fxxx layer =
     ''geojson:gfs:'' @ product_id @ ''/'' @ cycle @ ''/'' @ fxxx @ ''/'' @ layer"

definition gfs_layers_key :: "string \<Rightarrow> string \<Rightarrow> string \<Rightarrow> string" where
  "gfs_layers_key product_id cycle fxxx =
     ''idx:gfs:'' @ product_id @ '':'' @ cycle @ '':'' @ fxxx @ '':layers''"

definition gfs_tile_key :: "string \<Rightarrow> string \<Rightarrow> string \<Rightarrow> int \<Rightarrow> int \<Rightarrow> int \<Rightarrow> string" where
  "gfs_tile_key product_id cycle fxxx z x y =
     ''tile:gfs:'' @ product_id @ ''/'' @ cycle @ ''/'' @ fxxx @ ''/'' @ slash_zxy z x y"

definition basemap_tile_key :: "string \<Rightarrow> int \<Rightarrow> int \<Rightarrow> int \<Rightarrow> string" where
  "basemap_tile_key provider_id z x y = ''tile:basemap:'' @ provider_id @ '':'' @ colon_zxy z x y"

definition basemap_miss_key :: "string \<Rightarrow> int \<Rightarrow> int \<Rightarrow> int \<Rightarrow> string" where
  "basemap_miss_key provider_id z x y = ''tile:basemap:miss:'' @ provider_id @ '':'' @ colon_zxy z x y"

definition basemap_availability_key :: "string \<Rightarrow> string" where
  "basemap_availability_key provider_id = ''basemap:availability:'' @ provider_id"

definition sync_status_key :: string where
  "sync_status_key = ''sync:status''"

definition domain_sync_status_key :: "string \<Rightarrow> string" where
  "domain_sync_status_key domain = ''sync:status:'' @ domain"

lemmas redis_key_defs =
  satellite_tile_key_def satellite_index_key_def radar_tile_key_def radar_root_key_def
  radar_variables_key_def radar_elevations_key_def radar_tilesets_key_def ecmwf_tp_tile_key_def
  ecmwf_tp_forecasts_key_def ecmwf_tp_periods_key_def ecmwf_mslp_geojson_key_def
  ecmwf_mslp_forecasts_key_def ecmwf_mslp_timestamps_key_def wrf_tile_key_def WRF_PRODUCTS_KEY_def
  wrf_init_runs_key_def wrf_steps_key_def wrf_geojson_key_def wrf_layers_key_def
  wrf_overlays_done_key_def gfs_cycles_key_def gfs_steps_key_def gfs_geojson_key_def
  gfs_layers_key_def gfs_tile_key_def basemap_tile_key_def basemap_miss_key_def
  basemap_availability_key_def sync_status_key_def domain_sync_status_key_def

section \<open>Classification\<close>

definition PREFIX_DOMAINS :: "(string \<times> string) list" where
  "PREFIX_DOMAINS =
     [ (''tile:sat:'', ''satellite''), (''tile:radar:'', ''radar''), (''tile:radar-inta:'', ''radar''),
       (''tile:ecmwf_tp:'', ''ecmwf_tp''), (''geojson:ecmwf_mslp:'', ''ecmwf_mslp''),
       (''tile:wrf:'', ''wrf''), (''geojson:wrf:'', ''wrf''), (''tile:gfs:'', ''gfs''),
       (''geojson:gfs:'', ''gfs''), (''tile:basemap:'', ''basemap''),
       (''basemap:availability:'', ''basemap''), (''cache:ws:'', ''weather_stations''),
       (''idx:'', ''indexes''), (''cache:'', ''listings''), (''sync:'', ''sync'') ]"

fun first_prefix :: "string \<Rightarrow> (string \<times> string) list \<Rightarrow> string" where
  "first_prefix key [] = ''other''"
| "first_prefix key ((p, d) # rest) = (if startswith key p then d else first_prefix key rest)"

definition classify_key :: "string \<Rightarrow> string" where
  "classify_key key = first_prefix key PREFIX_DOMAINS"

section \<open>Entries\<close>

text \<open>What a key stands for, one constructor per family.\<close>

datatype redis_key =
    SatTile string string int int int
  | SatIndex string
  | RadarTile string string string string string int int int
  | RadarRoot string
  | RadarVariables string string
  | RadarElevations string string string
  | RadarTilesets string string string string
  | TpTile string string int int int
  | TpForecasts
  | TpPeriods string
  | MslpGeojson string string
  | MslpForecasts
  | MslpTimestamps string
  | WrfTile string string string int int int
  | WrfProducts
  | WrfInitRuns string
  | WrfSteps string string
  | WrfGeojson string string string string
  | WrfLayers string string string
  | WrfOverlaysDone string string string
  | GfsCycles string
  | GfsSteps string string
  | GfsGeojson string string string string
  | GfsLayers string string string
  | GfsTile string string string int int int
  | BasemapTile string int int int
  | BasemapMiss string int int int
  | BasemapAvailability string
  | SyncStatus
  | DomainSyncStatus string

fun render :: "redis_key \<Rightarrow> string" where
  "render (SatTile d t z x y) = satellite_tile_key d t z x y"
| "render (SatIndex d) = satellite_index_key d"
| "render (RadarTile n r v t e z x y) = radar_tile_key n r v t e z x y"
| "render (RadarRoot n) = radar_root_key n"
| "render (RadarVariables n r) = radar_variables_key n r"
| "render (RadarElevations n r v) = radar_elevations_key n r v"
| "render (RadarTilesets n r v e) = radar_tilesets_key n r v e"
| "render (TpTile f p z x y) = ecmwf_tp_tile_key f p z x y"
| "render TpForecasts = ecmwf_tp_forecasts_key"
| "render (TpPeriods f) = ecmwf_tp_periods_key f"
| "render (MslpGeojson f t) = ecmwf_mslp_geojson_key f t"
| "render MslpForecasts = ecmwf_mslp_forecasts_key"
| "render (MslpTimestamps f) = ecmwf_mslp_timestamps_key f"
| "render (WrfTile p i s z x y) = wrf_tile_key p i s z x y"
| "render WrfProducts = WRF_PRODUCTS_KEY"
| "render (WrfInitRuns p) = wrf_init_runs_key p"
| "render (WrfSteps p i) = wrf_steps_key p i"
| "render (WrfGeojson p i s l) = wrf_geojson_key p i s l"
| "render (WrfLayers p i s) = wrf_layers_key p i s"
| "render (WrfOverlaysDone p i s) = wrf_overlays_done_key p i s"
| "render (GfsCycles p) = gfs_cycles_key p"
| "render (GfsSteps p c) = gfs_steps_key p c"
| "render (GfsGeojson p c s l) = gfs_geojson_key p c s l"
| "render (GfsLayers p c s) = gfs_layers_key p c s"
| "render (GfsTile p c s z x y) = gfs_tile_key p c s z x y"
| "render (BasemapTile p z x y) = basemap_tile_key p z x y"
| "render (BasemapMiss p z x y) = basemap_miss_key p z x y"
| "render (BasemapAvailability p) = basemap_availability_key p"
| "render SyncStatus = sync_status_key"
| "render (DomainSyncStatus d) = domain_sync_status_key d"

text \<open>
  The identifiers of an entry: path segments carry neither separator, a channel
  directory may contain slashes, and an elevation carries no underscore.
\<close>

definition seg :: "string \<Rightarrow> bool" where
  "seg s \<longleftrightarrow> CHR '':'' \<notin> set s \<and> CHR ''/'' \<notin> set s"

definition dir_ok :: "string \<Rightarrow> bool" where
  "dir_ok s \<longleftrightarrow> CHR '':'' \<notin> set s"

fun wf_key :: "redis_key \<Rightarrow> bool" where
  "wf_key (SatTile d t z x y) = (dir_ok d \<and> seg t)"
| "wf_key (SatIndex d) = dir_ok d"
| "wf_key (RadarTile n r v t e z x y) = (seg n \<and> seg r \<and> seg v \<and> seg t \<and> seg e \<and> CHR ''_'' \<notin> set e)"
| "wf_key (RadarRoot n) = seg n"
| "wf_key (RadarVariables n r) = (seg n \<and> seg r)"
| "wf_key (RadarElevations n r v) = (seg n \<and> seg r \<and> seg v)"
| "wf_key (RadarTilesets n r v e) = (seg n \<and> seg r \<and> seg v \<and> seg e)"
| "wf_key (TpTile f p z x y) = (seg f \<and> seg p)"
| "wf_key (TpPeriods f) = seg f"
| "wf_key (MslpGeojson f t) = (seg f \<and> seg t)"
| "wf_key (MslpTimestamps f) = seg f"
| "wf_key (WrfTile p i s z x y) = (seg p \<and> seg i \<and> seg s)"
| "wf_key (WrfInitRuns p) = seg p"
| "wf_key (WrfSteps p i) = (seg p \<and> seg i)"
| "wf_key (WrfGeojson p i s l) = (seg p \<and> seg i \<and> seg s \<and> seg l)"
| "wf_key (WrfLayers p i s) = (seg p \<and> seg i \<and> seg s)"
| "wf_key (WrfOverlaysDone p i s) = (seg p \<and> seg i \<and> seg s)"
| "wf_key (GfsCycles p) = seg p"
| "wf_key (GfsSteps p c) = (seg p \<and> seg c)"
| "wf_key (GfsGeojson p c s l) = (seg p \<and> seg c \<and> seg s \<and> seg l)"
| "wf_key (GfsLayers p c s) = (seg p \<and> seg c \<and> seg s)"
| "wf_key (GfsTile p c s z x y) = (seg p \<and> seg c \<and> seg s)"
| "wf_key (BasemapTile p z x y) = seg p"
| "wf_key (BasemapMiss p z x y) = seg p"
| "wf_key (BasemapAvailability p) = seg p"
| "wf_key (DomainSyncStatus d) = seg d"
| "wf_key _ = True"

section \<open>Reading a key back\<close>

definition radar_net :: "string \<Rightarrow> string option" where
  "radar_net ns =
     (if ns = ''radar'' then Some ''sinarame''
      else if prefix ''radar-'' ns then Some (drop 6 ns) else None)"

definition zxy_of :: "string \<Rightarrow> string \<Rightarrow> string \<Rightarrow> (int \<times> int \<times> int) option" where
  "zxy_of z x y =
     (case (py_int z, py_int x, py_int y) of
        (Some a, Some b, Some c) \<Rightarrow> Some (a, b, c) | _ \<Rightarrow> None)"

text \<open>The last underscore separates tileset and elevation.\<close>

definition split_last_underscore :: "string \<Rightarrow> string \<times> string" where
  "split_last_underscore s = (case py_split1 (CHR ''_'') (rev s) of (e, t) \<Rightarrow> (rev t, rev e))"

definition parse_tile :: "string \<Rightarrow> string \<Rightarrow> redis_key option" where
  "parse_tile family path =
     (if family = ''sat'' then
        (case rev (py_split (CHR ''/'') path) of
           y # x # z # t # rest \<Rightarrow>
             map_option (\<lambda>(z, x, y). SatTile (py_join ''/'' (rev rest)) t z x y) (zxy_of z x y)
         | _ \<Rightarrow> None)
      else case py_split (CHR ''/'') path of
             [a, b, z, x, y] \<Rightarrow>
               if family = ''ecmwf_tp'' then map_option (\<lambda>(z, x, y). TpTile a b z x y) (zxy_of z x y) else None
           | [a, b, c, z, x, y] \<Rightarrow>
               if family = ''wrf'' then map_option (\<lambda>(z, x, y). WrfTile a b c z x y) (zxy_of z x y)
               else if family = ''gfs'' then map_option (\<lambda>(z, x, y). GfsTile a b c z x y) (zxy_of z x y)
               else (case radar_net family of
                       None \<Rightarrow> None
                     | Some n \<Rightarrow> map_option (\<lambda>(z, x, y). RadarTile n a b (fst (split_last_underscore c))
                                   (snd (split_last_underscore c)) z x y) (zxy_of z x y))
           | _ \<Rightarrow> None)"

definition parse_geojson :: "string \<Rightarrow> string \<Rightarrow> redis_key option" where
  "parse_geojson family path =
     (case py_split (CHR ''/'') path of
        [a, b] \<Rightarrow> if family = ''ecmwf_mslp'' then Some (MslpGeojson a b) else None
      | [a, b, c, d] \<Rightarrow>
          if family = ''wrf'' then Some (WrfGeojson a b c d)
          else if family = ''gfs'' then Some (GfsGeojson a b c d) else None
      | _ \<Rightarrow> None)"

definition parse_index :: "string \<Rightarrow> string list \<Rightarrow> redis_key option" where
  "parse_index family parts =
     (case parts of
        [a] \<Rightarrow>
          if family = ''sat'' then Some (SatIndex a)
          else if family = ''ecmwf_tp'' then Some TpForecasts
          else if family = ''ecmwf_mslp'' then Some MslpForecasts
          else if family = ''wrf'' then Some WrfProducts
          else map_option RadarRoot (radar_net family)
      | [a, b] \<Rightarrow>
          if family = ''ecmwf_tp'' then Some (TpPeriods a)
          else if family = ''ecmwf_mslp'' then Some (MslpTimestamps a)
          else if family = ''wrf'' then Some (WrfInitRuns a)
          else if family = ''gfs'' then Some (GfsCycles a)
          else map_option (\<lambda>n. RadarVariables n a) (radar_net family)
      | [a, b, c] \<Rightarrow>
          if family = ''wrf'' then Some (WrfSteps a b)
          else if family = ''gfs'' then Some (GfsSteps a b)
          else map_option (\<lambda>n. RadarElevations n a b) (radar_net family)
      | [a, b, c, d] \<Rightarrow>
          if family = ''wrf'' then Some (if d = ''layers'' then WrfLayers a b c else WrfOverlaysDone a b c)
          else if family = ''gfs'' then Some (GfsLayers a b c)
          else map_option (\<lambda>n. RadarTilesets n a b c) (radar_net family)
      | _ \<Rightarrow> None)"

definition parse_redis_key :: "string \<Rightarrow> redis_key option" where
  "parse_redis_key key =
     (case py_split (CHR '':'') key of
        kind # family # parts \<Rightarrow>
          if kind = ''idx'' then parse_index family parts
          else if kind = ''sync'' then
            (case parts of [] \<Rightarrow> Some SyncStatus | [d] \<Rightarrow> Some (DomainSyncStatus d) | _ \<Rightarrow> None)
          else if kind = ''basemap'' then
            (case parts of [p] \<Rightarrow> Some (BasemapAvailability p) | _ \<Rightarrow> None)
          else if kind = ''geojson'' then
            (case parts of [path] \<Rightarrow> parse_geojson family path | _ \<Rightarrow> None)
          else if kind = ''tile'' then
            (case parts of
               [path] \<Rightarrow> parse_tile family path
             | [p, z, x, y] \<Rightarrow> map_option (\<lambda>(z, x, y). BasemapTile p z x y) (zxy_of z x y)
             | [m, p, z, x, y] \<Rightarrow> map_option (\<lambda>(z, x, y). BasemapMiss p z x y) (zxy_of z x y)
             | _ \<Rightarrow> None)
          else None
      | _ \<Rightarrow> None)"

lemma radar_ns_chars [simp]:
  "seg n \<Longrightarrow> CHR '':'' \<notin> set (radar_ns n)" "seg n \<Longrightarrow> CHR ''/'' \<notin> set (radar_ns n)"
  by (auto simp: radar_ns_def seg_def)

lemma radar_net_ns [simp]: "radar_net (radar_ns n) = Some n"
  by (simp add: radar_net_def radar_ns_def)

lemma radar_ns_other [simp]:
  "radar_ns n \<noteq> ''sat''" "radar_ns n \<noteq> ''ecmwf_tp''" "radar_ns n \<noteq> ''ecmwf_mslp''"
  "radar_ns n \<noteq> ''wrf''" "radar_ns n \<noteq> ''gfs''"
  by (auto simp: radar_ns_def)

lemma zxy_of_str [simp]: "zxy_of (str_of_int z) (str_of_int x) (str_of_int y) = Some (z, x, y)"
  by (simp add: zxy_of_def)

lemma split_last_underscore_append [simp]:
  "CHR ''_'' \<notin> set e \<Longrightarrow> split_last_underscore (t @ CHR ''_'' # e) = (t, e)"
  using py_split1_append [of "CHR ''_''" "rev e" "rev t"] by (simp add: split_last_underscore_def)

lemma py_join_split [simp]: "py_join [c] (py_split c s) = s"
proof (induction s)
  case (Cons x s)
  obtain p ps where s: "py_split c s = p # ps" by (cases "py_split c s") auto
  show ?case using Cons s by (cases ps) auto
qed simp

lemma str_of_int_chars_simps [simp]: "CHR ''/'' \<notin> set (slash_zxy z x y) \<longleftrightarrow> False" "CHR '':'' \<notin> set (slash_zxy z x y)"
  by (auto simp: slash_zxy_def)

lemma split_path_zxy:
  "py_split (CHR ''/'') (p @ CHR ''/'' # slash_zxy z x y)
     = py_split (CHR ''/'') p @ [str_of_int z, str_of_int x, str_of_int y]"
  by (simp add: slash_zxy_def)

lemma parse_sat_tile: "seg t \<Longrightarrow> parse_tile ''sat'' (d @ CHR ''/'' # t @ CHR ''/'' # slash_zxy z x y) = Some (SatTile d t z x y)"
  by (simp add: parse_tile_def split_path_zxy [of "d @ CHR ''/'' # t", simplified] seg_def)

lemma split_underscore [simp]:
  "py_split (CHR ''/'') (t @ CHR ''_'' # e @ CHR ''/'' # b)
     = py_split (CHR ''/'') (t @ CHR ''_'' # e) @ py_split (CHR ''/'') b"
  using py_split_append_sep [of "CHR ''/''" "t @ CHR ''_'' # e" b] by simp

lemma parse_render_tiles:
  assumes "wf_key k"
  shows "k = SatTile d t z x y \<Longrightarrow> parse_redis_key (render k) = Some k"
    "k = RadarTile n r v t e z x y \<Longrightarrow> parse_redis_key (render k) = Some k"
    "k = TpTile f p z x y \<Longrightarrow> parse_redis_key (render k) = Some k"
    "k = WrfTile p i s z x y \<Longrightarrow> parse_redis_key (render k) = Some k"
    "k = GfsTile p i s z x y \<Longrightarrow> parse_redis_key (render k) = Some k"
  using assms
  by (simp_all add: parse_redis_key_def redis_key_defs dir_ok_def seg_def parse_sat_tile [unfolded seg_def]
      parse_tile_def slash_zxy_def)

lemma parse_render_index:
  assumes "wf_key k"
  shows "k = SatIndex d \<Longrightarrow> parse_redis_key (render k) = Some k"
    "k = RadarRoot n \<Longrightarrow> parse_redis_key (render k) = Some k"
    "k = RadarVariables n r \<Longrightarrow> parse_redis_key (render k) = Some k"
    "k = RadarElevations n r v \<Longrightarrow> parse_redis_key (render k) = Some k"
    "k = RadarTilesets n r v e \<Longrightarrow> parse_redis_key (render k) = Some k"
    "k = TpForecasts \<Longrightarrow> parse_redis_key (render k) = Some k"
    "k = TpPeriods f \<Longrightarrow> parse_redis_key (render k) = Some k"
    "k = MslpForecasts \<Longrightarrow> parse_redis_key (render k) = Some k"
    "k = MslpTimestamps f \<Longrightarrow> parse_redis_key (render k) = Some k"
    "k = WrfProducts \<Longrightarrow> parse_redis_key (render k) = Some k"
    "k = WrfInitRuns p \<Longrightarrow> parse_redis_key (render k) = Some k"
    "k = WrfSteps p i \<Longrightarrow> parse_redis_key (render k) = Some k"
    "k = WrfLayers p i s \<Longrightarrow> parse_redis_key (render k) = Some k"
    "k = WrfOverlaysDone p i s \<Longrightarrow> parse_redis_key (render k) = Some k"
    "k = GfsCycles p \<Longrightarrow> parse_redis_key (render k) = Some k"
    "k = GfsSteps p i \<Longrightarrow> parse_redis_key (render k) = Some k"
    "k = GfsLayers p i s \<Longrightarrow> parse_redis_key (render k) = Some k"
  using assms
  by (simp_all add: parse_redis_key_def redis_key_defs dir_ok_def seg_def parse_index_def
      radar_ns_chars [unfolded seg_def])

lemma parse_render_others:
  assumes "wf_key k"
  shows "k = MslpGeojson f t \<Longrightarrow> parse_redis_key (render k) = Some k"
    "k = WrfGeojson p i s l \<Longrightarrow> parse_redis_key (render k) = Some k"
    "k = GfsGeojson p i s l \<Longrightarrow> parse_redis_key (render k) = Some k"
    "k = BasemapTile p z x y \<Longrightarrow> parse_redis_key (render k) = Some k"
    "k = BasemapMiss p z x y \<Longrightarrow> parse_redis_key (render k) = Some k"
    "k = BasemapAvailability p \<Longrightarrow> parse_redis_key (render k) = Some k"
    "k = SyncStatus \<Longrightarrow> parse_redis_key (render k) = Some k"
    "k = DomainSyncStatus d \<Longrightarrow> parse_redis_key (render k) = Some k"
  using assms
  by (simp_all add: parse_redis_key_def redis_key_defs seg_def parse_geojson_def colon_zxy_def)

lemmas parse_render_families =
  parse_render_tiles [OF _ refl] parse_render_index [OF _ refl] parse_render_others [OF _ refl]

lemma parse_render: "wf_key k \<Longrightarrow> parse_redis_key (render k) = Some k"
  by (cases k) (hypsubst, erule parse_render_families)+

text \<open>
  C22. The key schema is unambiguous: two entries whose identifiers carry no separator
  have the same key only if they are the same entry. In particular tiles, indexes and
  tombstones of different products, and the same radar name in two networks, never
  share a key.
\<close>

theorem redis_keys_injective:
  assumes "wf_key a" "wf_key b"
  shows "render a = render b \<longleftrightarrow> a = b"
  using parse_render [OF assms(1)] parse_render [OF assms(2)] by (metis option.inject)

theorem redis_keys_injective_witness:
  "render (RadarTile ''sinarame'' ''RMA1'' ''DBZH'' ''20260413T1500Z'' ''05'' 5 10 19)
     = render (RadarTile ''inta'' ''RMA1'' ''DBZH'' ''20260413T1500Z'' ''05'' 5 10 19)
   \<longleftrightarrow> RadarTile ''sinarame'' ''RMA1'' ''DBZH'' ''20260413T1500Z'' ''05'' 5 10 19
     = RadarTile ''inta'' ''RMA1'' ''DBZH'' ''20260413T1500Z'' ''05'' 5 10 19"
  by (rule redis_keys_injective) (simp_all add: seg_def)

section \<open>The classifier\<close>

text \<open>The dashboard domain an entry belongs to.\<close>

fun domain_of :: "redis_key \<Rightarrow> string" where
  "domain_of (SatTile d t z x y) = ''satellite''"
| "domain_of (RadarTile n r v t e z x y) = ''radar''"
| "domain_of (TpTile f p z x y) = ''ecmwf_tp''"
| "domain_of (MslpGeojson f t) = ''ecmwf_mslp''"
| "domain_of (WrfTile p i s z x y) = ''wrf''"
| "domain_of (WrfGeojson p i s l) = ''wrf''"
| "domain_of (GfsTile p c s z x y) = ''gfs''"
| "domain_of (GfsGeojson p c s l) = ''gfs''"
| "domain_of (BasemapTile p z x y) = ''basemap''"
| "domain_of (BasemapMiss p z x y) = ''basemap''"
| "domain_of (BasemapAvailability p) = ''basemap''"
| "domain_of SyncStatus = ''sync''"
| "domain_of (DomainSyncStatus d) = ''sync''"
| "domain_of _ = ''indexes''"

fun known_network :: "redis_key \<Rightarrow> bool" where
  "known_network (RadarTile n r v t e z x y) = (n = ''sinarame'' \<or> n = ''inta'')"
| "known_network _ = True"

text \<open>
  The memory dashboard files every key the client writes under the domain that
  wrote it, for the two radar networks the service knows.
\<close>

theorem classifier_agrees_with_schema:
  assumes "known_network k"
  shows "classify_key (render k) = domain_of k"
  using assms
  by (cases k) (auto simp: classify_key_def PREFIX_DOMAINS_def startswith_def redis_key_defs radar_ns_def)

theorem classifier_agrees_with_schema_witness:
  "classify_key (render (RadarTile ''inta'' ''PAR'' ''TH'' ''t'' ''e'' 5 1 1)) = ''radar''"
  using classifier_agrees_with_schema [of "RadarTile ''inta'' ''PAR'' ''TH'' ''t'' ''e'' 5 1 1"] by simp

end
