(* ===== verification/Redis_Client.thy ===== *)
theory Redis_Client
  imports Redis_Keys
begin

text \<open>
  The Redis client (\<^verbatim>\<open>clients/redis_client.py\<close>). The server is a parameter: a record
  of the commands the client issues, on a world \<^typ>\<open>'w\<close>. A pipeline is one command
  list, executed by \<^verbatim>\<open>execute()\<close>. What the commands do, when they do not raise, is the
  locale \<^verbatim>\<open>redis_server\<close>: documented Redis behaviour over a keyspace of typed entries.
  Expiry is between calls, so the view a call works on is the live keyspace.
\<close>

section \<open>Commands\<close>

datatype redis_command =
    SAdd string string
  | ZAdd string string rat
  | Expire string int
  | SMembers string

record 'w redis =
  rd_connected :: bool
  rd_get :: "string \<Rightarrow> ('w, pybytes option) io"
  rd_set :: "string \<Rightarrow> pybytes \<Rightarrow> int option \<Rightarrow> ('w, unit) io"
  rd_exists :: "string \<Rightarrow> ('w, bool) io"
  rd_delete :: "string list \<Rightarrow> ('w, unit) io"
  rd_expire :: "string \<Rightarrow> int \<Rightarrow> ('w, unit) io"
  rd_smembers :: "string \<Rightarrow> ('w, string list) io"
  rd_srem :: "string \<Rightarrow> string list \<Rightarrow> ('w, unit) io"
  rd_zadd :: "string \<Rightarrow> string \<Rightarrow> rat \<Rightarrow> ('w, unit) io"
  rd_zrange :: "string \<Rightarrow> ('w, string list) io"         \<comment> \<open>0 to -1\<close>
  rd_zrevrange :: "string \<Rightarrow> ('w, string list) io"
  rd_zrem :: "string \<Rightarrow> string list \<Rightarrow> ('w, unit) io"
  rd_zremrangebyscore :: "string \<Rightarrow> rat \<Rightarrow> ('w, nat) io"  \<comment> \<open>from -inf up to the bound, exclusive\<close>
  rd_zscore :: "string \<Rightarrow> string \<Rightarrow> ('w, rat option) io"
  rd_scan :: "nat \<Rightarrow> string \<Rightarrow> ('w, nat \<times> string list) io"
  rd_pipeline :: "redis_command list \<Rightarrow> ('w, string list list) io"  \<comment> \<open>the replies of SMEMBERS\<close>
  rd_hset :: "string \<Rightarrow> (string \<times> string) list \<Rightarrow> ('w, unit) io"
  rd_hgetall :: "string \<Rightarrow> ('w, (string \<times> string) list) io"

text \<open>The property \<^verbatim>\<open>_conn\<close>.\<close>

definition conn :: "'w redis \<Rightarrow> ('w, 'a) io \<Rightarrow> ('w, 'a) io" where
  "conn R m = (if rd_connected R then m else raise RuntimeError)"

text \<open>\<^verbatim>\<open>set(key, data, ex=ttl)\<close> when a TTL is given, else \<^verbatim>\<open>set(key, data)\<close>.\<close>

definition store_value :: "'w redis \<Rightarrow> string \<Rightarrow> pybytes \<Rightarrow> int option \<Rightarrow> ('w, unit) io" where
  "store_value R key data ttl = conn R (rd_set R key data ttl)"

definition get_value :: "'w redis \<Rightarrow> string \<Rightarrow> ('w, pybytes option) io" where
  "get_value R key = conn R (rd_get R key)"

definition sorted_members :: "'w redis \<Rightarrow> string \<Rightarrow> ('w, string list) io" where
  "sorted_members R key = conn R (bnd (rd_smembers R key) (\<lambda>ms. ret (sort ms)))"

section \<open>Satellite\<close>

definition store_satellite_tile ::
  "'w redis \<Rightarrow> string \<Rightarrow> string \<Rightarrow> int \<Rightarrow> int \<Rightarrow> int \<Rightarrow> pybytes \<Rightarrow> int option \<Rightarrow> ('w, unit) io" where
  "store_satellite_tile R channel_dir tileset_id z x y = store_value R (satellite_tile_key channel_dir tileset_id z x y)"

definition get_satellite_tile ::
  "'w redis \<Rightarrow> string \<Rightarrow> string \<Rightarrow> int \<Rightarrow> int \<Rightarrow> int \<Rightarrow> ('w, pybytes option) io" where
  "get_satellite_tile R channel_dir tileset_id z x y = get_value R (satellite_tile_key channel_dir tileset_id z x y)"

text \<open>\<^verbatim>\<open>if ttl\<close>: a TTL of zero sets no expiry.\<close>

definition add_satellite_tileset ::
  "'w redis \<Rightarrow> string \<Rightarrow> string \<Rightarrow> rat \<Rightarrow> int option \<Rightarrow> ('w, unit) io" where
  "add_satellite_tileset R channel_dir tileset_id score ttl =
     (let key = satellite_index_key channel_dir
      in conn R (seq (rd_zadd R key tileset_id score)
           (case ttl of Some t \<Rightarrow> if t \<noteq> 0 then rd_expire R key t else ret () | None \<Rightarrow> ret ())))"

definition get_satellite_tilesets :: "'w redis \<Rightarrow> string \<Rightarrow> ('w, string list) io" where
  "get_satellite_tilesets R channel_dir = conn R (rd_zrange R (satellite_index_key channel_dir))"

text \<open>The SCAN loop, at most \<^verbatim>\<open>passes\<close> rounds before it is cancelled.\<close>

fun scan_delete :: "'w redis \<Rightarrow> string \<Rightarrow> nat \<Rightarrow> nat \<Rightarrow> ('w, unit) io" where
  "scan_delete R pattern cursor 0 = raise CancelledError"
| "scan_delete R pattern cursor (Suc passes) =
     bnd (rd_scan R cursor pattern) (\<lambda>(cursor', keys).
     seq (if keys \<noteq> [] then rd_delete R keys else ret ())
         (if cursor' = 0 then ret () else scan_delete R pattern cursor' passes))"

definition delete_satellite_tileset :: "'w redis \<Rightarrow> nat \<Rightarrow> string \<Rightarrow> string \<Rightarrow> ('w, unit) io" where
  "delete_satellite_tileset R passes channel_dir tileset_id =
     conn R (seq (scan_delete R (''tile:sat:'' @ channel_dir @ ''/'' @ tileset_id @ ''/*'') 0 passes)
                 (rd_zrem R (satellite_index_key channel_dir) [tileset_id]))"

definition trim_satellite_index :: "'w redis \<Rightarrow> string \<Rightarrow> rat \<Rightarrow> ('w, nat) io" where
  "trim_satellite_index R channel_dir min_score =
     conn R (rd_zremrangebyscore R (satellite_index_key channel_dir) min_score)"

definition satellite_tileset_exists :: "'w redis \<Rightarrow> string \<Rightarrow> string \<Rightarrow> ('w, bool) io" where
  "satellite_tileset_exists R channel_dir tileset_id =
     conn R (bnd (rd_zscore R (satellite_index_key channel_dir) tileset_id) (\<lambda>score. ret (score \<noteq> None)))"

section \<open>Radar\<close>

definition store_radar_tile ::
  "'w redis \<Rightarrow> string \<Rightarrow> string \<Rightarrow> string \<Rightarrow> string \<Rightarrow> int \<Rightarrow> int \<Rightarrow> int \<Rightarrow> pybytes \<Rightarrow> int \<Rightarrow> string \<Rightarrow> ('w, unit) io" where
  "store_radar_tile R radar_id variable_id tileset_id elevation_id z x y data ttl network =
     conn R (rd_set R (radar_tile_key network radar_id variable_id tileset_id elevation_id z x y) data (Some ttl))"

definition get_radar_tile ::
  "'w redis \<Rightarrow> string \<Rightarrow> string \<Rightarrow> string \<Rightarrow> string \<Rightarrow> int \<Rightarrow> int \<Rightarrow> int \<Rightarrow> string \<Rightarrow> ('w, pybytes option) io" where
  "get_radar_tile R radar_id variable_id tileset_id elevation_id z x y network =
     get_value R (radar_tile_key network radar_id variable_id tileset_id elevation_id z x y)"

definition add_radar_index ::
  "'w redis \<Rightarrow> string \<Rightarrow> string \<Rightarrow> string \<Rightarrow> string \<Rightarrow> rat \<Rightarrow> int \<Rightarrow> string \<Rightarrow> ('w, unit) io" where
  "add_radar_index R radar_id variable_id elevation_id tileset_id score ttl network =
     (let radars_key = radar_root_key network;
          vars_key = radar_variables_key network radar_id;
          elevs_key = radar_elevations_key network radar_id variable_id;
          tilesets_key = radar_tilesets_key network radar_id variable_id elevation_id
      in conn R (seq (rd_pipeline R
           [ SAdd radars_key radar_id, Expire radars_key ttl,
             SAdd vars_key variable_id, Expire vars_key ttl,
             SAdd elevs_key elevation_id, Expire elevs_key ttl,
             ZAdd tilesets_key tileset_id score, Expire tilesets_key ttl ]) (ret ())))"

definition get_radar_radars :: "'w redis \<Rightarrow> string \<Rightarrow> ('w, string list) io" where
  "get_radar_radars R network = sorted_members R (radar_root_key network)"

definition get_radar_variables :: "'w redis \<Rightarrow> string \<Rightarrow> string \<Rightarrow> ('w, string list) io" where
  "get_radar_variables R radar_id network = sorted_members R (radar_variables_key network radar_id)"

definition get_radar_elevations :: "'w redis \<Rightarrow> string \<Rightarrow> string \<Rightarrow> string \<Rightarrow> ('w, string list) io" where
  "get_radar_elevations R radar_id variable_id network =
     sorted_members R (radar_elevations_key network radar_id variable_id)"

text \<open>\<^verbatim>\<open>except ResponseError\<close> with WRONGTYPE in its message.\<close>

definition is_wrongtype :: "exn \<Rightarrow> bool" where
  "is_wrongtype e = (case e of RedisError m \<Rightarrow> sublist ''WRONGTYPE'' m | _ \<Rightarrow> False)"

definition get_radar_tilesets :: "'w redis \<Rightarrow> string \<Rightarrow> string \<Rightarrow> string \<Rightarrow> string \<Rightarrow> ('w, string list) io" where
  "get_radar_tilesets R radar_id variable_id elevation_id network =
     (let key = radar_tilesets_key network radar_id variable_id elevation_id
      in conn R (bnd (catching is_wrongtype (rd_zrange R key)) (\<lambda>r.
           case r of
             Inl e \<Rightarrow> seq (rd_delete R [key]) (ret [])
           | Inr members \<Rightarrow> ret (sorted_desc members))))"

definition trim_radar_index :: "'w redis \<Rightarrow> string \<Rightarrow> string \<Rightarrow> string \<Rightarrow> rat \<Rightarrow> string \<Rightarrow> ('w, nat) io" where
  "trim_radar_index R radar_id variable_id elevation_id min_score network =
     conn R (rd_zremrangebyscore R (radar_tilesets_key network radar_id variable_id elevation_id) min_score)"

section \<open>Index reconciliation\<close>

definition prune_index_set :: "'w redis \<Rightarrow> string \<Rightarrow> string list \<Rightarrow> ('w, nat) io" where
  "prune_index_set R key keep =
     conn R (bnd (rd_smembers R key) (\<lambda>members.
       let stale = filter (\<lambda>m. m \<notin> set keep) members
       in seq (if stale \<noteq> [] then rd_srem R key stale else ret ()) (ret (length stale))))"

definition prune_sorted_index :: "'w redis \<Rightarrow> string \<Rightarrow> string list \<Rightarrow> ('w, nat) io" where
  "prune_sorted_index R key keep =
     conn R (bnd (rd_zrange R key) (\<lambda>members.
       let stale = filter (\<lambda>m. m \<notin> set keep) members
       in seq (if stale \<noteq> [] then rd_zrem R key stale else ret ()) (ret (length stale))))"

section \<open>ECMWF\<close>

definition store_ecmwf_tp_tile ::
  "'w redis \<Rightarrow> string \<Rightarrow> string \<Rightarrow> int \<Rightarrow> int \<Rightarrow> int \<Rightarrow> pybytes \<Rightarrow> int option \<Rightarrow> ('w, unit) io" where
  "store_ecmwf_tp_tile R forecast_ts period_ts z x y = store_value R (ecmwf_tp_tile_key forecast_ts period_ts z x y)"

definition get_ecmwf_tp_tile :: "'w redis \<Rightarrow> string \<Rightarrow> string \<Rightarrow> int \<Rightarrow> int \<Rightarrow> int \<Rightarrow> ('w, pybytes option) io" where
  "get_ecmwf_tp_tile R forecast_ts period_ts z x y = get_value R (ecmwf_tp_tile_key forecast_ts period_ts z x y)"

text \<open>The pipeline of both forecast indexes: the forecast, then its members.\<close>

definition index_commands :: "string \<Rightarrow> string \<Rightarrow> string \<Rightarrow> string list \<Rightarrow> int \<Rightarrow> redis_command list" where
  "index_commands forecasts_key forecast_ts members_key members ttl =
     [SAdd forecasts_key forecast_ts, Expire forecasts_key ttl]
     @ map (SAdd members_key) members
     @ (if members \<noteq> [] then [Expire members_key ttl] else [])"

definition store_ecmwf_tp_index :: "'w redis \<Rightarrow> string \<Rightarrow> string list \<Rightarrow> int \<Rightarrow> ('w, unit) io" where
  "store_ecmwf_tp_index R forecast_ts periods ttl =
     conn R (seq (rd_pipeline R (index_commands ecmwf_tp_forecasts_key forecast_ts
                     (ecmwf_tp_periods_key forecast_ts) periods ttl)) (ret ()))"

definition get_ecmwf_tp_forecasts :: "'w redis \<Rightarrow> ('w, string list) io" where
  "get_ecmwf_tp_forecasts R = conn R (bnd (rd_smembers R ecmwf_tp_forecasts_key) (\<lambda>ms. ret (sorted_desc ms)))"

definition get_ecmwf_tp_periods :: "'w redis \<Rightarrow> string \<Rightarrow> ('w, string list) io" where
  "get_ecmwf_tp_periods R forecast_ts = sorted_members R (ecmwf_tp_periods_key forecast_ts)"

definition prune_ecmwf_tp_forecasts :: "'w redis \<Rightarrow> string list \<Rightarrow> ('w, nat) io" where
  "prune_ecmwf_tp_forecasts R keep = prune_index_set R ecmwf_tp_forecasts_key keep"

definition store_ecmwf_mslp_geojson :: "'w redis \<Rightarrow> string \<Rightarrow> string \<Rightarrow> pybytes \<Rightarrow> int option \<Rightarrow> ('w, unit) io" where
  "store_ecmwf_mslp_geojson R forecast_ts timestamp_ts = store_value R (ecmwf_mslp_geojson_key forecast_ts timestamp_ts)"

definition get_ecmwf_mslp_geojson :: "'w redis \<Rightarrow> string \<Rightarrow> string \<Rightarrow> ('w, pybytes option) io" where
  "get_ecmwf_mslp_geojson R forecast_ts timestamp_ts = get_value R (ecmwf_mslp_geojson_key forecast_ts timestamp_ts)"

definition store_ecmwf_mslp_index :: "'w redis \<Rightarrow> string \<Rightarrow> string list \<Rightarrow> int \<Rightarrow> ('w, unit) io" where
  "store_ecmwf_mslp_index R forecast_ts timestamps ttl =
     conn R (seq (rd_pipeline R (index_commands ecmwf_mslp_forecasts_key forecast_ts
                     (ecmwf_mslp_timestamps_key forecast_ts) timestamps ttl)) (ret ()))"

definition get_ecmwf_mslp_forecasts :: "'w redis \<Rightarrow> ('w, string list) io" where
  "get_ecmwf_mslp_forecasts R = conn R (bnd (rd_smembers R ecmwf_mslp_forecasts_key) (\<lambda>ms. ret (sorted_desc ms)))"

definition get_ecmwf_mslp_timestamps :: "'w redis \<Rightarrow> string \<Rightarrow> ('w, string list) io" where
  "get_ecmwf_mslp_timestamps R forecast_ts = sorted_members R (ecmwf_mslp_timestamps_key forecast_ts)"

definition prune_ecmwf_mslp_forecasts :: "'w redis \<Rightarrow> string list \<Rightarrow> ('w, nat) io" where
  "prune_ecmwf_mslp_forecasts R keep = prune_index_set R ecmwf_mslp_forecasts_key keep"

section \<open>WRF\<close>

definition store_wrf_tile ::
  "'w redis \<Rightarrow> string \<Rightarrow> string \<Rightarrow> string \<Rightarrow> int \<Rightarrow> int \<Rightarrow> int \<Rightarrow> pybytes \<Rightarrow> int option \<Rightarrow> ('w, unit) io" where
  "store_wrf_tile R product_id init_tag fxxx z x y = store_value R (wrf_tile_key product_id init_tag fxxx z x y)"

definition get_wrf_tile ::
  "'w redis \<Rightarrow> string \<Rightarrow> string \<Rightarrow> string \<Rightarrow> int \<Rightarrow> int \<Rightarrow> int \<Rightarrow> ('w, pybytes option) io" where
  "get_wrf_tile R product_id init_tag fxxx z x y = get_value R (wrf_tile_key product_id init_tag fxxx z x y)"

definition add_wrf_index ::
  "'w redis \<Rightarrow> string \<Rightarrow> string \<Rightarrow> string \<Rightarrow> rat \<Rightarrow> rat \<Rightarrow> int \<Rightarrow> ('w, unit) io" where
  "add_wrf_index R product_id init_tag fxxx init_score step_score ttl =
     (let init_key = wrf_init_runs_key product_id; steps_key = wrf_steps_key product_id init_tag
      in conn R (seq (rd_pipeline R
           [ SAdd WRF_PRODUCTS_KEY product_id, Expire WRF_PRODUCTS_KEY ttl,
             ZAdd init_key init_tag init_score, Expire init_key ttl,
             ZAdd steps_key fxxx step_score, Expire steps_key ttl ]) (ret ())))"

definition get_wrf_products :: "'w redis \<Rightarrow> ('w, string list) io" where
  "get_wrf_products R = sorted_members R WRF_PRODUCTS_KEY"

definition get_wrf_init_runs :: "'w redis \<Rightarrow> string \<Rightarrow> ('w, string list) io" where
  "get_wrf_init_runs R product_id = conn R (rd_zrevrange R (wrf_init_runs_key product_id))"

definition get_wrf_steps :: "'w redis \<Rightarrow> string \<Rightarrow> string \<Rightarrow> ('w, string list) io" where
  "get_wrf_steps R product_id init_tag = conn R (rd_zrange R (wrf_steps_key product_id init_tag))"

definition prune_wrf_inits :: "'w redis \<Rightarrow> string \<Rightarrow> string list \<Rightarrow> ('w, nat) io" where
  "prune_wrf_inits R product_id keep = prune_sorted_index R (wrf_init_runs_key product_id) keep"

definition store_wrf_geojson ::
  "'w redis \<Rightarrow> string \<Rightarrow> string \<Rightarrow> string \<Rightarrow> string \<Rightarrow> pybytes \<Rightarrow> int option \<Rightarrow> ('w, unit) io" where
  "store_wrf_geojson R product_id init_tag fxxx layer = store_value R (wrf_geojson_key product_id init_tag fxxx layer)"

definition get_wrf_geojson :: "'w redis \<Rightarrow> string \<Rightarrow> string \<Rightarrow> string \<Rightarrow> string \<Rightarrow> ('w, pybytes option) io" where
  "get_wrf_geojson R product_id init_tag fxxx layer = get_value R (wrf_geojson_key product_id init_tag fxxx layer)"

text \<open>Registering and reading layer sets, for WRF and GFS alike.\<close>

definition add_layers :: "'w redis \<Rightarrow> string \<Rightarrow> string list \<Rightarrow> int \<Rightarrow> ('w, unit) io" where
  "add_layers R key layers ttl =
     (if layers = [] then ret ()
      else conn R (seq (rd_pipeline R (map (SAdd key) layers @ [Expire key ttl])) (ret ())))"

definition layers_bulk :: "'w redis \<Rightarrow> (string \<Rightarrow> string) \<Rightarrow> string list \<Rightarrow> ('w, (string \<times> string list) list) io" where
  "layers_bulk R key_of steps =
     (if steps = [] then ret []
      else conn R (bnd (rd_pipeline R (map (\<lambda>s. SMembers (key_of s)) steps)) (\<lambda>replies.
        ret (foldl (\<lambda>d (s, ms). dict_set d s (sort ms)) [] (zip steps replies)))))"

definition add_wrf_layers ::
  "'w redis \<Rightarrow> string \<Rightarrow> string \<Rightarrow> string \<Rightarrow> string list \<Rightarrow> int \<Rightarrow> ('w, unit) io" where
  "add_wrf_layers R product_id init_tag fxxx layers ttl = add_layers R (wrf_layers_key product_id init_tag fxxx) layers ttl"

definition get_wrf_layers :: "'w redis \<Rightarrow> string \<Rightarrow> string \<Rightarrow> string \<Rightarrow> ('w, string list) io" where
  "get_wrf_layers R product_id init_tag fxxx = sorted_members R (wrf_layers_key product_id init_tag fxxx)"

definition get_wrf_layers_bulk ::
  "'w redis \<Rightarrow> string \<Rightarrow> string \<Rightarrow> string list \<Rightarrow> ('w, (string \<times> string list) list) io" where
  "get_wrf_layers_bulk R product_id init_tag steps = layers_bulk R (wrf_layers_key product_id init_tag) steps"

definition set_wrf_overlays_complete :: "'w redis \<Rightarrow> string \<Rightarrow> string \<Rightarrow> string \<Rightarrow> int \<Rightarrow> ('w, unit) io" where
  "set_wrf_overlays_complete R product_id init_tag fxxx ttl =
     conn R (rd_set R (wrf_overlays_done_key product_id init_tag fxxx) (Raw ''1'') (Some ttl))"

definition is_wrf_overlays_complete :: "'w redis \<Rightarrow> string \<Rightarrow> string \<Rightarrow> string \<Rightarrow> ('w, bool) io" where
  "is_wrf_overlays_complete R product_id init_tag fxxx =
     conn R (rd_exists R (wrf_overlays_done_key product_id init_tag fxxx))"

section \<open>GFS\<close>

definition add_gfs_index ::
  "'w redis \<Rightarrow> string \<Rightarrow> string \<Rightarrow> string \<Rightarrow> rat \<Rightarrow> rat \<Rightarrow> int \<Rightarrow> ('w, unit) io" where
  "add_gfs_index R product_id cycle fxxx cycle_score step_score ttl =
     (let cycles_key = gfs_cycles_key product_id; steps_key = gfs_steps_key product_id cycle
      in conn R (seq (rd_pipeline R
           [ ZAdd cycles_key cycle cycle_score, Expire cycles_key ttl,
             ZAdd steps_key fxxx step_score, Expire steps_key ttl ]) (ret ())))"

definition get_gfs_cycles :: "'w redis \<Rightarrow> string \<Rightarrow> ('w, string list) io" where
  "get_gfs_cycles R product_id = conn R (rd_zrevrange R (gfs_cycles_key product_id))"

definition get_gfs_steps :: "'w redis \<Rightarrow> string \<Rightarrow> string \<Rightarrow> ('w, string list) io" where
  "get_gfs_steps R product_id cycle = conn R (rd_zrange R (gfs_steps_key product_id cycle))"

definition prune_gfs_cycles :: "'w redis \<Rightarrow> string \<Rightarrow> string list \<Rightarrow> ('w, nat) io" where
  "prune_gfs_cycles R product_id keep = prune_sorted_index R (gfs_cycles_key product_id) keep"

definition store_gfs_geojson ::
  "'w redis \<Rightarrow> string \<Rightarrow> string \<Rightarrow> string \<Rightarrow> string \<Rightarrow> pybytes \<Rightarrow> int option \<Rightarrow> ('w, unit) io" where
  "store_gfs_geojson R product_id cycle fxxx layer = store_value R (gfs_geojson_key product_id cycle fxxx layer)"

definition get_gfs_geojson :: "'w redis \<Rightarrow> string \<Rightarrow> string \<Rightarrow> string \<Rightarrow> string \<Rightarrow> ('w, pybytes option) io" where
  "get_gfs_geojson R product_id cycle fxxx layer = get_value R (gfs_geojson_key product_id cycle fxxx layer)"

definition add_gfs_layers ::
  "'w redis \<Rightarrow> string \<Rightarrow> string \<Rightarrow> string \<Rightarrow> string list \<Rightarrow> int \<Rightarrow> ('w, unit) io" where
  "add_gfs_layers R product_id cycle fxxx layers ttl = add_layers R (gfs_layers_key product_id cycle fxxx) layers ttl"

definition get_gfs_layers :: "'w redis \<Rightarrow> string \<Rightarrow> string \<Rightarrow> string \<Rightarrow> ('w, string list) io" where
  "get_gfs_layers R product_id cycle fxxx = sorted_members R (gfs_layers_key product_id cycle fxxx)"

definition get_gfs_layers_bulk ::
  "'w redis \<Rightarrow> string \<Rightarrow> string \<Rightarrow> string list \<Rightarrow> ('w, (string \<times> string list) list) io" where
  "get_gfs_layers_bulk R product_id cycle steps = layers_bulk R (gfs_layers_key product_id cycle) steps"

definition store_gfs_tile ::
  "'w redis \<Rightarrow> string \<Rightarrow> string \<Rightarrow> string \<Rightarrow> int \<Rightarrow> int \<Rightarrow> int \<Rightarrow> pybytes \<Rightarrow> int option \<Rightarrow> ('w, unit) io" where
  "store_gfs_tile R product_id cycle fxxx z x y = store_value R (gfs_tile_key product_id cycle fxxx z x y)"

definition get_gfs_tile ::
  "'w redis \<Rightarrow> string \<Rightarrow> string \<Rightarrow> string \<Rightarrow> int \<Rightarrow> int \<Rightarrow> int \<Rightarrow> ('w, pybytes option) io" where
  "get_gfs_tile R product_id cycle fxxx z x y = get_value R (gfs_tile_key product_id cycle fxxx z x y)"

section \<open>Base maps, listings, sync status\<close>

definition store_basemap_tile ::
  "'w redis \<Rightarrow> string \<Rightarrow> int \<Rightarrow> int \<Rightarrow> int \<Rightarrow> pybytes \<Rightarrow> int option \<Rightarrow> ('w, unit) io" where
  "store_basemap_tile R provider_id z x y = store_value R (basemap_tile_key provider_id z x y)"

definition get_basemap_tile :: "'w redis \<Rightarrow> string \<Rightarrow> int \<Rightarrow> int \<Rightarrow> int \<Rightarrow> ('w, pybytes option) io" where
  "get_basemap_tile R provider_id z x y = get_value R (basemap_tile_key provider_id z x y)"

definition get_basemap_tile_miss :: "'w redis \<Rightarrow> string \<Rightarrow> int \<Rightarrow> int \<Rightarrow> int \<Rightarrow> ('w, bool) io" where
  "get_basemap_tile_miss R provider_id z x y = conn R (rd_exists R (basemap_miss_key provider_id z x y))"

definition mark_basemap_tile_miss :: "'w redis \<Rightarrow> string \<Rightarrow> int \<Rightarrow> int \<Rightarrow> int \<Rightarrow> int \<Rightarrow> ('w, unit) io" where
  "mark_basemap_tile_miss R provider_id z x y ttl =
     conn R (rd_set R (basemap_miss_key provider_id z x y) (Raw ''1'') (Some ttl))"

definition clear_basemap_tile_miss :: "'w redis \<Rightarrow> string \<Rightarrow> int \<Rightarrow> int \<Rightarrow> int \<Rightarrow> ('w, unit) io" where
  "clear_basemap_tile_miss R provider_id z x y = conn R (rd_delete R [basemap_miss_key provider_id z x y])"

definition set_basemap_provider_availability :: "'w redis \<Rightarrow> string \<Rightarrow> bool \<Rightarrow> int \<Rightarrow> ('w, unit) io" where
  "set_basemap_provider_availability R provider_id available ttl =
     conn R (rd_set R (basemap_availability_key provider_id)
               (if available then Raw ''1'' else Raw ''0'') (Some ttl))"

definition get_basemap_provider_availability :: "'w redis \<Rightarrow> string \<Rightarrow> ('w, bool option) io" where
  "get_basemap_provider_availability R provider_id =
     conn R (bnd (rd_get R (basemap_availability_key provider_id)) (\<lambda>raw.
       ret (map_option (\<lambda>b. b = Raw ''1'') raw)))"

definition cache_listing :: "'w redis \<Rightarrow> string \<Rightarrow> pybytes \<Rightarrow> int \<Rightarrow> ('w, unit) io" where
  "cache_listing R cache_key data ttl = conn R (rd_set R cache_key data (Some ttl))"

definition get_cached_listing :: "'w redis \<Rightarrow> string \<Rightarrow> ('w, pybytes option) io" where
  "get_cached_listing R cache_key = get_value R cache_key"

definition update_sync_status :: "'w redis \<Rightarrow> (string \<times> string) list \<Rightarrow> ('w, unit) io" where
  "update_sync_status R entries = (if entries \<noteq> [] then conn R (rd_hset R sync_status_key entries) else ret ())"

definition get_sync_status :: "'w redis \<Rightarrow> ('w, (string \<times> string) list) io" where
  "get_sync_status R = conn R (rd_hgetall R sync_status_key)"

definition update_domain_sync_status :: "'w redis \<Rightarrow> string \<Rightarrow> (string \<times> string) list \<Rightarrow> ('w, unit) io" where
  "update_domain_sync_status R domain entries =
     (if entries \<noteq> [] then conn R (rd_hset R (domain_sync_status_key domain) entries) else ret ())"

definition get_domain_sync_status :: "'w redis \<Rightarrow> string \<Rightarrow> ('w, (string \<times> string) list) io" where
  "get_domain_sync_status R domain = conn R (rd_hgetall R (domain_sync_status_key domain))"

section \<open>The server's contract\<close>

datatype rvalue =
    RString pybytes
  | RSet "string set"
  | RZset "string \<rightharpoonup> rat"
  | RHash "string \<rightharpoonup> string"

type_synonym keyspace = "string \<rightharpoonup> rvalue"

text \<open>The members of a set or sorted set; an absent key has none, another type is an error.\<close>

fun set_at :: "keyspace \<Rightarrow> string \<Rightarrow> string set option" where
  "set_at ks k = (case ks k of None \<Rightarrow> Some {} | Some (RSet s) \<Rightarrow> Some s | _ \<Rightarrow> None)"

fun zset_at :: "keyspace \<Rightarrow> string \<Rightarrow> (string \<rightharpoonup> rat) option" where
  "zset_at ks k = (case ks k of None \<Rightarrow> Some Map.empty | Some (RZset z) \<Rightarrow> Some z | _ \<Rightarrow> None)"

text \<open>A set that loses its last member is removed with its key.\<close>

definition put_set :: "keyspace \<Rightarrow> string \<Rightarrow> string set \<Rightarrow> keyspace" where
  "put_set ks k s = ks(k := if s = {} then None else Some (RSet s))"

definition put_zset :: "keyspace \<Rightarrow> string \<Rightarrow> (string \<rightharpoonup> rat) \<Rightarrow> keyspace" where
  "put_zset ks k z = ks(k := if dom z = {} then None else Some (RZset z))"

fun run_command :: "redis_command \<Rightarrow> keyspace \<Rightarrow> keyspace" where
  "run_command (SAdd k m) ks = (case set_at ks k of Some s \<Rightarrow> put_set ks k (insert m s) | None \<Rightarrow> ks)"
| "run_command (ZAdd k m sc) ks = (case zset_at ks k of Some z \<Rightarrow> put_zset ks k (z(m \<mapsto> sc)) | None \<Rightarrow> ks)"
| "run_command (Expire k t) ks = ks"
| "run_command (SMembers k) ks = ks"

text \<open>
  What a command did when it returned. \<^verbatim>\<open>\<alpha>\<close> is the keyspace the server shows. A command
  that raises promises nothing.
\<close>

locale redis_server =
  fixes R :: "'w redis" and \<alpha> :: "'w \<Rightarrow> keyspace"
  assumes connected: "rd_connected R"
    and get_returns: "rd_get R k w = (Inr v, w') \<Longrightarrow>
          \<alpha> w' = \<alpha> w \<and> v = (case \<alpha> w k of Some (RString b) \<Rightarrow> Some b | _ \<Rightarrow> None)"
    and set_returns: "rd_set R k b ttl w = (Inr (), w') \<Longrightarrow> \<alpha> w' = (\<alpha> w)(k \<mapsto> RString b)"
    and exists_returns: "rd_exists R k w = (Inr e, w') \<Longrightarrow> \<alpha> w' = \<alpha> w \<and> e = (\<alpha> w k \<noteq> None)"
    and delete_returns: "rd_delete R ks w = (Inr (), w') \<Longrightarrow> \<alpha> w' = (\<alpha> w) |` (- set ks)"
    and smembers_returns: "rd_smembers R k w = (Inr ms, w') \<Longrightarrow>
          \<alpha> w' = \<alpha> w \<and> distinct ms \<and> set_at (\<alpha> w) k = Some (set ms)"
    and srem_returns: "rd_srem R k ms w = (Inr (), w') \<Longrightarrow>
          \<exists>s. set_at (\<alpha> w) k = Some s \<and> \<alpha> w' = put_set (\<alpha> w) k (s - set ms)"
    and zrange_returns: "rd_zrange R k w = (Inr ms, w') \<Longrightarrow>
          \<alpha> w' = \<alpha> w \<and> distinct ms
          \<and> (\<exists>z. zset_at (\<alpha> w) k = Some z \<and> set ms = dom z \<and> sorted (map (\<lambda>m. the (z m)) ms))"
    and zrem_returns: "rd_zrem R k ms w = (Inr (), w') \<Longrightarrow>
          \<exists>z. zset_at (\<alpha> w) k = Some z \<and> \<alpha> w' = put_zset (\<alpha> w) k (z |` (- set ms))"
    and zremrangebyscore_returns: "rd_zremrangebyscore R k hi w = (Inr n, w') \<Longrightarrow>
          \<exists>z. zset_at (\<alpha> w) k = Some z \<and> \<alpha> w' = put_zset (\<alpha> w) k (z |` {m. \<forall>sc. z m = Some sc \<longrightarrow> hi \<le> sc})
              \<and> n = card {m. \<exists>sc. z m = Some sc \<and> sc < hi}"
    and pipeline_returns: "rd_pipeline R cs w = (Inr rs, w') \<Longrightarrow> \<alpha> w' = fold run_command cs (\<alpha> w)"
begin

lemma conn_eq [simp]: "conn R m = m"
  by (simp add: conn_def connected)

text \<open>A value stored is the value read, and a write elsewhere does not change it.\<close>

lemma get_value_after_store:
  assumes "store_value R k' b ttl w = (Inr (), w1)" "get_value R k w1 = (Inr v, w2)"
  shows "v = (if k = k' then Some b else case \<alpha> w k of Some (RString b) \<Rightarrow> Some b | _ \<Rightarrow> None)"
proof -
  have "\<alpha> w1 = (\<alpha> w)(k' \<mapsto> RString b)" using assms(1) set_returns by (simp add: store_value_def)
  then show ?thesis using assms(2) get_returns [of k w1 v w2] by (simp add: get_value_def)
qed

lemma prune_index_set_spec:
  assumes "prune_index_set R k keep w = (Inr n, w')"
  shows "\<exists>s. set_at (\<alpha> w) k = Some s \<and> set_at (\<alpha> w') k = Some (s \<inter> set keep)
             \<and> n = card (s - set keep) \<and> (\<forall>k'. k' \<noteq> k \<longrightarrow> \<alpha> w' k' = \<alpha> w k')"
proof -
  obtain ms w1 where m: "rd_smembers R k w = (Inr ms, w1)"
    and r: "(let stale = filter (\<lambda>m. m \<notin> set keep) ms
             in seq (if stale \<noteq> [] then rd_srem R k stale else ret ()) (ret (length stale))) w1 = (Inr n, w')"
    using assms by (auto simp: prune_index_set_def bnd_eq_Inr)
  have v: "\<alpha> w1 = \<alpha> w" "distinct ms" "set_at (\<alpha> w) k = Some (set ms)"
    using smembers_returns [OF m] by auto
  let ?stale = "filter (\<lambda>m. m \<notin> set keep) ms"
  have n: "n = card (set ms - set keep)"
  proof -
    have "set ?stale = set ms - set keep" by auto
    then have "length ?stale = card (set ms - set keep)" using v(2) by (metis distinct_card distinct_filter)
    then show ?thesis using r by (auto simp: Let_def seq_def bnd_eq_Inr split: if_splits)
  qed
  show ?thesis
  proof (cases "?stale = []")
    case True
    then have "set ms \<inter> set keep = set ms" by (auto simp: filter_empty_conv)
    then show ?thesis using r v n True by (auto simp: Let_def seq_def)
  next
    case False
    then have "rd_srem R k ?stale w1 = (Inr (), w')"
      using r by (auto simp: Let_def seq_def bnd_eq_Inr)
    then have "\<alpha> w' = put_set (\<alpha> w) k (set ms - set ?stale)" using srem_returns [of k ?stale w1 w'] v by auto
    moreover have "set ms - set ?stale = set ms \<inter> set keep" by auto
    ultimately show ?thesis using v n by (auto simp: put_set_def)
  qed
qed

lemma prune_sorted_index_spec:
  assumes "prune_sorted_index R k keep w = (Inr n, w')"
  shows "\<exists>z. zset_at (\<alpha> w) k = Some z \<and> zset_at (\<alpha> w') k = Some (z |` set keep)
             \<and> n = card (dom z - set keep) \<and> (\<forall>k'. k' \<noteq> k \<longrightarrow> \<alpha> w' k' = \<alpha> w k')"
proof -
  obtain ms w1 where m: "rd_zrange R k w = (Inr ms, w1)"
    and r: "(let stale = filter (\<lambda>m. m \<notin> set keep) ms
             in seq (if stale \<noteq> [] then rd_zrem R k stale else ret ()) (ret (length stale))) w1 = (Inr n, w')"
    using assms by (auto simp: prune_sorted_index_def bnd_eq_Inr)
  obtain z where v: "\<alpha> w1 = \<alpha> w" "distinct ms" "zset_at (\<alpha> w) k = Some z" "set ms = dom z"
    using zrange_returns [OF m] by auto
  let ?stale = "filter (\<lambda>m. m \<notin> set keep) ms"
  have n: "n = card (dom z - set keep)"
  proof -
    have "set ?stale = dom z - set keep" using v(4) by auto
    then have "length ?stale = card (dom z - set keep)" using v(2) by (metis distinct_card distinct_filter)
    then show ?thesis using r by (auto simp: Let_def seq_def bnd_eq_Inr split: if_splits)
  qed
  show ?thesis
  proof (cases "?stale = []")
    case True
    then have "dom z \<subseteq> set keep" using v(4) by (auto simp: filter_empty_conv)
    then have "z |` set keep = z" by (intro ext) (metis domIff restrict_in restrict_out subsetD)
    then show ?thesis using r v n True by (auto simp: Let_def seq_def)
  next
    case False
    then have "rd_zrem R k ?stale w1 = (Inr (), w')"
      using r by (auto simp: Let_def seq_def bnd_eq_Inr)
    then have "\<alpha> w' = put_zset (\<alpha> w) k (z |` (- set ?stale))" using zrem_returns [of k ?stale w1 w'] v by auto
    moreover have "z |` (- set ?stale) = z |` set keep"
      using v(4) by (auto simp: restrict_map_def fun_eq_iff domIff)
    ultimately have p: "\<alpha> w' = put_zset (\<alpha> w) k (z |` set keep)" by simp
    have "zset_at (put_zset ks k y) k = Some y" for ks and y :: "string \<rightharpoonup> rat"
      by (simp add: put_zset_def)
    then have "zset_at (\<alpha> w') k = Some (z |` set keep)" unfolding p .
    moreover have "\<forall>k'. k' \<noteq> k \<longrightarrow> \<alpha> w' k' = \<alpha> w k'" by (simp add: p put_zset_def)
    ultimately show ?thesis using v(3) n by blast
  qed
qed

end

section \<open>An in-memory server\<close>

text \<open>
  A server that meets the contract: the world is the keyspace itself. It shows that the
  contract can hold and instantiates the theorems.
\<close>

definition wrongtype :: exn where
  "wrongtype = RedisError ''WRONGTYPE Operation against a key holding the wrong kind of value''"

definition members_of :: "string set \<Rightarrow> string list" where
  "members_of s = sorted_list_of_set s"

definition mem_redis :: "keyspace redis" where
  "mem_redis =
     \<lparr> rd_connected = True,
       rd_get = (\<lambda>k ks. case ks k of None \<Rightarrow> (Inr None, ks) | Some (RString b) \<Rightarrow> (Inr (Some b), ks)
                                   | _ \<Rightarrow> (Inl wrongtype, ks)),
       rd_set = (\<lambda>k b ttl ks. (Inr (), ks(k \<mapsto> RString b))),
       rd_exists = (\<lambda>k ks. (Inr (ks k \<noteq> None), ks)),
       rd_delete = (\<lambda>l ks. (Inr (), ks |` (- set l))),
       rd_expire = (\<lambda>k t ks. (Inr (), ks)),
       rd_smembers = (\<lambda>k ks. case set_at ks k of
           Some s \<Rightarrow> if finite s then (Inr (members_of s), ks) else (Inl wrongtype, ks)
         | None \<Rightarrow> (Inl wrongtype, ks)),
       rd_srem = (\<lambda>k ms ks. case set_at ks k of
           Some s \<Rightarrow> (Inr (), put_set ks k (s - set ms)) | None \<Rightarrow> (Inl wrongtype, ks)),
       rd_zadd = (\<lambda>k m sc ks. case zset_at ks k of
           Some z \<Rightarrow> (Inr (), put_zset ks k (z(m \<mapsto> sc))) | None \<Rightarrow> (Inl wrongtype, ks)),
       rd_zrange = (\<lambda>k ks. case zset_at ks k of
           Some z \<Rightarrow> if finite (dom z) then (Inr (sort_key (\<lambda>m. the (z m)) (members_of (dom z))), ks)
                      else (Inl wrongtype, ks)
         | None \<Rightarrow> (Inl wrongtype, ks)),
       rd_zrevrange = (\<lambda>k ks. case zset_at ks k of
           Some z \<Rightarrow> if finite (dom z) then (Inr (rev (sort_key (\<lambda>m. the (z m)) (members_of (dom z)))), ks)
                      else (Inl wrongtype, ks)
         | None \<Rightarrow> (Inl wrongtype, ks)),
       rd_zrem = (\<lambda>k ms ks. case zset_at ks k of
           Some z \<Rightarrow> (Inr (), put_zset ks k (z |` (- set ms))) | None \<Rightarrow> (Inl wrongtype, ks)),
       rd_zremrangebyscore = (\<lambda>k hi ks. case zset_at ks k of
           Some z \<Rightarrow> (Inr (card {m. \<exists>sc. z m = Some sc \<and> sc < hi}),
                       put_zset ks k (z |` {m. \<forall>sc. z m = Some sc \<longrightarrow> hi \<le> sc}))
         | None \<Rightarrow> (Inl wrongtype, ks)),
       rd_zscore = (\<lambda>k m ks. case zset_at ks k of Some z \<Rightarrow> (Inr (z m), ks) | None \<Rightarrow> (Inl wrongtype, ks)),
       rd_scan = (\<lambda>c p ks. (Inr (0, []), ks)),
       rd_pipeline = (\<lambda>cs ks. (Inr [], fold run_command cs ks)),
       rd_hset = (\<lambda>k m ks. (Inr (), ks)),
       rd_hgetall = (\<lambda>k ks. (Inr [], ks)) \<rparr>"

interpretation mem: redis_server mem_redis "\<lambda>ks. ks"
  by unfold_locales
     (auto simp: mem_redis_def members_of_def split: option.splits rvalue.splits if_splits)

section \<open>Properties\<close>

text \<open>
  Reading after writing, across the whole schema: after storing bytes for one entry,
  an entry that held a value reads its own value, the new bytes if it is the entry just
  stored and its old ones otherwise. No product's write can corrupt another's tiles.
\<close>

theorem redis_read_after_write:
  assumes "redis_server R \<alpha>" "wf_key a" "wf_key b"
    and "\<alpha> w (render b) = Some (RString old)"
    and "store_value R (render a) data ttl w = (Inr (), w1)" "get_value R (render b) w1 = (Inr v, w2)"
  shows "v = Some (if a = b then data else old)"
proof -
  have "render b = render a \<longleftrightarrow> b = a"
    using parse_render [OF assms(2)] parse_render [OF assms(3)] by (metis option.inject)
  then show ?thesis
    using redis_server.get_value_after_store [OF assms(1,5,6)] assms(4) by auto
qed

theorem redis_read_after_write_witness:
  "Some (Raw ''old'') = Some (if BasemapMiss ''p'' 3 1 2 = BasemapTile ''p'' 3 1 2 then Raw ''1'' else Raw ''old'')"
proof -
  let ?a = "BasemapMiss ''p'' 3 1 2" and ?b = "BasemapTile ''p'' 3 1 2"
  let ?w = "[render ?b \<mapsto> RString (Raw ''old'')]"
  let ?w1 = "?w(render ?a \<mapsto> RString (Raw ''1''))"
  have wf: "wf_key ?a" "wf_key ?b" by (simp_all add: seg_def)
  have ne: "render ?b \<noteq> render ?a"
    using parse_render [OF wf(1)] parse_render [OF wf(2)] by (metis option.inject redis_key.distinct)
  have v: "?w (render ?b) = Some (RString (Raw ''old''))" by simp
  have s: "store_value mem_redis (render ?a) (Raw ''1'') (Some 60) ?w = (Inr (), ?w1)"
    by (simp add: store_value_def conn_def mem_redis_def)
  have g: "get_value mem_redis (render ?b) ?w1 = (Inr (Some (Raw ''old'')), ?w1)"
    using ne by (simp add: get_value_def conn_def mem_redis_def del: render.simps)
  show ?thesis by (rule redis_read_after_write [OF mem.redis_server_axioms wf v s g])
qed

text \<open>
  Reconciling an index leaves exactly the members that are still active, with their
  scores in a sorted index, reports how many were removed, and touches no other key; so
  the WRF and GFS indexes, whose keys never expire while they are refreshed, stay bounded
  by what is synced.
\<close>

theorem prune_keeps_exactly_active:
  assumes "redis_server R \<alpha>"
  shows "(prune_index_set R k keep w = (Inr n, w') \<longrightarrow>
            (\<exists>s. set_at (\<alpha> w) k = Some s \<and> set_at (\<alpha> w') k = Some (s \<inter> set keep)
                 \<and> n = card (s - set keep) \<and> (\<forall>k'. k' \<noteq> k \<longrightarrow> \<alpha> w' k' = \<alpha> w k')))
       \<and> (prune_sorted_index R k keep w = (Inr n, w') \<longrightarrow>
            (\<exists>z. zset_at (\<alpha> w) k = Some z \<and> zset_at (\<alpha> w') k = Some (z |` set keep)
                 \<and> n = card (dom z - set keep) \<and> (\<forall>k'. k' \<noteq> k \<longrightarrow> \<alpha> w' k' = \<alpha> w k')))"
  using redis_server.prune_index_set_spec [OF assms] redis_server.prune_sorted_index_spec [OF assms] by blast

theorem prune_keeps_exactly_active_witness:
  "\<exists>s. set_at [''idx'' \<mapsto> RSet {''a'', ''b''}] ''idx'' = Some s
       \<and> set_at (snd (prune_index_set mem_redis ''idx'' [''b''] [''idx'' \<mapsto> RSet {''a'', ''b''}])) ''idx'' = Some (s \<inter> set [''b''])"
proof -
  let ?w = "[''idx'' \<mapsto> RSet {''a'', ''b''}]"
  have "\<exists>n. prune_index_set mem_redis ''idx'' [''b''] ?w = (Inr n, snd (prune_index_set mem_redis ''idx'' [''b''] ?w))"
    by (simp add: prune_index_set_def conn_def mem_redis_def bnd_apply seq_def Let_def)
  then show ?thesis using prune_keeps_exactly_active [OF mem.redis_server_axioms, of "''idx''" "[''b'']" ?w] by blast
qed

end
