(* ===== verification/Log_Throttle.thy ===== *)
theory Log_Throttle
  imports Prelude
begin

text \<open>
  The log throttle of \<^verbatim>\<open>log_throttle.py\<close>: one backoff position per key, the clock an
  argument of \<^verbatim>\<open>check\<close>. The theorems are about a whole sequence of calls on one
  throttle: no occurrence is lost from the counts that the emitted lines report, and
  the lines emitted for one key are bounded by the schedule of gaps.
\<close>

section \<open>State and operations\<close>

record key_state =
  ks_next_at :: rat
  ks_interval :: rat
  ks_suppressed :: nat

record throttle =
  th_base :: rat
  th_max :: rat
  th_factor :: rat
  th_states :: "string \<rightharpoonup> key_state"

definition new_throttle :: "rat \<Rightarrow> rat \<Rightarrow> rat \<Rightarrow> throttle" where
  "new_throttle base_interval max_interval factor =
     \<lparr> th_base = base_interval, th_max = max_interval, th_factor = factor, th_states = Map.empty \<rparr>"

definition default_throttle :: throttle where
  "default_throttle = new_throttle 1 30 2"

definition check :: "rat \<Rightarrow> string \<Rightarrow> throttle \<Rightarrow> nat option \<times> throttle" where
  "check now key th =
     (case th_states th key of
        None \<Rightarrow>
          (Some 0, th\<lparr>th_states := (th_states th)(key \<mapsto>
             \<lparr> ks_next_at = now + th_base th, ks_interval = th_base th, ks_suppressed = 0 \<rparr>)\<rparr>)
      | Some st \<Rightarrow>
          if now < ks_next_at st then
            (None, th\<lparr>th_states := (th_states th)(key \<mapsto> st\<lparr>ks_suppressed := Suc (ks_suppressed st)\<rparr>)\<rparr>)
          else
            (let interval = min (ks_interval st * th_factor th) (th_max th)
             in (Some (ks_suppressed st),
                 th\<lparr>th_states := (th_states th)(key \<mapsto>
                   \<lparr> ks_next_at = now + interval, ks_interval = interval, ks_suppressed = 0 \<rparr>)\<rparr>)))"

definition reset :: "string \<Rightarrow> throttle \<Rightarrow> throttle" where
  "reset key th = th\<lparr>th_states := (th_states th)(key := None)\<rparr>"

section \<open>Sequences of calls\<close>

datatype event = Check rat string | Reset string

fun run :: "event list \<Rightarrow> throttle \<Rightarrow> (string \<times> rat \<times> nat option) list \<times> throttle" where
  "run [] th = ([], th)"
| "run (Check now key # es) th =
     (let (out, th1) = check now key th; (outs, th2) = run es th1 in ((key, now, out) # outs, th2))"
| "run (Reset key # es) th = run es (reset key th)"

text \<open>The numbers reported by the lines emitted for one key, and when they were emitted.\<close>

definition emitted :: "string \<Rightarrow> (string \<times> rat \<times> nat option) list \<Rightarrow> nat list" where
  "emitted k outs = List.map_filter (\<lambda>(key, _, out). if key = k then out else None) outs"

definition checks_of :: "string \<Rightarrow> event list \<Rightarrow> rat list" where
  "checks_of k es =
     List.map_filter (\<lambda>e. case e of Check now key \<Rightarrow> if key = k then Some now else None | Reset _ \<Rightarrow> None) es"

definition pending :: "string \<Rightarrow> throttle \<Rightarrow> nat" where
  "pending k th = (case th_states th k of None \<Rightarrow> 0 | Some st \<Rightarrow> ks_suppressed st)"

lemma emitted_Cons: "emitted k ((key, now, out) # outs) =
    (if key = k then (case out of None \<Rightarrow> emitted k outs | Some n \<Rightarrow> n # emitted k outs)
     else emitted k outs)"
  by (auto simp: emitted_def List.map_filter_simps split: option.splits)

lemma emitted_Nil [simp]: "emitted k [] = []"
  by (simp add: emitted_def List.map_filter_simps)

lemma checks_of_simps [simp]:
  "checks_of k [] = []"
  "checks_of k (Check now key # es) = (if key = k then now # checks_of k es else checks_of k es)"
  "checks_of k (Reset key # es) = checks_of k es"
  by (auto simp: checks_of_def List.map_filter_simps)

lemma check_other [simp]: "key \<noteq> k \<Longrightarrow> th_states (snd (check now key th)) k = th_states th k"
  by (auto simp: check_def Let_def split: option.splits)

lemma check_config [simp]:
  "th_base (snd (check now key th)) = th_base th"
  "th_max (snd (check now key th)) = th_max th"
  "th_factor (snd (check now key th)) = th_factor th"
  by (auto simp: check_def Let_def split: option.splits)

lemma reset_simps [simp]:
  "key \<noteq> k \<Longrightarrow> th_states (reset key th) k = th_states th k"
  "th_base (reset key th) = th_base th" "th_max (reset key th) = th_max th"
  "th_factor (reset key th) = th_factor th"
  by (simp_all add: reset_def)

text \<open>One check: the occurrence is either reported now, with what was pending, or pending.\<close>

lemma check_count:
  "pending k th + 1 =
     (case fst (check now k th) of None \<Rightarrow> 0 | Some n \<Rightarrow> Suc n) + pending k (snd (check now k th))"
  by (auto simp: check_def pending_def Let_def split: option.splits)

text \<open>
  No occurrence is lost: for a key that is never reset, every check is either an
  emitted line, or counted in the number a later line reports, or still pending in the
  key's state. Keys do not disturb each other.
\<close>

theorem throttle_loses_nothing:
  assumes "Reset k \<notin> set es" and "run es th = (outs, th')"
  shows "pending k th + length (checks_of k es) =
         length (emitted k outs) + sum_list (emitted k outs) + pending k th'"
  using assms
proof (induction es th arbitrary: outs th' rule: run.induct)
  case (1 th)
  then show ?case by simp
next
  case (2 now key es th)
  obtain out th1 where c: "check now key th = (out, th1)" by fastforce
  obtain outs1 where r: "run es th1 = (outs1, th')" and o: "outs = (key, now, out) # outs1"
    using "2.prems" c by (auto simp: split: prod.splits)
  have IH: "pending k th1 + length (checks_of k es) =
      length (emitted k outs1) + sum_list (emitted k outs1) + pending k th'"
    using "2.IH" [OF c [symmetric] refl] "2.prems"(1) r by simp
  show ?case
  proof (cases "key = k")
    case True
    have "pending k th + 1 = (case out of None \<Rightarrow> 0 | Some n \<Rightarrow> Suc n) + pending k th1"
      using check_count [of k th now] c True by simp
    then show ?thesis using IH o True by (auto simp: emitted_Cons split: option.splits)
  next
    case False
    then have "pending k th1 = pending k th"
      using check_other [OF False, of now th] c by (simp add: pending_def)
    then show ?thesis using IH o False by (simp add: emitted_Cons)
  qed
next
  case (3 key es th)
  then have "pending k (reset key th) = pending k th" by (auto simp: pending_def)
  then show ?case using 3 by auto
qed

theorem throttle_loses_nothing_witness:
  "emitted ''e'' (fst (run [Check 0 ''e'', Check (1/2) ''e'', Check (1/2) ''x'', Check 1 ''e'']
     default_throttle)) = [0, 1] \<and>
   pending ''e'' default_throttle + 3 = 2 + 1 +
     pending ''e'' (snd (run [Check 0 ''e'', Check (1/2) ''e'', Check (1/2) ''x'', Check 1 ''e'']
       default_throttle))"
proof -
  let ?es = "[Check 0 ''e'', Check (1/2) ''e'', Check (1/2) ''x'', Check 1 ''e'']"
  have e: "emitted ''e'' (fst (run ?es default_throttle)) = [0, 1]"
    by (simp add: default_throttle_def new_throttle_def check_def emitted_Cons)
  show ?thesis using e throttle_loses_nothing [of "''e''" ?es default_throttle, OF _ prod.collapse [symmetric]]
    by simp
qed

section \<open>The rate of emitted lines\<close>

definition gap :: "throttle \<Rightarrow> nat \<Rightarrow> rat" where
  "gap th n = min (th_base th * th_factor th ^ n) (th_max th)"

definition valid_throttle :: "throttle \<Rightarrow> bool" where
  "valid_throttle th = (0 \<le> th_base th \<and> th_base th \<le> th_max th \<and> 1 \<le> th_factor th)"

text \<open>After \<^verbatim>\<open>Suc n\<close> lines since \<^verbatim>\<open>t0\<close>, the next one waits for the \<^verbatim>\<open>n\<close>-th gap.\<close>

definition scheduled :: "rat \<Rightarrow> nat \<Rightarrow> key_state \<Rightarrow> throttle \<Rightarrow> bool" where
  "scheduled t0 n st th =
     (ks_interval st = gap th n \<and> t0 + (\<Sum>i<Suc n. gap th i) \<le> ks_next_at st)"

lemma min_scale: "(0::rat) \<le> a \<Longrightarrow> 0 \<le> m \<Longrightarrow> 1 \<le> f \<Longrightarrow> min (min a m * f) m = min (a * f) m"
proof -
  assume "0 \<le> a" "0 \<le> m" "1 \<le> f"
  then have "a \<le> a * f" "m \<le> m * f"
    using mult_left_mono [of 1 f a] mult_left_mono [of 1 f m] by simp_all
  then show ?thesis by (auto simp: min_def)
qed

lemma gap_Suc: "valid_throttle th \<Longrightarrow> min (gap th n * th_factor th) (th_max th) = gap th (Suc n)"
  using min_scale [of "th_base th * th_factor th ^ n" "th_max th" "th_factor th"]
  by (simp add: gap_def valid_throttle_def ac_simps)

lemma check_scheduled:
  assumes v: "valid_throttle th" and st: "th_states th k = Some st" "scheduled t0 n st th"
    and c: "check now k th = (out, th')"
  shows "\<exists>st'. th_states th' k = Some st' \<and>
    (case out of None \<Rightarrow> scheduled t0 n st' th'
     | Some _ \<Rightarrow> scheduled t0 (Suc n) st' th' \<and> t0 + (\<Sum>i<Suc n. gap th i) \<le> now)"
proof (cases "now < ks_next_at st")
  case True
  then have out: "out = None"
    and th': "th' = th\<lparr>th_states := (th_states th)(k \<mapsto> st\<lparr>ks_suppressed := Suc (ks_suppressed st)\<rparr>)\<rparr>"
    using c st by (auto simp: check_def)
  have "gap th' = gap th" by (simp add: th' gap_def fun_eq_iff)
  then show ?thesis using st unfolding out by (simp add: th' scheduled_def)
next
  case False
  let ?i = "min (ks_interval st * th_factor th) (th_max th)"
  have th': "out = Some (ks_suppressed st)"
    "th' = th\<lparr>th_states := (th_states th)(k \<mapsto>
        \<lparr> ks_next_at = now + ?i, ks_interval = ?i, ks_suppressed = 0 \<rparr>)\<rparr>"
    using c st False by (auto simp: check_def Let_def)
  have g: "gap th' = gap th" by (simp add: th' gap_def fun_eq_iff)
  have i: "?i = gap th (Suc n)" using st gap_Suc [OF v] by (simp add: scheduled_def)
  have "t0 + (\<Sum>i<Suc n. gap th i) \<le> now" using False st by (simp add: scheduled_def)
  then show ?thesis using i g by (simp add: th' scheduled_def)
qed

text \<open>Once a key is live, \<^verbatim>\<open>m\<close> further lines in a time-ordered run need the gaps in between.\<close>

lemma run_scheduled:
  assumes "Reset k \<notin> set es" "run es th = (outs, th')" "valid_throttle th"
    and "th_states th k = Some st" "scheduled t0 n st th"
    and "\<forall>t \<in> set (checks_of k es). t \<le> tmax" "emitted k outs \<noteq> []"
  shows "t0 + (\<Sum>i<n + length (emitted k outs). gap th i) \<le> tmax"
  using assms
proof (induction es th arbitrary: outs n st rule: run.induct)
  case (2 now key es th)
  obtain out th1 where c: "check now key th = (out, th1)" by fastforce
  obtain outs1 where r: "run es th1 = (outs1, th')" and o: "outs = (key, now, out) # outs1"
    using "2.prems" c by (auto split: prod.splits)
  have cfg: "gap th1 = gap th" "valid_throttle th1"
    using check_config [of now key th] c "2.prems"(3) by (auto simp: gap_def valid_throttle_def fun_eq_iff)
  note IH = "2.IH" [OF c [symmetric] refl _ r cfg(2)]
  show ?case
  proof (cases "key = k")
    case False
    have "th_states th1 k = Some st" using check_other [OF False, of now th] c "2.prems"(4) by simp
    moreover have "scheduled t0 n st th1" using "2.prems"(5) cfg by (simp add: scheduled_def)
    ultimately show ?thesis using IH [of st n] "2.prems" o False cfg by (simp add: emitted_Cons)
  next
    case True
    obtain st' where st': "th_states th1 k = Some st'"
      "case out of None \<Rightarrow> scheduled t0 n st' th1
       | Some _ \<Rightarrow> scheduled t0 (Suc n) st' th1 \<and> t0 + (\<Sum>i<Suc n. gap th i) \<le> now"
      using check_scheduled [OF "2.prems"(3,4,5)] c True by blast
    show ?thesis
    proof (cases out)
      case None
      then show ?thesis using IH [OF _ st'(1), of n] st' "2.prems" o True cfg by (simp add: emitted_Cons)
    next
      case (Some v)
      then have n: "t0 + (\<Sum>i<Suc n. gap th i) \<le> now" "scheduled t0 (Suc n) st' th1" using st' by auto
      have now: "now \<le> tmax" using "2.prems"(6) True by simp
      show ?thesis
      proof (cases "emitted k outs1 = []")
        case True
        then show ?thesis using n now o Some \<open>key = k\<close> by (simp add: emitted_Cons)
      next
        case False
        then show ?thesis using IH [OF _ st'(1) n(2)] "2.prems" o Some \<open>key = k\<close> cfg
          by (simp add: emitted_Cons)
      qed
    qed
  qed
next
  case (3 key es th)
  have "th_states (reset key th) k = Some st" "gap (reset key th) = gap th"
    "scheduled t0 n st (reset key th)" "valid_throttle (reset key th)"
    using 3 by (auto simp: scheduled_def gap_def valid_throttle_def fun_eq_iff)
  then show ?case using 3 by simp
qed simp

text \<open>
  The lines of one key are bounded however fast the events arrive: in a run where the
  first occurrence of the key is at \<^verbatim>\<open>t0\<close> and the last at \<^verbatim>\<open>tmax\<close>, emitting \<^verbatim>\<open>n + 1\<close> lines
  takes at least the first \<^verbatim>\<open>n\<close> gaps of the schedule (base, base times factor, ..., capped at
  the maximum interval).
\<close>

theorem throttle_bounds_lines:
  assumes "valid_throttle th" and "th_states th k = None" and "Reset k \<notin> set es"
    and "run es th = (outs, th')" and "checks_of k es = t0 # ts" and "\<forall>t \<in> set ts. t \<le> tmax"
    and "t0 \<le> tmax"
  shows "t0 + (\<Sum>i<length (emitted k outs) - 1. min (th_base th * th_factor th ^ i) (th_max th)) \<le> tmax"
  using assms
proof (induction es th arbitrary: outs rule: run.induct)
  case (2 now key es th)
  obtain out th1 where c: "check now key th = (out, th1)" by fastforce
  obtain outs1 where r: "run es th1 = (outs1, th')" and o: "outs = (key, now, out) # outs1"
    using "2.prems" c by (auto split: prod.splits)
  have cfg: "th_base th1 = th_base th" "th_max th1 = th_max th" "th_factor th1 = th_factor th"
    using check_config [of now key th] c by simp_all
  then have v: "valid_throttle th1" and g: "gap th1 = gap th"
    using "2.prems"(1) by (auto simp: valid_throttle_def gap_def fun_eq_iff)
  show ?case
  proof (cases "key = k")
    case False
    have "th_states th1 k = None" using check_other [OF False, of now th] c "2.prems"(2) by simp
    then show ?thesis using "2.IH" [OF c [symmetric] refl v _ _ r] "2.prems" o False cfg
      by (simp add: emitted_Cons)
  next
    case True
    let ?st = "\<lparr> ks_next_at = now + th_base th, ks_interval = th_base th, ks_suppressed = 0 \<rparr>"
    have out: "out = Some 0" and th1: "th1 = th\<lparr>th_states := (th_states th)(k \<mapsto> ?st)\<rparr>"
      using c True "2.prems"(2) by (auto simp: check_def)
    have "gap th 0 = th_base th" using "2.prems"(1) by (simp add: gap_def valid_throttle_def)
    then have s: "th_states th1 k = Some ?st" "scheduled now 0 ?st th1"
      by (auto simp: th1 scheduled_def gap_def)
    have t: "now = t0" "checks_of k es = ts" using "2.prems"(5) True by simp_all
    show ?thesis
    proof (cases "emitted k outs1 = []")
      case True
      then show ?thesis using o out \<open>key = k\<close> "2.prems"(7) by (simp add: emitted_Cons)
    next
      case False
      have "now + (\<Sum>i<0 + length (emitted k outs1). gap th1 i) \<le> tmax"
        using run_scheduled [OF _ r v s _ False] "2.prems"(3,6) t by simp
      then show ?thesis using o out \<open>key = k\<close> t g by (simp add: emitted_Cons gap_def)
    qed
  qed
next
  case (3 key es th)
  have r: "th_base (reset key th) = th_base th" "th_max (reset key th) = th_max th"
    "th_factor (reset key th) = th_factor th" "th_states (reset key th) k = None"
    "valid_throttle (reset key th)"
    using 3 by (auto simp: valid_throttle_def reset_def)
  then show ?case using 3 by simp
qed simp

theorem throttle_bounds_lines_witness:
  "length (emitted ''e'' (fst (run [Check 0 ''e'', Check 1 ''e'', Check 2 ''e''] default_throttle))) = 2 \<and>
   (0::rat) + (\<Sum>i<1. min (1 * 2 ^ i) 30) \<le> 2"
proof -
  let ?es = "[Check 0 ''e'', Check 1 ''e'', Check 2 ''e'']"
  have e: "length (emitted ''e'' (fst (run ?es default_throttle))) = 2"
    by (simp add: default_throttle_def new_throttle_def check_def emitted_Cons)
  have v: "valid_throttle default_throttle" "th_states default_throttle ''e'' = None"
    by (simp_all add: valid_throttle_def default_throttle_def new_throttle_def)
  show ?thesis
    using e throttle_bounds_lines [OF v _ prod.collapse [symmetric], of ?es 0 "[1, 2]" 2]
    by (simp add: default_throttle_def new_throttle_def)
qed

end
