(* ===== verification/S3_Client.thy ===== *)
theory S3_Client
  imports S3_Keys Redis_Client Log_Throttle
begin

text \<open>
  The object-store client (\<^verbatim>\<open>clients/s3_client.py\<close>). The botocore client is a
  parameter: a record of the calls on a world \<^typ>\<open>'w\<close>. A paginated listing is one call
  that returns its pages or raises (the code drops what it has when a page fails). Tasks
  of a \<^verbatim>\<open>gather\<close> handle their own exceptions and are run in list order; semaphores bound
  concurrency only and are not modelled.
\<close>

section \<open>The botocore client\<close>

record listing_page =
  lp_keys :: "string list"             \<comment> \<open>the Key of each entry of Contents\<close>
  lp_common_prefixes :: "string list"

record 'w s3 =
  b_connected :: "'w \<Rightarrow> bool"
  b_connect :: "('w, unit) io"
  b_get_object :: "string \<Rightarrow> ('w, pybytes) io"
  b_put_object :: "string \<Rightarrow> pybytes \<Rightarrow> string \<Rightarrow> ('w, unit) io"
  b_head_object :: "string \<Rightarrow> ('w, unit) io"
  b_delete_object :: "string \<Rightarrow> ('w, unit) io"
  b_head_bucket :: "('w, unit) io"
  b_create_bucket :: "('w, unit) io"
  b_list_buckets :: "('w, unit) io"
  b_list_one :: "string \<Rightarrow> ('w, string list) io"         \<comment> \<open>MaxKeys=1\<close>
  b_paginate :: "string \<Rightarrow> string \<Rightarrow> ('w, listing_page list) io"  \<comment> \<open>prefix, delimiter\<close>
  b_put_lifecycle :: "string \<Rightarrow> string \<Rightarrow> int \<Rightarrow> ('w, unit) io"  \<comment> \<open>rule id, prefix, days\<close>

text \<open>\<^verbatim>\<open>except (ClientError, BotoCoreError, asyncio.TimeoutError, OSError)\<close>; \<^verbatim>\<open>except Exception\<close>.\<close>

fun infra_error :: "exn \<Rightarrow> bool" where
  "infra_error (ClientError c) = True"
| "infra_error BotoCoreError = True"
| "infra_error TimeoutError = True"
| "infra_error OSError = True"
| "infra_error _ = False"

definition any_exception :: "exn \<Rightarrow> bool" where
  "any_exception e = (e \<noteq> CancelledError)"

definition ensure_connected :: "'w s3 \<Rightarrow> ('w, unit) io" where
  "ensure_connected S =
     bnd (reads (b_connected S)) (\<lambda>c.
     seq (if c then ret () else b_connect S)
    (bnd (reads (b_connected S)) (\<lambda>c. if c then ret () else raise RuntimeError)))"

text \<open>\<^verbatim>\<open>if self._client is None: raise RuntimeError\<close>.\<close>

definition require_client :: "'w s3 \<Rightarrow> ('w, unit) io" where
  "require_client S = bnd (reads (b_connected S)) (\<lambda>c. if c then ret () else raise RuntimeError)"

section \<open>Listing\<close>

definition list_objects :: "'w s3 \<Rightarrow> string \<Rightarrow> string \<Rightarrow> ('w, string list) io" where
  "list_objects S pfx delimiter =
     seq (require_client S)
    (bnd (b_paginate S pfx delimiter) (\<lambda>pages.
       ret (filter (\<lambda>key. \<not> endswith key ''/'') (concat (map lp_keys pages)))))"

definition list_object_keys :: "'w s3 \<Rightarrow> string \<Rightarrow> ('w, string list) io" where
  "list_object_keys S pfx =
     bnd (catching infra_error (list_objects S pfx '''')) (\<lambda>r.
       case r of Inl e \<Rightarrow> ret [] | Inr keys \<Rightarrow> ret keys)"

text \<open>\<^verbatim>\<open>tail[: -len(suffix)]\<close>; an empty suffix makes that slice empty.\<close>

definition cut_suffix :: "string \<Rightarrow> string \<Rightarrow> string" where
  "cut_suffix tail suffix_s = (if suffix_s = [] then [] else take (length tail - length suffix_s) tail)"

definition basename :: "string \<Rightarrow> string \<Rightarrow> string \<Rightarrow> string option" where
  "basename pfx suffix_s key =
     (if \<not> endswith key suffix_s then None
      else let tail = py_lstrip (CHR ''/'') (drop (length pfx) key)
           in if CHR ''/'' \<in> set tail then None else Some (cut_suffix tail suffix_s))"

definition list_object_basenames :: "'w s3 \<Rightarrow> string \<Rightarrow> string \<Rightarrow> string \<Rightarrow> ('w, string list) io" where
  "list_object_basenames S pfx suffix_s delimiter =
     seq (ensure_connected S)
    (bnd (list_objects S pfx delimiter) (\<lambda>keys. ret (List.map_filter (basename pfx suffix_s) keys)))"

definition try_list_object_basenames :: "'w s3 \<Rightarrow> string \<Rightarrow> string \<Rightarrow> string \<Rightarrow> ('w, string list) io" where
  "try_list_object_basenames S pfx suffix_s delimiter =
     bnd (catching infra_error (list_object_basenames S pfx suffix_s delimiter)) (\<lambda>r.
       case r of Inl e \<Rightarrow> ret [] | Inr names \<Rightarrow> ret names)"

definition get_subdirectories :: "'w s3 \<Rightarrow> string \<Rightarrow> ('w, string list) io" where
  "get_subdirectories S pfx =
     seq (ensure_connected S)
    (let pfx' = (if endswith pfx ''/'' then pfx else pfx @ ''/'')
     in bnd (b_paginate S pfx' ''/'') (\<lambda>pages. ret (concat (map lp_common_prefixes pages))))"

text \<open>The throttled log line of the handler is not modelled.\<close>

definition try_get_subdirectories :: "'w s3 \<Rightarrow> string \<Rightarrow> ('w, string list) io" where
  "try_get_subdirectories S pfx =
     bnd (catching infra_error (get_subdirectories S pfx)) (\<lambda>r.
       case r of Inl e \<Rightarrow> ret [] | Inr dirs \<Rightarrow> ret dirs)"

definition list_wrf_layers :: "'w s3 \<Rightarrow> string \<Rightarrow> string \<Rightarrow> string \<Rightarrow> ('w, string list) io" where
  "list_wrf_layers S product_id init_tag fxxx =
     seq (ensure_connected S)
       (list_object_basenames S
          (''geojson/wrf-arg4k/'' @ product_id @ ''/'' @ init_tag @ ''/'' @ fxxx @ ''/'') ''.json'' ''/'')"

section \<open>Objects\<close>

definition not_found :: "string \<Rightarrow> bool" where
  "not_found code = (code = ''404'' \<or> code = ''NoSuchKey'' \<or> code = ''NotFound'')"

definition download_tile :: "'w s3 \<Rightarrow> string \<Rightarrow> ('w, pybytes option) io" where
  "download_tile S s3_key =
     bnd (catching infra_error (seq (ensure_connected S) (b_get_object S s3_key))) (\<lambda>r.
       case r of Inl e \<Rightarrow> ret None | Inr data \<Rightarrow> ret (Some data))"

definition upload_tile :: "'w s3 \<Rightarrow> string \<Rightarrow> pybytes \<Rightarrow> string \<Rightarrow> ('w, unit) io" where
  "upload_tile S key data content_type = seq (ensure_connected S) (b_put_object S key data content_type)"

definition ensure_lifecycle_expiration :: "'w s3 \<Rightarrow> int \<Rightarrow> string \<Rightarrow> string \<Rightarrow> ('w, bool) io" where
  "ensure_lifecycle_expiration S days rule_id pfx =
     seq (ensure_connected S)
    (bnd (catching infra_error (b_put_lifecycle S rule_id pfx days)) (\<lambda>r.
       case r of Inl e \<Rightarrow> ret False | Inr _ \<Rightarrow> ret True))"

definition has_any_object :: "'w s3 \<Rightarrow> string \<Rightarrow> ('w, bool) io" where
  "has_any_object S pfx =
     bnd (catching infra_error (seq (ensure_connected S) (b_list_one S pfx))) (\<lambda>r.
       case r of Inl e \<Rightarrow> ret False | Inr keys \<Rightarrow> ret (keys \<noteq> []))"

definition object_exists :: "'w s3 \<Rightarrow> string \<Rightarrow> ('w, bool) io" where
  "object_exists S key =
     seq (ensure_connected S)
    (bnd (catching (\<lambda>e. case e of ClientError c \<Rightarrow> not_found c | _ \<Rightarrow> False) (b_head_object S key)) (\<lambda>r.
       case r of Inl e \<Rightarrow> ret False | Inr _ \<Rightarrow> ret True))"

definition ensure_bucket :: "'w s3 \<Rightarrow> ('w, unit) io" where
  "ensure_bucket S =
     seq (ensure_connected S)
    (bnd (catching (\<lambda>e. case e of ClientError c \<Rightarrow> c = ''404'' \<or> c = ''NoSuchBucket'' \<or> c = ''NotFound'' | _ \<Rightarrow> False)
            (b_head_bucket S)) (\<lambda>r.
       case r of Inr _ \<Rightarrow> ret () | Inl e \<Rightarrow> b_create_bucket S))"

definition is_reachable :: "'w s3 \<Rightarrow> ('w, bool) io" where
  "is_reachable S =
     bnd (catching (\<lambda>e. case e of ClientError c \<Rightarrow> True | BotoCoreError \<Rightarrow> True | OSError \<Rightarrow> True | TimeoutError \<Rightarrow> True | _ \<Rightarrow> False)
            (seq (ensure_connected S) (b_list_buckets S))) (\<lambda>r.
       case r of Inr _ \<Rightarrow> ret True | Inl (ClientError c) \<Rightarrow> ret True | Inl e \<Rightarrow> ret False)"

definition check_connection :: "'w s3 \<Rightarrow> ('w, bool) io" where
  "check_connection S =
     bnd (catching any_exception (seq (ensure_connected S) (b_head_bucket S))) (\<lambda>r.
       case r of Inr _ \<Rightarrow> ret True | Inl e \<Rightarrow> ret False)"

definition delete_object :: "'w s3 \<Rightarrow> string \<Rightarrow> ('w, bool) io" where
  "delete_object S key =
     seq (ensure_connected S)
    (bnd (catching any_exception (b_delete_object S key)) (\<lambda>r.
       case r of Inr _ \<Rightarrow> ret True | Inl e \<Rightarrow> ret False))"

section \<open>Mirroring tiles into Redis\<close>

definition download_webp_bytes :: "'w s3 \<Rightarrow> string \<Rightarrow> ('w, pybytes) io" where
  "download_webp_bytes S s3_key = seq (require_client S) (b_get_object S s3_key)"

text \<open>
  \<^verbatim>\<open>try: ... return True except Exception: return False\<close> around one tile: parse the key,
  read the object, store it. The four tile tasks differ in the store call.
\<close>

definition tile_to_redis ::
  "'w s3 \<Rightarrow> (int \<Rightarrow> int \<Rightarrow> int \<Rightarrow> pybytes \<Rightarrow> ('w, unit) io) \<Rightarrow> string \<Rightarrow> ('w, bool) io" where
  "tile_to_redis S store s3_key =
     (case parse_zxy s3_key of
        None \<Rightarrow> ret False
      | Some (z, x, y) \<Rightarrow>
          bnd (catching any_exception
                 (bnd (download_webp_bytes S s3_key) (store z x y))) (\<lambda>r.
            case r of Inl e \<Rightarrow> ret False | Inr _ \<Rightarrow> ret True))"

definition download_tile_to_redis ::
  "'w s3 \<Rightarrow> 'w redis \<Rightarrow> string \<Rightarrow> string \<Rightarrow> string \<Rightarrow> int option \<Rightarrow> ('w, bool) io" where
  "download_tile_to_redis S R s3_key channel_dir tileset_id tile_ttl =
     tile_to_redis S (\<lambda>z x y content. store_satellite_tile R channel_dir tileset_id z x y content tile_ttl) s3_key"

definition download_radar_tile_to_redis ::
  "'w s3 \<Rightarrow> 'w redis \<Rightarrow> string \<Rightarrow> string \<Rightarrow> string \<Rightarrow> string \<Rightarrow> string \<Rightarrow> int \<Rightarrow> string \<Rightarrow> ('w, bool) io" where
  "download_radar_tile_to_redis S R s3_key radar_id variable_id tileset_id elevation_id tile_ttl network =
     tile_to_redis S (\<lambda>z x y content.
       store_radar_tile R radar_id variable_id tileset_id elevation_id z x y content tile_ttl network) s3_key"

definition download_wrf_tile_to_redis ::
  "'w s3 \<Rightarrow> 'w redis \<Rightarrow> string \<Rightarrow> string \<Rightarrow> string \<Rightarrow> string \<Rightarrow> int \<Rightarrow> ('w, bool) io" where
  "download_wrf_tile_to_redis S R s3_key product_id init_tag fxxx tile_ttl =
     tile_to_redis S (\<lambda>z x y content.
       store_wrf_tile R product_id init_tag fxxx z x y content (Some tile_ttl)) s3_key"

definition download_ecmwf_tp_tile_to_redis ::
  "'w s3 \<Rightarrow> 'w redis \<Rightarrow> string \<Rightarrow> string \<Rightarrow> string \<Rightarrow> int \<Rightarrow> ('w, bool) io" where
  "download_ecmwf_tp_tile_to_redis S R s3_key forecast_ts period_ts tile_ttl =
     tile_to_redis S (\<lambda>z x y content.
       store_ecmwf_tp_tile R forecast_ts period_ts z x y content (Some tile_ttl)) s3_key"

text \<open>\<^verbatim>\<open>gather(*tasks, return_exceptions=True)\<close> and \<^verbatim>\<open>sum(1 for r in results if r is True)\<close>.\<close>

definition count_true :: "bool list \<Rightarrow> nat" where
  "count_true bs = length (filter id bs)"

definition mirror_tiles :: "'w s3 \<Rightarrow> string \<Rightarrow> (string \<Rightarrow> ('w, bool) io) \<Rightarrow> ('w, nat) io" where
  "mirror_tiles S s3_prefix task =
     seq (ensure_connected S)
    (bnd (list_objects S s3_prefix '''') (\<lambda>keys.
       let tile_keys = filter (\<lambda>k. endswith k ''.webp'') keys
       in if tile_keys = [] then ret 0
          else bnd (for_each tile_keys task) (\<lambda>results. ret (count_true results))))"

definition sync_prefix_to_redis ::
  "'w s3 \<Rightarrow> 'w redis \<Rightarrow> string \<Rightarrow> string \<Rightarrow> string \<Rightarrow> int option \<Rightarrow> ('w, nat) io" where
  "sync_prefix_to_redis S R s3_prefix channel_dir tileset_id tile_ttl =
     mirror_tiles S s3_prefix (\<lambda>k. download_tile_to_redis S R k channel_dir tileset_id tile_ttl)"

definition sync_radar_prefix_to_redis ::
  "'w s3 \<Rightarrow> 'w redis \<Rightarrow> string \<Rightarrow> string \<Rightarrow> string \<Rightarrow> string \<Rightarrow> string \<Rightarrow> int \<Rightarrow> string \<Rightarrow> ('w, nat) io" where
  "sync_radar_prefix_to_redis S R s3_prefix radar_id variable_id tileset_id elevation_id tile_ttl network =
     mirror_tiles S s3_prefix (\<lambda>k.
       download_radar_tile_to_redis S R k radar_id variable_id tileset_id elevation_id tile_ttl network)"

definition sync_wrf_step_to_redis ::
  "'w s3 \<Rightarrow> 'w redis \<Rightarrow> string \<Rightarrow> string \<Rightarrow> string \<Rightarrow> int \<Rightarrow> ('w, nat) io" where
  "sync_wrf_step_to_redis S R product_id init_tag fxxx tile_ttl =
     mirror_tiles S (''tiles/wrf-arg4k/'' @ product_id @ ''/'' @ init_tag @ ''/'' @ fxxx @ ''/'')
       (\<lambda>k. download_wrf_tile_to_redis S R k product_id init_tag fxxx tile_ttl)"

definition sync_ecmwf_tp_period_to_redis ::
  "'w s3 \<Rightarrow> 'w redis \<Rightarrow> string \<Rightarrow> string \<Rightarrow> int \<Rightarrow> ('w, nat) io" where
  "sync_ecmwf_tp_period_to_redis S R forecast_ts period_ts tile_ttl =
     mirror_tiles S (''tiles/ecmwf-ifs/total-precipitation/'' @ forecast_ts @ ''/'' @ period_ts @ ''/'')
       (\<lambda>k. download_ecmwf_tp_tile_to_redis S R k forecast_ts period_ts tile_ttl)"

definition geojson_to_redis :: "'w s3 \<Rightarrow> (pybytes \<Rightarrow> ('w, unit) io) \<Rightarrow> string \<Rightarrow> ('w, bool) io" where
  "geojson_to_redis S store s3_key =
     seq (require_client S)
    (bnd (catching any_exception (bnd (b_get_object S s3_key) store)) (\<lambda>r.
       case r of Inl e \<Rightarrow> ret False | Inr _ \<Rightarrow> ret True))"

definition sync_wrf_geojson_to_redis ::
  "'w s3 \<Rightarrow> 'w redis \<Rightarrow> string \<Rightarrow> string \<Rightarrow> string \<Rightarrow> string \<Rightarrow> int \<Rightarrow> ('w, bool) io" where
  "sync_wrf_geojson_to_redis S R product_id init_tag fxxx layer geojson_ttl =
     geojson_to_redis S (\<lambda>content. store_wrf_geojson R product_id init_tag fxxx layer content (Some geojson_ttl))
       (build_wrf_geojson_key product_id init_tag fxxx layer)"

definition download_ecmwf_mslp_geojson_to_redis ::
  "'w s3 \<Rightarrow> 'w redis \<Rightarrow> string \<Rightarrow> string \<Rightarrow> int \<Rightarrow> ('w, bool) io" where
  "download_ecmwf_mslp_geojson_to_redis S R forecast_ts timestamp_ts geojson_ttl =
     geojson_to_redis S (\<lambda>content. store_ecmwf_mslp_geojson R forecast_ts timestamp_ts content (Some geojson_ttl))
       (build_ecmwf_mslp_geojson_key forecast_ts timestamp_ts)"

text \<open>With \<^verbatim>\<open>return_exceptions\<close> an exception of a task is a result that is not True.\<close>

definition settled :: "('w, bool) io \<Rightarrow> ('w, bool) io" where
  "settled m = bnd (catching any_exception m) (\<lambda>r. case r of Inl e \<Rightarrow> ret False | Inr b \<Rightarrow> ret b)"

definition sync_ecmwf_mslp_forecast_to_redis ::
  "'w s3 \<Rightarrow> 'w redis \<Rightarrow> string \<Rightarrow> string list \<Rightarrow> int \<Rightarrow> ('w, string list) io" where
  "sync_ecmwf_mslp_forecast_to_redis S R forecast_ts timestamps geojson_ttl =
     (if timestamps = [] then ret []
      else seq (ensure_connected S)
          (bnd (for_each timestamps (\<lambda>ts.
                  settled (download_ecmwf_mslp_geojson_to_redis S R forecast_ts ts geojson_ttl)))
             (\<lambda>results. ret (map fst (filter snd (zip timestamps results))))))"

end
