(* ===== verification/S3_Mirror.thy ===== *)
theory S3_Mirror
  imports S3_Client
begin

text \<open>
  What the object-store client promises on top of a bucket that behaves as documented:
  the listing of basenames finds exactly the objects under a prefix, and the mirroring
  of a tileset into Redis copies the bucket's bytes and nothing else.
\<close>

section \<open>The bucket\<close>

type_synonym bucket = "string \<rightharpoonup> pybytes"

text \<open>
  The keys a listing returns: those under the prefix whose rest does not contain the
  delimiter, when one is given.
\<close>

definition listed :: "string \<Rightarrow> string \<Rightarrow> bucket \<Rightarrow> string set" where
  "listed pfx delimiter b =
     {k \<in> dom b. Sublist.prefix pfx k \<and> (delimiter = [] \<or> \<not> sublist delimiter (drop (length pfx) k))}"

locale object_store =
  fixes S :: "'w s3" and \<beta> :: "'w \<Rightarrow> bucket"
  assumes connect_keeps: "b_connect S w = (rc, w') \<Longrightarrow> \<beta> w' = \<beta> w"
    and get_keeps: "b_get_object S k w = (rg, w') \<Longrightarrow> \<beta> w' = \<beta> w"
    and object_returns: "b_get_object S k w = (Inr d, w') \<Longrightarrow> \<beta> w k = Some d"
    and put_returns: "b_put_object S k d ct w = (Inr (), w') \<Longrightarrow> \<beta> w' = (\<beta> w)(k \<mapsto> d)"
    and paginate_keeps: "b_paginate S pfx delimiter w = (rp, w') \<Longrightarrow> \<beta> w' = \<beta> w"
    and paginate_returns: "b_paginate S pfx delimiter w = (Inr pages, w') \<Longrightarrow>
          distinct (concat (map lp_keys pages)) \<and> set (concat (map lp_keys pages)) = listed pfx delimiter (\<beta> w)"
begin

lemma ensure_connected_keeps: "ensure_connected S w = (r, w') \<Longrightarrow> \<beta> w' = \<beta> w"
  using connect_keeps
  by (auto simp: ensure_connected_def bnd_apply seq_apply split: if_splits prod.splits sum.splits)

lemma list_objects_returns:
  assumes "list_objects S pfx delimiter w = (Inr keys, w')"
  shows "\<beta> w' = \<beta> w \<and> distinct keys \<and> set keys = {k \<in> listed pfx delimiter (\<beta> w). \<not> endswith k ''/''}"
proof -
  obtain pages where p: "b_paginate S pfx delimiter w = (Inr pages, w')"
    and k: "keys = filter (\<lambda>key. \<not> endswith key ''/'') (concat (map lp_keys pages))"
    using assms
    by (auto simp: list_objects_def require_client_def seq_def bnd_eq_Inr split: if_splits)
  show ?thesis using paginate_returns [OF p] paginate_keeps [OF p] by (auto simp: k)
qed

text \<open>Reading calls leave the bucket alone.\<close>

lemma ensure_connected_frame_rule [frame]: "keeps \<beta> (ensure_connected S)"
  using ensure_connected_keeps by (auto simp: keeps_def) (metis prod.collapse)

lemma get_object_frame_rule [frame]: "keeps \<beta> (b_get_object S k)"
  using get_keeps by (auto simp: keeps_def) (metis prod.collapse)

lemma download_tile_keeps [frame]: "keeps \<beta> (download_tile S k)"
  unfolding download_tile_def by (auto intro!: frame split: sum.splits)

lemma paginate_frame_rule [frame]: "keeps \<beta> (b_paginate S pfx d)"
  using paginate_keeps by (auto simp: keeps_def) (metis prod.collapse)

lemma list_object_keys_keeps [frame]: "keeps \<beta> (list_object_keys S pfx)"
  unfolding list_object_keys_def list_objects_def require_client_def
  by (auto intro!: frame split: sum.splits)

lemma download_tile_sound:
  assumes "download_tile S k w = (Inr (Some d), w')" shows "\<beta> w k = Some d"
proof -
  obtain w1 where c: "ensure_connected S w = (Inr (), w1)" and g: "b_get_object S k w1 = (Inr d, w')"
    using assms
    by (auto simp: download_tile_def catching_def bnd_apply seq_apply split: prod.splits sum.splits if_splits)
  then show ?thesis using ensure_connected_keeps [OF c] object_returns [OF g] by simp
qed

end

section \<open>Basenames\<close>

lemma endswith_iff: "endswith s x \<longleftrightarrow> (\<exists>t. s = t @ x)"
  by (simp add: endswith_def suffix_def)

lemma dropWhile_eq_replicate: "\<exists>n. s = replicate n c @ dropWhile ((=) c) s"
proof (induction s)
  case (Cons a s)
  then obtain n where "s = replicate n c @ dropWhile ((=) c) s" by blast
  then show ?case
    by (cases "a = c") (auto intro: exI [of _ "Suc n"] exI [of _ 0])
qed simp

lemma py_lstrip_replicate:
  "x \<noteq> [] \<Longrightarrow> hd x \<noteq> c \<Longrightarrow> py_lstrip c (replicate n c @ x) = x"
  by (induction n) (auto simp: py_lstrip_def intro: py_lstrip_id [unfolded py_lstrip_def])

lemma cut_suffix_append [simp]: "x \<noteq> [] \<Longrightarrow> cut_suffix (s @ x) x = s"
  by (simp add: cut_suffix_def)

lemma suffix_through_slash:
  assumes "suffix x (p @ CHR ''/'' # t)" "CHR ''/'' \<notin> set x"
  shows "suffix x t"
  using assms by (auto simp: suffix_append suffix_Cons)

text \<open>
  For a directory prefix and a suffix without slashes, a non-empty basename is read off a
  key exactly when the key is the prefix, possibly more slashes, the name and the suffix.
\<close>

lemma basename_iff:
  assumes "x \<noteq> []" "CHR ''/'' \<notin> set x" "nm \<noteq> []"
    and "k = (p @ ''/'') @ t"
  shows "basename (p @ ''/'') x k = Some nm
           \<longleftrightarrow> CHR ''/'' \<notin> set nm \<and> (\<exists>n. t = replicate n (CHR ''/'') @ nm @ x)"
proof
  assume b: "basename (p @ ''/'') x k = Some nm"
  let ?tail = "py_lstrip (CHR ''/'') t"
  have e: "suffix x k" and ns: "CHR ''/'' \<notin> set ?tail" and nm: "nm = cut_suffix ?tail x"
    using b by (auto simp: basename_def assms(4) endswith_def Let_def split: if_splits)
  obtain n where n: "t = replicate n (CHR ''/'') @ ?tail"
    using dropWhile_eq_replicate [of t "CHR ''/''"] by (auto simp: py_lstrip_def)
  have "suffix x (p @ CHR ''/'' # replicate n (CHR ''/'') @ ?tail)"
    using e n by (simp add: assms(4))
  then have "suffix x ?tail"
  proof (induction n arbitrary: p)
    case 0
    then show ?case using suffix_through_slash assms(2) by force
  next
    case (Suc n)
    have "suffix x ((p @ ''/'') @ CHR ''/'' # replicate n (CHR ''/'') @ ?tail)" using Suc.prems by simp
    then show ?case by (rule Suc.IH)
  qed
  then obtain u where u: "?tail = u @ x" by (auto simp: suffix_def)
  then have "nm = u" using nm assms(1) by simp
  then show "CHR ''/'' \<notin> set nm \<and> (\<exists>n. t = replicate n (CHR ''/'') @ nm @ x)" using ns u n by auto
next
  assume a: "CHR ''/'' \<notin> set nm \<and> (\<exists>n. t = replicate n (CHR ''/'') @ nm @ x)"
  then obtain n where n: "t = replicate n (CHR ''/'') @ nm @ x" by blast
  have "py_lstrip (CHR ''/'') t = nm @ x"
    unfolding n using assms(3) a by (intro py_lstrip_replicate) (cases nm; auto)+
  then show "basename (p @ ''/'') x k = Some nm"
    using a n assms(1,2) by (auto simp: basename_def assms(4) endswith_def Let_def suffix_def)
qed

lemma set_map_filter: "set (List.map_filter f xs) = {y. \<exists>x\<in>set xs. f x = Some y}"
  by (force simp: List.map_filter_def image_iff)

lemma endswith_last: "endswith (p @ s) [c] \<Longrightarrow> s \<noteq> [] \<Longrightarrow> last s = c"
  by (cases s rule: rev_cases) (auto simp: endswith_def suffix_def)

lemma sublist_single: "sublist [c] xs \<longleftrightarrow> c \<in> set xs"
  by (auto simp: sublist_def in_set_conv_decomp)

context object_store
begin

lemma list_object_basenames_returns:
  assumes "list_object_basenames S (p @ ''/'') x delimiter w = (Inr names, w')"
    and "delimiter = [] \<or> delimiter = ''/''"
    and x: "x \<noteq> []" "CHR ''/'' \<notin> set x" "nm \<noteq> []" "CHR ''/'' \<notin> set nm"
    and single: "\<And>k. k \<in> dom (\<beta> w) \<Longrightarrow> \<not> sublist ''//'' k"
  shows "nm \<in> set names \<longleftrightarrow> \<beta> w (p @ ''/'' @ nm @ x) \<noteq> None"
proof -
  let ?p = "p @ ''/''"
  obtain w1 keys where c: "ensure_connected S w = (Inr (), w1)"
    and l: "list_objects S ?p delimiter w1 = (Inr keys, w')"
    and n: "names = List.map_filter (basename ?p x) keys"
    using assms(1) by (auto simp: list_object_basenames_def seq_def bnd_eq_Inr)
  have keys: "set keys = {k \<in> listed ?p delimiter (\<beta> w). \<not> endswith k ''/''}"
    using list_objects_returns [OF l] ensure_connected_keeps [OF c] by simp
  show ?thesis
  proof
    assume "nm \<in> set names"
    then obtain k where k: "k \<in> dom (\<beta> w)" "Sublist.prefix ?p k" "basename ?p x k = Some nm"
      by (auto simp: n set_map_filter keys listed_def)
    obtain t where t: "k = ?p @ t" using k(2) by (auto simp: Sublist.prefix_def)
    obtain i where i: "t = replicate i (CHR ''/'') @ nm @ x"
      using basename_iff [OF x(1-3) t] k(3) by blast
    have "i = 0"
    proof (rule ccontr)
      assume "i \<noteq> 0"
      then obtain j where "i = Suc j" by (cases i) auto
      then have "k = p @ ''//'' @ replicate j (CHR ''/'') @ nm @ x" using t i by simp
      then have "sublist ''//'' k" by (auto simp: sublist_def)
      then show False using single k(1) by blast
    qed
    then show "\<beta> w (p @ ''/'' @ nm @ x) \<noteq> None" using k(1) t i by (simp add: dom_def)
  next
    assume d: "\<beta> w (p @ ''/'' @ nm @ x) \<noteq> None"
    let ?k = "p @ ''/'' @ nm @ x"
    have t: "?k = ?p @ (nm @ x)" by simp
    have "basename ?p x ?k = Some nm"
      using basename_iff [OF x(1-3) t] x(4) by (auto intro: exI [of _ 0])
    moreover have "?k \<in> listed ?p delimiter (\<beta> w)"
      using d assms(2) x(2,4) by (auto simp: listed_def Sublist.prefix_def sublist_single)
    moreover have "\<not> endswith ?k ''/''"
    proof
      assume "endswith ?k ''/''"
      then have "last x = CHR ''/''" using endswith_last [of "p @ ''/'' @ nm" x] x(1) by simp
      then show False using x(1,2) last_in_set by metis
    qed
    ultimately show "nm \<in> set names" by (auto simp: n set_map_filter keys)
  qed
qed

end

section \<open>Mirroring\<close>

text \<open>
  The world of a mirror holds the bucket and the Redis keyspace. Calls on one leave the
  other alone. A SET that raises may or may not have been applied by the server.
\<close>

locale mirror = object_store S \<beta> + redis_server R \<alpha>
  for S :: "'w s3" and \<beta> and R :: "'w redis" and \<alpha> +
  assumes connect_frame: "b_connect S w = (rc, w') \<Longrightarrow> \<alpha> w' = \<alpha> w"
    and get_frame: "b_get_object S k w = (rg, w') \<Longrightarrow> \<alpha> w' = \<alpha> w"
    and paginate_frame: "b_paginate S pfx delimiter w = (rp, w') \<Longrightarrow> \<alpha> w' = \<alpha> w"
    and set_frame: "rd_set R k b ttl w = (rs, w') \<Longrightarrow> \<beta> w' = \<beta> w"
    and set_raises: "rd_set R k b ttl w = (Inl e, w') \<Longrightarrow>
          \<alpha> w' = \<alpha> w \<or> \<alpha> w' = (\<alpha> w)(k \<mapsto> RString b)"

text \<open>The object of one key is in Redis, byte for byte, under the Redis key of its tile.\<close>

definition landed :: "bucket \<Rightarrow> keyspace \<Rightarrow> (int \<Rightarrow> int \<Rightarrow> int \<Rightarrow> string) \<Rightarrow> string \<Rightarrow> bool" where
  "landed b ks rk key =
     (case parse_zxy key of None \<Rightarrow> False
      | Some (z, x, y) \<Rightarrow> (case b key of None \<Rightarrow> False | Some d \<Rightarrow> ks (rk z x y) = Some (RString d)))"

definition tile_redis_key :: "(int \<Rightarrow> int \<Rightarrow> int \<Rightarrow> string) \<Rightarrow> string \<Rightarrow> string option" where
  "tile_redis_key rk key = (case parse_zxy key of None \<Rightarrow> None | Some (z, x, y) \<Rightarrow> Some (rk z x y))"

lemma landed_eq:
  "landed b ks rk key \<longleftrightarrow>
     (\<exists>k d. tile_redis_key rk key = Some k \<and> b key = Some d \<and> ks k = Some (RString d))"
  by (auto simp: landed_def tile_redis_key_def split: option.splits prod.splits)

text \<open>The three ways through one tile task: nothing read, no object, or a store attempted.\<close>

lemma tile_to_redis_cases:
  assumes "tile_to_redis S store key w = (r, w')"
  obtains (skipped) "w' = w" "r \<noteq> Inr True"
    | (unread) e where "b_get_object S key w = (Inl e, w')" "r \<noteq> Inr True"
    | (written) z x y d w1 rs where "parse_zxy key = Some (z, x, y)" "b_get_object S key w = (Inr d, w1)"
        "store z x y d w1 = (rs, w')" "r = Inr True \<longleftrightarrow> rs = Inr ()"
proof (cases "parse_zxy key")
  case None
  then show thesis using assms by (intro skipped) (auto simp: tile_to_redis_def)
next
  case (Some zxy)
  obtain z x y where p: "parse_zxy key = Some (z, x, y)" using Some by (cases zxy) auto
  obtain g w1 where g: "b_get_object S key w = (g, w1)" by (cases "b_get_object S key w")
  show thesis
  proof (cases "b_connected S w")
    case False
    then show thesis
      using assms p by (intro skipped)
        (auto simp: tile_to_redis_def catching_def bnd_apply seq_apply download_webp_bytes_def require_client_def split: if_splits)
  next
    case True
    have d: "download_webp_bytes S key w = (g, w1)"
      using True g by (simp add: download_webp_bytes_def require_client_def seq_apply bnd_apply)
    show thesis
    proof (cases g)
      case (Inl e)
      then show thesis using assms p d g
        by (intro unread [of e]) (auto simp: tile_to_redis_def catching_def bnd_apply split: if_splits)
    next
      case (Inr b)
      obtain rs w2 where s: "store z x y b w1 = (rs, w2)" by (cases "store z x y b w1")
      have "w2 = w'" and "r = Inr True \<longleftrightarrow> rs = Inr ()"
        using assms p d s Inr by (cases rs; auto simp: tile_to_redis_def catching_def bnd_apply split: if_splits)+
      then show thesis using written [of z x y b w1 rs] p g s Inr by simp
    qed
  qed
qed

context mirror
begin

text \<open>A SET, however it ends, leaves the keyspace as it was or with the new value.\<close>

lemma set_outcome:
  assumes "rd_set R k b ttl w = (r, w')"
  shows "\<alpha> w' = \<alpha> w \<and> r \<noteq> Inr () \<or> \<alpha> w' = (\<alpha> w)(k \<mapsto> RString b)"
proof (cases r)
  case (Inl e)
  then show ?thesis using set_raises [of k b ttl w e w'] assms by auto
next
  case (Inr u)
  then show ?thesis using set_returns [of k b ttl w w'] assms by simp
qed

lemma tile_to_redis_step:
  assumes "tile_to_redis S (\<lambda>z x y c. store_value R (rk z x y) c ttl) key w = (r, w')"
  shows "\<beta> w' = \<beta> w
     \<and> (\<alpha> w' = \<alpha> w \<or> (\<exists>k d. tile_redis_key rk key = Some k \<and> \<beta> w key = Some d \<and> \<alpha> w' = (\<alpha> w)(k \<mapsto> RString d)))
     \<and> (r = Inr True \<longrightarrow> landed (\<beta> w) (\<alpha> w') rk key)"
  using assms
proof (cases rule: tile_to_redis_cases)
  case skipped
  then show ?thesis by simp
next
  case (unread e)
  then show ?thesis using get_keeps get_frame by metis
next
  case (written z x y d w1 rs)
  have k: "tile_redis_key rk key = Some (rk z x y)" using written(1) by (simp add: tile_redis_key_def)
  have d: "\<beta> w key = Some d" "\<beta> w1 = \<beta> w" "\<alpha> w1 = \<alpha> w"
    using object_returns get_keeps get_frame written(2) by blast+
  have s: "rd_set R (rk z x y) d ttl w1 = (rs, w')" using written(3) by (simp add: store_value_def)
  have b: "\<beta> w' = \<beta> w" using set_frame [OF s] d(2) by simp
  have a: "\<alpha> w' = \<alpha> w \<and> rs \<noteq> Inr () \<or> \<alpha> w' = (\<alpha> w)(rk z x y \<mapsto> RString d)"
    using set_outcome [OF s] d(3) by simp
  show ?thesis using a b k d(1) written(4) by (auto simp: landed_eq)
qed

text \<open>
  A run over a list of keys of different tiles: every key of Redis keeps its value or
  holds the bytes of an object of the list, and what a task reports as stored is there
  at the end.
\<close>

lemma for_each_tiles:
  assumes "for_each keys (tile_to_redis S (\<lambda>z x y c. store_value R (rk z x y) c ttl)) w = (Inr oks, w')"
    and "\<And>a b. a \<in> set keys \<Longrightarrow> b \<in> set keys \<Longrightarrow> tile_redis_key rk a = tile_redis_key rk b \<Longrightarrow> a = b"
    and "distinct keys"
  shows "\<beta> w' = \<beta> w \<and> list_all2 (\<lambda>key ok. ok \<longrightarrow> landed (\<beta> w) (\<alpha> w') rk key) keys oks
     \<and> (\<forall>k. \<alpha> w' k = \<alpha> w k
            \<or> (\<exists>key\<in>set keys. tile_redis_key rk key = Some k \<and> landed (\<beta> w) (\<alpha> w') rk key))"
  using assms
proof (induction keys arbitrary: w oks)
  case Nil
  then show ?case by simp
next
  case (Cons key keys)
  obtain ok w1 oks' where t: "tile_to_redis S (\<lambda>z x y c. store_value R (rk z x y) c ttl) key w = (Inr ok, w1)"
    and f: "for_each keys (tile_to_redis S (\<lambda>z x y c. store_value R (rk z x y) c ttl)) w1 = (Inr oks', w')"
    and o: "oks = ok # oks'"
    using Cons.prems(1) by (auto simp: bnd_eq_Inr)
  note step = tile_to_redis_step [OF t]
  have b1: "\<beta> w1 = \<beta> w" using step by simp
  have IH: "\<beta> w' = \<beta> w" "list_all2 (\<lambda>key ok. ok \<longrightarrow> landed (\<beta> w) (\<alpha> w') rk key) keys oks'"
    and IHk: "\<And>k. \<alpha> w' k = \<alpha> w1 k
            \<or> (\<exists>key\<in>set keys. tile_redis_key rk key = Some k \<and> landed (\<beta> w) (\<alpha> w') rk key)"
    using Cons.IH [OF f] Cons.prems(2,3) b1 by auto
  have keep: "\<alpha> w' k = \<alpha> w1 k" if "tile_redis_key rk key = Some k" for k
    using IHk [of k] that Cons.prems(2,3) by force
  have stays: "landed (\<beta> w) (\<alpha> w') rk key" if "landed (\<beta> w) (\<alpha> w1) rk key"
    using that keep by (auto simp: landed_eq)
  have "\<alpha> w' k = \<alpha> w k \<or> (\<exists>key'\<in>set (key # keys). tile_redis_key rk key' = Some k \<and> landed (\<beta> w) (\<alpha> w') rk key')" for k
  proof (cases "\<alpha> w1 k = \<alpha> w k")
    case True
    then show ?thesis using IHk [of k] by auto
  next
    case False
    then obtain d where "tile_redis_key rk key = Some k" "\<beta> w key = Some d" "\<alpha> w1 k = Some (RString d)"
      using step by (auto split: if_splits)
    then have "landed (\<beta> w) (\<alpha> w1) rk key" by (auto simp: landed_eq)
    then show ?thesis using stays \<open>tile_redis_key rk key = Some k\<close> by auto
  qed
  then show ?case using IH o stays step by auto
qed

lemma ensure_connected_frame: "ensure_connected S w = (r, w') \<Longrightarrow> \<alpha> w' = \<alpha> w"
  using connect_frame
  by (auto simp: ensure_connected_def bnd_apply seq_apply split: if_splits prod.splits sum.splits)

lemma list_objects_frame: "list_objects S pfx delimiter w = (Inr keys, w') \<Longrightarrow> \<alpha> w' = \<alpha> w"
  using paginate_frame
  by (auto simp: list_objects_def require_client_def seq_def bnd_eq_Inr split: if_splits)

lemma count_true_landed:
  assumes "list_all2 (\<lambda>key ok. ok \<longrightarrow> P key) keys oks" "distinct keys"
  shows "count_true oks \<le> card {key \<in> set keys. P key}"
  using assms
proof (induction keys oks rule: list_all2_induct)
  case (Cons key keys ok oks)
  have "{k \<in> set (key # keys). P k} = (if P key then insert key {k \<in> set keys. P k} else {k \<in> set keys. P k})"
    by auto
  then show ?case using Cons by (auto simp: count_true_def)
qed (simp add: count_true_def)

lemma mirror_tiles_returns:
  assumes "mirror_tiles S pfx (tile_to_redis S (\<lambda>z x y c. store_value R (rk z x y) c ttl)) w = (Inr n, w')"
    and inj: "\<And>a b. a \<in> tiles \<Longrightarrow> b \<in> tiles \<Longrightarrow> tile_redis_key rk a = tile_redis_key rk b \<Longrightarrow> a = b"
    and tiles: "tiles = {k \<in> dom (\<beta> w). Sublist.prefix pfx k \<and> endswith k ''.webp''}"
  shows "\<beta> w' = \<beta> w \<and> finite tiles \<and> n \<le> card {key \<in> tiles. landed (\<beta> w) (\<alpha> w') rk key}
     \<and> (\<forall>k. \<alpha> w' k = \<alpha> w k
            \<or> (\<exists>key\<in>tiles. tile_redis_key rk key = Some k \<and> landed (\<beta> w) (\<alpha> w') rk key))"
proof -
  let ?task = "tile_to_redis S (\<lambda>z x y c. store_value R (rk z x y) c ttl)"
  obtain w1 keys w2 where c: "ensure_connected S w = (Inr (), w1)"
    and l: "list_objects S pfx '''' w1 = (Inr keys, w2)"
    and m: "(let tile_keys = filter (\<lambda>k. endswith k ''.webp'') keys
             in if tile_keys = [] then ret 0 else bnd (for_each tile_keys ?task) (\<lambda>results. ret (count_true results))) w2
            = (Inr n, w')"
    using assms(1) by (auto simp: mirror_tiles_def seq_def bnd_eq_Inr)
  let ?tk = "filter (\<lambda>k. endswith k ''.webp'') keys"
  have w2: "\<beta> w2 = \<beta> w" "\<alpha> w2 = \<alpha> w" and k: "distinct keys" "set keys = {k \<in> listed pfx '''' (\<beta> w). \<not> endswith k ''/''}"
    using list_objects_returns [OF l] list_objects_frame [OF l] ensure_connected_keeps [OF c] ensure_connected_frame [OF c]
    by simp_all
  have webp: "\<not> endswith k ''/''" if "endswith k ''.webp''" for k
    using that by (auto simp: endswith_def suffix_def)
  have tk: "set ?tk = tiles" "distinct ?tk"
    using k webp by (auto simp: tiles listed_def)
  then have fin: "finite tiles" by (metis List.finite_set)
  show ?thesis
  proof (cases "?tk = []")
    case True
    then show ?thesis using m w2 fin by (auto simp: Let_def)
  next
    case False
    then obtain oks where f: "for_each ?tk ?task w2 = (Inr oks, w')" and n: "n = count_true oks"
      using m by (auto simp: Let_def bnd_eq_Inr)
    have "\<And>a b. a \<in> set ?tk \<Longrightarrow> b \<in> set ?tk \<Longrightarrow> tile_redis_key rk a = tile_redis_key rk b \<Longrightarrow> a = b"
      unfolding tk(1) by (rule inj)
    note r = for_each_tiles [OF f this tk(2), unfolded w2 tk(1)]
    then have "n \<le> card {key \<in> tiles. landed (\<beta> w) (\<alpha> w') rk key}"
      using count_true_landed [of _ ?tk oks] tk n by blast
    then show ?thesis using r fin by blast
  qed
qed

end

section \<open>The four mirrored products\<close>

datatype tileset =
    SatTileset string string                     \<comment> \<open>channel directory, tileset\<close>
  | RadarTileset string string string string string  \<comment> \<open>network, radar, variable, tileset, elevation\<close>
  | WrfTileset string string string              \<comment> \<open>product, init, step\<close>
  | TpTileset string string                      \<comment> \<open>forecast, period\<close>

fun tileset_prefix :: "tileset \<Rightarrow> string" where
  "tileset_prefix (SatTileset c t) = ''tiles/'' @ c @ ''/'' @ t @ ''/''"
| "tileset_prefix (RadarTileset n r v t e) = ''tiles/radar/'' @ n @ ''/'' @ r @ ''/'' @ v @ ''/'' @ e @ ''/'' @ t @ ''/''"
| "tileset_prefix (WrfTileset p i f) = ''tiles/wrf-arg4k/'' @ p @ ''/'' @ i @ ''/'' @ f @ ''/''"
| "tileset_prefix (TpTileset f p) = ''tiles/ecmwf-ifs/total-precipitation/'' @ f @ ''/'' @ p @ ''/''"

fun tile_object_key :: "tileset \<Rightarrow> int \<Rightarrow> int \<Rightarrow> int \<Rightarrow> string" where
  "tile_object_key (SatTileset c t) z x y = build_satellite_tile_key c t z x y"
| "tile_object_key (RadarTileset n r v t e) z x y = build_radar_tile_key r v t e z x y n"
| "tile_object_key (WrfTileset p i f) z x y = build_wrf_tile_key p i f z x y"
| "tile_object_key (TpTileset f p) z x y = build_ecmwf_tp_tile_key f p z x y"

fun tile_cache_key :: "tileset \<Rightarrow> int \<Rightarrow> int \<Rightarrow> int \<Rightarrow> string" where
  "tile_cache_key (SatTileset c t) z x y = satellite_tile_key c t z x y"
| "tile_cache_key (RadarTileset n r v t e) z x y = radar_tile_key n r v t e z x y"
| "tile_cache_key (WrfTileset p i f) z x y = wrf_tile_key p i f z x y"
| "tile_cache_key (TpTileset f p) z x y = ecmwf_tp_tile_key f p z x y"

fun sync_tileset :: "'w s3 \<Rightarrow> 'w redis \<Rightarrow> tileset \<Rightarrow> int \<Rightarrow> ('w, nat) io" where
  "sync_tileset S R (SatTileset c t) ttl =
     sync_prefix_to_redis S R (tileset_prefix (SatTileset c t)) c t (Some ttl)"
| "sync_tileset S R (RadarTileset n r v t e) ttl =
     sync_radar_prefix_to_redis S R (tileset_prefix (RadarTileset n r v t e)) r v t e ttl n"
| "sync_tileset S R (WrfTileset p i f) ttl = sync_wrf_step_to_redis S R p i f ttl"
| "sync_tileset S R (TpTileset f p) ttl = sync_ecmwf_tp_period_to_redis S R f p ttl"

lemma sync_tileset_eq:
  "sync_tileset S R ts ttl =
     mirror_tiles S (tileset_prefix ts) (tile_to_redis S (\<lambda>z x y c. store_value R (tile_cache_key ts z x y) c (Some ttl)))"
  by (cases ts)
     (simp_all add: sync_prefix_to_redis_def sync_radar_prefix_to_redis_def sync_wrf_step_to_redis_def
       sync_ecmwf_tp_period_to_redis_def download_tile_to_redis_def download_radar_tile_to_redis_def
       download_wrf_tile_to_redis_def download_ecmwf_tp_tile_to_redis_def store_satellite_tile_def
       store_radar_tile_def store_wrf_tile_def store_ecmwf_tp_tile_def store_value_def)

lemma tile_object_key_eq: "tile_object_key ts z x y = tileset_prefix ts @ zxy_tail z x y @ ''.webp''"
  by (cases ts)
     (simp_all add: build_satellite_tile_key_def build_radar_tile_key_def build_wrf_tile_key_def build_ecmwf_tp_tile_key_def)

lemma tileset_prefix_dir: "\<exists>p. tileset_prefix ts = p @ ''/''"
proof -
  have "suffix ''/'' (tileset_prefix ts)" by (cases ts) (simp_all add: suffix_Cons suffix_append)
  then show ?thesis by (auto simp: suffix_def)
qed

lemma parse_tile_object_key [simp]: "parse_zxy (tile_object_key ts z x y) = Some (z, x, y)"
  using tileset_prefix_dir [of ts] parse_zxy_tail by (auto simp: tile_object_key_eq)

lemma slash_zxy_inject [simp]: "slash_zxy z x y = slash_zxy z' x' y' \<longleftrightarrow> z = z' \<and> x = x' \<and> y = y'"
  using zxy_tail_inject [of z x y z' x' y'] by (simp add: slash_zxy_def zxy_tail_def)

lemma tile_cache_key_inject [simp]:
  "tile_cache_key ts z x y = tile_cache_key ts z' x' y' \<longleftrightarrow> z = z' \<and> x = x' \<and> y = y'"
  by (cases ts) (simp_all add: satellite_tile_key_def radar_tile_key_def wrf_tile_key_def ecmwf_tp_tile_key_def)

text \<open>
  C12. The mirror of a tileset (satellite, radar, WRF or ECMWF precipitation). Take a
  bucket whose images under the tileset's prefix all have keys of the tileset's layout.
  When the sync returns \<^verbatim>\<open>n\<close>, the bucket is unchanged, at least \<^verbatim>\<open>n\<close> tiles of it are in
  Redis with the bucket's bytes, and every other entry of Redis has the value it had:
  in particular a tile that failed half-way never shows bytes of another tile.
\<close>

theorem mirror_copies_bucket:
  assumes "mirror S \<beta> R \<alpha>"
    and "sync_tileset S R ts ttl w = (Inr n, w')"
    and "\<And>k. k \<in> dom (\<beta> w) \<Longrightarrow> Sublist.prefix (tileset_prefix ts) k \<Longrightarrow> endswith k ''.webp'' \<Longrightarrow>
           \<exists>z x y. k = tile_object_key ts z x y"
  shows "\<beta> w' = \<beta> w
     \<and> n \<le> card {(z, x, y). \<exists>d. \<beta> w (tile_object_key ts z x y) = Some d
                                 \<and> \<alpha> w' (tile_cache_key ts z x y) = Some (RString d)}
     \<and> (\<forall>k. \<alpha> w' k = \<alpha> w k
            \<or> (\<exists>z x y d. k = tile_cache_key ts z x y \<and> \<beta> w (tile_object_key ts z x y) = Some d
                         \<and> \<alpha> w' k = Some (RString d)))"
proof -
  let ?rk = "tile_cache_key ts" and ?ok = "tile_object_key ts"
  let ?tiles = "{k \<in> dom (\<beta> w). Sublist.prefix (tileset_prefix ts) k \<and> endswith k ''.webp''}"
  have form: "\<exists>z x y. k = ?ok z x y" if "k \<in> ?tiles" for k using assms(3) that by blast
  have rk: "tile_redis_key ?rk (?ok z x y) = Some (?rk z x y)" for z x y by (simp add: tile_redis_key_def)
  have inj: "a = b" if "a \<in> ?tiles" "b \<in> ?tiles" "tile_redis_key ?rk a = tile_redis_key ?rk b" for a b
    using form [OF that(1)] form [OF that(2)] that(3) rk by auto
  let ?L = "{key \<in> ?tiles. landed (\<beta> w) (\<alpha> w') ?rk key}"
  have m: "\<beta> w' = \<beta> w \<and> finite ?tiles \<and> n \<le> card ?L
       \<and> (\<forall>k. \<alpha> w' k = \<alpha> w k \<or> (\<exists>key\<in>?tiles. tile_redis_key ?rk key = Some k \<and> landed (\<beta> w) (\<alpha> w') ?rk key))"
    by (rule mirror.mirror_tiles_returns [OF assms(1) assms(2) [unfolded sync_tileset_eq] _ refl]) (rule inj)
  let ?T = "{(z, x, y). \<exists>d. \<beta> w (?ok z x y) = Some d \<and> \<alpha> w' (?rk z x y) = Some (RString d)}"
  have land: "landed (\<beta> w) (\<alpha> w') ?rk (?ok z x y) \<longleftrightarrow> (z, x, y) \<in> ?T" for z x y
    by (simp add: landed_eq rk)
  have web: "(z, x, y) \<in> ?T \<Longrightarrow> ?ok z x y \<in> ?tiles" for z x y
    by (auto simp: tile_object_key_eq endswith_def suffix_append)
  have "card ?L = card ?T"
  proof (rule bij_betw_same_card, rule bij_betwI')
    show "(\<lambda>k. the (parse_zxy k)) a = (\<lambda>k. the (parse_zxy k)) b \<longleftrightarrow> a = b" if "a \<in> ?L" "b \<in> ?L" for a b
      using form [of a] form [of b] that by auto
    show "the (parse_zxy a) \<in> ?T" if "a \<in> ?L" for a
    proof -
      have "a \<in> ?tiles" using that by simp
      then obtain z x y where a: "a = ?ok z x y" using form by blast
      show ?thesis using that land [of z x y] unfolding a by simp
    qed
    show "\<exists>a\<in>?L. t = the (parse_zxy a)" if "t \<in> ?T" for t
    proof -
      obtain z x y where t: "t = (z, x, y)" by (cases t)
      have "?ok z x y \<in> ?L" using that web [of z x y] land [of z x y] unfolding t by blast
      then show ?thesis by (rule bexI [rotated]) (simp add: t)
    qed
  qed
  moreover have "n \<le> card ?L" using m by (elim conjE)
  ultimately have "n \<le> card ?T" by (simp only:)
  moreover have "\<alpha> w' k = \<alpha> w k \<or> (\<exists>z x y d. k = ?rk z x y \<and> \<beta> w (?ok z x y) = Some d \<and> \<alpha> w' k = Some (RString d))" for k
  proof (cases "\<alpha> w' k = \<alpha> w k")
    case False
    then obtain key where key: "key \<in> ?tiles" "tile_redis_key ?rk key = Some k" "landed (\<beta> w) (\<alpha> w') ?rk key"
      using m by blast
    obtain z x y where a: "key = ?ok z x y" using form [OF key(1)] by blast
    show ?thesis using key land [of z x y] by (auto simp: a rk)
  qed simp
  ultimately show ?thesis using conjunct1 [OF m] by (intro conjI allI)
qed

section \<open>An in-memory bucket beside the in-memory Redis\<close>

definition on_cache :: "('k, 'a) io \<Rightarrow> ('b \<times> 'k, 'a) io" where
  "on_cache m w = (case m (snd w) of (r, ks) \<Rightarrow> (r, (fst w, ks)))"

definition pair_redis :: "'w redis \<Rightarrow> ('b \<times> 'w) redis" where
  "pair_redis R =
     \<lparr> rd_connected = rd_connected R,
       rd_get = (\<lambda>k. on_cache (rd_get R k)),
       rd_set = (\<lambda>k b t. on_cache (rd_set R k b t)),
       rd_exists = (\<lambda>k. on_cache (rd_exists R k)),
       rd_delete = (\<lambda>l. on_cache (rd_delete R l)),
       rd_expire = (\<lambda>k t. on_cache (rd_expire R k t)),
       rd_smembers = (\<lambda>k. on_cache (rd_smembers R k)),
       rd_srem = (\<lambda>k ms. on_cache (rd_srem R k ms)),
       rd_zadd = (\<lambda>k m s. on_cache (rd_zadd R k m s)),
       rd_zrange = (\<lambda>k. on_cache (rd_zrange R k)),
       rd_zrevrange = (\<lambda>k. on_cache (rd_zrevrange R k)),
       rd_zrem = (\<lambda>k ms. on_cache (rd_zrem R k ms)),
       rd_zremrangebyscore = (\<lambda>k h. on_cache (rd_zremrangebyscore R k h)),
       rd_zscore = (\<lambda>k m. on_cache (rd_zscore R k m)),
       rd_scan = (\<lambda>c p. on_cache (rd_scan R c p)),
       rd_pipeline = (\<lambda>cs. on_cache (rd_pipeline R cs)),
       rd_hset = (\<lambda>k m. on_cache (rd_hset R k m)),
       rd_hgetall = (\<lambda>k. on_cache (rd_hgetall R k)) \<rparr>"

definition mem_listing :: "string \<Rightarrow> string \<Rightarrow> bucket \<Rightarrow> listing_page" where
  "mem_listing pfx delimiter b =
     \<lparr> lp_keys = (if finite (dom b) then members_of (listed pfx delimiter b) else []), lp_common_prefixes = [] \<rparr>"

definition mem_s3 :: "(bucket \<times> 'k) s3" where
  "mem_s3 =
     \<lparr> b_connected = (\<lambda>w. True),
       b_connect = ret (),
       b_get_object = (\<lambda>k w. case fst w k of None \<Rightarrow> (Inl (ClientError ''NoSuchKey''), w) | Some d \<Rightarrow> (Inr d, w)),
       b_put_object = (\<lambda>k d ct w. (Inr (), ((fst w)(k \<mapsto> d), snd w))),
       b_head_object = (\<lambda>k w. case fst w k of None \<Rightarrow> (Inl (ClientError ''404''), w) | Some d \<Rightarrow> (Inr (), w)),
       b_delete_object = (\<lambda>k w. (Inr (), ((fst w)(k := None), snd w))),
       b_head_bucket = ret (),
       b_create_bucket = ret (),
       b_list_buckets = ret (),
       b_list_one = (\<lambda>p w. (Inr (take 1 (lp_keys (mem_listing p '''' (fst w)))), w)),
       b_paginate = (\<lambda>p d w. if finite (dom (fst w)) then (Inr [mem_listing p d (fst w)], w) else (Inl BotoCoreError, w)),
       b_put_lifecycle = (\<lambda>r p d. ret ()) \<rparr>"

lemma on_cache_eq:
  "on_cache m w = (r, w') \<longleftrightarrow> m (snd w) = (r, snd w') \<and> fst w' = fst w"
  by (cases "m (snd w)"; cases w') (auto simp: on_cache_def)

lemma finite_listed: "finite (dom b) \<Longrightarrow> finite (listed p d b)"
  by (auto simp: listed_def)

interpretation mem_mirror: mirror mem_s3 fst "pair_redis mem_redis" snd
proof unfold_locales
qed (auto simp: mem_s3_def pair_redis_def on_cache_eq mem_listing_def members_of_def finite_listed
      mem_redis_def split: option.splits rvalue.splits if_splits prod.splits)

section \<open>Instances\<close>

lemma members_of_single [simp]: "members_of {x} = [x]"
  by (simp add: members_of_def)

theorem mirror_copies_bucket_witness:
  "let ts = SatTileset ''goes19/abi/c13'' ''20260740300213''; k = tile_object_key ts 3 1 2;
       w = ([k \<mapsto> Raw ''img''], Map.empty)
   in \<exists>w'. sync_tileset mem_s3 (pair_redis mem_redis) ts 60 w = (Inr 1, w') \<and> fst w' = fst w
        \<and> (\<forall>k. snd w' k = snd w k
            \<or> (\<exists>z x y d. k = tile_cache_key ts z x y \<and> fst w (tile_object_key ts z x y) = Some d
                         \<and> snd w' k = Some (RString d)))"
proof -
  let ?ts = "SatTileset ''goes19/abi/c13'' ''20260740300213''"
  let ?k = "tile_object_key ?ts 3 1 2"
  let ?w = "([?k \<mapsto> Raw ''img''], Map.empty :: keyspace)"
  have l: "listed (tileset_prefix ?ts) '''' [?k \<mapsto> Raw ''img''] = {?k}"
    by (auto simp: listed_def tile_object_key_eq simp del: tile_object_key.simps)
  have e: "endswith ?k ''.webp''" "\<not> endswith ?k ''/''"
    by (simp_all add: tile_object_key_eq endswith_def suffix_append suffix_Cons del: tile_object_key.simps)
  have "\<exists>w'. sync_tileset mem_s3 (pair_redis mem_redis) ?ts 60 ?w = (Inr 1, w')"
    unfolding sync_tileset_eq
    by (simp add: mirror_tiles_def ensure_connected_def list_objects_def require_client_def mem_s3_def
        mem_listing_def l e bnd_apply seq_apply tile_to_redis_def catching_def download_webp_bytes_def store_value_def
        conn_def pair_redis_def mem_redis_def on_cache_def count_true_def
        del: tile_object_key.simps tileset_prefix.simps tile_cache_key.simps)
  then obtain w' where w': "sync_tileset mem_s3 (pair_redis mem_redis) ?ts 60 ?w = (Inr 1, w')" by blast
  have "\<exists>z x y. k = tile_object_key ?ts z x y" if "k \<in> dom (fst ?w)" for k
    using that by (auto simp del: tile_object_key.simps split: if_splits)
  then show ?thesis
    using w' mirror_copies_bucket [OF mem_mirror.mirror_axioms w'] unfolding Let_def by blast
qed

text \<open>
  Basenames. For a directory prefix, a suffix without slash and a bucket without
  empty path segments, the listing returns exactly the names of the objects directly
  under the prefix; it is the inverse of the COG and GeoJSON key builders, so the steps
  and layers the services offer are the ones whose object exists.
\<close>

theorem basenames_are_objects:
  assumes "object_store S \<beta>"
    and "list_object_basenames S (p @ ''/'') x delimiter w = (Inr names, w')"
    and "delimiter = [] \<or> delimiter = ''/''" "x \<noteq> []" "CHR ''/'' \<notin> set x"
    and "\<And>k. k \<in> dom (\<beta> w) \<Longrightarrow> \<not> sublist ''//'' k"
  shows "{nm \<in> set names. nm \<noteq> [] \<and> CHR ''/'' \<notin> set nm}
           = {nm. nm \<noteq> [] \<and> CHR ''/'' \<notin> set nm \<and> \<beta> w (p @ ''/'' @ nm @ x) \<noteq> None}"
  using object_store.list_object_basenames_returns [OF assms(1-5) _ _ assms(6)] by blast

lemma mslp_cog_listing:
  assumes "object_store S \<beta>"
    and "list_object_basenames S (''cog/ecmwf-ifs/mean-sea-level-pressure/'' @ f @ ''/'') ''.tif'' '''' w = (Inr names, w')"
    and "\<And>k. k \<in> dom (\<beta> w) \<Longrightarrow> \<not> sublist ''//'' k" "nm \<noteq> []" "CHR ''/'' \<notin> set nm"
  shows "nm \<in> set names \<longleftrightarrow> \<beta> w (build_ecmwf_mslp_cog_key f nm) \<noteq> None"
  using object_store.list_object_basenames_returns
    [OF assms(1), of "''cog/ecmwf-ifs/mean-sea-level-pressure/'' @ f" "''.tif''" "''''" w names w' nm] assms(2-5)
  by (simp add: build_ecmwf_mslp_cog_key_def)

theorem basenames_are_objects_witness:
  "\<exists>names w'. list_object_basenames mem_s3 (''cog'' @ ''/'') ''.tif'' '''' ([''cog/a.tif'' \<mapsto> Raw ''t''], Map.empty :: keyspace)
                = (Inr names, w')
     \<and> {nm \<in> set names. nm \<noteq> [] \<and> CHR ''/'' \<notin> set nm}
         = {nm. nm \<noteq> [] \<and> CHR ''/'' \<notin> set nm \<and> fst ([''cog/a.tif'' \<mapsto> Raw ''t''], Map.empty :: keyspace) (''cog'' @ ''/'' @ nm @ ''.tif'') \<noteq> None}"
proof -
  let ?w = "([''cog/a.tif'' \<mapsto> Raw ''t''], Map.empty :: keyspace)"
  have "\<exists>names w'. list_object_basenames mem_s3 (''cog'' @ ''/'') ''.tif'' '''' ?w = (Inr names, w')"
    by (simp add: list_object_basenames_def ensure_connected_def list_objects_def require_client_def mem_s3_def bnd_apply seq_apply)
  then obtain names w' where l: "list_object_basenames mem_s3 (''cog'' @ ''/'') ''.tif'' '''' ?w = (Inr names, w')" by blast
  have d: "\<not> sublist ''//'' k" if "k \<in> dom (fst ?w)" for k
    using that by (simp split: if_splits add: sublist_code)
  have s: "'''' = ([] :: string) \<or> '''' = ''/''" "''.tif'' \<noteq> []" "CHR ''/'' \<notin> set ''.tif''" by simp_all
  show ?thesis
    by (intro exI conjI) (rule l, rule basenames_are_objects [OF mem_mirror.object_store_axioms l s], rule d)
qed

end
