(* ===== verification/Gfs_Config.thy ===== *)
theory Gfs_Config
  imports S3_Keys
begin

text \<open>
  The GFS product catalogue and the parsing of object names
  (\<^verbatim>\<open>services/gfs_config.py\<close>). Dictionaries are association lists in insertion order.
\<close>

section \<open>Catalogue\<close>

record gfs_product =
  gp_product_id :: string
  gp_s3_segment :: string
  gp_layers :: "string list"
  gp_unit :: string
  gp_has_tiles :: bool
  gp_has_barbs :: bool
  gp_secondary_vars :: "(string \<times> string) list"

definition celsius :: string where
  "celsius = CHR 0xB0 # ''C''"

definition GFS_MSLP :: gfs_product where
  "GFS_MSLP =
     \<lparr> gp_product_id = ''mean-sea-level-pressure'', gp_s3_segment = ''mean-sea-level-pressure'',
       gp_layers = [''isobars'', ''thickness''], gp_unit = ''hPa'', gp_has_tiles = False, gp_has_barbs = False,
       gp_secondary_vars = [(''thickness'', ''gpm'')] \<rparr>"

definition GFS_500HPA :: gfs_product where
  "GFS_500HPA =
     \<lparr> gp_product_id = ''geopotential-500hpa'', gp_s3_segment = ''geopotential-500hpa'',
       gp_layers = [''heights'', ''isotherms''], gp_unit = ''kt'', gp_has_tiles = True, gp_has_barbs = True,
       gp_secondary_vars = [(''temperature'', celsius), (''geopotential'', ''gpm'')] \<rparr>"

definition GFS_250HPA :: gfs_product where
  "GFS_250HPA =
     \<lparr> gp_product_id = ''geopotential-250hpa'', gp_s3_segment = ''geopotential-250hpa'',
       gp_layers = [''heights''], gp_unit = ''kt'', gp_has_tiles = True, gp_has_barbs = False,
       gp_secondary_vars = [(''geopotential'', ''gpm'')] \<rparr>"

definition GFS_PRODUCTS :: "(string \<times> gfs_product) list" where
  "GFS_PRODUCTS = map (\<lambda>product. (gp_product_id product, product)) [GFS_MSLP, GFS_500HPA, GFS_250HPA]"

definition GFS_ZOOM_MIN :: int where
  "GFS_ZOOM_MIN = 3"

definition GFS_ZOOM_MAX :: int where
  "GFS_ZOOM_MAX = 7"

definition GFS_BARB_ZOOM_LEVELS :: "int list" where
  "GFS_BARB_ZOOM_LEVELS = [2, 4, 6, 8]"

definition get_product :: "string \<Rightarrow> gfs_product option" where
  "get_product product_id = map_of GFS_PRODUCTS product_id"

definition product_ids :: "string list" where
  "product_ids = map fst GFS_PRODUCTS"

definition layers_for :: "string \<Rightarrow> string list" where
  "layers_for product_id = (case map_of GFS_PRODUCTS product_id of None \<Rightarrow> [] | Some product \<Rightarrow> gp_layers product)"

definition secondary_vars_for :: "string \<Rightarrow> string list" where
  "secondary_vars_for product_id =
     (case map_of GFS_PRODUCTS product_id of None \<Rightarrow> [] | Some product \<Rightarrow> map fst (gp_secondary_vars product))"

definition secondary_unit :: "string \<Rightarrow> string \<Rightarrow> string option" where
  "secondary_unit product_id variable =
     (case map_of GFS_PRODUCTS product_id of None \<Rightarrow> None
      | Some product \<Rightarrow> map_of (gp_secondary_vars product) variable)"

section \<open>Object names\<close>

definition leaf_segment :: "string \<Rightarrow> string" where
  "leaf_segment p = last (py_split (CHR ''/'') (py_rstrip (CHR ''/'') p))"

definition step_from_basename :: "string \<Rightarrow> string \<Rightarrow> string option" where
  "step_from_basename name cycle =
     (let marker = cycle @ ''_''
      in if \<not> startswith name marker then None
         else let step = drop (length marker) name in if step = [] then None else Some step)"

definition step_and_layer_from_basename :: "string \<Rightarrow> string \<Rightarrow> (string \<times> string) option" where
  "step_and_layer_from_basename name cycle =
     (case step_from_basename name cycle of
        None \<Rightarrow> None
      | Some tail \<Rightarrow>
          if CHR ''_'' \<notin> set tail then None
          else let (fxxx, layer) = py_split1 (CHR ''_'') tail
               in if fxxx = [] \<or> layer = [] then None else Some (fxxx, layer))"

section \<open>Properties\<close>

lemma get_product_segment:
  "get_product p = Some g \<Longrightarrow> gp_s3_segment g = p \<and> p \<in> set product_ids"
  by (auto simp: get_product_def product_ids_def GFS_PRODUCTS_def GFS_MSLP_def GFS_500HPA_def GFS_250HPA_def
      split: if_splits)

lemma step_from_basename_Some:
  "step_from_basename name cycle = Some step \<longleftrightarrow> name = gfs_step_id cycle step \<and> step \<noteq> []"
  by (auto simp: step_from_basename_def gfs_step_id_def startswith_def prefix_def Let_def split: if_splits)

lemma py_split1_rejoin: "c \<in> set s \<Longrightarrow> py_split1 c s = (a, b) \<Longrightarrow> s = a @ c # b \<and> c \<notin> set a"
proof -
  assume "c \<in> set s" "py_split1 c s = (a, b)"
  then obtain u v where "s = u @ c # v" "c \<notin> set u" by (metis split_list_first)
  then show ?thesis using \<open>py_split1 c s = (a, b)\<close> by (simp add: py_split1_append)
qed

lemma step_layer_iff:
  "step_and_layer_from_basename name cycle = Some (fxxx, layer)
     \<longleftrightarrow> name = gfs_step_id cycle (fxxx @ CHR ''_'' # layer) \<and> fxxx \<noteq> [] \<and> layer \<noteq> [] \<and> CHR ''_'' \<notin> set fxxx"
proof
  assume a: "step_and_layer_from_basename name cycle = Some (fxxx, layer)"
  then obtain tail where t: "step_from_basename name cycle = Some tail" "CHR ''_'' \<in> set tail"
      "py_split1 (CHR ''_'') tail = (fxxx, layer)" "fxxx \<noteq> []" "layer \<noteq> []"
    by (auto simp: step_and_layer_from_basename_def split: option.splits prod.splits if_splits)
  show "name = gfs_step_id cycle (fxxx @ CHR ''_'' # layer) \<and> fxxx \<noteq> [] \<and> layer \<noteq> [] \<and> CHR ''_'' \<notin> set fxxx"
    using py_split1_rejoin [OF t(2,3)] t(1,4,5) by (auto simp: step_from_basename_Some)
next
  assume a: "name = gfs_step_id cycle (fxxx @ CHR ''_'' # layer) \<and> fxxx \<noteq> [] \<and> layer \<noteq> [] \<and> CHR ''_'' \<notin> set fxxx"
  then have "step_from_basename name cycle = Some (fxxx @ CHR ''_'' # layer)"
    by (simp add: step_from_basename_Some)
  then show "step_and_layer_from_basename name cycle = Some (fxxx, layer)"
    using a by (simp add: step_and_layer_from_basename_def py_split1_append)
qed

text \<open>
  Names and parsers are inverse: a basename parses to a step exactly when it is the
  step id the key builders write for that cycle, and to a step and a layer exactly when it
  is \<^verbatim>\<open>{cycle}_{step}_{layer}\<close> with a step free of underscores; layers may contain them.
\<close>

theorem gfs_names_roundtrip:
  "(step_from_basename name cycle = Some step \<longleftrightarrow> name = gfs_step_id cycle step \<and> step \<noteq> [])
   \<and> (step_and_layer_from_basename name cycle = Some (fxxx, layer)
        \<longleftrightarrow> gfs_geojson_cycle_prefix segment cycle @ name @ ''.json'' = build_gfs_geojson_key segment cycle fxxx layer
             \<and> fxxx \<noteq> [] \<and> layer \<noteq> [] \<and> CHR ''_'' \<notin> set fxxx)"
  using step_from_basename_Some step_layer_iff
  by (simp add: build_gfs_geojson_key_def gfs_step_id_def)

end
