(* ===== verification/Read_Strategies.thy ===== *)
theory Read_Strategies
  imports S3_Client Gfs_Config
begin

text \<open>
  The read side of the products: the full-sync and the on-demand strategy of satellite,
  radar, ECMWF precipitation, ECMWF pressure, WRF and GFS
  (\<^verbatim>\<open>services/*_sync_strategy.py\<close>). A strategy holds the two clients and its TTLs; an
  attribute a class does not have is not used by its methods.

  A coroutine handed to \<^verbatim>\<open>asyncio.create_task\<close> runs after the caller has returned; as the
  caller does nothing but return after spawning it, the task is run at that point, and its
  exception is dropped. Locks and semaphores serialise callers and are not modelled.
\<close>

record 'w strategy =
  st_redis :: "'w redis"
  st_s3 :: "'w s3 option"
  st_tile_ttl :: int
  st_geojson_ttl :: int
  st_listing_ttl :: int
  st_keep :: int               \<comment> \<open>inits or cycles to keep\<close>
  st_network :: string

definition spawn :: "('w, unit) io \<Rightarrow> ('w, unit) io" where
  "spawn m w = (Inr (), snd (m w))"

section \<open>Shapes shared by the strategies\<close>

text \<open>Redis first, then the fallback: \<^verbatim>\<open>if data: return data\<close>.\<close>

definition redis_first :: "('w, pybytes option) io \<Rightarrow> ('w, pybytes option) io \<Rightarrow> ('w, pybytes option) io" where
  "redis_first get fallback = bnd get (\<lambda>data. if truthy data then ret data else fallback)"

definition index_first :: "('w, 'a list) io \<Rightarrow> ('w, 'a list) io \<Rightarrow> ('w, 'a list) io" where
  "index_first get fallback = bnd get (\<lambda>xs. if xs \<noteq> [] then ret xs else fallback)"

text \<open>The object-store leg: download, and on a hit spawn the cache write.\<close>

definition s3_leg :: "'w s3 option \<Rightarrow> string \<Rightarrow> (pybytes \<Rightarrow> ('w, unit) io) \<Rightarrow> ('w, pybytes option) io" where
  "s3_leg S key store =
     (case S of
        None \<Rightarrow> ret None
      | Some s \<Rightarrow> bnd (download_tile s key) (\<lambda>data.
          if truthy data then seq (spawn (store (the data))) (ret data) else ret data))"

text \<open>\<^verbatim>\<open>return None\<close> instead of \<^verbatim>\<open>return data\<close> on an empty object.\<close>

definition or_none :: "('w, pybytes option) io \<Rightarrow> ('w, pybytes option) io" where
  "or_none m = bnd m (\<lambda>data. ret (if truthy data then data else None))"

text \<open>
  A cached listing: the cache only holds documents written below, lists of strings;
  \<^verbatim>\<open>json.loads\<close> of anything else is a \<^verbatim>\<open>ValueError\<close>.
\<close>

definition cached_listing ::
  "'w strategy \<Rightarrow> string \<Rightarrow> ('w s3 \<Rightarrow> ('w, string list) io) \<Rightarrow> ('w, string list) io" where
  "cached_listing st cache_key discover =
     bnd (get_cached_listing (st_redis st) cache_key) (\<lambda>cached.
       if truthy cached
       then (case Option.bind (json_loads (the cached)) strings_of_json of
               None \<Rightarrow> raise ValueError | Some names \<Rightarrow> ret names)
       else case st_s3 st of
              None \<Rightarrow> ret []
            | Some s \<Rightarrow> bnd (discover s) (\<lambda>names.
                seq (cache_listing (st_redis st) cache_key (Json (json_of_strings names)) (st_listing_ttl st))
                    (ret names)))"

text \<open>The last segments of the subdirectories, without the empty ones.\<close>

definition segment_names :: "string list \<Rightarrow> string list" where
  "segment_names subdirs = filter (\<lambda>n. n \<noteq> []) (map last_segment subdirs)"

definition fallback_of :: "'w strategy \<Rightarrow> ('w, 'a) io \<Rightarrow> 'a \<Rightarrow> ('w, 'a) io" where
  "fallback_of st m dflt = (if st_s3 st = None then ret dflt else m)"

section \<open>Satellite\<close>

definition sat_ondemand_get_tile :: "'w strategy \<Rightarrow> string \<Rightarrow> string \<Rightarrow> int \<Rightarrow> int \<Rightarrow> int \<Rightarrow> ('w, pybytes option) io" where
  "sat_ondemand_get_tile st channel_dir tileset_id z x y =
     redis_first (get_satellite_tile (st_redis st) channel_dir tileset_id z x y)
       (or_none (s3_leg (st_s3 st) (build_satellite_tile_key channel_dir tileset_id z x y)
          (\<lambda>data. store_satellite_tile (st_redis st) channel_dir tileset_id z x y data (Some (st_tile_ttl st)))))"

definition sat_ondemand_get_tilesets :: "'w strategy \<Rightarrow> string \<Rightarrow> ('w, string list) io" where
  "sat_ondemand_get_tilesets st channel_dir =
     cached_listing st (''cache:listing:sat:'' @ channel_dir) (\<lambda>s.
       bnd (try_get_subdirectories s (''tiles/'' @ channel_dir @ ''/'')) (\<lambda>subdirs.
         ret (sort (segment_names subdirs))))"

definition sat_full_get_tile :: "'w strategy \<Rightarrow> string \<Rightarrow> string \<Rightarrow> int \<Rightarrow> int \<Rightarrow> int \<Rightarrow> ('w, pybytes option) io" where
  "sat_full_get_tile st channel_dir tileset_id z x y =
     redis_first (get_satellite_tile (st_redis st) channel_dir tileset_id z x y)
       (fallback_of st (sat_ondemand_get_tile st channel_dir tileset_id z x y) None)"

definition sat_full_get_tilesets :: "'w strategy \<Rightarrow> string \<Rightarrow> ('w, string list) io" where
  "sat_full_get_tilesets st channel_dir =
     index_first (get_satellite_tilesets (st_redis st) channel_dir)
       (fallback_of st (sat_ondemand_get_tilesets st channel_dir) [])"

section \<open>Radar\<close>

definition radar_s3_prefix :: "string \<Rightarrow> string" where
  "radar_s3_prefix network = ''tiles/radar/'' @ network"

definition radar_ondemand_get_tile ::
  "'w strategy \<Rightarrow> string \<Rightarrow> string \<Rightarrow> string \<Rightarrow> string \<Rightarrow> int \<Rightarrow> int \<Rightarrow> int \<Rightarrow> ('w, pybytes option) io" where
  "radar_ondemand_get_tile st radar_id variable_id elevation_id tileset_id z x y =
     redis_first (get_radar_tile (st_redis st) radar_id variable_id tileset_id elevation_id z x y (st_network st))
       (or_none (s3_leg (st_s3 st) (build_radar_tile_key radar_id variable_id tileset_id elevation_id z x y (st_network st))
          (\<lambda>data. store_radar_tile (st_redis st) radar_id variable_id tileset_id elevation_id z x y data
                    (st_tile_ttl st) (st_network st))))"

definition radar_cache_key :: "'w strategy \<Rightarrow> string \<Rightarrow> string" where
  "radar_cache_key st rest = ''cache:listing:radar:'' @ st_network st @ '':'' @ rest"

definition radar_ondemand_list_radars :: "'w strategy \<Rightarrow> ('w, string list) io" where
  "radar_ondemand_list_radars st =
     cached_listing st (radar_cache_key st ''radars'') (\<lambda>s.
       bnd (try_get_subdirectories s (radar_s3_prefix (st_network st))) (\<lambda>subdirs.
         ret (sort (map last_segment subdirs))))"

definition radar_ondemand_list_variables :: "'w strategy \<Rightarrow> string \<Rightarrow> ('w, string list) io" where
  "radar_ondemand_list_variables st radar_id =
     cached_listing st (radar_cache_key st (radar_id @ '':variables'')) (\<lambda>s.
       bnd (try_get_subdirectories s (radar_s3_prefix (st_network st) @ ''/'' @ radar_id)) (\<lambda>subdirs.
         ret (sort (map last_segment subdirs))))"

definition radar_ondemand_list_elevations :: "'w strategy \<Rightarrow> string \<Rightarrow> string \<Rightarrow> ('w, string list) io" where
  "radar_ondemand_list_elevations st radar_id variable_id =
     cached_listing st (radar_cache_key st (radar_id @ '':'' @ variable_id @ '':elevations'')) (\<lambda>s.
       bnd (try_get_subdirectories s (radar_s3_prefix (st_network st) @ ''/'' @ radar_id @ ''/'' @ variable_id)) (\<lambda>subdirs.
         ret (sort (remdups (filter (\<lambda>n. startswith n ''elev'') (map last_segment subdirs))))))"

definition radar_ondemand_list_tilesets :: "'w strategy \<Rightarrow> string \<Rightarrow> string \<Rightarrow> string \<Rightarrow> ('w, string list) io" where
  "radar_ondemand_list_tilesets st radar_id variable_id elevation_id =
     cached_listing st (radar_cache_key st (radar_id @ '':'' @ variable_id @ '':'' @ elevation_id @ '':tilesets'')) (\<lambda>s.
       bnd (try_get_subdirectories s
              (radar_s3_prefix (st_network st) @ ''/'' @ radar_id @ ''/'' @ variable_id @ ''/'' @ elevation_id)) (\<lambda>subdirs.
         ret (sorted_desc (segment_names subdirs))))"

definition radar_full_get_tile ::
  "'w strategy \<Rightarrow> string \<Rightarrow> string \<Rightarrow> string \<Rightarrow> string \<Rightarrow> int \<Rightarrow> int \<Rightarrow> int \<Rightarrow> ('w, pybytes option) io" where
  "radar_full_get_tile st radar_id variable_id elevation_id tileset_id z x y =
     redis_first (get_radar_tile (st_redis st) radar_id variable_id tileset_id elevation_id z x y (st_network st))
       (fallback_of st (radar_ondemand_get_tile st radar_id variable_id elevation_id tileset_id z x y) None)"

definition radar_full_list_radars :: "'w strategy \<Rightarrow> ('w, string list) io" where
  "radar_full_list_radars st =
     index_first (get_radar_radars (st_redis st) (st_network st)) (fallback_of st (radar_ondemand_list_radars st) [])"

definition radar_full_list_variables :: "'w strategy \<Rightarrow> string \<Rightarrow> ('w, string list) io" where
  "radar_full_list_variables st radar_id =
     index_first (get_radar_variables (st_redis st) radar_id (st_network st))
       (fallback_of st (radar_ondemand_list_variables st radar_id) [])"

definition radar_full_list_elevations :: "'w strategy \<Rightarrow> string \<Rightarrow> string \<Rightarrow> ('w, string list) io" where
  "radar_full_list_elevations st radar_id variable_id =
     index_first (get_radar_elevations (st_redis st) radar_id variable_id (st_network st))
       (fallback_of st (radar_ondemand_list_elevations st radar_id variable_id) [])"

definition radar_full_list_tilesets :: "'w strategy \<Rightarrow> string \<Rightarrow> string \<Rightarrow> string \<Rightarrow> ('w, string list) io" where
  "radar_full_list_tilesets st radar_id variable_id elevation_id =
     index_first (get_radar_tilesets (st_redis st) radar_id variable_id elevation_id (st_network st))
       (fallback_of st (radar_ondemand_list_tilesets st radar_id variable_id elevation_id) [])"

section \<open>ECMWF\<close>

text \<open>The pattern \<^verbatim>\<open>\d{8}T\d{4}Z\<close> with \<^verbatim>\<open>fullmatch\<close>.\<close>

definition is_valid_timestamp_format :: "string \<Rightarrow> bool" where
  "is_valid_timestamp_format s =
     (length s = 14 \<and> list_all is_digit (take 8 s) \<and> s ! 8 = CHR ''T''
      \<and> list_all is_digit (take 4 (drop 9 s)) \<and> s ! 13 = CHR ''Z'')"

definition tp_ondemand_get_tile :: "'w strategy \<Rightarrow> string \<Rightarrow> string \<Rightarrow> int \<Rightarrow> int \<Rightarrow> int \<Rightarrow> ('w, pybytes option) io" where
  "tp_ondemand_get_tile st forecast_ts period_ts z x y =
     redis_first (get_ecmwf_tp_tile (st_redis st) forecast_ts period_ts z x y)
       (s3_leg (st_s3 st) (build_ecmwf_tp_tile_key forecast_ts period_ts z x y)
          (\<lambda>data. store_ecmwf_tp_tile (st_redis st) forecast_ts period_ts z x y data (Some (st_tile_ttl st))))"

definition tp_ondemand_list_forecasts :: "'w strategy \<Rightarrow> ('w, string list) io" where
  "tp_ondemand_list_forecasts st =
     cached_listing st ''cache:listing:ecmwf_tp:forecasts'' (\<lambda>s.
       bnd (try_get_subdirectories s ''tiles/ecmwf-ifs/total-precipitation'') (\<lambda>subdirs.
         ret (sorted_desc (segment_names subdirs))))"

definition tp_ondemand_list_periods :: "'w strategy \<Rightarrow> string \<Rightarrow> ('w, string list) io" where
  "tp_ondemand_list_periods st forecast_ts =
     cached_listing st (''cache:listing:ecmwf_tp:'' @ forecast_ts @ '':periods'') (\<lambda>s.
       bnd (try_get_subdirectories s (''tiles/ecmwf-ifs/total-precipitation/'' @ forecast_ts)) (\<lambda>subdirs.
         ret (sort (filter is_valid_timestamp_format (segment_names subdirs)))))"

definition tp_full_get_tile :: "'w strategy \<Rightarrow> string \<Rightarrow> string \<Rightarrow> int \<Rightarrow> int \<Rightarrow> int \<Rightarrow> ('w, pybytes option) io" where
  "tp_full_get_tile st forecast_ts period_ts z x y =
     redis_first (get_ecmwf_tp_tile (st_redis st) forecast_ts period_ts z x y)
       (fallback_of st (tp_ondemand_get_tile st forecast_ts period_ts z x y) None)"

definition tp_full_list_forecasts :: "'w strategy \<Rightarrow> ('w, string list) io" where
  "tp_full_list_forecasts st =
     index_first (get_ecmwf_tp_forecasts (st_redis st)) (fallback_of st (tp_ondemand_list_forecasts st) [])"

definition tp_full_list_periods :: "'w strategy \<Rightarrow> string \<Rightarrow> ('w, string list) io" where
  "tp_full_list_periods st forecast_ts =
     index_first (get_ecmwf_tp_periods (st_redis st) forecast_ts)
       (fallback_of st (tp_ondemand_list_periods st forecast_ts) [])"

definition mslp_ondemand_get_geojson :: "'w strategy \<Rightarrow> string \<Rightarrow> string \<Rightarrow> ('w, pybytes option) io" where
  "mslp_ondemand_get_geojson st forecast_ts timestamp_ts =
     redis_first (get_ecmwf_mslp_geojson (st_redis st) forecast_ts timestamp_ts)
       (s3_leg (st_s3 st) (build_ecmwf_mslp_geojson_key forecast_ts timestamp_ts)
          (\<lambda>data. store_ecmwf_mslp_geojson (st_redis st) forecast_ts timestamp_ts data (Some (st_geojson_ttl st))))"

definition mslp_ondemand_list_forecasts :: "'w strategy \<Rightarrow> ('w, string list) io" where
  "mslp_ondemand_list_forecasts st =
     cached_listing st ''cache:listing:ecmwf_mslp:forecasts'' (\<lambda>s.
       bnd (try_get_subdirectories s ''cog/ecmwf-ifs/mean-sea-level-pressure'') (\<lambda>subdirs.
         ret (sorted_desc (segment_names subdirs))))"

definition mslp_ondemand_list_timestamps :: "'w strategy \<Rightarrow> string \<Rightarrow> ('w, string list) io" where
  "mslp_ondemand_list_timestamps st forecast_ts =
     cached_listing st (''cache:listing:ecmwf_mslp:'' @ forecast_ts @ '':timestamps'') (\<lambda>s.
       bnd (try_list_object_basenames s (''cog/ecmwf-ifs/mean-sea-level-pressure/'' @ forecast_ts @ ''/'') ''.tif'' '''')
         (\<lambda>names. ret (sort (filter is_valid_timestamp_format names))))"

definition mslp_full_get_geojson :: "'w strategy \<Rightarrow> string \<Rightarrow> string \<Rightarrow> ('w, pybytes option) io" where
  "mslp_full_get_geojson st forecast_ts timestamp_ts =
     redis_first (get_ecmwf_mslp_geojson (st_redis st) forecast_ts timestamp_ts)
       (fallback_of st (mslp_ondemand_get_geojson st forecast_ts timestamp_ts) None)"

definition mslp_full_list_forecasts :: "'w strategy \<Rightarrow> ('w, string list) io" where
  "mslp_full_list_forecasts st =
     index_first (get_ecmwf_mslp_forecasts (st_redis st)) (fallback_of st (mslp_ondemand_list_forecasts st) [])"

definition mslp_full_list_timestamps :: "'w strategy \<Rightarrow> string \<Rightarrow> ('w, string list) io" where
  "mslp_full_list_timestamps st forecast_ts =
     index_first (get_ecmwf_mslp_timestamps (st_redis st) forecast_ts)
       (fallback_of st (mslp_ondemand_list_timestamps st forecast_ts) [])"

section \<open>WRF\<close>

definition wrf_ondemand_get_tile ::
  "'w strategy \<Rightarrow> string \<Rightarrow> string \<Rightarrow> string \<Rightarrow> int \<Rightarrow> int \<Rightarrow> int \<Rightarrow> ('w, pybytes option) io" where
  "wrf_ondemand_get_tile st product_id init_tag fxxx z x y =
     redis_first (get_wrf_tile (st_redis st) product_id init_tag fxxx z x y)
       (s3_leg (st_s3 st) (build_wrf_tile_key product_id init_tag fxxx z x y)
          (\<lambda>data. store_wrf_tile (st_redis st) product_id init_tag fxxx z x y data (Some (st_tile_ttl st))))"

definition wrf_ondemand_get_geojson ::
  "'w strategy \<Rightarrow> string \<Rightarrow> string \<Rightarrow> string \<Rightarrow> string \<Rightarrow> ('w, pybytes option) io" where
  "wrf_ondemand_get_geojson st product_id init_tag fxxx layer =
     redis_first (get_wrf_geojson (st_redis st) product_id init_tag fxxx layer)
       (s3_leg (st_s3 st) (build_wrf_geojson_key product_id init_tag fxxx layer)
          (\<lambda>data. store_wrf_geojson (st_redis st) product_id init_tag fxxx layer data (Some (st_geojson_ttl st))))"

text \<open>Barb tiles go straight to the bucket in both classes.\<close>

definition wrf_get_barb_tile ::
  "'w strategy \<Rightarrow> string \<Rightarrow> string \<Rightarrow> string \<Rightarrow> int \<Rightarrow> int \<Rightarrow> int \<Rightarrow> ('w, pybytes option) io" where
  "wrf_get_barb_tile st product_id init_tag fxxx z x y =
     (case st_s3 st of None \<Rightarrow> ret None
      | Some s \<Rightarrow> download_tile s (build_wrf_barb_tile_key product_id init_tag fxxx z x y))"

definition wrf_ondemand_list_products :: "'w strategy \<Rightarrow> ('w, string list) io" where
  "wrf_ondemand_list_products st =
     cached_listing st ''cache:listing:wrf:products'' (\<lambda>s.
       bnd (try_get_subdirectories s ''tiles/wrf-arg4k'') (\<lambda>subdirs. ret (sort (segment_names subdirs))))"

text \<open>\<^verbatim>\<open>if keep > 0: names = names[:keep]\<close>.\<close>

definition cap :: "int \<Rightarrow> 'a list \<Rightarrow> 'a list" where
  "cap keep xs = (if keep > 0 then py_take keep xs else xs)"

definition wrf_ondemand_list_init_runs :: "'w strategy \<Rightarrow> string \<Rightarrow> ('w, string list) io" where
  "wrf_ondemand_list_init_runs st product_id =
     cached_listing st (''cache:listing:wrf:'' @ product_id @ '':init_runs'') (\<lambda>s.
       bnd (try_get_subdirectories s (''tiles/wrf-arg4k/'' @ product_id)) (\<lambda>subdirs.
         ret (cap (st_keep st) (sorted_desc (segment_names subdirs)))))"

definition wrf_ondemand_list_steps :: "'w strategy \<Rightarrow> string \<Rightarrow> string \<Rightarrow> ('w, string list) io" where
  "wrf_ondemand_list_steps st product_id init_tag =
     cached_listing st (''cache:listing:wrf:'' @ product_id @ '':'' @ init_tag @ '':steps'') (\<lambda>s.
       bnd (try_get_subdirectories s (''tiles/wrf-arg4k/'' @ product_id @ ''/'' @ init_tag)) (\<lambda>subdirs.
         ret (sort (segment_names subdirs))))"

definition wrf_ondemand_list_layers :: "'w strategy \<Rightarrow> string \<Rightarrow> string \<Rightarrow> string \<Rightarrow> ('w, string list) io" where
  "wrf_ondemand_list_layers st product_id init_tag fxxx =
     cached_listing st (''cache:listing:wrf:'' @ product_id @ '':'' @ init_tag @ '':'' @ fxxx @ '':layers'') (\<lambda>s.
       bnd (list_wrf_layers s product_id init_tag fxxx) (\<lambda>layers. ret (sort layers)))"

text \<open>\<^verbatim>\<open>dict(zip(steps, results))\<close>; the first exception of the gather propagates.\<close>

definition wrf_ondemand_list_layers_bulk ::
  "'w strategy \<Rightarrow> string \<Rightarrow> string \<Rightarrow> string list \<Rightarrow> ('w, (string \<times> string list) list) io" where
  "wrf_ondemand_list_layers_bulk st product_id init_tag steps =
     (if steps = [] then ret []
      else bnd (for_each steps (wrf_ondemand_list_layers st product_id init_tag)) (\<lambda>results.
        ret (foldl (\<lambda>d (s, ls). dict_set d s ls) [] (zip steps results))))"

definition wrf_full_get_tile ::
  "'w strategy \<Rightarrow> string \<Rightarrow> string \<Rightarrow> string \<Rightarrow> int \<Rightarrow> int \<Rightarrow> int \<Rightarrow> ('w, pybytes option) io" where
  "wrf_full_get_tile st product_id init_tag fxxx z x y =
     redis_first (get_wrf_tile (st_redis st) product_id init_tag fxxx z x y)
       (fallback_of st (wrf_ondemand_get_tile st product_id init_tag fxxx z x y) None)"

definition wrf_full_get_geojson ::
  "'w strategy \<Rightarrow> string \<Rightarrow> string \<Rightarrow> string \<Rightarrow> string \<Rightarrow> ('w, pybytes option) io" where
  "wrf_full_get_geojson st product_id init_tag fxxx layer =
     redis_first (get_wrf_geojson (st_redis st) product_id init_tag fxxx layer)
       (fallback_of st (wrf_ondemand_get_geojson st product_id init_tag fxxx layer) None)"

definition wrf_full_list_products :: "'w strategy \<Rightarrow> ('w, string list) io" where
  "wrf_full_list_products st =
     index_first (get_wrf_products (st_redis st)) (fallback_of st (wrf_ondemand_list_products st) [])"

definition wrf_full_list_init_runs :: "'w strategy \<Rightarrow> string \<Rightarrow> ('w, string list) io" where
  "wrf_full_list_init_runs st product_id =
     index_first (get_wrf_init_runs (st_redis st) product_id)
       (fallback_of st (wrf_ondemand_list_init_runs st product_id) [])"

definition wrf_full_list_steps :: "'w strategy \<Rightarrow> string \<Rightarrow> string \<Rightarrow> ('w, string list) io" where
  "wrf_full_list_steps st product_id init_tag =
     index_first (get_wrf_steps (st_redis st) product_id init_tag)
       (fallback_of st (wrf_ondemand_list_steps st product_id init_tag) [])"

definition wrf_full_list_layers :: "'w strategy \<Rightarrow> string \<Rightarrow> string \<Rightarrow> string \<Rightarrow> ('w, string list) io" where
  "wrf_full_list_layers st product_id init_tag fxxx =
     index_first (get_wrf_layers (st_redis st) product_id init_tag fxxx)
       (fallback_of st (wrf_ondemand_list_layers st product_id init_tag fxxx) [])"

text \<open>\<^verbatim>\<open>by_step.get(fxxx)\<close> is falsy when the step is absent or has no layers; \<^verbatim>\<open>update\<close> overwrites.\<close>

definition missing_steps :: "(string \<times> string list) list \<Rightarrow> string list \<Rightarrow> string list" where
  "missing_steps by_step steps =
     filter (\<lambda>f. case map_of by_step f of None \<Rightarrow> True | Some ls \<Rightarrow> ls = []) steps"

definition dict_update :: "('k \<times> 'v) list \<Rightarrow> ('k \<times> 'v) list \<Rightarrow> ('k \<times> 'v) list" where
  "dict_update d e = foldl (\<lambda>d (k, v). dict_set d k v) d e"

definition wrf_full_list_layers_bulk ::
  "'w strategy \<Rightarrow> string \<Rightarrow> string \<Rightarrow> string list \<Rightarrow> ('w, (string \<times> string list) list) io" where
  "wrf_full_list_layers_bulk st product_id init_tag steps =
     bnd (get_wrf_layers_bulk (st_redis st) product_id init_tag steps) (\<lambda>by_step.
       let missing = missing_steps by_step steps
       in if missing = [] \<or> st_s3 st = None then ret by_step
          else bnd (wrf_ondemand_list_layers_bulk st product_id init_tag missing) (\<lambda>discovered.
            ret (dict_update by_step discovered)))"

section \<open>GFS\<close>

definition s3_segment :: "string \<Rightarrow> string option" where
  "s3_segment product_id = (case get_product product_id of None \<Rightarrow> None | Some p \<Rightarrow> Some (gp_s3_segment p))"

text \<open>\<^verbatim>\<open>if not self._s3 or segment is None\<close>.\<close>

definition gfs_source :: "'w strategy \<Rightarrow> string \<Rightarrow> ('w s3 \<times> string) option" where
  "gfs_source st product_id =
     (case (st_s3 st, s3_segment product_id) of (Some s, Some g) \<Rightarrow> Some (s, g) | _ \<Rightarrow> None)"

text \<open>A scheduled cache write reports its own failure; it never raises.\<close>

definition run_throttled :: "('w, unit) io \<Rightarrow> ('w, unit) io" where
  "run_throttled coro = bnd (catching any_exception coro) (\<lambda>r. ret ())"

definition schedule_cache_write :: "('w, unit) io \<Rightarrow> ('w, unit) io" where
  "schedule_cache_write coro = spawn (run_throttled coro)"

definition gfs_s3_leg ::
  "'w strategy \<Rightarrow> string \<Rightarrow> (string \<Rightarrow> string) \<Rightarrow> (pybytes \<Rightarrow> ('w, unit) io) \<Rightarrow> ('w, pybytes option) io" where
  "gfs_s3_leg st product_id key_of store =
     (case gfs_source st product_id of
        None \<Rightarrow> ret None
      | Some (s, segment) \<Rightarrow> bnd (download_tile s (key_of segment)) (\<lambda>data.
          if truthy data then seq (schedule_cache_write (store (the data))) (ret data) else ret data))"

definition gfs_ondemand_get_tile ::
  "'w strategy \<Rightarrow> string \<Rightarrow> string \<Rightarrow> string \<Rightarrow> int \<Rightarrow> int \<Rightarrow> int \<Rightarrow> ('w, pybytes option) io" where
  "gfs_ondemand_get_tile st product_id cycle fxxx z x y =
     redis_first (get_gfs_tile (st_redis st) product_id cycle fxxx z x y)
       (gfs_s3_leg st product_id (\<lambda>segment. build_gfs_tile_key segment cycle fxxx z x y)
          (\<lambda>data. store_gfs_tile (st_redis st) product_id cycle fxxx z x y data (Some (st_tile_ttl st))))"

definition gfs_geojson_from_s3 ::
  "'w strategy \<Rightarrow> string \<Rightarrow> string \<Rightarrow> string \<Rightarrow> string \<Rightarrow> ('w, pybytes option) io" where
  "gfs_geojson_from_s3 st product_id cycle fxxx layer =
     gfs_s3_leg st product_id (\<lambda>segment. build_gfs_geojson_key segment cycle fxxx layer)
       (\<lambda>data. store_gfs_geojson (st_redis st) product_id cycle fxxx layer data (Some (st_geojson_ttl st)))"

definition gfs_get_geojson ::
  "'w strategy \<Rightarrow> string \<Rightarrow> string \<Rightarrow> string \<Rightarrow> string \<Rightarrow> ('w, pybytes option) io" where
  "gfs_get_geojson st product_id cycle fxxx layer =
     redis_first (get_gfs_geojson (st_redis st) product_id cycle fxxx layer)
       (gfs_geojson_from_s3 st product_id cycle fxxx layer)"

definition gfs_get_barb_tile ::
  "'w strategy \<Rightarrow> string \<Rightarrow> string \<Rightarrow> string \<Rightarrow> int \<Rightarrow> int \<Rightarrow> int \<Rightarrow> ('w, pybytes option) io" where
  "gfs_get_barb_tile st product_id cycle fxxx z x y =
     (case gfs_source st product_id of None \<Rightarrow> ret None
      | Some (s, segment) \<Rightarrow> download_tile s (build_gfs_barb_tile_key segment cycle fxxx z x y))"

text \<open>A cached listing that also returns early for an unknown product.\<close>

definition gfs_listing ::
  "'w strategy \<Rightarrow> string \<Rightarrow> string \<Rightarrow> ('w s3 \<Rightarrow> string \<Rightarrow> ('w, string list) io) \<Rightarrow> ('w, string list) io" where
  "gfs_listing st product_id cache_key discover =
     cached_listing (st\<lparr> st_s3 := map_option fst (gfs_source st product_id) \<rparr>) cache_key
       (\<lambda>s. discover s (case s3_segment product_id of Some segment \<Rightarrow> segment | None \<Rightarrow> []))"

definition gfs_ondemand_list_cycles :: "'w strategy \<Rightarrow> string \<Rightarrow> ('w, string list) io" where
  "gfs_ondemand_list_cycles st product_id =
     gfs_listing st product_id (''cache:listing:gfs:'' @ product_id @ '':cycles'') (\<lambda>s segment.
       bnd (try_get_subdirectories s (gfs_cog_cycle_prefix segment)) (\<lambda>subdirs.
         ret (cap (st_keep st) (sorted_desc (filter (\<lambda>n. n \<noteq> []) (map leaf_segment subdirs))))))"

definition gfs_ondemand_list_steps :: "'w strategy \<Rightarrow> string \<Rightarrow> string \<Rightarrow> ('w, string list) io" where
  "gfs_ondemand_list_steps st product_id cycle =
     gfs_listing st product_id (''cache:listing:gfs:'' @ product_id @ '':'' @ cycle @ '':steps'') (\<lambda>s segment.
       bnd (try_list_object_basenames s (gfs_cog_cycle_prefix segment @ cycle @ ''/'') ''.tif'' ''/'') (\<lambda>names.
         ret (sort (List.map_filter (\<lambda>name. step_from_basename name cycle) names))))"

text \<open>\<^verbatim>\<open>by_step.setdefault(step, []).append(layer)\<close> over the basenames.\<close>

definition add_layer :: "(string \<times> string list) list \<Rightarrow> string \<times> string \<Rightarrow> (string \<times> string list) list" where
  "add_layer d sl = dict_set d (fst sl) ((case map_of d (fst sl) of None \<Rightarrow> [] | Some ls \<Rightarrow> ls) @ [snd sl])"

definition group_layers :: "string \<Rightarrow> string list \<Rightarrow> (string \<times> string list) list" where
  "group_layers cycle names = foldl add_layer [] (List.map_filter (\<lambda>name. step_and_layer_from_basename name cycle) names)"

definition layer_map_to_json :: "(string \<times> string list) list \<Rightarrow> json" where
  "layer_map_to_json d = JObj (map (\<lambda>(k, ls). (k, json_of_strings ls)) d)"

fun layer_map_of_json :: "json \<Rightarrow> (string \<times> string list) list option" where
  "layer_map_of_json (JObj kvs) = those (map (\<lambda>(k, v). map_option (Pair k) (strings_of_json v)) kvs)"
| "layer_map_of_json _ = None"

text \<open>The second look at the cache inside the lock is the read that decides.\<close>

definition cycle_layer_map :: "'w strategy \<Rightarrow> string \<Rightarrow> string \<Rightarrow> ('w, (string \<times> string list) list) io" where
  "cycle_layer_map st product_id cycle =
     (let cache_key = ''cache:listing:gfs:'' @ product_id @ '':'' @ cycle @ '':layers'';
          load = (\<lambda>cached. case Option.bind (json_loads (the cached)) layer_map_of_json of
                             None \<Rightarrow> raise ValueError | Some d \<Rightarrow> ret d)
      in bnd (get_cached_listing (st_redis st) cache_key) (\<lambda>cached.
           if truthy cached then load cached
           else case gfs_source st product_id of
                  None \<Rightarrow> ret []
                | Some (s, segment) \<Rightarrow>
                    bnd (get_cached_listing (st_redis st) cache_key) (\<lambda>cached.
                      if truthy cached then load cached
                      else bnd (try_list_object_basenames s (gfs_geojson_cycle_prefix segment cycle) ''.json'' ''/'') (\<lambda>names.
                             let by_step = group_layers cycle names
                             in seq (cache_listing (st_redis st) cache_key (Json (layer_map_to_json by_step)) (st_listing_ttl st))
                                    (ret by_step)))))"

definition layers_of :: "(string \<times> string list) list \<Rightarrow> string \<Rightarrow> string list" where
  "layers_of by_step fxxx = sort (case map_of by_step fxxx of None \<Rightarrow> [] | Some ls \<Rightarrow> ls)"

definition gfs_ondemand_list_layers :: "'w strategy \<Rightarrow> string \<Rightarrow> string \<Rightarrow> string \<Rightarrow> ('w, string list) io" where
  "gfs_ondemand_list_layers st product_id cycle fxxx =
     bnd (cycle_layer_map st product_id cycle) (\<lambda>by_step. ret (layers_of by_step fxxx))"

definition gfs_ondemand_list_layers_bulk ::
  "'w strategy \<Rightarrow> string \<Rightarrow> string \<Rightarrow> string list \<Rightarrow> ('w, (string \<times> string list) list) io" where
  "gfs_ondemand_list_layers_bulk st product_id cycle steps =
     (if steps = [] then ret []
      else bnd (cycle_layer_map st product_id cycle) (\<lambda>by_step.
        ret (foldl (\<lambda>d f. dict_set d f (layers_of by_step f)) [] steps)))"

text \<open>The full-sync class delegates tiles and barbs, and reads its own index first for the rest.\<close>

definition gfs_full_list_cycles :: "'w strategy \<Rightarrow> string \<Rightarrow> ('w, string list) io" where
  "gfs_full_list_cycles st product_id =
     index_first (get_gfs_cycles (st_redis st) product_id) (gfs_ondemand_list_cycles st product_id)"

definition gfs_full_list_steps :: "'w strategy \<Rightarrow> string \<Rightarrow> string \<Rightarrow> ('w, string list) io" where
  "gfs_full_list_steps st product_id cycle =
     index_first (get_gfs_steps (st_redis st) product_id cycle) (gfs_ondemand_list_steps st product_id cycle)"

definition gfs_full_list_layers :: "'w strategy \<Rightarrow> string \<Rightarrow> string \<Rightarrow> string \<Rightarrow> ('w, string list) io" where
  "gfs_full_list_layers st product_id cycle fxxx =
     index_first (get_gfs_layers (st_redis st) product_id cycle fxxx) (gfs_ondemand_list_layers st product_id cycle fxxx)"

definition gfs_full_list_layers_bulk ::
  "'w strategy \<Rightarrow> string \<Rightarrow> string \<Rightarrow> string list \<Rightarrow> ('w, (string \<times> string list) list) io" where
  "gfs_full_list_layers_bulk st product_id cycle steps =
     bnd (get_gfs_layers_bulk (st_redis st) product_id cycle steps) (\<lambda>by_step.
       let missing = missing_steps by_step steps
       in if missing = [] then ret by_step
          else bnd (gfs_ondemand_list_layers_bulk st product_id cycle missing) (\<lambda>discovered.
            ret (dict_update by_step discovered)))"

end
