(* ===== verification/Read_Coherence.thy ===== *)
theory Read_Coherence
  imports S3_Mirror Read_Strategies
begin

text \<open>
  The reads serve the bucket. Redis is a cache of the bucket's objects: whatever is
  evicted or expires, a read answers with the bytes of the bucket or, when the bucket
  cannot be read, with nothing. The argument follows the way memoisation is verified:
  an invariant ties the cached entries to the function they cache, every read keeps it.
\<close>

section \<open>Entries and their objects\<close>

text \<open>The object a cached entry is a copy of.\<close>

fun object_key :: "redis_key \<Rightarrow> string option" where
  "object_key (SatTile d t z x y) = Some (build_satellite_tile_key d t z x y)"
| "object_key (RadarTile n r v t e z x y) = Some (build_radar_tile_key r v t e z x y n)"
| "object_key (TpTile f p z x y) = Some (build_ecmwf_tp_tile_key f p z x y)"
| "object_key (MslpGeojson f t) = Some (build_ecmwf_mslp_geojson_key f t)"
| "object_key (WrfTile p i s z x y) = Some (build_wrf_tile_key p i s z x y)"
| "object_key (WrfGeojson p i s l) = Some (build_wrf_geojson_key p i s l)"
| "object_key (GfsTile p c s z x y) = map_option (\<lambda>g. build_gfs_tile_key g c s z x y) (s3_segment p)"
| "object_key (GfsGeojson p c s l) = map_option (\<lambda>g. build_gfs_geojson_key g c s l) (s3_segment p)"
| "object_key _ = None"

text \<open>The read of an entry under the two strategies (the GFS classes share the object reads).\<close>

fun ondemand_read :: "'w strategy \<Rightarrow> redis_key \<Rightarrow> ('w, pybytes option) io" where
  "ondemand_read st (SatTile d t z x y) = sat_ondemand_get_tile st d t z x y"
| "ondemand_read st (RadarTile n r v t e z x y) = radar_ondemand_get_tile st r v e t z x y"
| "ondemand_read st (TpTile f p z x y) = tp_ondemand_get_tile st f p z x y"
| "ondemand_read st (MslpGeojson f t) = mslp_ondemand_get_geojson st f t"
| "ondemand_read st (WrfTile p i s z x y) = wrf_ondemand_get_tile st p i s z x y"
| "ondemand_read st (WrfGeojson p i s l) = wrf_ondemand_get_geojson st p i s l"
| "ondemand_read st (GfsTile p c s z x y) = gfs_ondemand_get_tile st p c s z x y"
| "ondemand_read st (GfsGeojson p c s l) = gfs_get_geojson st p c s l"
| "ondemand_read st _ = ret None"

fun full_read :: "'w strategy \<Rightarrow> redis_key \<Rightarrow> ('w, pybytes option) io" where
  "full_read st (SatTile d t z x y) = sat_full_get_tile st d t z x y"
| "full_read st (RadarTile n r v t e z x y) = radar_full_get_tile st r v e t z x y"
| "full_read st (TpTile f p z x y) = tp_full_get_tile st f p z x y"
| "full_read st (MslpGeojson f t) = mslp_full_get_geojson st f t"
| "full_read st (WrfTile p i s z x y) = wrf_full_get_tile st p i s z x y"
| "full_read st (WrfGeojson p i s l) = wrf_full_get_geojson st p i s l"
| "full_read st k = ondemand_read st k"

definition read_entry :: "bool \<Rightarrow> 'w strategy \<Rightarrow> redis_key \<Rightarrow> ('w, pybytes option) io" where
  "read_entry full st k = (if full then full_read st k else ondemand_read st k)"

text \<open>A radar strategy serves the entries of its own network.\<close>

fun entry_ok :: "'w strategy \<Rightarrow> redis_key \<Rightarrow> bool" where
  "entry_ok st (RadarTile n r v t e z x y) = (n = st_network st \<and> wf_key (RadarTile n r v t e z x y))"
| "entry_ok st k = wf_key k"

lemma entry_ok_wf: "entry_ok st k \<Longrightarrow> wf_key k"
  by (cases k) auto

section \<open>Coherence\<close>

definition coherent :: "bucket \<Rightarrow> keyspace \<Rightarrow> bool" where
  "coherent b ks \<longleftrightarrow>
     (\<forall>k obj d. wf_key k \<longrightarrow> object_key k = Some obj \<longrightarrow> ks (render k) = Some (RString d) \<longrightarrow> b obj = Some d)"

lemma coherent_empty: "coherent b Map.empty"
  by (simp add: coherent_def)

lemma coherent_evict: "coherent b ks \<Longrightarrow> coherent b (ks |` K)"
  unfolding coherent_def by (metis option.distinct(1) restrict_in restrict_out)

lemma render_inject: "wf_key a \<Longrightarrow> wf_key b \<Longrightarrow> render a = render b \<Longrightarrow> a = b"
  using parse_render by (metis option.inject)

lemma coherent_store:
  assumes "coherent b ks" "wf_key k" "object_key k = Some obj" "b obj = Some d"
  shows "coherent b (ks(render k \<mapsto> RString d))"
proof -
  have "b obj' = Some d'"
    if "wf_key k'" "object_key k' = Some obj'" "(ks(render k \<mapsto> RString d)) (render k') = Some (RString d')" for k' obj' d'
  proof (cases "render k' = render k")
    case True
    then have "k' = k" using that(1) assms(2) render_inject by blast
    then show ?thesis using that assms by simp
  next
    case False
    then show ?thesis using that assms(1) unfolding coherent_def by auto
  qed
  then show ?thesis unfolding coherent_def by blast
qed

section \<open>Serving one entry\<close>

text \<open>
  What a read of the entry \<^verbatim>\<open>rk\<close> may do, however it ends: it keeps the bucket, may
  copy the object into the entry, and answers with nothing, the object or the entry.
\<close>

definition serves ::
  "('w \<Rightarrow> bucket) \<Rightarrow> ('w \<Rightarrow> keyspace) \<Rightarrow> string \<Rightarrow> string \<Rightarrow> ('w, pybytes option) io \<Rightarrow> bool" where
  "serves \<beta> \<alpha> rk obj m \<longleftrightarrow>
     (\<forall>w r w'. m w = (r, w') \<longrightarrow>
        \<beta> w' = \<beta> w
        \<and> (\<alpha> w' = \<alpha> w \<or> (\<exists>d. \<beta> w obj = Some d \<and> \<alpha> w' = (\<alpha> w)(rk \<mapsto> RString d)))
        \<and> (\<forall>v. r = Inr v \<longrightarrow> v = None \<or> v = \<beta> w obj \<or> (\<exists>d. \<alpha> w rk = Some (RString d) \<and> v = Some d)))"

lemma servesD:
  assumes "serves \<beta> \<alpha> rk obj m" "m w = (r, w')"
  shows "\<beta> w' = \<beta> w"
    and "\<alpha> w' = \<alpha> w \<or> (\<exists>d. \<beta> w obj = Some d \<and> \<alpha> w' = (\<alpha> w)(rk \<mapsto> RString d))"
    and "r = Inr v \<Longrightarrow> v = None \<or> v = \<beta> w obj \<or> (\<exists>d. \<alpha> w rk = Some (RString d) \<and> v = Some d)"
  using assms unfolding serves_def by blast+

lemma serves_ret_None: "serves \<beta> \<alpha> rk obj (ret None)"
  by (simp add: serves_def)

lemma serves_or_none: "serves \<beta> \<alpha> rk obj m \<Longrightarrow> serves \<beta> \<alpha> rk obj (or_none m)"
  unfolding serves_def or_none_def bnd_def
  by (auto split: prod.splits sum.splits if_splits)

text \<open>A read that comes back answers whenever the bucket holds the object and can be read.\<close>

definition readable :: "'w s3 \<Rightarrow> ('w \<Rightarrow> bucket) \<Rightarrow> string \<Rightarrow> bool" where
  "readable S \<beta> obj \<longleftrightarrow> (\<forall>w. fst (download_tile S obj w) = Inr (\<beta> w obj))"

definition answers :: "('w \<Rightarrow> bucket) \<Rightarrow> string \<Rightarrow> ('w, pybytes option) io \<Rightarrow> bool" where
  "answers \<beta> obj m \<longleftrightarrow> (\<forall>w v w'. truthy (\<beta> w obj) \<longrightarrow> m w = (Inr v, w') \<longrightarrow> truthy v)"

lemma answersD: "answers \<beta> obj m \<Longrightarrow> truthy (\<beta> w obj) \<Longrightarrow> m w = (Inr v, w') \<Longrightarrow> truthy v"
  unfolding answers_def by blast

lemma answers_or_none:
  assumes "answers \<beta> obj m"
  shows "answers \<beta> obj (or_none m)"
  unfolding answers_def
proof (intro allI impI)
  fix w v w'
  assume t: "truthy (\<beta> w obj)" and "or_none m w = (Inr v, w')"
  then obtain d where "m w = (Inr d, w')" "v = (if truthy d then d else None)"
    by (auto simp: or_none_def bnd_eq_Inr)
  then show "truthy v" using answersD [OF assms t] by auto
qed

lemma answers_download:
  assumes "readable S \<beta> obj"
  shows "answers \<beta> obj (bnd (download_tile S obj) (\<lambda>data.
           if truthy data then seq (spawn (store (the data))) (ret data) else ret data))"
  unfolding answers_def
proof (intro allI impI)
  fix w v w'
  assume t: "truthy (\<beta> w obj)"
    and m: "bnd (download_tile S obj) (\<lambda>data.
              if truthy data then seq (spawn (store (the data))) (ret data) else ret data) w = (Inr v, w')"
  obtain w1 where "download_tile S obj w = (Inr (\<beta> w obj), w1)"
    using assms unfolding readable_def by (metis prod.collapse)
  then show "truthy v" using m t by (auto simp: seq_apply spawn_def)
qed

locale cached_bucket = mirror S \<beta> R \<alpha>
  for S :: "'w s3" and \<beta> and R :: "'w redis" and \<alpha> +
  assumes get_value_frame: "rd_get R k w = (rg, w') \<Longrightarrow> \<beta> w' = \<beta> w \<and> \<alpha> w' = \<alpha> w"
begin

lemma serves_redis_first:
  assumes "serves \<beta> \<alpha> rk obj fb"
  shows "serves \<beta> \<alpha> rk obj (redis_first (get_value R rk) fb)"
  unfolding serves_def
proof (intro allI impI)
  fix w r w'
  assume m: "redis_first (get_value R rk) fb w = (r, w')"
  obtain g w1 where g: "rd_get R rk w = (g, w1)" by (cases "rd_get R rk w")
  have f: "\<beta> w1 = \<beta> w" "\<alpha> w1 = \<alpha> w" using get_value_frame [OF g] by auto
  show "\<beta> w' = \<beta> w \<and> (\<alpha> w' = \<alpha> w \<or> (\<exists>d. \<beta> w obj = Some d \<and> \<alpha> w' = (\<alpha> w)(rk \<mapsto> RString d)))
      \<and> (\<forall>v. r = Inr v \<longrightarrow> v = None \<or> v = \<beta> w obj \<or> (\<exists>d. \<alpha> w rk = Some (RString d) \<and> v = Some d))"
  proof (cases "\<exists>v. g = Inr v \<and> truthy v")
    case True
    then obtain v where v: "g = Inr v" "truthy v" by blast
    then have "r = Inr v" "w' = w1" using m g by (auto simp: redis_first_def get_value_def)
    moreover obtain d where "v = Some d" using truthy_Some [OF v(2)] by blast
    moreover have "\<alpha> w rk = Some (RString d)"
      using get_returns [of rk w v w1] g v(1) \<open>v = Some d\<close> by (auto split: option.splits rvalue.splits)
    ultimately show ?thesis using f by simp
  next
    case False
    show ?thesis
    proof (cases g)
      case (Inl e)
      then show ?thesis using m g f by (auto simp: redis_first_def get_value_def)
    next
      case (Inr v)
      then have "fb w1 = (r, w')" using m g False by (simp add: redis_first_def get_value_def)
      then show ?thesis using servesD [OF assms, of w1 r w'] f by simp
    qed
  qed
qed

text \<open>The download of one object: it keeps both stores and returns the object or nothing.\<close>

lemma download_tile_frame:
  assumes "download_tile S key w = (r, w')"
  shows "\<beta> w' = \<beta> w \<and> \<alpha> w' = \<alpha> w \<and> (\<forall>v. r = Inr v \<longrightarrow> v = None \<or> v = \<beta> w key)"
proof -
  obtain c w1 where c: "ensure_connected S w = (c, w1)" by (cases "ensure_connected S w")
  have f1: "\<beta> w1 = \<beta> w" "\<alpha> w1 = \<alpha> w" using ensure_connected_keeps [OF c] ensure_connected_frame [OF c] by auto
  show ?thesis
  proof (cases c)
    case (Inl e)
    then show ?thesis using assms c f1
      by (auto simp: download_tile_def catching_def bnd_apply seq_apply split: if_splits)
  next
    case (Inr u)
    obtain g w2 where g: "b_get_object S key w1 = (g, w2)" by (cases "b_get_object S key w1")
    have f2: "\<beta> w2 = \<beta> w" "\<alpha> w2 = \<alpha> w" using get_keeps [OF g] get_frame [OF g] f1 by auto
    show ?thesis
    proof (cases g)
      case (Inl e)
      then show ?thesis using assms c g f2 Inr
        by (auto simp: download_tile_def catching_def bnd_apply seq_apply split: if_splits)
    next
      case (Inr d)
      then have "\<beta> w key = Some d" using object_returns [of key w1 d w2] g f1 by simp
      then show ?thesis using assms c g f2 Inr \<open>c = Inr u\<close>
        by (auto simp: download_tile_def catching_def bnd_apply seq_apply)
    qed
  qed
qed

text \<open>A spawned write of the object, under any wrapper that only drops its outcome.\<close>

lemma spawned_store:
  assumes "spawn (store d) w = (r, w')" "\<And>w. snd (store d w) = snd (rd_set R rk d ttl w)"
  shows "\<beta> w' = \<beta> w \<and> (\<alpha> w' = \<alpha> w \<or> \<alpha> w' = (\<alpha> w)(rk \<mapsto> RString d))"
proof -
  obtain s where s: "rd_set R rk d ttl w = (s, w')"
    using assms by (cases "rd_set R rk d ttl w") (auto simp: spawn_def)
  then show ?thesis using set_frame [OF s] set_outcome [OF s] by auto
qed

lemma serves_download:
  assumes "\<And>d w. snd (store d w) = snd (rd_set R rk d ttl w)"
  shows "serves \<beta> \<alpha> rk obj (bnd (download_tile S obj) (\<lambda>data.
           if truthy data then seq (spawn (store (the data))) (ret data) else ret data))"
  unfolding serves_def
proof (intro allI impI)
  fix w r w'
  assume m: "bnd (download_tile S obj) (\<lambda>data.
           if truthy data then seq (spawn (store (the data))) (ret data) else ret data) w = (r, w')"
  obtain g w1 where g: "download_tile S obj w = (g, w1)" by (cases "download_tile S obj w")
  note f = download_tile_frame [OF g]
  show "\<beta> w' = \<beta> w \<and> (\<alpha> w' = \<alpha> w \<or> (\<exists>d. \<beta> w obj = Some d \<and> \<alpha> w' = (\<alpha> w)(rk \<mapsto> RString d)))
      \<and> (\<forall>v. r = Inr v \<longrightarrow> v = None \<or> v = \<beta> w obj \<or> (\<exists>d. \<alpha> w rk = Some (RString d) \<and> v = Some d))"
  proof (cases "\<exists>v. g = Inr v \<and> truthy v")
    case True
    then obtain d where d: "g = Inr (Some d)" "truthy (Some d)" using truthy_Some by blast
    then have b: "\<beta> w obj = Some d" using f by auto
    obtain s w2 where s: "spawn (store d) w1 = (s, w2)" by (cases "spawn (store d) w1")
    have r: "r = Inr (Some d)" "w' = w2" using m g d s by (auto simp: seq_apply spawn_def)
    show ?thesis using spawned_store [of store d w1 s w2 rk ttl] s assms f b r by auto
  next
    case False
    then have "w' = w1 \<and> r = g" using m g by (cases g) auto
    then show ?thesis using f by auto
  qed
qed

lemma answers_redis_first:
  assumes "answers \<beta> obj fb"
  shows "answers \<beta> obj (redis_first (get_value R rk) fb)"
  unfolding answers_def
proof (intro allI impI)
  fix w v w'
  assume t: "truthy (\<beta> w obj)" and m: "redis_first (get_value R rk) fb w = (Inr v, w')"
  then obtain g w1 where g: "rd_get R rk w = (Inr g, w1)"
    and f: "(if truthy g then ret g else fb) w1 = (Inr v, w')"
    by (auto simp: redis_first_def get_value_def bnd_eq_Inr)
  have "truthy (\<beta> w1 obj)" using get_value_frame [OF g] t by simp
  then show "truthy v" using f answersD [OF assms, of w1 v w'] by (auto split: if_splits)
qed

lemma serves_s3_leg:
  assumes "\<And>d w. snd (store d w) = snd (rd_set R rk d ttl w)"
  shows "serves \<beta> \<alpha> rk obj (s3_leg (Some S) obj store)"
  using serves_download [OF assms] by (simp add: s3_leg_def)

lemma serves_gfs_s3_leg:
  assumes "\<And>d w. snd (store d w) = snd (rd_set R rk d ttl w)"
    and "st_s3 st = Some S" "s3_segment p = Some g" "obj = key_of g"
  shows "serves \<beta> \<alpha> rk obj (gfs_s3_leg st p key_of store)"
proof -
  have "snd (run_throttled (store d) w) = snd (rd_set R rk d ttl w)" for d w
    using assms(1) [of d w] by (auto simp: run_throttled_def catching_def bnd_def split: prod.splits sum.splits)
  then show ?thesis
    using serves_download [of "\<lambda>d. run_throttled (store d)" rk ttl obj]
    unfolding gfs_s3_leg_def gfs_source_def schedule_cache_write_def assms(2-4) by simp
qed

lemmas read_defs =
  sat_ondemand_get_tile_def radar_ondemand_get_tile_def tp_ondemand_get_tile_def mslp_ondemand_get_geojson_def
  wrf_ondemand_get_tile_def wrf_ondemand_get_geojson_def gfs_ondemand_get_tile_def gfs_get_geojson_def
  gfs_geojson_from_s3_def
  sat_full_get_tile_def radar_full_get_tile_def tp_full_get_tile_def mslp_full_get_geojson_def
  wrf_full_get_tile_def wrf_full_get_geojson_def
  get_satellite_tile_def get_radar_tile_def get_ecmwf_tp_tile_def get_ecmwf_mslp_geojson_def
  get_wrf_tile_def get_wrf_geojson_def get_gfs_tile_def get_gfs_geojson_def
  store_satellite_tile_def store_radar_tile_def store_ecmwf_tp_tile_def store_ecmwf_mslp_geojson_def
  store_wrf_tile_def store_wrf_geojson_def store_gfs_tile_def store_gfs_geojson_def store_value_def

lemma ondemand_serves:
  assumes "st_redis st = R" "st_s3 st = Some S" "entry_ok st k" "object_key k = Some obj"
  shows "serves \<beta> \<alpha> (render k) obj (ondemand_read st k)"
  using assms(3,4)
  by (cases k)
     (auto simp: assms(1,2) read_defs intro!: serves_redis_first serves_or_none serves_s3_leg serves_gfs_s3_leg)

lemma full_serves:
  assumes "st_redis st = R" "st_s3 st = Some S" "entry_ok st k" "object_key k = Some obj"
  shows "serves \<beta> \<alpha> (render k) obj (full_read st k)"
proof -
  note o = ondemand_serves [OF assms]
  show ?thesis
    using assms(3,4) o
    by (cases k)
       (auto simp: assms(1,2) fallback_of_def get_satellite_tile_def get_radar_tile_def get_ecmwf_tp_tile_def
          get_ecmwf_mslp_geojson_def get_wrf_tile_def get_wrf_geojson_def
          sat_full_get_tile_def radar_full_get_tile_def tp_full_get_tile_def mslp_full_get_geojson_def
          wrf_full_get_tile_def wrf_full_get_geojson_def intro!: serves_redis_first)
qed

lemma read_entry_serves:
  assumes "st_redis st = R" "st_s3 st = Some S" "entry_ok st k" "object_key k = Some obj"
  shows "serves \<beta> \<alpha> (render k) obj (read_entry full st k)"
  using ondemand_serves [OF assms] full_serves [OF assms] by (simp add: read_entry_def)

lemma answers_s3_leg: "readable S \<beta> obj \<Longrightarrow> answers \<beta> obj (s3_leg (Some S) obj store)"
  using answers_download by (simp add: s3_leg_def)

lemma answers_gfs_s3_leg:
  assumes "readable S \<beta> obj" "st_s3 st = Some S" "s3_segment p = Some g" "obj = key_of g"
  shows "answers \<beta> obj (gfs_s3_leg st p key_of store)"
  using answers_download [OF assms(1), of "\<lambda>d. run_throttled (store d)"]
  unfolding gfs_s3_leg_def gfs_source_def schedule_cache_write_def assms(2-4) by simp

lemma ondemand_answers:
  assumes "st_redis st = R" "st_s3 st = Some S" "entry_ok st k" "object_key k = Some obj" "readable S \<beta> obj"
  shows "answers \<beta> obj (ondemand_read st k)"
  using assms(3-5)
  by (cases k)
     (auto simp: assms(1,2) read_defs intro!: answers_redis_first answers_or_none answers_s3_leg answers_gfs_s3_leg)

lemma read_entry_answers:
  assumes "st_redis st = R" "st_s3 st = Some S" "entry_ok st k" "object_key k = Some obj" "readable S \<beta> obj"
  shows "answers \<beta> obj (read_entry full st k)"
proof -
  note o = ondemand_answers [OF assms]
  have "answers \<beta> obj (full_read st k)"
    using assms(3,4) o
    by (cases k)
       (auto simp: assms(1,2) fallback_of_def get_satellite_tile_def get_radar_tile_def get_ecmwf_tp_tile_def
          get_ecmwf_mslp_geojson_def get_wrf_tile_def get_wrf_geojson_def
          sat_full_get_tile_def radar_full_get_tile_def tp_full_get_tile_def mslp_full_get_geojson_def
          wrf_full_get_tile_def wrf_full_get_geojson_def intro!: answers_redis_first)
  then show ?thesis using o by (simp add: read_entry_def)
qed

text \<open>One read on a coherent cache.\<close>

lemma read_entry_coherent:
  assumes "st_redis st = R" "st_s3 st = Some S" "entry_ok st k" "object_key k = Some obj"
    and "coherent (\<beta> w) (\<alpha> w)" "read_entry full st k w = (r, w')"
  shows "\<beta> w' = \<beta> w" "coherent (\<beta> w') (\<alpha> w')" "r = Inr v \<Longrightarrow> v = None \<or> v = \<beta> w obj"
proof -
  note s = servesD [OF read_entry_serves [OF assms(1-4)] assms(6)]
  have wf: "wf_key k" using assms(3) by (rule entry_ok_wf)
  show b: "\<beta> w' = \<beta> w" by (rule s(1))
  show "coherent (\<beta> w') (\<alpha> w')"
    using s(2) assms(5) coherent_store [OF assms(5) wf assms(4)] unfolding b by auto
  show "v = None \<or> v = \<beta> w obj" if "r = Inr v"
    using s(3) [OF that] assms(4,5) wf unfolding coherent_def by auto
qed

end

section \<open>Runs\<close>

text \<open>
  The life of the cache: reads of entries under either strategy, whether they return or
  raise, and the server dropping any entries (expiry, eviction, a flush).
\<close>

inductive cache_run :: "'w strategy \<Rightarrow> ('w \<Rightarrow> bucket) \<Rightarrow> ('w \<Rightarrow> keyspace) \<Rightarrow> 'w \<Rightarrow> 'w \<Rightarrow> bool"
  for st \<beta> \<alpha> where
  start: "cache_run st \<beta> \<alpha> w w"
| read: "cache_run st \<beta> \<alpha> w w1 \<Longrightarrow> entry_ok st k \<Longrightarrow> object_key k = Some obj \<Longrightarrow>
         read_entry full st k w1 = (r, w2) \<Longrightarrow> cache_run st \<beta> \<alpha> w w2"
| evict: "cache_run st \<beta> \<alpha> w w1 \<Longrightarrow> \<beta> w2 = \<beta> w1 \<Longrightarrow> \<alpha> w2 = \<alpha> w1 |` kept \<Longrightarrow> cache_run st \<beta> \<alpha> w w2"

lemma cache_run_coherent:
  assumes "cache_run st \<beta> \<alpha> w w'" "cached_bucket S \<beta> R \<alpha>" "st_redis st = R" "st_s3 st = Some S"
    and "coherent (\<beta> w) (\<alpha> w)"
  shows "\<beta> w' = \<beta> w \<and> coherent (\<beta> w') (\<alpha> w')"
  using assms(1,5)
proof (induction rule: cache_run.induct)
  case (start w)
  then show ?case by simp
next
  case (read w w1 k obj full r w2)
  have c: "\<beta> w1 = \<beta> w" "coherent (\<beta> w1) (\<alpha> w1)" using read.IH read.prems by auto
  show ?case
    using cached_bucket.read_entry_coherent(1,2) [OF assms(2-4) read.hyps(2,3) c(2) read.hyps(4)] c(1) by simp
next
  case (evict w w1 w2 kept)
  then show ?case using coherent_evict [of "\<beta> w1" "\<alpha> w1" kept] by auto
qed

text \<open>
  C3. Reads serve the bucket. Start from a cache that agrees with the bucket (an empty
  one does) and let any number of reads, failed reads, evictions and expiries happen. A
  read of a satellite, radar, ECMWF, WRF or GFS object under either strategy then answers
  with the bucket's bytes or with nothing, never with bytes of another object; and if the
  object is there, non-empty, and can be downloaded, every read that returns answers with it:
  eviction makes a read slower, never wrong and never unservable.
\<close>

theorem reads_serve_bucket:
  assumes "cached_bucket S \<beta> R \<alpha>" "st_redis st = R" "st_s3 st = Some S"
    and "coherent (\<beta> w0) (\<alpha> w0)" "cache_run st \<beta> \<alpha> w0 w"
    and "entry_ok st k" "object_key k = Some obj" "read_entry full st k w = (Inr v, w')"
  shows "(v = None \<or> v = \<beta> w0 obj) \<and> (readable S \<beta> obj \<longrightarrow> truthy (\<beta> w0 obj) \<longrightarrow> v = \<beta> w0 obj)"
proof -
  have c: "\<beta> w = \<beta> w0" "coherent (\<beta> w) (\<alpha> w)" using cache_run_coherent [OF assms(5,1,2,3,4)] by auto
  have v: "v = None \<or> v = \<beta> w0 obj"
    using cached_bucket.read_entry_coherent(3) [OF assms(1,2,3,6,7) c(2) assms(8) refl] c(1) by simp
  have "truthy v" if "readable S \<beta> obj" "truthy (\<beta> w0 obj)"
    using answersD [OF cached_bucket.read_entry_answers [OF assms(1,2,3,6,7) that(1)] _ assms(8)] that(2) c(1)
    by simp
  then show ?thesis using v by auto
qed

interpretation mem_cached: cached_bucket mem_s3 fst "pair_redis mem_redis" snd
  by unfold_locales
     (auto simp: pair_redis_def on_cache_eq mem_redis_def split: option.splits rvalue.splits)

definition demo_strategy :: "(bucket \<times> keyspace) strategy" where
  "demo_strategy =
     \<lparr> st_redis = pair_redis mem_redis, st_s3 = Some mem_s3, st_tile_ttl = 60, st_geojson_ttl = 60,
       st_listing_ttl = 60, st_keep = 2, st_network = ''sinarame'' \<rparr>"

lemma mem_readable: "readable mem_s3 fst obj"
  by (auto simp: readable_def download_tile_def ensure_connected_def mem_s3_def catching_def bnd_apply seq_apply
      infra_error.simps split: option.splits)

theorem reads_serve_bucket_witness:
  "let k = WrfTile ''t2m'' ''20260808T0000Z'' ''f003'' 4 5 9; obj = the (object_key k);
       w0 = ([obj \<mapsto> Raw ''img''], Map.empty)
   in \<exists>v w'. read_entry True demo_strategy k w0 = (Inr v, w') \<and> v = Some (Raw ''img'')"
proof -
  let ?k = "WrfTile ''t2m'' ''20260808T0000Z'' ''f003'' 4 5 9"
  let ?obj = "build_wrf_tile_key ''t2m'' ''20260808T0000Z'' ''f003'' 4 5 9"
  let ?w0 = "([?obj \<mapsto> Raw ''img''], Map.empty :: keyspace)"
  have st: "st_redis demo_strategy = pair_redis mem_redis" "st_s3 demo_strategy = Some mem_s3"
    by (simp_all add: demo_strategy_def)
  have ok: "entry_ok demo_strategy ?k" "object_key ?k = Some ?obj" by (simp_all add: seg_def)
  have coh: "coherent (fst ?w0) (snd ?w0)" using coherent_empty by simp
  have "\<exists>v w'. read_entry True demo_strategy ?k ?w0 = (Inr v, w')"
    by (simp add: read_entry_def wrf_full_get_tile_def wrf_ondemand_get_tile_def redis_first_def get_wrf_tile_def
        get_value_def conn_def demo_strategy_def pair_redis_def mem_redis_def on_cache_def fallback_of_def s3_leg_def
        download_tile_def ensure_connected_def mem_s3_def catching_def bnd_apply seq_apply spawn_def
        store_wrf_tile_def store_value_def)
  then obtain v w' where r: "read_entry True demo_strategy ?k ?w0 = (Inr v, w')" by blast
  have "v = Some (Raw ''img'')"
    using reads_serve_bucket [OF mem_cached.cached_bucket_axioms st coh cache_run.start ok r] mem_readable [of ?obj] by auto
  then show ?thesis using r by (simp add: Let_def)
qed

end
