(* ===== verification/Basemap_Reader.thy ===== *)
theory Basemap_Reader
  imports Http_Tile Read_Coherence Storage_Circuit
begin

text \<open>
  The tile reader (\<^verbatim>\<open>services/basemap_tile_reader.py\<close>): tombstone, upstream provider behind a
  breaker per provider, Redis, object store, in that order, with the cache writes in the
  background; the deadline; and the table of requests in flight that lets one lookup answer
  every concurrent request for the same tile.

  The state of a lookup is the world and the dictionary of breakers. A background write runs
  after the lookup has returned; as the lookup does nothing but return after scheduling it, it
  is run at that point. The semaphore of the writes and the log lines are not modelled.
\<close>

section \<open>State\<close>

type_synonym circuits = "(string \<times> circuit) list"

record 'w reader =
  rr_redis :: "'w redis"
  rr_s3 :: "'w s3 option"
  rr_download :: "source_url \<Rightarrow> ('w, pybytes option) io"
  rr_providers :: "(string \<times> basemap_provider) list"
  rr_tile_ttl :: int
  rr_online_fallback :: bool
  rr_redis_cache_enabled :: bool
  rr_s3_cache_enabled :: bool
  rr_negative_cache_enabled :: bool
  rr_negative_cache_ttl :: int
  rr_relay_circuit_enabled :: bool
  rr_relay_circuit_min_samples :: int
  rr_relay_circuit_threshold :: rat
  rr_relay_circuit_max_cooldown :: rat
  rr_monotonic :: "'w \<Rightarrow> rat \<times> 'w"
  rr_wait_for :: "('w \<times> circuits, pybytes option) io \<Rightarrow> ('w \<times> circuits, pybytes option) io"

text \<open>The constructor: the arguments are a record of the same shape.\<close>

definition new_reader :: "'w reader \<Rightarrow> exn + 'w reader" where
  "new_reader args =
     (if rr_s3_cache_enabled args \<and> rr_s3 args = None then Inl ValueError
      else Inr (args\<lparr> rr_negative_cache_enabled := rr_negative_cache_enabled args \<and> rr_redis_cache_enabled args,
                      rr_s3_cache_enabled := rr_s3_cache_enabled args \<and> rr_s3 args \<noteq> None \<rparr>))"

section \<open>Background writes and guarded reads\<close>

text \<open>\<^verbatim>\<open>except (httpx.HTTPError, asyncio.TimeoutError, OSError)\<close>.\<close>

fun transport_error :: "exn \<Rightarrow> bool" where
  "transport_error HTTPError = True"
| "transport_error TimeoutError = True"
| "transport_error OSError = True"
| "transport_error _ = False"

definition reader_run_throttled :: "('w, unit) io \<Rightarrow> ('w, unit) io" where
  "reader_run_throttled coro = bnd (catching any_exception coro) (\<lambda>_. ret ())"

definition reader_schedule_cache_write :: "('w, unit) io \<Rightarrow> ('w \<times> circuits, unit) io" where
  "reader_schedule_cache_write coro = on_world2 (spawn (reader_run_throttled coro))"

definition write_redis :: "'w reader \<Rightarrow> string \<Rightarrow> nat \<Rightarrow> int \<Rightarrow> int \<Rightarrow> pybytes \<Rightarrow> ('w, unit) io" where
  "write_redis rd provider_id z x y data =
     store_basemap_tile (rr_redis rd) provider_id (int z) x y data (Some (rr_tile_ttl rd))"

definition write_s3 :: "'w reader \<Rightarrow> string \<Rightarrow> pybytes \<Rightarrow> ('w, unit) io" where
  "write_s3 rd s3_key data =
     (case rr_s3 rd of
        None \<Rightarrow> raise (OtherError ''AssertionError'')
      | Some S \<Rightarrow> upload_tile S s3_key data ''image/png'')"

definition safe_redis_get :: "'w reader \<Rightarrow> string \<Rightarrow> nat \<Rightarrow> int \<Rightarrow> int \<Rightarrow> ('w, pybytes option) io" where
  "safe_redis_get rd provider_id z x y =
     bnd (catching transport_error (get_basemap_tile (rr_redis rd) provider_id (int z) x y)) (\<lambda>r.
       case r of Inl e \<Rightarrow> ret None | Inr d \<Rightarrow> ret d)"

definition safe_get_miss :: "'w reader \<Rightarrow> string \<Rightarrow> nat \<Rightarrow> int \<Rightarrow> int \<Rightarrow> ('w, bool) io" where
  "safe_get_miss rd provider_id z x y =
     bnd (catching transport_error (get_basemap_tile_miss (rr_redis rd) provider_id (int z) x y)) (\<lambda>r.
       case r of Inl e \<Rightarrow> ret False | Inr b \<Rightarrow> ret b)"

definition safe_s3_get :: "'w reader \<Rightarrow> string \<Rightarrow> ('w, pybytes option) io" where
  "safe_s3_get rd s3_key =
     (case rr_s3 rd of
        None \<Rightarrow> raise (OtherError ''AssertionError'')
      | Some S \<Rightarrow> bnd (catching transport_error (download_tile S s3_key)) (\<lambda>r.
          case r of Inl e \<Rightarrow> ret None | Inr d \<Rightarrow> ret d))"

section \<open>The upstream tier\<close>

definition new_relay_circuit :: "'w reader \<Rightarrow> string \<Rightarrow> circuit" where
  "new_relay_circuit rd provider_id =
     new_circuit (''Relay '' @ provider_id) DEFAULT_WINDOW (rr_relay_circuit_min_samples rd)
       (rr_relay_circuit_threshold rd) DEFAULT_BASE_COOLDOWN (rr_relay_circuit_max_cooldown rd)
       DEFAULT_MAX_CONSECUTIVE_TRIPS"

definition relay_circuit :: "'w reader \<Rightarrow> string \<Rightarrow> ('w \<times> circuits, circuit option) io" where
  "relay_circuit rd provider_id =
     (if \<not> rr_relay_circuit_enabled rd then ret None
      else bnd (reads snd) (\<lambda>cs.
        case map_of cs provider_id of
          Some c \<Rightarrow> ret (Some c)
        | None \<Rightarrow> let c = new_relay_circuit rd provider_id
                   in seq (on_state2 (\<lambda>cs. dict_set cs provider_id c)) (ret (Some c))))"

definition reader_clock :: "'w reader \<Rightarrow> ('w \<times> circuits, rat) io" where
  "reader_clock rd = on_world2 (\<lambda>w. case rr_monotonic rd w of (t, w') \<Rightarrow> (Inr t, w'))"

text \<open>What a download reports goes to the breaker's value at that moment.\<close>

definition record_relay ::
  "'w reader \<Rightarrow> string \<Rightarrow> (rat \<Rightarrow> rat \<Rightarrow> circuit \<Rightarrow> circuit_transition option \<times> circuit) \<Rightarrow> ('w \<times> circuits, unit) io" where
  "record_relay rd provider_id rec =
     (if \<not> rr_relay_circuit_enabled rd then ret ()
      else bnd (reader_clock rd) (\<lambda>t1. bnd (reader_clock rd) (\<lambda>t2.
        on_state2 (\<lambda>cs. case map_of cs provider_id of
            None \<Rightarrow> cs | Some c \<Rightarrow> dict_set cs provider_id (snd (rec t1 t2 c))))))"

definition download_from_provider ::
  "'w reader \<Rightarrow> string \<Rightarrow> basemap_provider \<Rightarrow> nat \<Rightarrow> int \<Rightarrow> int \<Rightarrow> ('w \<times> circuits, pybytes option) io" where
  "download_from_provider rd provider_id provider z x y =
     (case build_source_url provider z x y of
        None \<Rightarrow> raise (OtherError ''source url'')
      | Some url \<Rightarrow>
          bnd (catching (\<lambda>e. e = ProviderUnavailableError) (on_world2 (rr_download rd url))) (\<lambda>r.
            case r of
              Inl e \<Rightarrow> seq (record_relay rd provider_id record_failure) (ret None)
            | Inr data \<Rightarrow> seq (record_relay rd provider_id record_success) (ret data)))"

definition try_provider ::
  "'w reader \<Rightarrow> string \<Rightarrow> nat \<Rightarrow> int \<Rightarrow> int \<Rightarrow> ('w \<times> circuits, pybytes option) io" where
  "try_provider rd provider_id z x y =
     (if \<not> rr_online_fallback rd then ret None
      else case map_of (rr_providers rd) provider_id of
        None \<Rightarrow> ret None
      | Some provider \<Rightarrow>
          bnd (relay_circuit rd provider_id) (\<lambda>circuit.
            case circuit of
              None \<Rightarrow> download_from_provider rd provider_id provider z x y
            | Some c \<Rightarrow> bnd (reader_clock rd) (\<lambda>t.
                if \<not> allows_attempt t c then ret None
                else download_from_provider rd provider_id provider z x y)))"

section \<open>The chain\<close>

definition on_hit ::
  "('w \<times> circuits, pybytes option) io \<Rightarrow> (pybytes \<Rightarrow> ('w \<times> circuits, unit) io)
    \<Rightarrow> ('w \<times> circuits, pybytes option) io \<Rightarrow> ('w \<times> circuits, pybytes option) io" where
  "on_hit look found otherwise =
     bnd look (\<lambda>d. if truthy d then seq (found (the d)) (ret d) else otherwise)"

definition to_redis :: "'w reader \<Rightarrow> string \<Rightarrow> nat \<Rightarrow> int \<Rightarrow> int \<Rightarrow> pybytes \<Rightarrow> ('w \<times> circuits, unit) io" where
  "to_redis rd provider_id z x y data =
     (if rr_redis_cache_enabled rd
      then reader_schedule_cache_write (write_redis rd provider_id z x y data) else ret ())"

definition to_s3 :: "'w reader \<Rightarrow> string \<Rightarrow> pybytes \<Rightarrow> ('w \<times> circuits, unit) io" where
  "to_s3 rd s3_key data =
     (if rr_s3_cache_enabled rd then reader_schedule_cache_write (write_s3 rd s3_key data) else ret ())"

text \<open>Tiers two and three, and the tombstone of a full miss.\<close>

definition backup_tiers ::
  "'w reader \<Rightarrow> string \<Rightarrow> nat \<Rightarrow> int \<Rightarrow> int \<Rightarrow> ('w \<times> circuits, pybytes option) io" where
  "backup_tiers rd provider_id z x y =
     on_hit (if rr_redis_cache_enabled rd then on_world2 (safe_redis_get rd provider_id z x y) else ret None)
       (\<lambda>data. ret ())
    (on_hit (if rr_s3_cache_enabled rd
             then on_world2 (safe_s3_get rd (build_basemap_tile_key provider_id (int z) x y)) else ret None)
       (to_redis rd provider_id z x y)
       (seq (if rr_negative_cache_enabled rd
             then reader_schedule_cache_write
                    (mark_basemap_tile_miss (rr_redis rd) provider_id (int z) x y (rr_negative_cache_ttl rd))
             else ret ())
            (ret None)))"

definition resolve_tile ::
  "'w reader \<Rightarrow> string \<Rightarrow> nat \<Rightarrow> int \<Rightarrow> int \<Rightarrow> ('w \<times> circuits, pybytes option) io" where
  "resolve_tile rd provider_id z x y =
     (let s3_key = build_basemap_tile_key provider_id (int z) x y
      in bnd (if rr_negative_cache_enabled rd then on_world2 (safe_get_miss rd provider_id z x y) else ret False)
        (\<lambda>missed. if missed then ret None
         else bnd (try_provider rd provider_id z x y) (\<lambda>prod_data.
           case prod_data of
             Some data \<Rightarrow> seq (to_redis rd provider_id z x y data) (seq (to_s3 rd s3_key data) (ret prod_data))
           | None \<Rightarrow> backup_tiers rd provider_id z x y)))"

text \<open>The lookup of the request that leads: \<^verbatim>\<open>wait_for\<close> around the chain.\<close>

definition lead_tile ::
  "'w reader \<Rightarrow> string \<Rightarrow> nat \<Rightarrow> int \<Rightarrow> int \<Rightarrow> ('w \<times> circuits, pybytes option) io" where
  "lead_tile rd provider_id z x y =
     bnd (catching (\<lambda>e. e = TimeoutError) (rr_wait_for rd (resolve_tile rd provider_id z x y))) (\<lambda>r.
       case r of Inl e \<Rightarrow> ret None | Inr d \<Rightarrow> ret d)"

section \<open>What the chain returns and leaves behind\<close>

lemma reader_schedule_cache_write_apply [simp]:
  "reader_schedule_cache_write coro ws = (Inr (), (snd (coro (fst ws)), snd ws))"
  by (cases "coro (fst ws)")
     (auto simp: reader_schedule_cache_write_def on_world2_def spawn_def reader_run_throttled_def catching_def bnd_apply
       split: sum.splits)



section \<open>An instance\<close>

definition demo_provider :: basemap_provider where
  "demo_provider =
     \<lparr> bp_provider_id = ''argenmap'', bp_name = ''Argenmap'', bp_source_url_template = ''https://t/{z}/{x}/{y}.png'',
       bp_is_tms = False, bp_min_zoom = 3, bp_max_zoom = 12, bp_cache_max_zoom = 9, bp_attribution = [],
       bp_kind = XYZ, bp_wms = None, bp_is_overlay = False \<rparr>"

text \<open>Bucket and keyspace in memory, an upstream that answers each address the same way.\<close>

definition demo_reader :: "(source_url \<Rightarrow> exn + pybytes option) \<Rightarrow> (bucket \<times> keyspace) reader" where
  "demo_reader upstream =
     \<lparr> rr_redis = pair_redis mem_redis, rr_s3 = Some mem_s3, rr_download = (\<lambda>u w. (upstream u, w)),
       rr_providers = [(''argenmap'', demo_provider)], rr_tile_ttl = 60, rr_online_fallback = True,
       rr_redis_cache_enabled = True, rr_s3_cache_enabled = True, rr_negative_cache_enabled = True,
       rr_negative_cache_ttl = 300, rr_relay_circuit_enabled = True, rr_relay_circuit_min_samples = 5,
       rr_relay_circuit_threshold = 8 / 10, rr_relay_circuit_max_cooldown = 30,
       rr_monotonic = (\<lambda>w. (100, w)), rr_wait_for = id \<rparr>"


definition demo_object :: string where
  "demo_object = build_basemap_tile_key ''argenmap'' 3 2 1"





lemma mem_connected: "rd_connected (pair_redis mem_redis)"
  by (simp add: pair_redis_def mem_redis_def)



lemmas reader_defs =
  resolve_tile_def backup_tiers_def on_hit_def to_redis_def to_s3_def write_redis_def store_basemap_tile_def
  store_value_def safe_get_miss_def get_basemap_tile_miss_def safe_redis_get_def get_basemap_tile_def get_value_def
  safe_s3_get_def conn_def catching_def on_world2_def



lemma demo_parts:
  fixes upstream
  defines "rd \<equiv> demo_reader upstream"
  shows "rr_redis rd = pair_redis mem_redis" "rr_s3 rd = Some mem_s3" "rr_redis_cache_enabled rd"
    "rr_s3_cache_enabled rd" "rr_negative_cache_enabled rd" "rr_tile_ttl rd = 60"
  by (simp_all add: rd_def demo_reader_def)


section \<open>Properties\<close>



text \<open>
  A Redis outage hides the tile from every tier: the handlers name transport errors, and an
  error of the Redis client is none of them, so when the tombstone check raises one the lookup
  raises it, before the upstream is asked, whatever the upstream and the bucket hold.
\<close>

theorem redis_outage_hides_tile:
  assumes "rr_negative_cache_enabled rd" "rd_connected (rr_redis rd)"
    and "rd_exists (rr_redis rd) (basemap_miss_key pid (int z) x y) w = (Inl (RedisError msg), w1)"
  shows "resolve_tile rd pid z x y (w, cs) = (Inl (RedisError msg), (w1, cs))"
  using assms by (simp add: reader_defs bnd_apply Let_def)

theorem redis_outage_hides_tile_witness:
  "let rd = (demo_reader (\<lambda>u. Inr (Some (Raw ''png''))))
              \<lparr> rr_redis := (pair_redis mem_redis)\<lparr> rd_exists := (\<lambda>k. raise (RedisError ''down'')) \<rparr> \<rparr>
   in resolve_tile rd ''argenmap'' 3 2 1 (([demo_object \<mapsto> Raw ''img''], Map.empty), [])
        = (Inl (RedisError ''down''), (([demo_object \<mapsto> Raw ''img''], Map.empty), []))"
  unfolding Let_def
  by (rule redis_outage_hides_tile) (simp_all add: demo_parts mem_connected)

end
