(* ===== verification/Basemap_Service.thy ===== *)
theory Basemap_Service
  imports Basemap_Reader Basemap_Flight
begin

text \<open>
  The base map service (\<^verbatim>\<open>services/basemap_service.py\<close>): the listing of providers with the
  availability check behind it, and the validation of tile requests. The check of the request
  that leads is modelled here; the table that lets concurrent checks of one provider share it is
  that of \<^verbatim>\<open>Basemap_Flight\<close>. Gathered coroutines are run in list order.
\<close>

section \<open>State\<close>

record 'w basemap_service =
  bv_reader :: "'w reader option"
  bv_providers :: "(string \<times> basemap_provider) list"
  bv_online_fallback :: bool
  bv_s3 :: "'w s3 option"
  bv_redis :: "'w redis option"
  bv_http :: "(source_url \<Rightarrow> ('w, pybytes option) io) option"
  bv_availability_ttl :: int

definition new_basemap_service :: "'w basemap_service" where
  "new_basemap_service =
     \<lparr> bv_reader = None, bv_providers = [], bv_online_fallback = True, bv_s3 = None, bv_redis = None,
       bv_http = None, bv_availability_ttl = 240 \<rparr>"

definition configure ::
  "'w reader \<Rightarrow> (string \<times> basemap_provider) list \<Rightarrow> bool \<Rightarrow> 'w s3 option \<Rightarrow> 'w redis
    \<Rightarrow> (source_url \<Rightarrow> ('w, pybytes option) io) \<Rightarrow> int \<Rightarrow> 'w basemap_service \<Rightarrow> 'w basemap_service" where
  "configure reader providers online_fallback s3_client redis_client http_client availability_ttl bv =
     bv\<lparr> bv_reader := Some reader, bv_providers := providers, bv_online_fallback := online_fallback,
         bv_s3 := s3_client, bv_redis := Some redis_client, bv_http := Some http_client,
         bv_availability_ttl := availability_ttl \<rparr>"

record provider_info =
  pi_id :: string
  pi_name :: string
  pi_min_zoom :: nat
  pi_max_zoom :: nat
  pi_cache_max_zoom :: nat
  pi_attribution :: string

section \<open>Availability\<close>

text \<open>\<^verbatim>\<open>except (OSError, asyncio.TimeoutError)\<close>.\<close>

definition os_or_timeout :: "exn \<Rightarrow> bool" where
  "os_or_timeout e = (e = OSError \<or> e = TimeoutError)"

definition basemap_prefix :: "basemap_provider \<Rightarrow> string" where
  "basemap_prefix provider = ''basemap/'' @ bp_provider_id provider @ ''/''"

definition has_any_s3_tile :: "'w basemap_service \<Rightarrow> basemap_provider \<Rightarrow> ('w, bool) io" where
  "has_any_s3_tile bv provider =
     (case bv_s3 bv of
        None \<Rightarrow> ret False
      | Some S \<Rightarrow>
          bnd (catching os_or_timeout (has_any_object S (basemap_prefix provider))) (\<lambda>r.
            case r of Inl e \<Rightarrow> ret False | Inr b \<Rightarrow> ret b))"

definition probe_provider :: "'w basemap_service \<Rightarrow> basemap_provider \<Rightarrow> ('w, bool) io" where
  "probe_provider bv provider =
     (case bv_http bv of
        None \<Rightarrow> ret False
      | Some download \<Rightarrow>
          (case build_source_url provider (bp_min_zoom provider) 0 0 of
             None \<Rightarrow> raise (OtherError ''source url'')
           | Some url \<Rightarrow>
               bnd (catching (\<lambda>e. e = ProviderUnavailableError) (download url)) (\<lambda>r.
                 case r of Inl e \<Rightarrow> ret False | Inr data \<Rightarrow> ret (truthy data))))"

text \<open>\<^verbatim>\<open>gather(.., return_exceptions=True)\<close>: an exception is a result that is not \<^verbatim>\<open>True\<close>.\<close>

definition result_is_true :: "('w, bool) io \<Rightarrow> ('w, bool) io" where
  "result_is_true m w = (case m w of (r, w') \<Rightarrow> (Inr (r = Inr True), w'))"

definition refresh_availability :: "'w basemap_service \<Rightarrow> basemap_provider \<Rightarrow> ('w, bool) io" where
  "refresh_availability bv provider =
     bnd (result_is_true (probe_provider bv provider)) (\<lambda>probe_ok.
     bnd (result_is_true (has_any_s3_tile bv provider)) (\<lambda>s3_ok.
       let available = (probe_ok \<or> s3_ok)
       in seq (case bv_redis bv of
                 None \<Rightarrow> ret ()
               | Some R \<Rightarrow>
                   bnd (catching os_or_timeout
                          (set_basemap_provider_availability R (bp_provider_id provider) available
                             (bv_availability_ttl bv))) (\<lambda>_. ret ()))
              (ret available)))"

definition cached_availability :: "'w basemap_service \<Rightarrow> basemap_provider \<Rightarrow> ('w, bool option) io" where
  "cached_availability bv provider =
     (case bv_redis bv of
        None \<Rightarrow> ret None
      | Some R \<Rightarrow>
          bnd (catching os_or_timeout (get_basemap_provider_availability R (bp_provider_id provider))) (\<lambda>r.
            case r of Inl e \<Rightarrow> ret None | Inr c \<Rightarrow> ret c))"

definition check_provider_available :: "'w basemap_service \<Rightarrow> basemap_provider \<Rightarrow> ('w, bool) io" where
  "check_provider_available bv provider =
     (if \<not> bv_online_fallback bv then has_any_s3_tile bv provider
      else bnd (cached_availability bv provider) (\<lambda>cached.
        case cached of Some b \<Rightarrow> ret b | None \<Rightarrow> refresh_availability bv provider))"

definition info_of :: "basemap_provider \<Rightarrow> provider_info" where
  "info_of p =
     \<lparr> pi_id = bp_provider_id p, pi_name = bp_name p, pi_min_zoom = bp_min_zoom p, pi_max_zoom = bp_max_zoom p,
       pi_cache_max_zoom = bp_cache_max_zoom p, pi_attribution = bp_attribution p \<rparr>"

definition list_providers :: "'w basemap_service \<Rightarrow> ('w, provider_info list) io" where
  "list_providers bv =
     (let candidates = filter (\<lambda>p. \<not> bp_is_overlay p) (map snd (bv_providers bv))
      in bnd (for_each candidates (check_provider_available bv)) (\<lambda>flags.
           ret (map (\<lambda>(p, available). info_of p) (filter snd (zip candidates flags)))))"

section \<open>Tiles\<close>

definition BasemapNotConfiguredError :: exn where
  "BasemapNotConfiguredError = OtherError ''BasemapNotConfiguredError''"

definition get_tile_data ::
  "'w basemap_service \<Rightarrow> string \<Rightarrow> nat \<Rightarrow> int \<Rightarrow> int \<Rightarrow> ('w \<times> circuits, pybytes option) io" where
  "get_tile_data bv provider_id z x y =
     (case bv_reader bv of
        None \<Rightarrow> raise BasemapNotConfiguredError
      | Some rd \<Rightarrow> lead_tile rd provider_id z x y)"

definition validate_provider :: "'w basemap_service \<Rightarrow> string \<Rightarrow> bool" where
  "validate_provider bv provider_id = (map_of (bv_providers bv) provider_id \<noteq> None)"

definition validate_zoom :: "'w basemap_service \<Rightarrow> string \<Rightarrow> int \<Rightarrow> bool" where
  "validate_zoom bv provider_id z =
     (case map_of (bv_providers bv) provider_id of
        None \<Rightarrow> False
      | Some provider \<Rightarrow> int (bp_min_zoom provider) \<le> z \<and> z \<le> int (bp_max_zoom provider))"

section \<open>What a listing means\<close>

text \<open>
  A check leaves its verdict in Redis: the next check of the provider returns it without asking
  the upstream or the bucket.
\<close>

lemma availability_roundtrip:
  assumes srv: "redis_server R \<alpha>"
    and set: "set_basemap_provider_availability R pid b ttl w = (Inr (), w1)"
    and get: "get_basemap_provider_availability R pid w1 = (Inr c, w2)"
  shows "c = Some b"
proof -
  have c: "rd_connected R" by (rule redis_server.connected [OF srv])
  have "\<alpha> w1 = (\<alpha> w)(basemap_availability_key pid \<mapsto> RString (Raw (if b then ''1'' else ''0'')))"
    using set redis_server.set_returns [OF srv] c
    by (auto simp: set_basemap_provider_availability_def conn_def)
  moreover obtain v w' where g: "rd_get R (basemap_availability_key pid) w1 = (Inr v, w')"
    using get c by (auto simp: get_basemap_provider_availability_def conn_def bnd_eq_Inr)
  ultimately have "v = Some (Raw (if b then ''1'' else ''0''))"
    using redis_server.get_returns [OF srv g] by simp
  then show ?thesis
    using get g c by (auto simp: get_basemap_provider_availability_def conn_def bnd_apply split: if_splits)
qed

lemma listed_providers:
  assumes "list_providers bv w = (Inr infos, w')"
  shows "set infos \<subseteq> info_of ` {p. \<not> bp_is_overlay p \<and> p \<in> snd ` set (bv_providers bv)}"
  using assms by (auto simp: list_providers_def Let_def bnd_eq_Inr dest!: set_zip_leftD)

lemma validated_zoom_is_served:
  assumes "validate_zoom bv pid z" shows "validate_provider bv pid \<and> 0 \<le> z"
  using assms by (auto simp: validate_zoom_def validate_provider_def split: option.splits)

end
