(* ===== verification/Metrics_Store.thy ===== *)
theory Metrics_Store
  imports Prelude
begin

text \<open>
  The SQLite store of the metrics dashboard (\<^verbatim>\<open>clients/metrics_store.py\<close>). A table is the list
  of its rows in insertion order beside the counter of its AUTOINCREMENT key: an inserted row
  gets the next id and ids are never reused. SQL text comparison is the lexicographic order of
  the ISO-8601 strings. Rows a query leaves in no particular order come in insertion order; the
  lock and the thread offloading are not modelled, since every method is one critical section.
\<close>

section \<open>Tables\<close>

record 'r table =
  tb_rows :: "(nat \<times> 'r) list"
  tb_seq :: nat

definition empty_table :: "'r table" where
  "empty_table = \<lparr> tb_rows = [], tb_seq = 0 \<rparr>"

definition insert_row :: "'r \<Rightarrow> 'r table \<Rightarrow> 'r table" where
  "insert_row r t = \<lparr> tb_rows = tb_rows t @ [(Suc (tb_seq t), r)], tb_seq = Suc (tb_seq t) \<rparr>"

definition delete_where :: "(nat \<times> 'r \<Rightarrow> bool) \<Rightarrow> 'r table \<Rightarrow> 'r table" where
  "delete_where P t = t\<lparr> tb_rows := filter (\<lambda>r. \<not> P r) (tb_rows t) \<rparr>"

text \<open>Ids ascend in insertion order and stay below the counter.\<close>

fun table_ok :: "'r table \<Rightarrow> bool" where
  "table_ok t = (sorted_wrt (<) (map fst (tb_rows t)) \<and> list_all (\<lambda>r. fst r \<le> tb_seq t) (tb_rows t))"

lemma table_ok_empty [simp]: "table_ok empty_table"
  by (simp add: empty_table_def)

lemma table_ok_insert [simp]: "table_ok t \<Longrightarrow> table_ok (insert_row r t)"
  by (auto simp: insert_row_def sorted_wrt_append list_all_iff le_SucI less_Suc_eq_le)

lemma table_ok_delete [simp]: "table_ok t \<Longrightarrow> table_ok (delete_where P t)"
  by (auto simp: delete_where_def sorted_wrt_map list_all_iff intro: sorted_wrt_filter)

section \<open>Rows\<close>

record sync_cycle_row =
  cy_domain :: string
  cy_started_at :: string
  cy_finished_at :: string
  cy_duration_ms :: int
  cy_downloaded :: int
  cy_errors :: int
  cy_outcome :: string

record memory_row =
  mr_sampled_at :: string
  mr_domain :: string
  mr_key_count :: int
  mr_memory_bytes :: int

text \<open>The numeric columns of an INFO row, in the order of \<^verbatim>\<open>_INFO_FIELDS\<close>.\<close>

record info_row =
  ir_sampled_at :: string
  ir_values :: "rat option list"

definition INFO_FIELDS :: "string list" where
  "INFO_FIELDS =
     [''used_memory'', ''used_memory_rss'', ''used_memory_peak'', ''maxmemory'', ''mem_fragmentation_ratio'',
      ''evicted_keys'', ''expired_keys'', ''keyspace_hits'', ''keyspace_misses'', ''connected_clients'',
      ''total_keys'']"

record metrics_db =
  md_cycles :: "sync_cycle_row table"
  md_memory :: "memory_row table"
  md_info :: "info_row table"

definition empty_metrics_db :: metrics_db where
  "empty_metrics_db = \<lparr> md_cycles = empty_table, md_memory = empty_table, md_info = empty_table \<rparr>"

section \<open>The connection\<close>

text \<open>A store object: the migrated file behind its path and whether \<^verbatim>\<open>_conn\<close> is set.\<close>

record metrics_store =
  ms_db :: metrics_db
  ms_connected :: bool

definition metrics_connect :: "metrics_store \<Rightarrow> metrics_store" where
  "metrics_connect st = (if ms_connected st then st else st\<lparr> ms_connected := True \<rparr>)"

definition metrics_close :: "metrics_store \<Rightarrow> metrics_store" where
  "metrics_close st = (if ms_connected st then st\<lparr> ms_connected := False \<rparr> else st)"

definition metrics_require_conn :: "(metrics_store, metrics_db) io" where
  "metrics_require_conn st = (if ms_connected st then (Inr (ms_db st), st) else (Inl RuntimeError, st))"

definition metrics_query :: "(metrics_db \<Rightarrow> 'a) \<Rightarrow> (metrics_store, 'a) io" where
  "metrics_query q = bnd metrics_require_conn (\<lambda>db. ret (q db))"

definition metrics_execute :: "(metrics_db \<Rightarrow> metrics_db) \<Rightarrow> (metrics_store, unit) io" where
  "metrics_execute u = bnd metrics_require_conn (\<lambda>db st. (Inr (), st\<lparr> ms_db := u db \<rparr>))"

section \<open>Writes\<close>

definition insert_cycle :: "sync_cycle_row \<Rightarrow> metrics_db \<Rightarrow> metrics_db" where
  "insert_cycle row db = db\<lparr> md_cycles := insert_row row (md_cycles db) \<rparr>"

definition record_sync_cycle ::
  "string \<Rightarrow> string \<Rightarrow> string \<Rightarrow> int \<Rightarrow> int \<Rightarrow> int \<Rightarrow> string \<Rightarrow> (metrics_store, unit) io" where
  "record_sync_cycle domain started_at finished_at duration_ms downloaded errors outcome =
     metrics_execute (insert_cycle
       \<lparr> cy_domain = domain, cy_started_at = started_at, cy_finished_at = finished_at,
         cy_duration_ms = duration_ms, cy_downloaded = downloaded, cy_errors = errors, cy_outcome = outcome \<rparr>)"

definition insert_memory :: "string \<Rightarrow> (string \<times> int \<times> int) list \<Rightarrow> metrics_db \<Rightarrow> metrics_db" where
  "insert_memory sampled_at rows db =
     db\<lparr> md_memory := foldl (\<lambda>t (domain, kc, mb).
           insert_row \<lparr> mr_sampled_at = sampled_at, mr_domain = domain, mr_key_count = kc, mr_memory_bytes = mb \<rparr> t)
         (md_memory db) rows \<rparr>"

definition record_memory_sample :: "string \<Rightarrow> (string \<times> int \<times> int) list \<Rightarrow> (metrics_store, unit) io" where
  "record_memory_sample sampled_at rows =
     (if rows = [] then ret () else metrics_execute (insert_memory sampled_at rows))"

definition insert_info :: "string \<Rightarrow> (string \<rightharpoonup> rat) \<Rightarrow> metrics_db \<Rightarrow> metrics_db" where
  "insert_info sampled_at info db =
     db\<lparr> md_info := insert_row \<lparr> ir_sampled_at = sampled_at, ir_values = map info INFO_FIELDS \<rparr> (md_info db) \<rparr>"

definition record_info_sample :: "string \<Rightarrow> (string \<rightharpoonup> rat) \<Rightarrow> (metrics_store, unit) io" where
  "record_info_sample sampled_at info = metrics_execute (insert_info sampled_at info)"

definition prune_db :: "string \<Rightarrow> metrics_db \<Rightarrow> metrics_db" where
  "prune_db before_iso db =
     \<lparr> md_cycles = delete_where (\<lambda>(i, r). cy_finished_at r < before_iso) (md_cycles db),
       md_memory = delete_where (\<lambda>(i, r). mr_sampled_at r < before_iso) (md_memory db),
       md_info = delete_where (\<lambda>(i, r). ir_sampled_at r < before_iso) (md_info db) \<rparr>"

definition prune :: "string \<Rightarrow> (metrics_store, unit) io" where
  "prune before_iso = metrics_execute (prune_db before_iso)"

text \<open>
  \<^verbatim>\<open>SELECT id .. ORDER BY id DESC LIMIT 1 OFFSET max_rows - 1\<close>, then the range delete below it;
  the second component is the row count of the delete.
\<close>

definition nth_newest_id :: "nat \<Rightarrow> 'r table \<Rightarrow> nat option" where
  "nth_newest_id offset t =
     (let ids = rev (sort (map fst (tb_rows t))) in if offset < length ids then Some (ids ! offset) else None)"

definition cap_table :: "int \<Rightarrow> 'r table \<Rightarrow> 'r table \<times> nat" where
  "cap_table max_rows t =
     (case nth_newest_id (nat (max_rows - 1)) t of
        None \<Rightarrow> (t, 0)
      | Some i \<Rightarrow>
          let t' = delete_where (\<lambda>r. fst r < i) t
          in (t', length (tb_rows t) - length (tb_rows t')))"

definition cap_db :: "int \<Rightarrow> metrics_db \<Rightarrow> metrics_db \<times> nat" where
  "cap_db max_rows db =
     (let (c, n1) = cap_table max_rows (md_cycles db);
          (m, n2) = cap_table max_rows (md_memory db);
          (i, n3) = cap_table max_rows (md_info db)
      in (\<lparr> md_cycles = c, md_memory = m, md_info = i \<rparr>, n1 + n2 + n3))"

definition prune_to_max_rows :: "int \<Rightarrow> (metrics_store, nat) io" where
  "prune_to_max_rows max_rows =
     (if max_rows \<le> 0 then ret 0
      else bnd (metrics_query (\<lambda>db. snd (cap_db max_rows db))) (\<lambda>total.
           seq (metrics_execute (\<lambda>db. fst (cap_db max_rows db))) (ret total)))"

section \<open>Sync-cycle reads\<close>

text \<open>\<^verbatim>\<open>WHERE id IN (SELECT MAX(id) .. GROUP BY domain) ORDER BY domain\<close>.\<close>

definition latest_per_domain :: "metrics_db \<Rightarrow> sync_cycle_row list" where
  "latest_per_domain db =
     (let rows = tb_rows (md_cycles db);
          newest = (\<lambda>d. Max (fst ` {r \<in> set rows. cy_domain (snd r) = d}))
      in sort_key cy_domain (map snd (filter (\<lambda>r. fst r = newest (cy_domain (snd r))) rows)))"

definition get_latest_sync_per_domain :: "(metrics_store, sync_cycle_row list) io" where
  "get_latest_sync_per_domain = metrics_query latest_per_domain"

text \<open>\<^verbatim>\<open>if before_iso\<close> and \<^verbatim>\<open>if domain\<close>: the empty text filters nothing.\<close>

fun given :: "string option \<Rightarrow> (string \<Rightarrow> bool) \<Rightarrow> bool" where
  "given None P = True"
| "given (Some s) P = (s = [] \<or> P s)"

definition select_cycles ::
  "string \<Rightarrow> string option \<Rightarrow> int \<Rightarrow> string option \<Rightarrow> metrics_db \<Rightarrow> sync_cycle_row list" where
  "select_cycles since_iso domain limit before_iso db =
     (let rows = filter (\<lambda>r. since_iso \<le> cy_finished_at r \<and>
                           given before_iso (\<lambda>b. cy_finished_at r < b) \<and> given domain (\<lambda>d. cy_domain r = d))
                   (map snd (tb_rows (md_cycles db)));
          newest_first = sorted_desc_key cy_finished_at rows
      in if 0 < limit then take (nat limit) newest_first else newest_first)"

definition get_sync_cycles ::
  "string \<Rightarrow> string option \<Rightarrow> int \<Rightarrow> string option \<Rightarrow> (metrics_store, sync_cycle_row list) io" where
  "get_sync_cycles since_iso domain limit before_iso =
     metrics_query (select_cycles since_iso domain limit before_iso)"

record history_bucket =
  hb_bucket :: string
  hb_domain :: string
  hb_cycles :: nat
  hb_downloaded :: int
  hb_errors :: int
  hb_avg_duration_ms :: rat

definition bucket_length :: "string \<Rightarrow> nat" where
  "bucket_length bucket = (if bucket = ''day'' then 10 else if bucket = ''10min'' then 15 else 13)"

text \<open>\<^verbatim>\<open>GROUP BY bucket, domain ORDER BY bucket, domain\<close> over \<^verbatim>\<open>substr(finished_at, 1, n)\<close>.\<close>

definition cycle_history :: "string \<Rightarrow> string \<Rightarrow> string option \<Rightarrow> metrics_db \<Rightarrow> history_bucket list" where
  "cycle_history since_iso bucket domain db =
     (let rows = filter (\<lambda>r. since_iso \<le> cy_finished_at r \<and> given domain (\<lambda>d. cy_domain r = d))
                   (map snd (tb_rows (md_cycles db)));
          group = (\<lambda>r. (take (bucket_length bucket) (cy_finished_at r), cy_domain r));
          groups = sort_key fst (sort_key snd (remdups (map group rows)))
      in map (\<lambda>g. let rs = filter (\<lambda>r. group r = g) rows
                   in \<lparr> hb_bucket = fst g, hb_domain = snd g, hb_cycles = length rs,
                        hb_downloaded = sum_list (map cy_downloaded rs), hb_errors = sum_list (map cy_errors rs),
                        hb_avg_duration_ms = of_int (sum_list (map cy_duration_ms rs)) / of_nat (length rs) \<rparr>)
           groups)"

definition get_sync_history ::
  "string \<Rightarrow> string \<Rightarrow> string option \<Rightarrow> (metrics_store, history_bucket list) io" where
  "get_sync_history since_iso bucket domain = metrics_query (cycle_history since_iso bucket domain)"

section \<open>Memory and INFO reads\<close>

definition latest_memory :: "metrics_db \<Rightarrow> string option \<times> memory_row list" where
  "latest_memory db =
     (case map snd (tb_rows (md_memory db)) of
        [] \<Rightarrow> (None, [])
      | rows \<Rightarrow>
          let sampled_at = Max (mr_sampled_at ` set rows)
          in if sampled_at = [] then (None, [])
             else (Some sampled_at,
                   sorted_desc_key mr_memory_bytes (filter (\<lambda>r. mr_sampled_at r = sampled_at) rows)))"

definition get_latest_memory :: "(metrics_store, string option \<times> memory_row list) io" where
  "get_latest_memory = metrics_query latest_memory"

definition memory_history :: "string \<Rightarrow> string option \<Rightarrow> metrics_db \<Rightarrow> memory_row list" where
  "memory_history since_iso domain db =
     sort_key mr_sampled_at (sort_key mr_domain
       (filter (\<lambda>r. since_iso \<le> mr_sampled_at r \<and> given domain (\<lambda>d. mr_domain r = d))
          (map snd (tb_rows (md_memory db)))))"

definition get_memory_history :: "string \<Rightarrow> string option \<Rightarrow> (metrics_store, memory_row list) io" where
  "get_memory_history since_iso domain = metrics_query (memory_history since_iso domain)"

text \<open>\<^verbatim>\<open>_to_info_sample\<close>: every column but the fragmentation ratio is read as an integer.\<close>

definition to_info_sample :: "info_row \<Rightarrow> info_row" where
  "to_info_sample r =
     r\<lparr> ir_values := map (\<lambda>(f, v). if f = ''mem_fragmentation_ratio'' then v
                              else map_option (\<lambda>q. of_int (Prelude.py_trunc q)) v) (zip INFO_FIELDS (ir_values r)) \<rparr>"

definition latest_info :: "metrics_db \<Rightarrow> info_row option" where
  "latest_info db =
     (case tb_rows (md_info db) of
        [] \<Rightarrow> None
      | rows \<Rightarrow> map_option to_info_sample (map_of rows (Max (fst ` set rows))))"

definition get_latest_info :: "(metrics_store, info_row option) io" where
  "get_latest_info = metrics_query latest_info"

definition info_history :: "string \<Rightarrow> metrics_db \<Rightarrow> info_row list" where
  "info_history since_iso db =
     map to_info_sample (sort_key ir_sampled_at
       (filter (\<lambda>r. since_iso \<le> ir_sampled_at r) (map snd (tb_rows (md_info db)))))"

definition get_info_history :: "string \<Rightarrow> (metrics_store, info_row list) io" where
  "get_info_history since_iso = metrics_query (info_history since_iso)"

section \<open>Invariant\<close>

fun metrics_ok :: "metrics_db \<Rightarrow> bool" where
  "metrics_ok db = (table_ok (md_cycles db) \<and> table_ok (md_memory db) \<and> table_ok (md_info db))"

lemma metrics_ok_cycle: "metrics_ok db \<Longrightarrow> metrics_ok (insert_cycle row db)"
  by (simp add: insert_cycle_def del: table_ok.simps)

lemma metrics_ok_memory: "metrics_ok db \<Longrightarrow> metrics_ok (insert_memory ts rows db)"
proof -
  have "table_ok t \<Longrightarrow> table_ok (foldl (\<lambda>t (domain, kc, mb).
     insert_row \<lparr> mr_sampled_at = ts, mr_domain = domain, mr_key_count = kc, mr_memory_bytes = mb \<rparr> t) t rows)" for t
    by (induction rows arbitrary: t) (auto simp del: table_ok.simps)
  then show "metrics_ok db \<Longrightarrow> metrics_ok (insert_memory ts rows db)"
    by (simp add: insert_memory_def del: table_ok.simps)
qed

lemma metrics_ok_info: "metrics_ok db \<Longrightarrow> metrics_ok (insert_info ts info db)"
  by (simp add: insert_info_def del: table_ok.simps)

lemma metrics_ok_prune: "metrics_ok db \<Longrightarrow> metrics_ok (prune_db ts db)"
  by (simp add: prune_db_def del: table_ok.simps)

lemma table_ok_cap: "table_ok t \<Longrightarrow> table_ok (fst (cap_table n t))"
  by (simp add: cap_table_def Let_def split: option.splits del: table_ok.simps)

lemma metrics_ok_cap: "metrics_ok db \<Longrightarrow> metrics_ok (fst (cap_db n db))"
  by (simp add: cap_db_def case_prod_beta table_ok_cap Let_def del: table_ok.simps)

section \<open>Reachable databases\<close>

datatype metrics_op =
    RecordCycle sync_cycle_row
  | RecordMemory string "(string \<times> int \<times> int) list"
  | RecordInfo string "string \<rightharpoonup> rat"
  | Prune string
  | Cap int

fun metrics_step :: "metrics_op \<Rightarrow> metrics_db \<Rightarrow> metrics_db" where
  "metrics_step (RecordCycle row) db = insert_cycle row db"
| "metrics_step (RecordMemory ts rows) db = insert_memory ts rows db"
| "metrics_step (RecordInfo ts info) db = insert_info ts info db"
| "metrics_step (Prune ts) db = prune_db ts db"
| "metrics_step (Cap n) db = (if n \<le> 0 then db else fst (cap_db n db))"

definition metrics_run :: "metrics_op list \<Rightarrow> metrics_db" where
  "metrics_run ops = foldl (\<lambda>db op. metrics_step op db) empty_metrics_db ops"

lemma metrics_step_ok: "metrics_ok db \<Longrightarrow> metrics_ok (metrics_step op db)"
  by (cases op) (simp_all add: metrics_ok_cycle metrics_ok_memory metrics_ok_info metrics_ok_prune metrics_ok_cap
      del: metrics_ok.simps)

lemma metrics_run_ok: "metrics_ok (metrics_run ops)"
proof -
  have "metrics_ok db \<Longrightarrow> metrics_ok (foldl (\<lambda>db op. metrics_step op db) db ops)" for db
    by (induction ops arbitrary: db) (simp_all add: metrics_step_ok del: metrics_ok.simps)
  then show ?thesis by (simp add: metrics_run_def empty_metrics_db_def del: table_ok.simps)
qed

section \<open>The row cap\<close>

definition newest_rows :: "nat \<Rightarrow> 'a list \<Rightarrow> 'a list" where
  "newest_rows n xs = drop (length xs - n) xs"

lemma strictly_sorted_sort: "sorted_wrt (<) (ids :: nat list) \<Longrightarrow> sort ids = ids"
  by (simp add: strict_sorted_iff sort_key_id_if_sorted)

lemma nth_newest_sorted:
  assumes "table_ok t"
  shows "nth_newest_id k t =
    (if k < length (tb_rows t) then Some (fst (tb_rows t ! (length (tb_rows t) - Suc k))) else None)"
  using assms by (auto simp: nth_newest_id_def strictly_sorted_sort rev_nth)

lemma filter_from_id:
  fixes rows :: "(nat \<times> 'r) list"
  assumes "sorted_wrt (<) (map fst rows)" "k < length rows"
  shows "filter (\<lambda>r. \<not> fst r < fst (rows ! k)) rows = drop k rows"
  using assms
proof (induction rows arbitrary: k)
  case (Cons r rows)
  show ?case
  proof (cases k)
    case 0
    have "\<not> fst x < fst r" if "x \<in> set (r # rows)" for x using Cons.prems(1) that by (auto dest: less_not_sym)
    then have "filter (\<lambda>x. \<not> fst x < fst r) (r # rows) = r # rows" by (intro filter_True) blast
    then show ?thesis using 0 by simp
  next
    case (Suc j)
    then have "fst r < fst (rows ! j)" using Cons.prems by (auto simp: sorted_wrt_map)
    then show ?thesis using Suc Cons by simp
  qed
qed simp

lemma cap_table_newest:
  assumes "table_ok t" "0 < n"
  shows "tb_rows (fst (cap_table n t)) = newest_rows (nat n) (tb_rows t) \<and>
    snd (cap_table n t) = length (tb_rows t) - nat n"
proof -
  let ?rows = "tb_rows t" and ?k = "length (tb_rows t) - nat n"
  have k: "length ?rows - Suc (nat (n - 1)) = ?k" using assms(2) by simp
  show ?thesis
  proof (cases "nat (n - 1) < length ?rows")
    case True
    have "filter (\<lambda>r. \<not> fst r < fst (?rows ! ?k)) ?rows = drop ?k ?rows"
      using assms True by (intro filter_from_id) auto
    then show ?thesis using True assms
      by (simp add: cap_table_def nth_newest_sorted k delete_where_def newest_rows_def Let_def del: table_ok.simps)
  next
    case False
    then show ?thesis using assms
      by (simp add: cap_table_def nth_newest_sorted newest_rows_def del: table_ok.simps)
  qed
qed

text \<open>
  C37. The row cap keeps the newest rows and only them: on every database the store's own writes
  can produce, capping at a positive \<^verbatim>\<open>n\<close> leaves in each of the three tables exactly the last
  \<^verbatim>\<open>n\<close> rows inserted that were still there, in order, and returns how many rows it deleted.
\<close>

theorem row_cap_keeps_newest:
  assumes "0 < n"
  shows "let db = metrics_run ops; (db', total) = cap_db n db in
     tb_rows (md_cycles db') = newest_rows (nat n) (tb_rows (md_cycles db)) \<and>
     tb_rows (md_memory db') = newest_rows (nat n) (tb_rows (md_memory db)) \<and>
     tb_rows (md_info db') = newest_rows (nat n) (tb_rows (md_info db)) \<and>
     total = (length (tb_rows (md_cycles db)) - nat n) + (length (tb_rows (md_memory db)) - nat n) +
             (length (tb_rows (md_info db)) - nat n)"
proof -
  have "table_ok (md_cycles (metrics_run ops))" "table_ok (md_memory (metrics_run ops))"
    "table_ok (md_info (metrics_run ops))"
    using metrics_run_ok [of ops] by simp_all
  then show ?thesis using assms
    by (simp add: cap_db_def cap_table_newest Let_def case_prod_beta del: table_ok.simps)
qed

theorem row_cap_keeps_newest_witness:
  "let db = metrics_run [RecordMemory ''t'' [(''radar'', 2, 10), (''gfs'', 1, 5)], RecordMemory ''u'' [(''gfs'', 3, 9)]];
       (db', total) = cap_db 2 db in
     tb_rows (md_cycles db') = newest_rows (nat 2) (tb_rows (md_cycles db)) \<and>
     tb_rows (md_memory db') = newest_rows (nat 2) (tb_rows (md_memory db)) \<and>
     tb_rows (md_info db') = newest_rows (nat 2) (tb_rows (md_info db)) \<and>
     total = (length (tb_rows (md_cycles db)) - nat 2) + (length (tb_rows (md_memory db)) - nat 2) +
             (length (tb_rows (md_info db)) - nat 2)"
  by (rule row_cap_keeps_newest) simp

section \<open>The live status\<close>

text \<open>The row the status of a domain shows.\<close>

definition latest_for :: "string \<Rightarrow> metrics_db \<Rightarrow> sync_cycle_row option" where
  "latest_for d db = map_of (map (\<lambda>r. (cy_domain r, r)) (latest_per_domain db)) d"

definition last_recorded :: "string \<Rightarrow> (nat \<times> sync_cycle_row) list \<Rightarrow> sync_cycle_row option" where
  "last_recorded d rows =
     (let rs = filter (\<lambda>r. cy_domain (snd r) = d) rows in if rs = [] then None else Some (snd (last rs)))"

lemma last_has_max_id:
  fixes rows :: "(nat \<times> 'r) list"
  assumes "sorted_wrt (<) (map fst rows)" "rows \<noteq> []"
  shows "Max (fst ` set rows) = fst (last rows)"
proof (rule Max_eqI)
  fix y assume "y \<in> fst ` set rows"
  then obtain i where "i < length rows" "y = fst (rows ! i)" by (auto simp: in_set_conv_nth)
  moreover have "sorted (map fst rows)" using assms(1) by (simp add: strict_sorted_iff)
  ultimately show "y \<le> fst (last rows)"
    using assms(2) sorted_nth_mono [of "map fst rows" i "length rows - 1"] by (auto simp: last_conv_nth)
qed (use assms in auto)

lemma map_of_unique:
  assumes "\<And>x. x \<in> set xs \<Longrightarrow> f x = d \<Longrightarrow> x = r" "r \<in> set xs" "f r = d"
  shows "map_of (map (\<lambda>x. (f x, x)) xs) d = Some r"
  using assms
proof (induction xs)
  case (Cons x xs)
  show ?case
  proof (cases "f x = d")
    case True
    then show ?thesis using Cons.prems(1) [of x] by simp
  next
    case False
    then have "r \<in> set xs" using Cons.prems(2,3) by auto
    then show ?thesis using Cons False by simp
  qed
qed simp

lemma latest_for_last_recorded:
  assumes "table_ok (md_cycles db)"
  shows "latest_for d db = last_recorded d (tb_rows (md_cycles db))"
proof -
  let ?rows = "tb_rows (md_cycles db)"
  let ?newest = "\<lambda>d. Max (fst ` {r \<in> set ?rows. cy_domain (snd r) = d})"
  let ?picked = "filter (\<lambda>r. fst r = ?newest (cy_domain (snd r))) ?rows"
  have ids: "sorted_wrt (<) (map fst ?rows)" using assms by simp
  have inj: "r = r'" if "r \<in> set ?rows" "r' \<in> set ?rows" "fst r = fst r'" for r r'
  proof -
    have "distinct (map fst ?rows)" using ids by (simp add: strict_sorted_iff)
    then show ?thesis using that by (metis distinct_map inj_onD)
  qed
  show ?thesis
  proof (cases "filter (\<lambda>r. cy_domain (snd r) = d) ?rows")
    case Nil
    then have "d \<notin> cy_domain ` set (latest_per_domain db)"
      by (auto simp: latest_per_domain_def Let_def filter_empty_conv)
    then have "latest_for d db = None"
      by (auto simp: latest_for_def map_of_eq_None_iff image_image)
    then show ?thesis by (simp add: last_recorded_def Nil)
  next
    case (Cons a as)
    define rs where "rs = filter (\<lambda>r. cy_domain (snd r) = d) ?rows"
    have "sorted_wrt (\<lambda>x y. fst x < fst y) rs"
      using ids unfolding rs_def sorted_wrt_map by (rule sorted_wrt_filter)
    then have "sorted_wrt (<) (map fst rs)" by (simp only: sorted_wrt_map)
    moreover have "rs \<noteq> []" using Cons by (simp add: rs_def)
    moreover have "set rs = {r \<in> set ?rows. cy_domain (snd r) = d}" by (simp only: rs_def set_filter)
    ultimately have rs: "rs \<noteq> []" "sorted_wrt (<) (map fst rs)" "set rs = {r \<in> set ?rows. cy_domain (snd r) = d}"
      by blast+
    then have max: "?newest d = fst (last rs)" using last_has_max_id [of rs] by simp
    have lst: "last rs \<in> set ?rows" "cy_domain (snd (last rs)) = d" using rs last_in_set by blast+
    have "latest_for d db = Some (snd (last rs))"
      unfolding latest_for_def
    proof (rule map_of_unique)
      show "snd (last rs) \<in> set (latest_per_domain db)"
        using lst max by (force simp: latest_per_domain_def Let_def)
      fix x assume "x \<in> set (latest_per_domain db)" "cy_domain x = d"
      then obtain r where "r \<in> set ?rows" "fst r = ?newest d" "x = snd r"
        by (auto simp: latest_per_domain_def Let_def)
      then show "x = snd (last rs)" using inj [of r "last rs"] lst max by simp
    qed (rule lst)
    then show ?thesis using rs(1) by (simp add: last_recorded_def rs_def)
  qed
qed

text \<open>
  The live status of a domain is the cycle recorded last for it: after any history of
  writes, prunings and caps, recording a cycle makes it the row of its domain and changes the
  row of no other.
\<close>

theorem status_is_last_recorded:
  "latest_for d (insert_cycle row (metrics_run ops)) =
     (if cy_domain row = d then Some row else latest_for d (metrics_run ops))"
proof -
  have ok: "table_ok (md_cycles (metrics_run ops))" using metrics_run_ok [of ops] by simp
  then have "table_ok (md_cycles (insert_cycle row (metrics_run ops)))"
    by (simp add: insert_cycle_def del: table_ok.simps)
  then show ?thesis using ok
    by (simp add: latest_for_last_recorded last_recorded_def insert_cycle_def insert_row_def Let_def del: table_ok.simps)
qed

end
