(* ===== verification/Read_Listings.thy ===== *)
theory Read_Listings
  imports Read_Coherence
begin

text \<open>
  Listings of the read strategies: what a GFS overlay listing offers exists in the bucket,
  the listings are sorted and capped, and an outage of the object store is remembered as
  an empty listing.
\<close>

section \<open>Grouping layers by step\<close>

lemma map_of_foldl_add_layer:
  "set (case map_of (foldl add_layer d sls) f of None \<Rightarrow> [] | Some ls \<Rightarrow> ls)
     = set (case map_of d f of None \<Rightarrow> [] | Some ls \<Rightarrow> ls) \<union> {l. (f, l) \<in> set sls}"
proof (induction sls arbitrary: d)
  case (Cons sl sls)
  have "set (case map_of (add_layer d sl) f of None \<Rightarrow> [] | Some ls \<Rightarrow> ls)
          = set (case map_of d f of None \<Rightarrow> [] | Some ls \<Rightarrow> ls) \<union> {l. (f, l) = sl}"
    by (cases sl) (auto simp: add_layer_def dict_set_lookup split: option.splits)
  then show ?case using Cons.IH [of "add_layer d sl"] by auto
qed simp

lemma layers_of_group:
  "set (layers_of (group_layers cycle names) f)
     = {l. \<exists>n\<in>set names. step_and_layer_from_basename n cycle = Some (f, l)}"
  using map_of_foldl_add_layer [of "[]" _ f]
  by (auto simp: layers_of_def group_layers_def set_map_filter)

text \<open>The cached document reads back as the map that was written.\<close>

lemma layer_map_roundtrip: "layer_map_of_json (layer_map_to_json d) = Some d"
  unfolding layer_map_to_json_def layer_map_of_json.simps
  by (induction d) (auto simp del: json_of_strings.simps)

context cached_bucket
begin

lemma get_cached_listing_cold:
  assumes "\<alpha> w key = None" "get_cached_listing R key w = (Inr v, w')"
  shows "v = None \<and> \<alpha> w' = \<alpha> w \<and> \<beta> w' = \<beta> w"
  using assms get_returns [of key w v w'] get_value_frame [of key w _ w']
  by (auto simp: get_cached_listing_def get_value_def)

lemma cold_layer_map:
  assumes "st_redis st = R" "st_s3 st = Some S" "s3_segment product = Some segment"
    and "\<alpha> w (''cache:listing:gfs:'' @ product @ '':'' @ cycle @ '':layers'') = None"
    and "cycle_layer_map st product cycle w = (Inr by_step, w')"
  obtains names w1 w2 where "\<beta> w1 = \<beta> w" "by_step = group_layers cycle names"
    "try_list_object_basenames S (gfs_geojson_cycle_prefix segment cycle) ''.json'' ''/'' w1 = (Inr names, w2)"
proof -
  let ?key = "''cache:listing:gfs:'' @ product @ '':'' @ cycle @ '':layers''"
  obtain v1 wa where g1: "get_cached_listing R ?key w = (Inr v1, wa)"
    using assms(5) by (auto simp: cycle_layer_map_def assms(1) bnd_eq_Inr Let_def)
  have c1: "v1 = None" "\<alpha> wa = \<alpha> w" "\<beta> wa = \<beta> w" using get_cached_listing_cold [OF assms(4) g1] by auto
  obtain v2 wb where g2: "get_cached_listing R ?key wa = (Inr v2, wb)"
    using assms(5) g1 c1(1)
    by (auto simp: cycle_layer_map_def assms(1-3) gfs_source_def bnd_eq_Inr Let_def)
  have "\<alpha> wa ?key = None" using c1(2) assms(4) by simp
  then have c2: "v2 = None" "\<beta> wb = \<beta> w" using get_cached_listing_cold [OF _ g2] c1 by auto
  obtain names wc where n: "try_list_object_basenames S (gfs_geojson_cycle_prefix segment cycle) ''.json'' ''/'' wb = (Inr names, wc)"
    and "by_step = group_layers cycle names"
    using assms(5) g1 g2 c1(1) c2(1)
    by (auto simp: cycle_layer_map_def assms(1-3) gfs_source_def bnd_eq_Inr Let_def seq_def)
  then show thesis using that c2(2) by blast
qed

end

text \<open>
  A GFS overlay that is offered can be fetched, and one that exists is offered. On a
  cold listing cache, while the bucket can be listed, the layers returned for a step are
  exactly the layers whose GeoJSON object exists under the key the overlay read builds.
\<close>

theorem gfs_layers_exist:
  assumes "cached_bucket S \<beta> R \<alpha>" "st_redis st = R" "st_s3 st = Some S"
    and "s3_segment product = Some segment"
    and "\<alpha> w (''cache:listing:gfs:'' @ product @ '':'' @ cycle @ '':layers'') = None"
    and "\<And>w1. \<beta> w1 = \<beta> w \<Longrightarrow>
           \<exists>names w'. list_object_basenames S (gfs_geojson_cycle_prefix segment cycle) ''.json'' ''/'' w1 = (Inr names, w')"
    and "\<And>k. k \<in> dom (\<beta> w) \<Longrightarrow> \<not> sublist ''//'' k"
    and "seg cycle" "seg fxxx" "CHR ''_'' \<notin> set fxxx" "fxxx \<noteq> []" "layer \<noteq> []" "seg layer"
    and "gfs_ondemand_list_layers st product cycle fxxx w = (Inr layers, w')"
  shows "layer \<in> set layers \<longleftrightarrow> \<beta> w (build_gfs_geojson_key segment cycle fxxx layer) \<noteq> None"
proof -
  obtain by_step where m: "cycle_layer_map st product cycle w = (Inr by_step, w')"
    and l: "layers = layers_of by_step fxxx"
    using assms(14) by (auto simp: gfs_ondemand_list_layers_def bnd_eq_Inr)
  obtain names w1 w2 where b: "\<beta> w1 = \<beta> w" "by_step = group_layers cycle names"
    and t: "try_list_object_basenames S (gfs_geojson_cycle_prefix segment cycle) ''.json'' ''/'' w1 = (Inr names, w2)"
    using cached_bucket.cold_layer_map [OF assms(1-5) m] by blast
  obtain names' w2' where n: "list_object_basenames S (gfs_geojson_cycle_prefix segment cycle) ''.json'' ''/'' w1 = (Inr names', w2')"
    using assms(6) [OF b(1)] by blast
  then have "names' = names" using t by (auto simp: try_list_object_basenames_def catching_def bnd_apply)
  let ?p = "''geojson/gfs/'' @ segment @ ''/'' @ cycle"
  let ?nm = "gfs_step_id cycle (fxxx @ CHR ''_'' # layer)"
  have os: "object_store S \<beta>" using assms(1) by (simp add: cached_bucket_def mirror_def)
  have n': "list_object_basenames S (?p @ ''/'') ''.json'' ''/'' w1 = (Inr names, w2')"
    using n \<open>names' = names\<close> by (simp add: gfs_geojson_cycle_prefix_def)
  have nm: "?nm \<noteq> []" "CHR ''/'' \<notin> set ?nm"
    using assms(8,9,13) by (auto simp: gfs_step_id_def seg_def)
  have "?nm \<in> set names \<longleftrightarrow> \<beta> w1 (?p @ ''/'' @ ?nm @ ''.json'') \<noteq> None"
    using object_store.list_object_basenames_returns [OF os n' _ _ _ nm] assms(7) b(1) by simp
  moreover have "?p @ ''/'' @ ?nm @ ''.json'' = build_gfs_geojson_key segment cycle fxxx layer"
    by (simp add: build_gfs_geojson_key_def gfs_geojson_cycle_prefix_def gfs_step_id_def)
  moreover have "layer \<in> set layers \<longleftrightarrow> ?nm \<in> set names"
    using assms(10-12) by (auto simp: l b(2) layers_of_group step_layer_iff)
  ultimately show ?thesis using b(1) by simp
qed

theorem gfs_layers_exist_witness:
  "let p = ''geopotential-500hpa''; c = ''20260808T0000Z'';
       b = [build_gfs_geojson_key p c ''f003'' ''heights'' \<mapsto> Raw ''{}'']
   in \<exists>layers w'. gfs_ondemand_list_layers demo_strategy p c ''f003'' (b, Map.empty) = (Inr layers, w')
        \<and> (''heights'' \<in> set layers \<longleftrightarrow> b (build_gfs_geojson_key p c ''f003'' ''heights'') \<noteq> None)"
proof -
  let ?p = "''geopotential-500hpa''" and ?c = "''20260808T0000Z''"
  let ?k = "build_gfs_geojson_key ?p ?c ''f003'' ''heights''"
  let ?w = "([?k \<mapsto> Raw ''{}''], Map.empty :: keyspace)"
  have st: "st_redis demo_strategy = pair_redis mem_redis" "st_s3 demo_strategy = Some mem_s3"
    by (simp_all add: demo_strategy_def)
  have sg: "s3_segment ?p = Some ?p"
    by (simp add: s3_segment_def get_product_def GFS_PRODUCTS_def GFS_MSLP_def GFS_500HPA_def GFS_250HPA_def)
  have cold: "snd ?w key = None" for key by simp
  have up: "\<exists>names w'. list_object_basenames mem_s3 (gfs_geojson_cycle_prefix ?p ?c) ''.json'' ''/'' w1 = (Inr names, w')"
    if "fst w1 = fst ?w" for w1 :: "bucket \<times> keyspace"
    using that by (simp add: list_object_basenames_def ensure_connected_def list_objects_def require_client_def mem_s3_def
        bnd_apply seq_apply)
  have ns: "\<not> sublist ''//'' k" if "k \<in> dom (fst ?w)" for k
    using that by (simp split: if_splits
        add: sublist_code build_gfs_geojson_key_def gfs_geojson_cycle_prefix_def gfs_step_id_def)
  have "\<exists>layers w'. gfs_ondemand_list_layers demo_strategy ?p ?c ''f003'' ?w = (Inr layers, w')"
    by (simp add: gfs_ondemand_list_layers_def cycle_layer_map_def gfs_source_def sg demo_strategy_def
        get_cached_listing_def get_value_def cache_listing_def conn_def pair_redis_def mem_redis_def on_cache_def
        try_list_object_basenames_def catching_def list_object_basenames_def ensure_connected_def list_objects_def
        require_client_def mem_s3_def bnd_apply seq_apply Let_def)
  then obtain layers w' where r: "gfs_ondemand_list_layers demo_strategy ?p ?c ''f003'' ?w = (Inr layers, w')" by blast
  have sides: "seg ?c" "seg ''f003''" "CHR ''_'' \<notin> set ''f003''" "''f003'' \<noteq> []" "''heights'' \<noteq> []" "seg ''heights''"
    by (simp_all add: seg_def)
  have "''heights'' \<in> set layers \<longleftrightarrow> fst ?w ?k \<noteq> None"
    by (rule gfs_layers_exist [OF mem_cached.cached_bucket_axioms st sg cold up ns sides r])
  then show ?thesis using r unfolding Let_def by auto
qed

section \<open>An outage becomes a cached empty listing\<close>

text \<open>
  A bucket that can be down: the world carries a flag beside the Redis keyspace. While it
  is up it holds one tileset.
\<close>

definition flaky_s3 :: "(bool \<times> 'k) s3" where
  "flaky_s3 =
     \<lparr> b_connected = (\<lambda>w. True), b_connect = ret (),
       b_get_object = (\<lambda>k. raise BotoCoreError), b_put_object = (\<lambda>k d ct. raise BotoCoreError),
       b_head_object = (\<lambda>k. raise BotoCoreError), b_delete_object = (\<lambda>k. raise BotoCoreError),
       b_head_bucket = ret (), b_create_bucket = ret (), b_list_buckets = ret (),
       b_list_one = (\<lambda>p. ret []),
       b_paginate = (\<lambda>p d w. if fst w
          then (Inr [\<lparr> lp_keys = [], lp_common_prefixes = [p @ ''20260740300213/''] \<rparr>], w)
          else (Inl BotoCoreError, w)),
       b_put_lifecycle = (\<lambda>r p d. ret ()) \<rparr>"

definition flaky_strategy :: "(bool \<times> keyspace) strategy" where
  "flaky_strategy =
     \<lparr> st_redis = pair_redis mem_redis, st_s3 = Some flaky_s3, st_tile_ttl = 60, st_geojson_ttl = 60,
       st_listing_ttl = 300, st_keep = 0, st_network = ''sinarame'' \<rparr>"

text \<open>
  A listing asked for while the object store is down answers with the empty list and
  caches it. When the store is back the cached document is still served, so the tileset
  stays invisible until the listing expires; without the cached outage it is listed.
\<close>

theorem outage_listing_is_cached:
  "let list = sat_ondemand_get_tilesets flaky_strategy ''goes19/abi/c13''
   in fst (list (False, Map.empty)) = Inr []
      \<and> fst (list (True, snd (snd (list (False, Map.empty))))) = Inr []
      \<and> fst (list (True, Map.empty)) = Inr [''20260740300213'']"
  by (simp add: Let_def sat_ondemand_get_tilesets_def cached_listing_def flaky_strategy_def
      get_cached_listing_def get_value_def cache_listing_def conn_def pair_redis_def mem_redis_def on_cache_def
      try_get_subdirectories_def catching_def get_subdirectories_def ensure_connected_def flaky_s3_def
      bnd_apply seq_apply segment_names_def last_segment_def py_rstrip_def endswith_def suffix_Cons suffix_append)

end
