(* ===== verification/Redis_Metrics.thy ===== *)
theory Redis_Metrics
  imports Redis_Client Metrics_Store
begin

text \<open>
  The collector of \<^verbatim>\<open>services/redis_metrics_service.py\<close>: every key of the keyspace classified and
  counted, a uniform reservoir of keys per domain (Algorithm R), the measured bytes scaled to
  the domain, and the sample written to the metrics store with its retention. Beside the commands
  of the client the collector uses the introspection ones; the random source, the clock and the
  settings are parameters, and quotients are exact where the code divides floats.
\<close>

section \<open>The reservoir\<close>

text \<open>A draw replaces the key in its slot; the draw is \<^verbatim>\<open>random.randrange(seen)\<close>.\<close>

definition replace_slot :: "'a list \<Rightarrow> 'a \<Rightarrow> int \<Rightarrow> nat \<Rightarrow> 'a list" where
  "replace_slot sample key cap slot = (if int slot < cap then sample[slot := key] else sample)"

definition reservoir_observe ::
  "(nat \<Rightarrow> ('w, nat) io) \<Rightarrow> 'a list \<Rightarrow> 'a \<Rightarrow> nat \<Rightarrow> int \<Rightarrow> ('w, 'a list) io" where
  "reservoir_observe randrange sample key seen cap =
     (if cap \<le> 0 \<or> int (length sample) < cap then ret (sample @ [key])
      else bnd (randrange seen) (\<lambda>slot. ret (replace_slot sample key cap slot)))"

text \<open>\<^verbatim>\<open>round(x)\<close>: to the nearest integer, a tie to the even one.\<close>

definition py_round :: "rat \<Rightarrow> int" where
  "py_round q =
     (let f = \<lfloor>q\<rfloor>; d = q - of_int f
      in if d < 1 / 2 then f else if 1 / 2 < d then f + 1 else if even f then f else f + 1)"

definition extrapolate :: "nat \<Rightarrow> nat \<Rightarrow> nat \<Rightarrow> int" where
  "extrapolate measured sampled whole =
     (if whole \<le> sampled then int measured
      else if sampled = 0 then 0
      else py_round (of_nat measured / of_nat sampled * of_nat whole))"

section \<open>Introspection\<close>

text \<open>The introspection commands of the client, beside the data commands.\<close>

record 'w metrics_redis = "'w redis" +
  ri_scan_iter :: "int \<Rightarrow> ('w, string list) io"
  ri_memory_usage :: "string list \<Rightarrow> ('w, nat option list) io"
  ri_info :: "('w, string \<rightharpoonup> rat) io"
  ri_dbsize :: "('w, nat) io"

definition introspect :: "'w metrics_redis \<Rightarrow> ('w, 'a) io \<Rightarrow> ('w, 'a) io" where
  "introspect R m = conn (redis.truncate R) m"

definition scan_keys :: "'w metrics_redis \<Rightarrow> int \<Rightarrow> ('w, string list) io" where
  "scan_keys R count = introspect R (ri_scan_iter R count)"

definition memory_usage_batch :: "'w metrics_redis \<Rightarrow> string list \<Rightarrow> ('w, nat option list) io" where
  "memory_usage_batch R keys = (if keys = [] then ret [] else introspect R (ri_memory_usage R keys))"

definition redis_info :: "'w metrics_redis \<Rightarrow> ('w, string \<rightharpoonup> rat) io" where
  "redis_info R = introspect R (ri_info R)"

definition redis_dbsize :: "'w metrics_redis \<Rightarrow> ('w, nat) io" where
  "redis_dbsize R = introspect R (ri_dbsize R)"

section \<open>The collector\<close>

text \<open>
  The settings, the random source, \<^verbatim>\<open>datetime.now(utc).isoformat()\<close> and the ISO text of the
  instant a number of days before it.
\<close>

record 'w collector =
  cl_redis :: "'w metrics_redis"
  cl_sample_per_domain :: int
  cl_scan_count :: int
  cl_batch_size :: int
  cl_retention_days :: int
  cl_max_rows :: int
  cl_randrange :: "nat \<Rightarrow> ('w, nat) io"
  cl_now :: "'w \<Rightarrow> string"
  cl_days_ago :: "'w \<Rightarrow> int \<Rightarrow> string"

text \<open>\<^verbatim>\<open>defaultdict\<close> reads.\<close>

definition count_of :: "(string \<times> nat) list \<Rightarrow> string \<Rightarrow> nat" where
  "count_of counts d = (case map_of counts d of Some n \<Rightarrow> n | None \<Rightarrow> 0)"

definition reservoir_of :: "(string \<times> string list) list \<Rightarrow> string \<Rightarrow> string list" where
  "reservoir_of rs d = (case map_of rs d of Some s \<Rightarrow> s | None \<Rightarrow> [])"

type_synonym tally = "(string \<times> nat) list \<times> (string \<times> string list) list"

definition observe_key :: "'w collector \<Rightarrow> string \<Rightarrow> tally \<Rightarrow> ('w, tally) io" where
  "observe_key C key st =
     (let domain = classify_key key;
          counts = dict_set (fst st) domain (Suc (count_of (fst st) domain))
      in bnd (reservoir_observe (cl_randrange C) (reservoir_of (snd st) domain) key (count_of counts domain)
               (cl_sample_per_domain C))
           (\<lambda>sample. ret (counts, dict_set (snd st) domain sample)))"

text \<open>\<^verbatim>\<open>range(0, len(sample), batch_size)\<close>: a zero step raises, a negative one gives nothing.\<close>

definition measure_domain :: "'w collector \<Rightarrow> string list \<Rightarrow> nat \<Rightarrow> ('w, int) io" where
  "measure_domain C sample whole =
     (let b = cl_batch_size C
      in if b = 0 then raise ValueError
         else bnd (for_fold (if b < 0 then [] else py_range 0 (length sample) (nat b))
                (\<lambda>start measured.
                   bnd (memory_usage_batch (cl_redis C) (take (nat b) (drop start sample))) (\<lambda>sizes.
                   ret (measured + sum_list (map (case_option 0 id) sizes)))) 0)
              (\<lambda>measured. ret (extrapolate measured (length sample) whole)))"

text \<open>The rows of a sample: a scan of the keyspace, then the measurement of every domain.\<close>

definition collect_rows :: "'w collector \<Rightarrow> ('w, (string \<times> int \<times> int) list) io" where
  "collect_rows C =
     bnd (scan_keys (cl_redis C) (cl_scan_count C)) (\<lambda>keys.
     bnd (for_fold keys (observe_key C) ([], [])) (\<lambda>(counts, reservoirs).
     for_each counts (\<lambda>(domain, count).
       bnd (measure_domain C (reservoir_of reservoirs domain) count) (\<lambda>bytes.
       ret (domain, int count, bytes)))))"

definition collect_info :: "'w metrics_redis \<Rightarrow> ('w, string \<rightharpoonup> rat) io" where
  "collect_info R =
     bnd (redis_info R) (\<lambda>info. bnd (redis_dbsize R) (\<lambda>n. ret (info(''total_keys'' \<mapsto> of_nat n))))"

text \<open>The store is the second component of the world.\<close>

definition on_store :: "(metrics_store, 'a) io \<Rightarrow> ('w \<times> metrics_store, 'a) io" where
  "on_store m ws = (case m (snd ws) of (r, st) \<Rightarrow> (r, (fst ws, st)))"

definition record_sample :: "'w collector \<Rightarrow> (string \<times> int \<times> int) list \<Rightarrow> ('w \<times> metrics_store, unit) io" where
  "record_sample C rows =
     bnd (reads (\<lambda>ws. cl_now C (fst ws))) (\<lambda>sampled_at.
     seq (on_store (record_memory_sample sampled_at rows))
    (bnd (on_world2 (collect_info (cl_redis C))) (\<lambda>info.
     seq (on_store (record_info_sample sampled_at info))
    (bnd (reads (\<lambda>ws. cl_days_ago C (fst ws) (cl_retention_days C))) (\<lambda>cutoff.
     seq (on_store (prune cutoff))
         (bnd (on_store (prune_to_max_rows (cl_max_rows C))) (\<lambda>_. ret ())))))))"

definition metrics_run_sync :: "'w collector \<Rightarrow> ('w \<times> metrics_store, unit) io" where
  "metrics_run_sync C = bnd (on_world2 (collect_rows C)) (record_sample C)"

section \<open>The sample is uniform\<close>

text \<open>
  One key observed under the random source, as a list of weighted outcomes. The source is asked
  first for the range the code draws from, if it draws at all; then there is one outcome per
  slot of that range, equally likely.
\<close>

definition range_asked :: "nat option collector \<Rightarrow> string \<Rightarrow> tally \<Rightarrow> nat option" where
  "range_asked C key st = snd (observe_key (C\<lparr> cl_randrange := \<lambda>n w. (Inr 0, Some n) \<rparr>) key st None)"

definition observe_drawn :: "nat option collector \<Rightarrow> string \<Rightarrow> tally \<Rightarrow> nat \<Rightarrow> tally" where
  "observe_drawn C key st slot =
     (case fst (observe_key (C\<lparr> cl_randrange := \<lambda>n w. (Inr slot, w) \<rparr>) key st None) of
        Inr st' \<Rightarrow> st' | Inl e \<Rightarrow> st)"

definition outcomes :: "nat option collector \<Rightarrow> string \<Rightarrow> tally \<Rightarrow> (tally \<times> rat) list" where
  "outcomes C key st =
     (case range_asked C key st of
        None \<Rightarrow> [(observe_drawn C key st 0, 1)]
      | Some n \<Rightarrow> map (\<lambda>slot. (observe_drawn C key st slot, 1 / of_nat n)) [0..<n])"

text \<open>The tallies after a stream of keys, each with its probability.\<close>

definition next_tallies :: "nat option collector \<Rightarrow> (tally \<times> rat) list \<Rightarrow> string \<Rightarrow> (tally \<times> rat) list" where
  "next_tallies C ds key =
     concat (map (\<lambda>(st, p). map (\<lambda>(st', q). (st', p * q)) (outcomes C key st)) ds)"

definition tallies :: "nat option collector \<Rightarrow> string list \<Rightarrow> (tally \<times> rat) list" where
  "tallies C keys = foldl (next_tallies C) [(([], []), 1)] keys"

text \<open>The probability that the sample of a domain holds a key.\<close>

definition weight :: "('a \<Rightarrow> bool) \<Rightarrow> ('a \<times> rat) list \<Rightarrow> rat" where
  "weight P ds = sum_list (map snd (filter (P \<circ> fst) ds))"

definition sampled_in :: "string \<Rightarrow> string \<Rightarrow> tally \<Rightarrow> bool" where
  "sampled_in d k st \<longleftrightarrow> k \<in> set (reservoir_of (snd st) d)"

definition keys_of :: "string \<Rightarrow> string list \<Rightarrow> string list" where
  "keys_of d keys = filter (\<lambda>k. classify_key k = d) keys"

lemma weight_Nil [simp]: "weight P [] = 0"
  and weight_Cons [simp]: "weight P ((x, p) # xs) = (if P x then p else 0) + weight P xs"
  and weight_append [simp]: "weight P (xs @ ys) = weight P xs + weight P ys"
  by (simp_all add: weight_def)

lemma weight_scaled: "weight P (map (\<lambda>(x, q). (x, p * q)) xs) = p * weight P xs"
  by (induction xs) (auto simp: algebra_simps)

lemma weight_even:
  "weight P (map (\<lambda>i. (f i, c)) is) = of_nat (length (filter P (map f is))) * c"
  by (induction "is") (auto simp: algebra_simps)

lemma weight_next:
  assumes "\<And>st p. (st, p) \<in> set ds \<Longrightarrow> weight P (outcomes C key st) = (if Q st then c else 0)"
  shows "weight P (next_tallies C ds key) = c * weight Q ds"
  using assms
proof (induction ds)
  case (Cons sp ds)
  obtain st p where sp: "sp = (st, p)" by (cases sp)
  have "weight P (outcomes C key st) = (if Q st then c else 0)" by (rule Cons.prems [of st p]) (simp add: sp)
  moreover have "weight P (next_tallies C ds key) = c * weight Q ds"
    by (rule Cons.IH) (rule Cons.prems, rule list.set_intros(2))
  ultimately show ?case by (simp add: sp next_tallies_def weight_scaled distrib_left)
qed (simp add: next_tallies_def)

text \<open>The outcomes of one observation, spelled out: no draw while the reservoir fills.\<close>

lemma outcomes_eq:
  assumes "cl_sample_per_domain C = int cap" "0 < cap"
  shows "outcomes C key (counts, rs) =
    (let d = classify_key key; n = count_of counts d; counts' = dict_set counts d (Suc n); s = reservoir_of rs d
     in if length s < cap then [((counts', dict_set rs d (s @ [key])), 1)]
        else map (\<lambda>slot. ((counts', dict_set rs d (replace_slot s key (int cap) slot)), 1 / of_nat (Suc n))) [0..<Suc n])"
  using assms
  by (simp add: outcomes_def range_asked_def observe_drawn_def observe_key_def reservoir_observe_def Let_def
      count_of_def dict_set_lookup del: upt_Suc)

lemma sampled_in_set [simp]:
  "sampled_in d k (counts, dict_set rs e s) \<longleftrightarrow> k \<in> set (if d = e then s else reservoir_of rs d)"
  by (auto simp: sampled_in_def reservoir_of_def dict_set_lookup)

text \<open>What holds of every tally of a stream, whatever was drawn.\<close>

definition tally_ok :: "nat \<Rightarrow> string list \<Rightarrow> tally \<Rightarrow> bool" where
  "tally_ok cap keys st \<longleftrightarrow>
     (\<forall>d. count_of (fst st) d = length (keys_of d keys) \<and>
          distinct (reservoir_of (snd st) d) \<and> set (reservoir_of (snd st) d) \<subseteq> set (keys_of d keys) \<and>
          length (reservoir_of (snd st) d) = min cap (length (keys_of d keys)))"

lemma outcomes_ok:
  assumes "cl_sample_per_domain C = int cap" "0 < cap" "key \<notin> set keys" "tally_ok cap keys st"
    and "(st', q) \<in> set (outcomes C key st)"
  shows "tally_ok cap (keys @ [key]) st'"
proof -
  obtain counts rs where st: "st = (counts, rs)" by (cases st)
  let ?d = "classify_key key"
  let ?n = "length (keys_of ?d keys)" and ?s = "reservoir_of rs ?d"
  have ok: "count_of counts d = length (keys_of d keys)" "distinct (reservoir_of rs d)"
    "set (reservoir_of rs d) \<subseteq> set (keys_of d keys)" "length (reservoir_of rs d) = min cap (length (keys_of d keys))" for d
    using assms(4) by (simp_all add: tally_ok_def st)
  have fresh: "key \<notin> set ?s" using ok(3) [of ?d] assms(3) by (auto simp: keys_of_def)
  obtain s' where st': "st' = (dict_set counts ?d (Suc (count_of counts ?d)), dict_set rs ?d s')"
    and s': "if length ?s < cap then s' = ?s @ [key] else \<exists>slot. s' = replace_slot ?s key (int cap) slot"
    using assms(5) by (auto simp: st outcomes_eq [OF assms(1,2)] Let_def simp del: upt_Suc split: if_splits)
  have "distinct s' \<and> set s' \<subseteq> insert key (set (keys_of ?d keys)) \<and> length s' = min cap (Suc ?n)"
  proof (cases "length ?s < cap")
    case True
    then show ?thesis using s' ok [of ?d] fresh by auto
  next
    case False
    then obtain slot where "s' = replace_slot ?s key (int cap) slot" using s' by auto
    then show ?thesis using False ok [of ?d] fresh set_update_subset_insert [of ?s slot key]
      by (auto simp: replace_slot_def distinct_list_update)
  qed
  then show ?thesis using ok
    by (auto simp: tally_ok_def st' keys_of_def count_of_def reservoir_of_def dict_set_lookup)
qed

lemma tallies_snoc: "tallies C (keys @ [key]) = next_tallies C (tallies C keys) key"
  by (simp add: tallies_def)

lemma tallies_ok:
  assumes "cl_sample_per_domain C = int cap" "0 < cap" "distinct keys" "(st, p) \<in> set (tallies C keys)"
  shows "tally_ok cap keys st"
  using assms(3,4)
proof (induction keys arbitrary: st p rule: rev_induct)
  case Nil
  then show ?case by (simp add: tallies_def tally_ok_def count_of_def reservoir_of_def keys_of_def)
next
  case (snoc key keys)
  then obtain st0 p0 q where "(st0, p0) \<in> set (tallies C keys)" "(st, q) \<in> set (outcomes C key st0)"
    by (auto simp: tallies_snoc next_tallies_def)
  then show ?case using outcomes_ok [OF assms(1,2)] snoc by fastforce
qed

lemma total_weight:
  assumes "cl_sample_per_domain C = int cap" "0 < cap"
  shows "weight (\<lambda>_. True) (tallies C keys) = 1"
proof (induction keys rule: rev_induct)
  case (snoc key keys)
  have "weight (\<lambda>_. True) (outcomes C key st) = (if True then 1 else 0)" for st
    by (cases st) (simp add: outcomes_eq [OF assms] Let_def weight_even del: upt_Suc of_nat_Suc)
  then show ?case using snoc weight_next [of "tallies C keys" "\<lambda>_. True" C key "\<lambda>_. True" 1]
    by (simp add: tallies_snoc)
qed (simp add: tallies_def)

text \<open>Which draws keep a key that is in the sample: all but the one that hits its slot.\<close>

definition holds_key :: "'a \<Rightarrow> 'a list list \<Rightarrow> nat" where
  "holds_key k runs = length (filter (\<lambda>s. k \<in> set s) runs)"

lemma holds_key_draws_old:
  assumes "distinct s" "length s = cap" "cap \<le> n" "k \<noteq> key" "k \<in> set s"
  shows "holds_key k (map (replace_slot s key (int cap)) [0..<Suc n]) = n"
proof -
  obtain i where i: "i < cap" "s ! i = k" using assms(2,5) by (auto simp: in_set_conv_nth)
  have keep: "k \<in> set (replace_slot s key (int cap) j) \<longleftrightarrow> j \<noteq> i" if "j < Suc n" for j
  proof (cases "j < cap")
    case True
    have "k \<in> set (s[j := key]) \<longleftrightarrow> (\<exists>m < cap. m \<noteq> j \<and> s ! m = k)"
      using assms(2,4) True by (auto simp: in_set_conv_nth nth_list_update)
    also have "\<dots> \<longleftrightarrow> j \<noteq> i" using i assms(1,2) by (metis nth_eq_iff_index_eq)
    finally show ?thesis using True by (simp add: replace_slot_def)
  qed (use assms(5) i in \<open>auto simp: replace_slot_def\<close>)
  have "filter (\<lambda>j. k \<in> set (replace_slot s key (int cap) j)) [0..<Suc n] = filter (\<lambda>j. j \<noteq> i) [0..<Suc n]"
    by (intro filter_cong refl keep) (simp only: set_upt atLeastLessThan_iff)
  then have "holds_key k (map (replace_slot s key (int cap)) [0..<Suc n]) = length (filter (\<lambda>j. j \<noteq> i) [0..<Suc n])"
    by (simp add: holds_key_def filter_map comp_def del: upt_Suc)
  also have "\<dots> = card (set (filter (\<lambda>j. j \<noteq> i) [0..<Suc n]))"
    by (intro distinct_card [symmetric] distinct_filter distinct_upt)
  also have "set (filter (\<lambda>j. j \<noteq> i) [0..<Suc n]) = {0..<Suc n} - {i}" by (auto simp del: upt_Suc)
  finally show ?thesis using i assms(3) by simp
qed

lemma holds_key_draws_absent:
  assumes "k \<noteq> key" "k \<notin> set s"
  shows "holds_key k (map (replace_slot s key cap) js) = 0"
proof -
  have "k \<notin> set (replace_slot s key cap j)" for j
    using assms set_update_subset_insert [of s j key] by (auto simp: replace_slot_def)
  then show ?thesis by (simp add: holds_key_def filter_map comp_def)
qed

lemma holds_key_draws_new:
  assumes "key \<notin> set s" "length s = cap" "cap \<le> n"
  shows "holds_key key (map (replace_slot s key (int cap)) [0..<Suc n]) = cap"
proof -
  have "key \<in> set (replace_slot s key (int cap) j) \<longleftrightarrow> j < cap" for j
    using assms(1,2) by (auto simp: replace_slot_def set_update_memI)
  then have "holds_key key (map (replace_slot s key (int cap)) [0..<Suc n]) = length (filter (\<lambda>j. j < cap) [0..<Suc n])"
    by (simp add: holds_key_def filter_map comp_def del: upt_Suc)
  also have "filter (\<lambda>j. j < cap) [0..<Suc n] = filter (\<lambda>j. j < cap) ([0..<cap] @ [cap..<Suc n])"
    using assms(3) upt_add_eq_append [of 0 cap "Suc n - cap"] by simp
  finally show ?thesis by simp
qed

lemma sampled_holds:
  "length (filter (sampled_in d k) (map (\<lambda>i. (counts, dict_set rs d (g i))) is)) = holds_key k (map g is)"
  by (induction "is") (simp_all add: holds_key_def)

lemma weight_steady:
  "weight (sampled_in d k) (map (\<lambda>i. ((counts, dict_set rs d (g i)), c)) is) = of_nat (holds_key k (map g is)) * c"
  unfolding weight_even sampled_holds ..

text \<open>One observation: a key of another domain, the fill, the steady state.\<close>

lemma weight_other_domain:
  assumes "cl_sample_per_domain C = int cap" "0 < cap" "classify_key key \<noteq> d"
  shows "weight (sampled_in d k) (outcomes C key st) = (if sampled_in d k st then 1 else 0)"
proof -
  obtain counts rs where st: "st = (counts, rs)" by (cases st)
  have "filter (sampled_in d k) (map (\<lambda>i. (counts', dict_set rs (classify_key key) (g i))) is) =
      (if sampled_in d k st then map (\<lambda>i. (counts', dict_set rs (classify_key key) (g i))) is else [])"
    for counts' and g :: "nat \<Rightarrow> string list" and "is"
    using assms(3) by (induction "is") (auto simp: st sampled_in_def [of d k "(counts, rs)"])
  then show ?thesis using assms(3)
    by (auto simp: st outcomes_eq [OF assms(1,2)] Let_def weight_even sampled_in_def [of d k "(counts, rs)"] simp del: upt_Suc of_nat_Suc)
qed

lemma weight_fill:
  assumes "cl_sample_per_domain C = int cap" "0 < cap" "tally_ok cap keys st"
    and "classify_key key = d" "length (keys_of d keys) < cap"
  shows "weight (sampled_in d k) (outcomes C key st) = (if k = key \<or> sampled_in d k st then 1 else 0)"
proof -
  obtain counts rs where st: "st = (counts, rs)" by (cases st)
  have "length (reservoir_of rs d) < cap" using assms(3,5) by (simp add: tally_ok_def st)
  then show ?thesis using assms(4) by (auto simp: st outcomes_eq [OF assms(1,2)] Let_def sampled_in_def [of d k "(counts, rs)"])
qed

lemma weight_steady_state:
  assumes "cl_sample_per_domain C = int cap" "0 < cap" "tally_ok cap keys st" "key \<notin> set keys"
    and "classify_key key = d" "cap \<le> length (keys_of d keys)"
  shows "weight (sampled_in d k) (outcomes C key st) =
     (if k = key then of_nat cap / of_nat (Suc (length (keys_of d keys)))
      else if sampled_in d k st then of_nat (length (keys_of d keys)) / of_nat (Suc (length (keys_of d keys)))
      else 0)"
proof -
  obtain counts rs where st: "st = (counts, rs)" by (cases st)
  have ok: "count_of counts d = length (keys_of d keys)" "distinct (reservoir_of rs d)"
    "set (reservoir_of rs d) \<subseteq> set (keys_of d keys)" "length (reservoir_of rs d) = cap"
    using assms(3,6) by (simp_all add: tally_ok_def st)
  have fresh: "key \<notin> set (reservoir_of rs d)" using ok(3) assms(4) by (auto simp: keys_of_def)
  show ?thesis
    using holds_key_draws_new [OF fresh ok(4) assms(6)] holds_key_draws_old [OF ok(2,4) assms(6), of k key]
      holds_key_draws_absent [of k key "reservoir_of rs d"] ok(1,4) assms(5)
    by (auto simp: st outcomes_eq [OF assms(1,2)] Let_def weight_steady sampled_in_def [of d k "(counts, rs)"]
        simp del: upt_Suc of_nat_Suc)
qed

lemma sample_probability:
  assumes "cl_sample_per_domain C = int cap" "0 < cap" "distinct keys" "k \<in> set (keys_of d keys)"
  shows "weight (sampled_in d k) (tallies C keys) =
     of_nat (min cap (length (keys_of d keys))) / of_nat (length (keys_of d keys))"
  using assms(3,4)
proof (induction keys rule: rev_induct)
  case (snoc key keys)
  let ?n = "length (keys_of d keys)" and ?D = "tallies C keys"
  have ok: "tally_ok cap keys st" if "(st, p) \<in> set ?D" for st p
    using tallies_ok [OF assms(1,2) _ that] snoc.prems(1) by simp
  have fresh: "key \<notin> set keys" using snoc.prems(1) by simp
  have IH: "weight (sampled_in d k) ?D = of_nat (min cap ?n) / of_nat ?n" if "k \<in> set (keys_of d keys)"
    using snoc.IH snoc.prems(1) that by simp
  show ?case
  proof (cases "classify_key key = d")
    case False
    then have "k \<in> set (keys_of d keys)" "keys_of d (keys @ [key]) = keys_of d keys"
      using snoc.prems(2) by (auto simp: keys_of_def)
    moreover have "weight (sampled_in d k) (next_tallies C ?D key) = 1 * weight (sampled_in d k) ?D"
      by (rule weight_next) (rule weight_other_domain [OF assms(1,2) False])
    ultimately show ?thesis using IH by (simp add: tallies_snoc)
  next
    case True
    then have grown: "length (keys_of d (keys @ [key])) = Suc ?n" by (simp add: keys_of_def)
    have before: "k \<in> set (keys_of d keys)" "?n \<noteq> 0" if "k \<noteq> key"
    proof -
      show "k \<in> set (keys_of d keys)" using that snoc.prems(2) by (auto simp: keys_of_def split: if_splits)
      then show "?n \<noteq> 0" by auto
    qed
    consider "?n < cap" | "cap \<le> ?n" "k = key" | "cap \<le> ?n" "k \<noteq> key" by linarith
    then show ?thesis
    proof cases
      case 1
      have "weight (sampled_in d k) (next_tallies C ?D key) = 1 * weight (\<lambda>st. k = key \<or> sampled_in d k st) ?D"
        by (rule weight_next) (rule weight_fill [OF assms(1,2) ok True 1])
      also have "\<dots> = 1"
        using total_weight [OF assms(1,2)] IH before 1 by (cases "k = key") simp_all
      finally show ?thesis using 1 by (simp add: tallies_snoc grown del: of_nat_Suc)
    next
      case 2
      have "weight (sampled_in d k) (next_tallies C ?D key) = of_nat cap / of_nat (Suc ?n) * weight (\<lambda>_. True) ?D"
        by (rule weight_next) (simp add: weight_steady_state [OF assms(1,2) ok fresh True 2(1)] 2(2) del: of_nat_Suc)
      then show ?thesis using 2(1) total_weight [OF assms(1,2)] by (simp add: tallies_snoc grown del: of_nat_Suc)
    next
      case 3
      have "weight (sampled_in d k) (next_tallies C ?D key) = of_nat ?n / of_nat (Suc ?n) * weight (sampled_in d k) ?D"
        by (rule weight_next) (simp add: weight_steady_state [OF assms(1,2) ok fresh True 3(1)] 3(2) del: of_nat_Suc)
      then show ?thesis using 3(1) IH before 3(2) by (simp add: tallies_snoc grown min_def del: of_nat_Suc)
    qed
  qed
qed (simp add: keys_of_def)

text \<open>
  C0. The collector's sample is uniform. Over the random source's answers to the ranges the code
  asks it for, each slot of a range equally likely: after any stream of distinct keys, of any mix
  of domains, the probability that a key of a domain with \<^verbatim>\<open>n\<close> keys is in the sample of its domain
  is \<^verbatim>\<open>min cap n / n\<close>, the same for all of them; and whatever is drawn, every domain is counted
  exactly and its sample has \<^verbatim>\<open>min cap n\<close> distinct keys of the domain.
\<close>

theorem reservoir_is_uniform:
  assumes "cl_sample_per_domain C = int cap" "0 < cap" "distinct keys"
  shows "list_all (\<lambda>k.
       weight (sampled_in (classify_key k) k) (tallies C keys) =
       of_nat (min cap (length (keys_of (classify_key k) keys))) / of_nat (length (keys_of (classify_key k) keys))) keys \<and>
    weight (\<lambda>_. True) (tallies C keys) = 1 \<and>
    list_all (\<lambda>(st, p). tally_ok cap keys st) (tallies C keys)"
  using sample_probability [OF assms] total_weight [OF assms(1,2)] tallies_ok [OF assms]
  by (auto simp: list_all_iff keys_of_def)

theorem reservoir_is_uniform_witness:
  "\<exists>C :: nat option collector. cl_sample_per_domain C = int 2 \<and>
     list_all (\<lambda>k.
       weight (sampled_in (classify_key k) k) (tallies C [''c'', ''b'', ''a'']) =
       of_nat (min 2 (length (keys_of (classify_key k) [''c'', ''b'', ''a'']))) /
       of_nat (length (keys_of (classify_key k) [''c'', ''b'', ''a'']))) [''c'', ''b'', ''a''] \<and>
     weight (\<lambda>_. True) (tallies C [''c'', ''b'', ''a'']) = 1 \<and>
     list_all (\<lambda>(st, p). tally_ok 2 [''c'', ''b'', ''a''] st) (tallies C [''c'', ''b'', ''a''])"
proof -
  obtain C :: "nat option collector" where C: "cl_sample_per_domain C = int 2"
    by (metis collector.select_convs(2))
  then show ?thesis by (intro exI [of _ C] conjI [OF C] reservoir_is_uniform [OF C]) simp_all
qed

section \<open>The census\<close>

lemma for_each_quiet:
  "(\<And>x. x \<in> set xs \<Longrightarrow> f x w = (Inr (g x), w)) \<Longrightarrow> for_each xs f w = (Inr (map g xs), w)"
  by (induction xs) simp_all

lemma for_fold_quiet:
  "(\<And>x s. x \<in> set xs \<Longrightarrow> f x s w = (Inr (g x s), w)) \<Longrightarrow> for_fold xs f s w = (Inr (fold g xs s), w)"
  by (induction xs arbitrary: s) simp_all

lemma fold_plus: "fold (\<lambda>x acc. acc + h x) xs (a :: nat) = a + sum_list (map h xs)"
  by (induction xs arbitrary: a) simp_all

text \<open>Consecutive batches put together are the list.\<close>

lemma concat_batches: "concat (map (\<lambda>k. take b (drop (k * b) xs)) [0..<n]) = take (n * b) xs"
proof (induction n)
  case (Suc n)
  have "take (n * b) xs @ take b (drop (n * b) xs) = take (n * b + b) xs" by (rule take_add [symmetric])
  then show ?case using Suc by (simp add: add.commute)
qed simp

lemma batches_cover:
  assumes "0 < b"
  shows "concat (map (\<lambda>start. take b (drop start xs)) (py_range 0 (length xs) b)) = xs"
proof -
  let ?n = "(length xs + b - 1) div b"
  have "length xs + b - 1 < b + ?n * b" using assms by (rule dividend_less_div_times)
  then have "length xs \<le> ?n * b" using assms by linarith
  then show ?thesis
    using concat_batches [of b xs ?n] by (simp add: py_range_def comp_def)
qed

definition tally_key :: "string \<Rightarrow> tally \<Rightarrow> tally" where
  "tally_key key st =
     (dict_set (fst st) (classify_key key) (Suc (count_of (fst st) (classify_key key))),
      dict_set (snd st) (classify_key key) (reservoir_of (snd st) (classify_key key) @ [key]))"

lemma observe_key_census:
  "cl_sample_per_domain C \<le> 0 \<Longrightarrow> observe_key C key st w = (Inr (tally_key key st), w)"
  by (simp add: observe_key_def reservoir_observe_def tally_key_def Let_def)

lemma tally_keys:
  "count_of (fst (fold tally_key keys st)) d = count_of (fst st) d + length (keys_of d keys) \<and>
   reservoir_of (snd (fold tally_key keys st)) d = reservoir_of (snd st) d @ keys_of d keys"
  by (induction keys arbitrary: st)
     (auto simp: tally_key_def count_of_def reservoir_of_def keys_of_def dict_set_lookup)

lemma tally_domains:
  "fst ` set (fst (fold tally_key keys st)) = fst ` set (fst st) \<union> classify_key ` set keys \<and>
   (distinct (map fst (fst st)) \<longrightarrow> distinct (map fst (fst (fold tally_key keys st))))"
proof (induction keys arbitrary: st)
  case (Cons k keys)
  have "fst ` set (fst (tally_key k st)) = insert (classify_key k) (fst ` set (fst st))"
    using dict_set_keys [of "fst st"] by (simp add: tally_key_def)
  moreover have "distinct (map fst (fst st)) \<longrightarrow> distinct (map fst (fst (tally_key k st)))"
    by (simp add: tally_key_def dict_set_distinct del: set_map)
  ultimately show ?case using Cons [of "tally_key k st"] by auto
qed simp

text \<open>The size Redis reports for a key; a vanished key counts nothing.\<close>

definition measured :: "(string \<Rightarrow> nat option) \<Rightarrow> string list \<Rightarrow> nat" where
  "measured mem keys = sum_list (map (\<lambda>k. case_option 0 id (mem k)) keys)"

lemma measured_concat: "measured mem (concat xss) = sum_list (map (measured mem) xss)"
  by (induction xss) (simp_all add: measured_def)

lemma memory_batch_quiet:
  assumes "rd_connected R" "\<And>ks w. ri_memory_usage R ks w = (Inr (map mem ks), w)"
  shows "memory_usage_batch R keys w = (Inr (map mem keys), w)"
  using assms by (simp add: memory_usage_batch_def introspect_def conn_def redis.defs)

lemma measure_domain_quiet:
  assumes "rd_connected (cl_redis C)" "\<And>ks w. ri_memory_usage (cl_redis C) ks w = (Inr (map mem ks), w)"
    "0 < cl_batch_size C" "whole \<le> length sample"
  shows "measure_domain C sample whole w = (Inr (int (measured mem sample)), w)"
proof -
  let ?b = "nat (cl_batch_size C)"
  let ?batch = "\<lambda>start. take ?b (drop start sample)"
  have "for_fold (py_range 0 (length sample) ?b)
      (\<lambda>start m. bnd (memory_usage_batch (cl_redis C) (?batch start)) (\<lambda>sizes.
         ret (m + sum_list (map (case_option 0 id) sizes)))) 0 w
    = (Inr (fold (\<lambda>start m. m + measured mem (?batch start)) (py_range 0 (length sample) ?b) 0), w)"
    by (rule for_fold_quiet) (simp add: memory_batch_quiet [OF assms(1,2)] measured_def comp_def)
  also have "fold (\<lambda>start m. m + measured mem (?batch start)) (py_range 0 (length sample) ?b) 0
      = measured mem (concat (map ?batch (py_range 0 (length sample) ?b)))"
    by (simp add: fold_plus measured_concat comp_def)
  also have "\<dots> = measured mem sample" using assms(3) by (simp add: batches_cover)
  finally have run: "for_fold (py_range 0 (length sample) ?b)
      (\<lambda>start m. bnd (memory_usage_batch (cl_redis C) (?batch start)) (\<lambda>sizes.
         ret (m + sum_list (map (case_option 0 id) sizes)))) 0 w = (Inr (measured mem sample), w)"
    (is "?loop w = _") .
  have loop: "measure_domain C sample whole = bnd ?loop (\<lambda>m. ret (extrapolate m (length sample) whole))"
    using assms(3) by (simp add: measure_domain_def Let_def del: ret_apply)
  have "measure_domain C sample whole w = ret (extrapolate (measured mem sample) (length sample) whole) w"
    unfolding loop by (rule bnd_Inr [of ?loop w "measured mem sample" w, OF run])
  then show ?thesis using assms(4) by (simp add: extrapolate_def)
qed

text \<open>
  C38. With sampling switched off the collector is a census: against a Redis that answers, the
  rows of a sample are one per domain that has a key, each with the number of scanned keys that
  classify into it and the sum of the sizes Redis reports for exactly those keys (a vanished key
  counting zero), whatever the batch size; the world is only read.
\<close>

theorem census_exact:
  assumes "rd_connected (cl_redis C)" "\<And>w. ri_scan_iter (cl_redis C) (cl_scan_count C) w = (Inr keys, w)"
    "\<And>ks w. ri_memory_usage (cl_redis C) ks w = (Inr (map mem ks), w)"
    "cl_sample_per_domain C \<le> 0" "0 < cl_batch_size C"
  shows "\<exists>rows. collect_rows C w = (Inr rows, w) \<and> distinct (map fst rows) \<and>
     set rows = (\<lambda>d. (d, int (length (keys_of d keys)), int (measured mem (keys_of d keys)))) ` classify_key ` set keys"
proof -
  let ?st = "fold tally_key keys ([], [])"
  define row where "row = (\<lambda>d. (d, int (length (keys_of d keys)), int (measured mem (keys_of d keys))))"
  have count: "count_of (fst ?st) d = length (keys_of d keys)"
    and kept: "reservoir_of (snd ?st) d = keys_of d keys" for d
    using tally_keys [of keys "([], [])" d] by (simp_all add: count_of_def reservoir_of_def)
  have doms: "fst ` set (fst ?st) = classify_key ` set keys" "distinct (map fst (fst ?st))"
    using tally_domains [of keys "([], [])"] by simp_all
  have scan: "scan_keys (cl_redis C) (cl_scan_count C) w = (Inr keys, w)"
    using assms(1,2) by (simp add: scan_keys_def introspect_def conn_def redis.defs)
  have fold: "for_fold keys (observe_key C) ([], []) w = (Inr ?st, w)"
    by (rule for_fold_quiet) (rule observe_key_census [OF assms(4)])
  have entry: "n = length (keys_of d keys)" if "(d, n) \<in> set (fst ?st)" for d n
    using that doms(2) count [of d] by (simp add: count_of_def)
  have "for_each (fst ?st) (\<lambda>(domain, count).
       bnd (measure_domain C (reservoir_of (snd ?st) domain) count) (\<lambda>bytes. ret (domain, int count, bytes))) w
     = (Inr (map (row \<circ> fst) (fst ?st)), w)"
  proof (rule for_each_quiet)
    fix x assume x: "x \<in> set (fst ?st)"
    obtain d n where dn: "x = (d, n)" by (cases x)
    then have n: "n = length (keys_of d keys)" using entry x by simp
    have "measure_domain C (keys_of d keys) n w = (Inr (int (measured mem (keys_of d keys))), w)"
      by (rule measure_domain_quiet [OF assms(1,3,5)]) (simp add: n)
    then show "(case x of (domain, count) \<Rightarrow>
       bnd (measure_domain C (reservoir_of (snd ?st) domain) count) (\<lambda>bytes. ret (domain, int count, bytes))) w
       = (Inr ((row \<circ> fst) x), w)"
      by (simp add: dn kept row_def n)
  qed
  then have run: "collect_rows C w = (Inr (map (row \<circ> fst) (fst ?st)), w)"
    by (simp add: collect_rows_def scan fold case_prod_beta)
  have "map fst (map (row \<circ> fst) (fst ?st)) = map fst (fst ?st)" by (simp add: row_def comp_def)
  then have "distinct (map fst (map (row \<circ> fst) (fst ?st)))" by (simp only: doms(2))
  moreover have "set (map (row \<circ> fst) (fst ?st)) = row ` classify_key ` set keys"
    unfolding doms(1) [symmetric] by (simp add: image_image comp_def)
  ultimately show ?thesis using run unfolding row_def by blast
qed

definition demo_metrics_redis :: "keyspace metrics_redis" where
  "demo_metrics_redis =
     redis.extend mem_redis
       (metrics_redis.fields (\<lambda>_ w. (Inr [''tile:radar:a'', ''idx:b'', ''tile:radar:c''], w))
          (\<lambda>ks w. (Inr (map (\<lambda>k. Some (length k)) ks), w)) (\<lambda>w. (Inr Map.empty, w)) (\<lambda>w. (Inr 3, w)))"

definition demo_collector :: "keyspace collector" where
  "demo_collector =
     \<lparr> cl_redis = demo_metrics_redis, cl_sample_per_domain = 0, cl_scan_count = 1000, cl_batch_size = 2,
       cl_retention_days = 14, cl_max_rows = 1000000, cl_randrange = (\<lambda>_ w. (Inr 0, w)),
       cl_now = (\<lambda>_. ''2026-01-01''), cl_days_ago = (\<lambda>_ _. ''2025-12-18'') \<rparr>"

theorem census_exact_witness:
  "\<exists>rows. collect_rows demo_collector Map.empty = (Inr rows, Map.empty) \<and> distinct (map fst rows) \<and>
     set rows = (\<lambda>d. (d, int (length (keys_of d [''tile:radar:a'', ''idx:b'', ''tile:radar:c''])),
                      int (measured (\<lambda>k. Some (length k)) (keys_of d [''tile:radar:a'', ''idx:b'', ''tile:radar:c'']))))
                ` classify_key ` set [''tile:radar:a'', ''idx:b'', ''tile:radar:c'']"
  by (rule census_exact) (simp_all add: demo_collector_def demo_metrics_redis_def mem_redis_def redis.defs metrics_redis.defs)

end
