(* ===== verification/Settings_Tables.thy ===== *)
theory Settings_Tables
  imports Prelude
begin

text \<open>
  The tables of \<^verbatim>\<open>settings.py\<close>: the class attributes with the value the class body
  gives them (an annotation without a value creates no attribute, so it has no row),
  the keys \<^verbatim>\<open>settings.json\<close> may set, and the rows of \<^verbatim>\<open>_load_from_env\<close> in program
  order: the attribute, the helper that reads it and the environment variable.
\<close>

section \<open>Class attributes\<close>

definition INFRA_DEFAULTS :: "(string \<times> json) list" where
  "INFRA_DEFAULTS = [
     (''log_level'', JStr ''''),
     (''app_env'', JStr ''''),
     (''app_role'', JStr ''all''),
     (''s3_tiles_data_endpoint'', JStr ''''),
     (''s3_tiles_data_access_key'', JStr ''''),
     (''s3_tiles_data_secret_key'', JStr ''''),
     (''s3_tiles_data_bucket_name'', JStr ''''),
     (''s3_tiles_data_secure'', JBool False),
     (''s3_weather_stations_bucket_name'', JStr ''weather-stations-data''),
     (''s3_api_keys_bucket_name'', JStr ''api-keys''),
     (''redis_url'', JStr ''''),
     (''redis_password'', JStr ''''),
     (''redis_max_connections'', JInt 100),
     (''redis_pool_wait_timeout_seconds'', JFloat 5),
     (''redis_socket_timeout_seconds'', JFloat 5),
     (''redis_socket_connect_timeout_seconds'', JFloat 2),
     (''redis_health_check_interval_seconds'', JInt 30),
     (''smn_api_base_url'', JStr ''https://api-test.smn.gob.ar/v1''),
     (''smn_api_username'', JStr ''''),
     (''smn_api_password'', JStr ''''),
     (''smn_api_token_settling_delay_seconds'', JFloat 0),
     (''smn_api_log_requests'', JBool False),
     (''smn_stations_registry_url'', JStr ''http://ssl.smn.gob.ar/dpd/zipopendata.php?dato=estaciones''),
     (''weather_stations_registry_fallback_enabled'', JBool True),
     (''weather_stations_registry_fallback_path'', JStr ''resources/estaciones_smn.txt''),
     (''weather_stations_admin_password'', JStr ''''),
     (''gdal_disable_readdir_on_open'', JStr ''EMPTY_DIR''),
     (''gdal_curl_use_head'', JStr ''NO''),
     (''gdal_vsi_cache'', JBool True),
     (''gdal_vsi_cache_size'', JStr ''50MB''),
     (''gdal_vsicurl_cache_size'', JStr ''200MB'')]"

definition PRODUCT_DEFAULTS :: "(string \<times> json) list" where
  "PRODUCT_DEFAULTS = [
     (''sync_prefetch'', JBool True),
     (''radar_cache_control_tile_miss'', JStr ''public, max-age=300''),
     (''sync_domain_timeout_seconds'', JInt 300),
     (''product_availability_ttl_seconds'', JFloat 10),
     (''sync_lock_path'', JStr ''/tmp/sync.lock''),
     (''radar_lock_path'', JStr ''/tmp/radar_sync.lock''),
     (''ecmwf_tp_sync_lock_path'', JStr ''/tmp/ecmwf_tp_sync.lock''),
     (''ecmwf_mslp_sync_lock_path'', JStr ''/tmp/ecmwf_mslp_sync.lock''),
     (''wrf_sync_lock_path'', JStr ''/tmp/wrf_sync.lock''),
     (''gfs_sync_lock_path'', JStr ''/tmp/gfs_sync.lock''),
     (''s3_max_concurrent_downloads'', JInt 5),
     (''s3_connect_timeout_seconds'', JFloat 5),
     (''s3_read_timeout_seconds'', JFloat 30),
     (''s3_max_attempts'', JInt 3),
     (''s3_sync_max_inflight_tiles'', JInt 64),
     (''wrf_tile_ttl'', JInt 86400),
     (''wrf_geojson_ttl'', JInt 86400),
     (''wrf_cache_control_tile_miss'', JStr ''public, max-age=300''),
     (''wrf_sync_interval_seconds'', JInt 120),
     (''wrf_sync_timeout_seconds'', JInt 1200),
     (''wrf_inits_to_keep'', JInt 2),
     (''wrf_overlay_recheck_ttl'', JInt 3600),
     (''gfs_tile_ttl'', JInt 64800),
     (''gfs_geojson_ttl'', JInt 64800),
     (''gfs_cycles_to_keep'', JInt 2),
     (''gfs_sync_interval_seconds'', JInt 120),
     (''gfs_sync_timeout_seconds'', JInt 900),
     (''gfs_cache_control_tile_miss'', JStr ''public, max-age=300'')]"

definition BASEMAP_DEFAULTS :: "(string \<times> json) list" where
  "BASEMAP_DEFAULTS = [
     (''basemap_tile_ttl'', JInt 2592000),
     (''basemap_scrape_interval_seconds'', JInt 604800),
     (''basemap_scrape_concurrent'', JInt 20),
     (''basemap_scrape_delay_ms'', JInt 30),
     (''basemap_scrape_fanout_window'', JInt 500),
     (''basemap_cache_max_zoom'', JInt 11),
     (''basemap_cache_concurrent'', JInt 10),
     (''basemap_scrape_lock_path'', JStr ''/tmp/basemap_scrape.lock''),
     (''s3_basemap_bucket_name'', JStr ''basemap-tiles''),
     (''basemap_providers'', JArr []),
     (''basemap_bbox_lat_min'', JFloat (-60)),
     (''basemap_bbox_lat_max'', JFloat (-15)),
     (''basemap_bbox_lon_min'', JFloat (-85)),
     (''basemap_bbox_lon_max'', JFloat (-40)),
     (''basemap_http_timeout_seconds'', JInt 10),
     (''basemap_http_max_retries'', JInt 3),
     (''basemap_s3_object_ttl_days'', JInt 35),
     (''basemap_online_fallback_enabled'', JBool True),
     (''basemap_provider_availability_ttl'', JInt 240),
     (''basemap_negative_cache_enabled'', JBool True),
     (''basemap_negative_cache_ttl'', JInt 300),
     (''basemap_scrape_state_db_path'', JStr ''data/basemap_scraper_state.sqlite''),
     (''basemap_scrape_checkpoint_every'', JInt 200),
     (''basemap_scrape_checkpoint_seconds'', JFloat 5),
     (''basemap_reader_http_concurrent'', JInt 8),
     (''basemap_reader_http_timeout_seconds'', JInt 3),
     (''basemap_reader_http_max_retries'', JInt 1),
     (''basemap_request_deadline_seconds'', JFloat 4),
     (''basemap_relay_circuit_enabled'', JBool True),
     (''basemap_relay_circuit_min_samples'', JInt 5),
     (''basemap_relay_circuit_threshold'', JFloat (4 / 5)),
     (''basemap_relay_circuit_max_cooldown'', JFloat 30),
     (''basemap_cache_control_tile_miss'', JStr ''public, max-age=300''),
     (''basemap_cache_control_tile'', JStr ''public, max-age=2592000, immutable'')]"

definition BASEMAP_MODE_DEFAULTS :: "(string \<times> json) list" where
  "BASEMAP_MODE_DEFAULTS = [
     (''basemap_backup_mode'', JStr ''backup_and_prefetch''),
     (''basemap_scrape_parallelism_mode'', JStr ''sequential''),
     (''basemap_scrape_per_host_concurrent'', JInt 8),
     (''basemap_provider_cooldown_schedule'', JArr [JInt 300, JInt 900, JInt 3600, JInt 10800, JInt 21600]),
     (''basemap_provider_error_rate_threshold'', JFloat (1 / 20)),
     (''basemap_provider_error_rate_min_samples'', JInt 50),
     (''basemap_provider_error_rate_window'', JInt 200)]"

definition STATION_DEFAULTS :: "(string \<times> json) list" where
  "STATION_DEFAULTS = [
     (''weather_stations_sync_enabled'', JBool True),
     (''weather_stations_scrape_interval_seconds'', JInt 300),
     (''weather_stations_scrape_lock_path'', JStr ''/tmp/weather_stations_scrape.lock''),
     (''weather_stations_http_timeout_seconds'', JInt 30),
     (''weather_stations_http_max_retries'', JInt 3),
     (''weather_stations_token_cache_ttl_seconds'', JInt 3600),
     (''weather_stations_s3_object_ttl_days'', JInt 2),
     (''weather_stations_list_cache_ttl_seconds'', JInt 30),
     (''weather_stations_cache_control_latest'', JStr ''public, max-age=60, stale-while-revalidate=120''),
     (''weather_stations_cache_control_tilesets'', JStr ''public, max-age=60, stale-while-revalidate=120''),
     (''weather_stations_cache_control_registry'', JStr ''public, max-age=3600, stale-while-revalidate=86400''),
     (''weather_stations_cache_control_snapshot'', JStr ''public, max-age=300''),
     (''weather_stations_cache_control_series'', JStr ''public, max-age=300''),
     (''weather_stations_redis_cache_enabled'', JBool True),
     (''weather_stations_redis_latest_ttl_seconds'', JInt 600),
     (''weather_stations_redis_tilesets_ttl_seconds'', JInt 600),
     (''weather_stations_redis_snapshot_ttl_seconds'', JInt 3600),
     (''weather_stations_redis_registry_ttl_seconds'', JInt 3600),
     (''weather_stations_redis_series_ttl_seconds'', JInt 3600),
     (''weather_stations_redis_animation_warm_buckets'', JInt 24),
     (''weather_stations_series_hours'', JInt 48),
     (''weather_stations_api_key_auth_enabled'', JBool True)]"

definition METRICS_DEFAULTS :: "(string \<times> json) list" where
  "METRICS_DEFAULTS = [
     (''metrics_enabled'', JBool True),
     (''metrics_db_path'', JStr ''data/metrics.sqlite''),
     (''metrics_retention_days'', JInt 14),
     (''metrics_max_rows'', JInt 1000000),
     (''metrics_lock_path'', JStr ''/tmp/redis_metrics.lock''),
     (''redis_metrics_sample_interval_seconds'', JInt 300),
     (''redis_metrics_scan_count'', JInt 1000),
     (''redis_metrics_memory_batch_size'', JInt 500),
     (''redis_metrics_memory_sample_per_domain'', JInt 2000)]"

text \<open>Every class attribute that has a value, in the order of the class body.\<close>

definition CLASS_DEFAULTS :: "(string \<times> json) list" where
  "CLASS_DEFAULTS =
     INFRA_DEFAULTS @ PRODUCT_DEFAULTS @ BASEMAP_DEFAULTS @ BASEMAP_MODE_DEFAULTS @
     STATION_DEFAULTS @ METRICS_DEFAULTS"

lemmas defaults_defs =
  INFRA_DEFAULTS_def PRODUCT_DEFAULTS_def BASEMAP_DEFAULTS_def BASEMAP_MODE_DEFAULTS_def
  STATION_DEFAULTS_def METRICS_DEFAULTS_def

text \<open>The attributes the class body annotates without a value.\<close>

definition ANNOTATED_ONLY :: "string list" where
  "ANNOTATED_ONLY =
    [''satellite_tile_ttl'',
     ''radar_tile_ttl'',
     ''tileset_listing_ttl'',
     ''sync_interval_seconds'',
     ''sync_min_sleep_seconds'',
     ''cache_control_config'',
     ''cache_control_tile'',
     ''ecmwf_tile_ttl'',
     ''ecmwf_forecasts_to_keep'',
     ''ecmwf_mslp_geojson_ttl'']"

section \<open>Keys of the settings file\<close>

definition JSON_KEYS :: "string list" where
  "JSON_KEYS = [
     ''sync_prefetch'',
     ''satellite_tile_ttl'',
     ''radar_tile_ttl'',
     ''radar_cache_control_tile_miss'',
     ''tileset_listing_ttl'',
     ''sync_interval_seconds'',
     ''sync_min_sleep_seconds'',
     ''sync_domain_timeout_seconds'',
     ''cache_control_config'',
     ''product_availability_ttl_seconds'',
     ''cache_control_tile'',
     ''s3_max_concurrent_downloads'',
     ''s3_connect_timeout_seconds'',
     ''s3_read_timeout_seconds'',
     ''s3_max_attempts'',
     ''s3_sync_max_inflight_tiles'',
     ''ecmwf_tile_ttl'',
     ''ecmwf_forecasts_to_keep'',
     ''ecmwf_mslp_geojson_ttl'',
     ''wrf_tile_ttl'',
     ''wrf_geojson_ttl'',
     ''wrf_cache_control_tile_miss'',
     ''wrf_inits_to_keep'',
     ''wrf_overlay_recheck_ttl'',
     ''wrf_sync_interval_seconds'',
     ''wrf_sync_timeout_seconds'',
     ''gfs_tile_ttl'',
     ''gfs_geojson_ttl'',
     ''gfs_cycles_to_keep'',
     ''gfs_sync_interval_seconds'',
     ''gfs_sync_timeout_seconds'',
     ''gfs_cache_control_tile_miss'',
     ''basemap_tile_ttl'',
     ''basemap_scrape_interval_seconds'',
     ''basemap_scrape_concurrent'',
     ''basemap_scrape_delay_ms'',
     ''basemap_scrape_fanout_window'',
     ''basemap_cache_max_zoom'',
     ''basemap_cache_concurrent'',
     ''basemap_providers'',
     ''basemap_bbox_lat_min'',
     ''basemap_bbox_lat_max'',
     ''basemap_bbox_lon_min'',
     ''basemap_bbox_lon_max'',
     ''basemap_http_timeout_seconds'',
     ''basemap_http_max_retries'',
     ''basemap_s3_object_ttl_days'',
     ''basemap_online_fallback_enabled'',
     ''basemap_provider_availability_ttl'',
     ''basemap_negative_cache_enabled'',
     ''basemap_negative_cache_ttl'',
     ''basemap_scrape_state_db_path'',
     ''basemap_scrape_checkpoint_every'',
     ''basemap_scrape_checkpoint_seconds'',
     ''basemap_reader_http_concurrent'',
     ''basemap_reader_http_timeout_seconds'',
     ''basemap_reader_http_max_retries'',
     ''basemap_request_deadline_seconds'',
     ''basemap_relay_circuit_enabled'',
     ''basemap_relay_circuit_min_samples'',
     ''basemap_relay_circuit_threshold'',
     ''basemap_relay_circuit_max_cooldown'',
     ''basemap_cache_control_tile_miss'',
     ''basemap_cache_control_tile'',
     ''basemap_backup_mode'',
     ''basemap_scrape_parallelism_mode'',
     ''basemap_scrape_per_host_concurrent'',
     ''basemap_provider_cooldown_schedule'',
     ''basemap_provider_error_rate_threshold'',
     ''basemap_provider_error_rate_min_samples'',
     ''basemap_provider_error_rate_window'',
     ''weather_stations_sync_enabled'',
     ''weather_stations_scrape_interval_seconds'',
     ''weather_stations_scrape_lock_path'',
     ''weather_stations_http_timeout_seconds'',
     ''weather_stations_http_max_retries'',
     ''weather_stations_token_cache_ttl_seconds'',
     ''weather_stations_s3_object_ttl_days'',
     ''weather_stations_list_cache_ttl_seconds'',
     ''weather_stations_cache_control_latest'',
     ''weather_stations_cache_control_tilesets'',
     ''weather_stations_cache_control_registry'',
     ''weather_stations_cache_control_snapshot'',
     ''weather_stations_cache_control_series'',
     ''weather_stations_redis_cache_enabled'',
     ''weather_stations_redis_latest_ttl_seconds'',
     ''weather_stations_redis_tilesets_ttl_seconds'',
     ''weather_stations_redis_snapshot_ttl_seconds'',
     ''weather_stations_redis_registry_ttl_seconds'',
     ''weather_stations_redis_series_ttl_seconds'',
     ''weather_stations_redis_animation_warm_buckets'',
     ''weather_stations_series_hours'',
     ''weather_stations_api_key_auth_enabled'',
     ''metrics_enabled'',
     ''metrics_db_path'',
     ''metrics_retention_days'',
     ''metrics_max_rows'',
     ''metrics_lock_path'',
     ''redis_metrics_sample_interval_seconds'',
     ''redis_metrics_scan_count'',
     ''redis_metrics_memory_batch_size'',
     ''redis_metrics_memory_sample_per_domain'']"

section \<open>The environment\<close>

text \<open>
  How a row reads its variable: \<^verbatim>\<open>os.getenv(k, self.a)\<close>, \<^verbatim>\<open>os.getenv(k, self.a) or self.a\<close>,
  \<^verbatim>\<open>self._env(k) or self.a\<close>, and the four typed helpers.
\<close>

datatype env_kind = Getenv | GetenvOr | EnvOr | EnvInt | EnvFloat | EnvBool | EnvIntList

type_synonym env_row = "string \<times> env_kind \<times> string"

definition INFRA_ENV :: "env_row list" where
  "INFRA_ENV = [
     (''log_level'', Getenv, ''LOG_LEVEL''),
     (''app_env'', Getenv, ''APP_ENV''),
     (''app_role'', GetenvOr, ''APP_ROLE''),
     (''s3_tiles_data_endpoint'', Getenv, ''S3_TILES_DATA_ENDPOINT''),
     (''s3_tiles_data_access_key'', Getenv, ''S3_TILES_DATA_ACCESS_KEY''),
     (''s3_tiles_data_secret_key'', Getenv, ''S3_TILES_DATA_SECRET_KEY''),
     (''s3_tiles_data_bucket_name'', Getenv, ''S3_TILES_DATA_BUCKET_NAME''),
     (''s3_tiles_data_secure'', EnvBool, ''S3_TILES_DATA_SECURE''),
     (''redis_url'', Getenv, ''REDIS_URL''),
     (''redis_password'', Getenv, ''REDIS_PASSWORD''),
     (''gdal_disable_readdir_on_open'', Getenv, ''GDAL_DISABLE_READDIR_ON_OPEN''),
     (''gdal_curl_use_head'', Getenv, ''CPL_VSIL_CURL_USE_HEAD''),
     (''gdal_vsi_cache'', EnvBool, ''VSI_CACHE''),
     (''gdal_vsi_cache_size'', Getenv, ''VSI_CACHE_SIZE''),
     (''gdal_vsicurl_cache_size'', Getenv, ''CPL_VSIL_CURL_CACHE_SIZE'')]"

definition PRODUCT_ENV :: "env_row list" where
  "PRODUCT_ENV = [
     (''sync_interval_seconds'', EnvInt, ''SYNC_INTERVAL_SECONDS''),
     (''sync_min_sleep_seconds'', EnvInt, ''SYNC_MIN_SLEEP_SECONDS''),
     (''sync_domain_timeout_seconds'', EnvInt, ''SYNC_DOMAIN_TIMEOUT_SECONDS''),
     (''sync_prefetch'', EnvBool, ''SYNC_PREFETCH''),
     (''satellite_tile_ttl'', EnvInt, ''SATELLITE_TILE_TTL''),
     (''radar_tile_ttl'', EnvInt, ''RADAR_TILE_TTL''),
     (''radar_cache_control_tile_miss'', Getenv, ''RADAR_CACHE_CONTROL_TILE_MISS''),
     (''tileset_listing_ttl'', EnvInt, ''TILESET_LISTING_TTL''),
     (''cache_control_config'', Getenv, ''CACHE_CONTROL_CONFIG''),
     (''cache_control_tile'', Getenv, ''CACHE_CONTROL_TILE''),
     (''s3_max_concurrent_downloads'', EnvInt, ''S3_MAX_CONCURRENT_DOWNLOADS''),
     (''s3_connect_timeout_seconds'', EnvFloat, ''S3_CONNECT_TIMEOUT_SECONDS''),
     (''s3_read_timeout_seconds'', EnvFloat, ''S3_READ_TIMEOUT_SECONDS''),
     (''s3_max_attempts'', EnvInt, ''S3_MAX_ATTEMPTS''),
     (''s3_sync_max_inflight_tiles'', EnvInt, ''S3_SYNC_MAX_INFLIGHT_TILES''),
     (''ecmwf_tile_ttl'', EnvInt, ''ECMWF_TILE_TTL''),
     (''ecmwf_forecasts_to_keep'', EnvInt, ''ECMWF_FORECASTS_TO_KEEP''),
     (''ecmwf_mslp_geojson_ttl'', EnvInt, ''ECMWF_MSLP_GEOJSON_TTL''),
     (''wrf_tile_ttl'', EnvInt, ''WRF_TILE_TTL''),
     (''wrf_geojson_ttl'', EnvInt, ''WRF_GEOJSON_TTL''),
     (''wrf_cache_control_tile_miss'', Getenv, ''WRF_CACHE_CONTROL_TILE_MISS''),
     (''wrf_inits_to_keep'', EnvInt, ''WRF_INITS_TO_KEEP''),
     (''wrf_overlay_recheck_ttl'', EnvInt, ''WRF_OVERLAY_RECHECK_TTL''),
     (''wrf_sync_interval_seconds'', EnvInt, ''WRF_SYNC_INTERVAL_SECONDS''),
     (''gfs_tile_ttl'', EnvInt, ''GFS_TILE_TTL''),
     (''gfs_geojson_ttl'', EnvInt, ''GFS_GEOJSON_TTL''),
     (''gfs_cycles_to_keep'', EnvInt, ''GFS_CYCLES_TO_KEEP''),
     (''gfs_sync_interval_seconds'', EnvInt, ''GFS_SYNC_INTERVAL_SECONDS''),
     (''gfs_cache_control_tile_miss'', Getenv, ''GFS_CACHE_CONTROL_TILE_MISS''),
     (''gfs_sync_timeout_seconds'', EnvInt, ''GFS_SYNC_TIMEOUT_SECONDS''),
     (''wrf_sync_timeout_seconds'', EnvInt, ''WRF_SYNC_TIMEOUT_SECONDS'')]"

definition BASEMAP_ENV :: "env_row list" where
  "BASEMAP_ENV = [
     (''s3_basemap_bucket_name'', Getenv, ''S3_BASEMAP_BUCKET_NAME''),
     (''basemap_tile_ttl'', EnvInt, ''BASEMAP_TILE_TTL''),
     (''basemap_scrape_interval_seconds'', EnvInt, ''BASEMAP_SCRAPE_INTERVAL_SECONDS''),
     (''basemap_scrape_concurrent'', EnvInt, ''BASEMAP_SCRAPE_CONCURRENT''),
     (''basemap_scrape_fanout_window'', EnvInt, ''BASEMAP_SCRAPE_FANOUT_WINDOW''),
     (''basemap_scrape_delay_ms'', EnvInt, ''BASEMAP_SCRAPE_DELAY_MS''),
     (''basemap_cache_max_zoom'', EnvInt, ''BASEMAP_CACHE_MAX_ZOOM''),
     (''basemap_cache_concurrent'', EnvInt, ''BASEMAP_CACHE_CONCURRENT''),
     (''basemap_bbox_lat_min'', EnvFloat, ''BASEMAP_BBOX_LAT_MIN''),
     (''basemap_bbox_lat_max'', EnvFloat, ''BASEMAP_BBOX_LAT_MAX''),
     (''basemap_bbox_lon_min'', EnvFloat, ''BASEMAP_BBOX_LON_MIN''),
     (''basemap_bbox_lon_max'', EnvFloat, ''BASEMAP_BBOX_LON_MAX''),
     (''basemap_http_timeout_seconds'', EnvInt, ''BASEMAP_HTTP_TIMEOUT_SECONDS''),
     (''basemap_http_max_retries'', EnvInt, ''BASEMAP_HTTP_MAX_RETRIES''),
     (''basemap_s3_object_ttl_days'', EnvInt, ''BASEMAP_S3_OBJECT_TTL_DAYS''),
     (''basemap_online_fallback_enabled'', EnvBool, ''BASEMAP_ONLINE_FALLBACK_ENABLED''),
     (''basemap_provider_availability_ttl'', EnvInt, ''BASEMAP_PROVIDER_AVAILABILITY_TTL''),
     (''basemap_negative_cache_enabled'', EnvBool, ''BASEMAP_NEGATIVE_CACHE_ENABLED''),
     (''basemap_negative_cache_ttl'', EnvInt, ''BASEMAP_NEGATIVE_CACHE_TTL''),
     (''basemap_scrape_state_db_path'', Getenv, ''BASEMAP_SCRAPE_STATE_DB_PATH''),
     (''basemap_scrape_checkpoint_every'', EnvInt, ''BASEMAP_SCRAPE_CHECKPOINT_EVERY''),
     (''basemap_scrape_checkpoint_seconds'', EnvFloat, ''BASEMAP_SCRAPE_CHECKPOINT_SECONDS''),
     (''basemap_reader_http_concurrent'', EnvInt, ''BASEMAP_READER_HTTP_CONCURRENT''),
     (''basemap_reader_http_timeout_seconds'', EnvInt, ''BASEMAP_READER_HTTP_TIMEOUT_SECONDS''),
     (''basemap_reader_http_max_retries'', EnvInt, ''BASEMAP_READER_HTTP_MAX_RETRIES''),
     (''basemap_request_deadline_seconds'', EnvFloat, ''BASEMAP_REQUEST_DEADLINE_SECONDS''),
     (''basemap_relay_circuit_enabled'', EnvBool, ''BASEMAP_RELAY_CIRCUIT_ENABLED''),
     (''basemap_relay_circuit_min_samples'', EnvInt, ''BASEMAP_RELAY_CIRCUIT_MIN_SAMPLES''),
     (''basemap_relay_circuit_threshold'', EnvFloat, ''BASEMAP_RELAY_CIRCUIT_THRESHOLD''),
     (''basemap_relay_circuit_max_cooldown'', EnvFloat, ''BASEMAP_RELAY_CIRCUIT_MAX_COOLDOWN''),
     (''basemap_cache_control_tile_miss'', Getenv, ''BASEMAP_CACHE_CONTROL_TILE_MISS''),
     (''basemap_cache_control_tile'', Getenv, ''BASEMAP_CACHE_CONTROL_TILE''),
     (''basemap_backup_mode'', EnvOr, ''BASEMAP_BACKUP_MODE''),
     (''basemap_scrape_parallelism_mode'', GetenvOr, ''BASEMAP_SCRAPE_PARALLELISM_MODE''),
     (''basemap_scrape_per_host_concurrent'', EnvInt, ''BASEMAP_SCRAPE_PER_HOST_CONCURRENT''),
     (''basemap_provider_cooldown_schedule'', EnvIntList, ''BASEMAP_PROVIDER_COOLDOWN_SCHEDULE''),
     (''basemap_provider_error_rate_threshold'', EnvFloat, ''BASEMAP_PROVIDER_ERROR_RATE_THRESHOLD''),
     (''basemap_provider_error_rate_min_samples'', EnvInt, ''BASEMAP_PROVIDER_ERROR_RATE_MIN_SAMPLES''),
     (''basemap_provider_error_rate_window'', EnvInt, ''BASEMAP_PROVIDER_ERROR_RATE_WINDOW'')]"

definition STATION_ENV :: "env_row list" where
  "STATION_ENV = [
     (''s3_weather_stations_bucket_name'', Getenv, ''S3_WEATHER_STATIONS_BUCKET_NAME''),
     (''smn_api_base_url'', Getenv, ''SMN_API_BASE_URL''),
     (''smn_api_username'', Getenv, ''SMN_API_USERNAME''),
     (''smn_api_password'', Getenv, ''SMN_API_PASSWORD''),
     (''smn_api_token_settling_delay_seconds'', EnvFloat, ''SMN_API_TOKEN_SETTLING_DELAY_SECONDS''),
     (''smn_api_log_requests'', EnvBool, ''SMN_API_LOG_REQUESTS''),
     (''smn_stations_registry_url'', Getenv, ''SMN_STATIONS_REGISTRY_URL''),
     (''weather_stations_registry_fallback_enabled'', EnvBool, ''WEATHER_STATIONS_REGISTRY_FALLBACK_ENABLED''),
     (''weather_stations_registry_fallback_path'', Getenv, ''WEATHER_STATIONS_REGISTRY_FALLBACK_PATH''),
     (''weather_stations_admin_password'', Getenv, ''WEATHER_STATIONS_ADMIN_PASSWORD''),
     (''weather_stations_sync_enabled'', EnvBool, ''WEATHER_STATIONS_SYNC_ENABLED''),
     (''weather_stations_scrape_interval_seconds'', EnvInt, ''WEATHER_STATIONS_SCRAPE_INTERVAL_SECONDS''),
     (''weather_stations_scrape_lock_path'', Getenv, ''WEATHER_STATIONS_SCRAPE_LOCK_PATH''),
     (''weather_stations_http_timeout_seconds'', EnvInt, ''WEATHER_STATIONS_HTTP_TIMEOUT_SECONDS''),
     (''weather_stations_http_max_retries'', EnvInt, ''WEATHER_STATIONS_HTTP_MAX_RETRIES''),
     (''weather_stations_token_cache_ttl_seconds'', EnvInt, ''WEATHER_STATIONS_TOKEN_CACHE_TTL_SECONDS''),
     (''weather_stations_s3_object_ttl_days'', EnvInt, ''WEATHER_STATIONS_S3_OBJECT_TTL_DAYS''),
     (''weather_stations_list_cache_ttl_seconds'', EnvInt, ''WEATHER_STATIONS_LIST_CACHE_TTL_SECONDS''),
     (''weather_stations_cache_control_latest'', Getenv, ''WEATHER_STATIONS_CACHE_CONTROL_LATEST''),
     (''weather_stations_cache_control_tilesets'', Getenv, ''WEATHER_STATIONS_CACHE_CONTROL_TILESETS''),
     (''weather_stations_cache_control_registry'', Getenv, ''WEATHER_STATIONS_CACHE_CONTROL_REGISTRY''),
     (''weather_stations_cache_control_series'', Getenv, ''WEATHER_STATIONS_CACHE_CONTROL_SERIES''),
     (''weather_stations_cache_control_snapshot'', Getenv, ''WEATHER_STATIONS_CACHE_CONTROL_SNAPSHOT''),
     (''weather_stations_redis_cache_enabled'', EnvBool, ''WEATHER_STATIONS_REDIS_CACHE_ENABLED''),
     (''weather_stations_redis_latest_ttl_seconds'', EnvInt, ''WEATHER_STATIONS_REDIS_LATEST_TTL_SECONDS''),
     (''weather_stations_redis_tilesets_ttl_seconds'', EnvInt, ''WEATHER_STATIONS_REDIS_TILESETS_TTL_SECONDS''),
     (''weather_stations_redis_snapshot_ttl_seconds'', EnvInt, ''WEATHER_STATIONS_REDIS_SNAPSHOT_TTL_SECONDS''),
     (''weather_stations_redis_registry_ttl_seconds'', EnvInt, ''WEATHER_STATIONS_REDIS_REGISTRY_TTL_SECONDS''),
     (''weather_stations_redis_series_ttl_seconds'', EnvInt, ''WEATHER_STATIONS_REDIS_SERIES_TTL_SECONDS''),
     (''weather_stations_redis_animation_warm_buckets'', EnvInt, ''WEATHER_STATIONS_REDIS_ANIMATION_WARM_BUCKETS''),
     (''weather_stations_series_hours'', EnvInt, ''WEATHER_STATIONS_SERIES_HOURS''),
     (''weather_stations_api_key_auth_enabled'', EnvBool, ''WEATHER_STATIONS_API_KEY_AUTH_ENABLED''),
     (''s3_api_keys_bucket_name'', Getenv, ''S3_API_KEYS_BUCKET_NAME'')]"

definition METRICS_ENV :: "env_row list" where
  "METRICS_ENV = [
     (''metrics_enabled'', EnvBool, ''METRICS_ENABLED''),
     (''metrics_db_path'', Getenv, ''METRICS_DB_PATH''),
     (''metrics_retention_days'', EnvInt, ''METRICS_RETENTION_DAYS''),
     (''metrics_max_rows'', EnvInt, ''METRICS_MAX_ROWS''),
     (''metrics_lock_path'', Getenv, ''METRICS_LOCK_PATH''),
     (''redis_metrics_sample_interval_seconds'', EnvInt, ''REDIS_METRICS_SAMPLE_INTERVAL_SECONDS''),
     (''redis_metrics_scan_count'', EnvInt, ''REDIS_METRICS_SCAN_COUNT''),
     (''redis_metrics_memory_batch_size'', EnvInt, ''REDIS_METRICS_MEMORY_BATCH_SIZE''),
     (''redis_metrics_memory_sample_per_domain'', EnvInt, ''REDIS_METRICS_MEMORY_SAMPLE_PER_DOMAIN'')]"

definition ENV_ROWS :: "env_row list" where
  "ENV_ROWS = INFRA_ENV @ PRODUCT_ENV @ BASEMAP_ENV @ STATION_ENV @ METRICS_ENV"

lemmas env_defs = INFRA_ENV_def PRODUCT_ENV_def BASEMAP_ENV_def STATION_ENV_def METRICS_ENV_def

section \<open>Facts about the tables\<close>

text \<open>
  A distinctness test cheap enough for the kernel: each name is projected to the bits of
  the characters at a few positions, and the bit strings are split bit by bit.
\<close>

fun bit_tails :: "bool \<Rightarrow> bool list list \<Rightarrow> bool list list" where
  "bit_tails b [] = []"
| "bit_tails b ([] # xs) = bit_tails b xs"
| "bit_tails b ((c # s) # xs) = (if c = b then s # bit_tails b xs else bit_tails b xs)"

fun one_end :: "bool \<Rightarrow> bool list list \<Rightarrow> bool" where
  "one_end seen [] = True"
| "one_end seen ([] # xs) = (\<not> seen \<and> one_end True xs)"
| "one_end seen ((c # s) # xs) = one_end seen xs"

lemma bit_tails_smaller:
  "sum_list (map (Suc \<circ> length) (bit_tails b xs)) \<le> sum_list (map length xs)"
  by (induction b xs rule: bit_tails.induct) auto

lemma lengths_smaller: "xs \<noteq> [] \<Longrightarrow> sum_list (map length xs) < sum_list (map (Suc \<circ> length) xs)"
  by (induction xs rule: list_nonempty_induct) auto

function bits_distinct :: "bool list list \<Rightarrow> bool" where
  "bits_distinct [] = True"
| "bits_distinct [x] = True"
| "bits_distinct (x # y # xs) =
     (one_end False (x # y # xs) \<and> bits_distinct (bit_tails True (x # y # xs)) \<and>
      bits_distinct (bit_tails False (x # y # xs)))"
  by pat_completeness auto

termination
  by (relation "measure (\<lambda>xs. sum_list (map (Suc \<circ> length) xs))")
     (auto simp only: in_measure intro!: le_less_trans [OF bit_tails_smaller lengths_smaller])

lemma set_bit_tails: "set (bit_tails b xs) = {s. b # s \<in> set xs}"
  by (induction b xs rule: bit_tails.induct) auto

lemma one_end_True: "one_end True xs \<Longrightarrow> [] \<notin> set xs"
  by (induction True xs rule: one_end.induct) auto

lemma distinct_split:
  "one_end seen xs \<Longrightarrow> distinct (bit_tails True xs) \<Longrightarrow> distinct (bit_tails False xs) \<Longrightarrow> distinct xs"
proof (induction seen xs rule: one_end.induct)
  case (2 seen xs)
  then show ?case using one_end_True by simp
next
  case (3 seen c s xs)
  then show ?case by (cases c) (auto simp: set_bit_tails)
qed simp

lemma bits_distinct_sound: "bits_distinct xs \<Longrightarrow> distinct xs"
proof (induction xs rule: bits_distinct.induct)
  case (3 x y xs)
  note parts = "3.prems" [unfolded bits_distinct.simps]
  show ?case
    by (rule distinct_split [of False])
       (use parts in \<open>simp_all only: "3.IH"\<close>)
qed simp_all

fun char_bits :: "char \<Rightarrow> bool list" where
  "char_bits (Char b0 b1 b2 b3 b4 b5 b6 b7) = [b0, b1, b2, b3, b4]"

text \<open>The bits of the characters a mask keeps, at their positions.\<close>

fun project :: "bool list \<Rightarrow> string \<Rightarrow> bool list" where
  "project [] s = []"
| "project (k # ks) [] = []"
| "project (k # ks) (c # s) = (if k then char_bits c @ project ks s else project ks s)"

lemma distinct_by_bits: "bits_distinct (map (project m) xs) \<Longrightarrow> distinct xs"
  by (drule bits_distinct_sound) (simp add: distinct_map)

definition attribute_mask :: "bool list" where
  "attribute_mask = [False, True, False, False, False, True, False, False, False, False, False, True, False, False, False, True, False, False, False, True, False, False, False, False, False, False, False, False, True, False, False, False, False, True, False, False, False, False, False, True]"

text \<open>No attribute is assigned twice from the environment, and no variable feeds two of them.\<close>

lemma env_attributes_distinct: "distinct (map fst ENV_ROWS)"
  by (rule distinct_by_bits [of attribute_mask]) code_simp

lemma env_variables_distinct: "distinct (map (\<lambda>(a, k, v). v) ENV_ROWS)"
  by (rule distinct_by_bits [of attribute_mask]) code_simp

text \<open>An attribute has at most one value in the class body, and none when it is only annotated.\<close>

definition class_mask :: "bool list" where
  "class_mask = [True, False, False, False, False, False, False, True, False, False, False, False, False, False, True, True, False, False, True, False, False, False, False, False, False, False, False, False, True, False, False, False, False, True, False, False, False, False, False, True]"

lemma class_attributes_distinct: "distinct (map fst CLASS_DEFAULTS @ ANNOTATED_ONLY)"
  by (rule distinct_by_bits [of class_mask]) code_simp

lemma selected_subset: "list_all (\<lambda>i. i < length xs) is \<Longrightarrow> set (map ((!) xs) is) \<subseteq> set xs"
  by (auto simp: list_all_iff)

text \<open>Every attribute the environment may set is declared in the class body.\<close>

lemma env_attributes_declared:
  "map fst ENV_ROWS = map ((!) (map fst CLASS_DEFAULTS @ ANNOTATED_ONLY)) [0, 1, 2, 3, 4, 5, 6, 7, 10, 11, 26, 27, 28, 29, 30, 134, 135, 33, 31, 131, 132, 32, 133, 136, 137, 41, 42, 43, 44, 45, 138, 139, 140, 46, 47, 48, 51, 52, 49, 53, 54, 55, 56, 58, 57, 50, 67, 59, 60, 61, 63, 62, 64, 65, 69, 70, 71, 72, 73, 74, 75, 76, 77, 78, 79, 80, 81, 82, 83, 84, 85, 86, 87, 88, 89, 90, 91, 92, 93, 94, 95, 96, 97, 98, 99, 8, 17, 18, 19, 20, 21, 22, 23, 24, 25, 100, 101, 102, 103, 104, 105, 106, 107, 108, 109, 110, 112, 111, 113, 114, 115, 116, 117, 118, 119, 120, 121, 9, 122, 123, 124, 125, 126, 127, 128, 129, 130]"
  by code_simp

lemma annotated_rows:
  "map ((!) ENV_ROWS) [19, 20, 22, 15, 16, 23, 24, 30, 31, 32] =
     [(''satellite_tile_ttl'', EnvInt, ''SATELLITE_TILE_TTL''),
      (''radar_tile_ttl'', EnvInt, ''RADAR_TILE_TTL''),
      (''tileset_listing_ttl'', EnvInt, ''TILESET_LISTING_TTL''),
      (''sync_interval_seconds'', EnvInt, ''SYNC_INTERVAL_SECONDS''),
      (''sync_min_sleep_seconds'', EnvInt, ''SYNC_MIN_SLEEP_SECONDS''),
      (''cache_control_config'', Getenv, ''CACHE_CONTROL_CONFIG''),
      (''cache_control_tile'', Getenv, ''CACHE_CONTROL_TILE''),
      (''ecmwf_tile_ttl'', EnvInt, ''ECMWF_TILE_TTL''),
      (''ecmwf_forecasts_to_keep'', EnvInt, ''ECMWF_FORECASTS_TO_KEEP''),
      (''ecmwf_mslp_geojson_ttl'', EnvInt, ''ECMWF_MSLP_GEOJSON_TTL'')]"
  by code_simp

end
