(* ===== verification/Settings.thy ===== *)
theory Settings
  imports Settings_Tables
begin

text \<open>
  The settings object of \<^verbatim>\<open>settings.py\<close>: the file \<^verbatim>\<open>settings.json\<close> flattened, its deprecated
  keys migrated and its known keys applied; the environment laid over it row by row; the
  fail-fast validation. An instance is the map from its attributes to their values, which are
  JSON values because the file is untyped; a read of an attribute the class never created and
  the file did not set raises \<^verbatim>\<open>AttributeError\<close>. Log lines are not modelled.
\<close>

section \<open>Attributes and the environment\<close>

type_synonym attrs = "string \<rightharpoonup> json"
type_synonym environ = "string \<rightharpoonup> string"

definition getattr :: "attrs \<Rightarrow> string \<Rightarrow> json outcome" where
  "getattr s a = or_raise AttributeError (s a)"

text \<open>\<^verbatim>\<open>os.getenv(key, default)\<close>.\<close>

definition getenv :: "environ \<Rightarrow> string \<Rightarrow> json \<Rightarrow> json" where
  "getenv env key dflt = (case env key of Some v \<Rightarrow> JStr v | None \<Rightarrow> dflt)"

definition getenv_text :: "environ \<Rightarrow> string \<Rightarrow> string" where
  "getenv_text env key = (case env key of Some v \<Rightarrow> v | None \<Rightarrow> [])"

text \<open>The truth of a JSON value under \<^verbatim>\<open>if\<close>, \<^verbatim>\<open>or\<close> and \<^verbatim>\<open>not\<close>.\<close>

fun json_true :: "json \<Rightarrow> bool" where
  "json_true JNull = False"
| "json_true (JBool b) = b"
| "json_true (JInt n) = (n \<noteq> 0)"
| "json_true (JFloat q) = (q \<noteq> 0)"
| "json_true (JStr s) = (s \<noteq> [])"
| "json_true (JArr vs) = (vs \<noteq> [])"
| "json_true (JObj kvs) = (kvs \<noteq> [])"

section \<open>Deprecated names\<close>

definition BASEMAP_BACKUP_MODE_RENAMES :: "(string \<times> string) list" where
  "BASEMAP_BACKUP_MODE_RENAMES =
     [(''full'', ''backup_and_prefetch''),
      (''on_demand'', ''backup_and_cache_on_read''),
      (''no_cache'', ''backup_only'')]"

text \<open>A list is unhashable: the lookup itself fails. (A flattened value is never a dict.)\<close>

fun to_basemap_backup_mode :: "json \<Rightarrow> json outcome" where
  "to_basemap_backup_mode (JStr s) =
     Inr (case map_of BASEMAP_BACKUP_MODE_RENAMES s of Some t \<Rightarrow> JStr t | None \<Rightarrow> JStr s)"
| "to_basemap_backup_mode (JArr vs) = Inl TypeError"
| "to_basemap_backup_mode (JObj kvs) = Inl TypeError"
| "to_basemap_backup_mode v = Inr v"

definition sync_mode_to_prefetch :: "json \<Rightarrow> json outcome" where
  "sync_mode_to_prefetch v = Inr (JBool (v = JStr ''full''))"

definition weather_stations_mode_to_enabled :: "json \<Rightarrow> json outcome" where
  "weather_stations_mode_to_enabled v = Inr (JBool (v = JStr ''full''))"

definition DEPRECATED_KEYS :: "(string \<times> string \<times> (json \<Rightarrow> json outcome)) list" where
  "DEPRECATED_KEYS =
     [(''basemap_sync_mode'', ''basemap_backup_mode'', to_basemap_backup_mode),
      (''sync_mode'', ''sync_prefetch'', sync_mode_to_prefetch),
      (''weather_stations_sync_mode'', ''weather_stations_sync_enabled'', weather_stations_mode_to_enabled)]"

definition DEPRECATED_ENV :: "(string \<times> string) list" where
  "DEPRECATED_ENV = map (\<lambda>(old_key, new_key, _). (py_upper new_key, py_upper old_key)) DEPRECATED_KEYS"

section \<open>The settings file\<close>

text \<open>
  \<^verbatim>\<open>_walk\<close>: a level assigns its leaves first and then walks its nested objects, so a nested
  object wins over a flat key of the same name.
\<close>

fun is_jobj :: "json \<Rightarrow> bool" where
  "is_jobj (JObj kvs) = True"
| "is_jobj _ = False"

definition walk_leaves ::
  "string \<Rightarrow> (string \<times> json) list \<Rightarrow> (string \<times> json) list \<Rightarrow> (string \<times> json) list" where
  "walk_leaves pre section flat =
     foldl (\<lambda>flat (key, val). if is_jobj val then flat else dict_set flat (pre @ key) val) flat section"

function (sequential) walk ::
    "string \<Rightarrow> (string \<times> json) list \<Rightarrow> (string \<times> json) list \<Rightarrow> (string \<times> json) list"
  and walk_nested ::
    "string \<Rightarrow> (string \<times> json) list \<Rightarrow> (string \<times> json) list \<Rightarrow> (string \<times> json) list" where
  "walk pre section flat = walk_nested pre section (walk_leaves pre section flat)"
| "walk_nested pre [] flat = flat"
| "walk_nested pre ((key, JObj kvs) # section) flat =
     walk_nested pre section (walk (pre @ key @ ''_'') kvs flat)"
| "walk_nested pre ((key, val) # section) flat = walk_nested pre section flat"
  by pat_completeness auto

termination
  by (relation "measure (case_sum
        (\<lambda>(pre, section, flat). 2 * size_list (size_prod (\<lambda>x. 0) size) section + 1)
        (\<lambda>(pre, section, flat). 2 * size_list (size_prod (\<lambda>x. 0) size) section))") auto

fun flatten :: "json \<Rightarrow> (string \<times> json) list outcome" where
  "flatten (JObj kvs) = Inr (walk [] kvs [])"
| "flatten _ = Inl AttributeError"

fun migrate_keys ::
  "(string \<times> string \<times> (json \<Rightarrow> json outcome)) list \<Rightarrow> (string \<times> json) list \<Rightarrow> (string \<times> json) list outcome" where
  "migrate_keys [] migrated = Inr migrated"
| "migrate_keys ((old_key, new_key, convert) # rest) migrated =
     (case map_of migrated old_key of
        None \<Rightarrow> migrate_keys rest migrated
      | Some v \<Rightarrow>
          let migrated = filter (\<lambda>(k, _). k \<noteq> old_key) migrated
          in if new_key \<in> fst ` set migrated then migrate_keys rest migrated
             else andthen (convert v) (\<lambda>v'. migrate_keys rest (dict_set migrated new_key v')))"

definition migrate_deprecated :: "(string \<times> json) list \<Rightarrow> (string \<times> json) list outcome" where
  "migrate_deprecated flat = migrate_keys DEPRECATED_KEYS flat"

text \<open>The keys of the file that are only warned about.\<close>

definition unknown_keys :: "(string \<times> json) list \<Rightarrow> string list" where
  "unknown_keys flat = sort (remdups (filter (\<lambda>k. k \<notin> set JSON_KEYS) (map fst flat)))"

text \<open>The file is \<^const>\<open>None\<close> when there is none; text that is not JSON is a \<^verbatim>\<open>JSONDecodeError\<close>.\<close>

definition apply_keys :: "(string \<times> json) list \<Rightarrow> attrs \<Rightarrow> attrs" where
  "apply_keys flat s =
     (\<lambda>a. if a \<in> set JSON_KEYS then (case map_of flat a of Some v \<Rightarrow> Some v | None \<Rightarrow> s a) else s a)"

definition load_from_json :: "pybytes option \<Rightarrow> attrs \<Rightarrow> attrs outcome" where
  "load_from_json cfg s =
     (case cfg of
        None \<Rightarrow> Inr s
      | Some text \<Rightarrow>
          andthen (or_raise ValueError (json_loads text)) (\<lambda>data.
          andthen (flatten data) (\<lambda>flat.
          andthen (migrate_deprecated flat) (\<lambda>flat. Inr (apply_keys flat s)))))"

section \<open>Reading the environment\<close>

text \<open>
  \<^verbatim>\<open>str(value)\<close> is only taken of what a converter returns for a text, which is a text or a
  bool (\<^verbatim>\<open>legacy_env_text\<close> below); of other values it is \<^const>\<open>None\<close> here.
\<close>

fun as_env_text :: "json \<Rightarrow> string option" where
  "as_env_text (JBool b) = Some (if b then ''true'' else ''false'')"
| "as_env_text (JStr s) = Some s"
| "as_env_text _ = None"

definition legacy_env :: "environ \<Rightarrow> string \<Rightarrow> string outcome" where
  "legacy_env env key =
     (case map_of DEPRECATED_ENV key of
        None \<Rightarrow> Inr []
      | Some old_key \<Rightarrow>
          let val = getenv_text env old_key
          in if val = [] then Inr []
             else case map_of DEPRECATED_KEYS (py_lower old_key) of
                    None \<Rightarrow> Inl KeyError
                  | Some (_, convert) \<Rightarrow>
                      andthen (convert (JStr val)) (\<lambda>v. or_raise TypeError (as_env_text v)))"

definition env_text :: "environ \<Rightarrow> string \<Rightarrow> string outcome" where
  "env_text env key =
     (let val = getenv_text env key in if val \<noteq> [] then Inr val else legacy_env env key)"

definition env_int :: "environ \<Rightarrow> string \<Rightarrow> json \<Rightarrow> json outcome" where
  "env_int env key dflt =
     andthen (env_text env key) (\<lambda>val.
       if val = [] then Inr dflt else andthen (or_raise ValueError (py_int val)) (\<lambda>n. Inr (JInt n)))"

definition env_float :: "environ \<Rightarrow> string \<Rightarrow> json \<Rightarrow> json outcome" where
  "env_float env key dflt =
     andthen (env_text env key) (\<lambda>val.
       if val = [] then Inr dflt else andthen (or_raise ValueError (py_float val)) (\<lambda>q. Inr (JFloat q)))"

definition env_bool :: "environ \<Rightarrow> string \<Rightarrow> json \<Rightarrow> json outcome" where
  "env_bool env key dflt =
     andthen (env_text env key) (\<lambda>val.
       if val = [] then Inr dflt
       else Inr (JBool (py_lower (py_strip val) \<in> set [''1'', ''true'', ''yes'', ''on''])))"

text \<open>\<^verbatim>\<open>list(default)\<close> copies a list, spells out a text and refuses a number.\<close>

fun py_list :: "json \<Rightarrow> json outcome" where
  "py_list (JArr vs) = Inr (JArr vs)"
| "py_list (JStr s) = Inr (JArr (map (\<lambda>c. JStr [c]) s))"
| "py_list (JObj kvs) = Inr (JArr (map (JStr \<circ> fst) kvs))"
| "py_list _ = Inl TypeError"

definition parse_int_list :: "string \<Rightarrow> int list option" where
  "parse_int_list val =
     those (map (\<lambda>part. py_int (py_strip part)) (filter (\<lambda>part. py_strip part \<noteq> []) (py_split (CHR '','') val)))"

definition env_int_list :: "environ \<Rightarrow> string \<Rightarrow> json \<Rightarrow> json outcome" where
  "env_int_list env key dflt =
     andthen (env_text env key) (\<lambda>val.
       if val = [] then py_list dflt
       else andthen (or_raise ValueError (parse_int_list val)) (\<lambda>ns. Inr (JArr (map JInt ns))))"

text \<open>
  One row: the value it assigns, from the attribute's current value. The default argument is
  evaluated before the call, so a missing attribute fails even when the variable is set;
  only \<^verbatim>\<open>self._env(k) or self.a\<close> reads the attribute last.
\<close>

fun env_value :: "environ \<Rightarrow> env_kind \<Rightarrow> string \<Rightarrow> json option \<Rightarrow> json outcome" where
  "env_value env Getenv key cur =
     andthen (or_raise AttributeError cur) (\<lambda>d. Inr (getenv env key d))"
| "env_value env GetenvOr key cur =
     andthen (or_raise AttributeError cur) (\<lambda>d.
       Inr (if json_true (getenv env key d) then getenv env key d else d))"
| "env_value env EnvOr key cur =
     andthen (env_text env key) (\<lambda>val. if val \<noteq> [] then Inr (JStr val) else or_raise AttributeError cur)"
| "env_value env EnvInt key cur = andthen (or_raise AttributeError cur) (env_int env key)"
| "env_value env EnvFloat key cur = andthen (or_raise AttributeError cur) (env_float env key)"
| "env_value env EnvBool key cur = andthen (or_raise AttributeError cur) (env_bool env key)"
| "env_value env EnvIntList key cur = andthen (or_raise AttributeError cur) (env_int_list env key)"

fun load_rows :: "env_row list \<Rightarrow> environ \<Rightarrow> attrs \<Rightarrow> attrs outcome" where
  "load_rows [] env s = Inr s"
| "load_rows ((a, kind, key) # rows) env s =
     andthen (env_value env kind key (s a)) (\<lambda>v. load_rows rows env (s(a \<mapsto> v)))"

definition load_from_env :: "environ \<Rightarrow> attrs \<Rightarrow> attrs outcome" where
  "load_from_env env s = load_rows ENV_ROWS env s"

section \<open>Validation\<close>

definition BASEMAP_BACKUP_MODES :: "string list" where
  "BASEMAP_BACKUP_MODES =
     [''backup_and_prefetch'', ''backup_and_cache_on_read'', ''backup_only'', ''relay_only'']"

definition BASEMAP_PARALLELISM_MODES :: "string list" where
  "BASEMAP_PARALLELISM_MODES = [''sequential'', ''per_origin'', ''full'']"

definition APP_ROLES :: "string list" where
  "APP_ROLES = [''web'', ''worker'', ''all'']"

text \<open>Order on untyped values: numbers (a bool is one) and texts compare, anything mixed is a \<^verbatim>\<open>TypeError\<close>.\<close>

fun num_of :: "json \<Rightarrow> rat option" where
  "num_of (JBool b) = Some (if b then 1 else 0)"
| "num_of (JInt n) = Some (of_int n)"
| "num_of (JFloat q) = Some q"
| "num_of _ = None"

fun py_lt :: "json \<Rightarrow> json \<Rightarrow> bool outcome" where
  "py_lt (JStr a) (JStr b) = Inr (a < b)"
| "py_lt a b =
     (case (num_of a, num_of b) of (Some x, Some y) \<Rightarrow> Inr (x < y) | _ \<Rightarrow> Inl TypeError)"

fun py_le :: "json \<Rightarrow> json \<Rightarrow> bool outcome" where
  "py_le (JStr a) (JStr b) = Inr (a \<le> b)"
| "py_le a b =
     (case (num_of a, num_of b) of (Some x, Some y) \<Rightarrow> Inr (x \<le> y) | _ \<Rightarrow> Inl TypeError)"

text \<open>\<^verbatim>\<open>a and b\<close>, \<^verbatim>\<open>any(..)\<close> and the chain of guards, each of which raises \<^verbatim>\<open>ValueError\<close> when true.\<close>

definition and_also :: "bool outcome \<Rightarrow> bool outcome \<Rightarrow> bool outcome" where
  "and_also a b = andthen a (\<lambda>x. if x then b else Inr False)"

fun any_of :: "('a \<Rightarrow> bool outcome) \<Rightarrow> 'a list \<Rightarrow> bool outcome" where
  "any_of f [] = Inr False"
| "any_of f (x # xs) = andthen (f x) (\<lambda>b. if b then Inr True else any_of f xs)"

fun raise_if_any :: "bool outcome list \<Rightarrow> unit outcome" where
  "raise_if_any [] = Inr ()"
| "raise_if_any (c # cs) = andthen c (\<lambda>bad. if bad then Inl ValueError else raise_if_any cs)"

fun elements :: "json \<Rightarrow> json list" where
  "elements (JArr vs) = vs"
| "elements _ = []"

definition attr_true :: "attrs \<Rightarrow> string \<Rightarrow> bool outcome" where
  "attr_true s a = andthen (getattr s a) (\<lambda>v. Inr (json_true v))"

definition attr_false :: "attrs \<Rightarrow> string \<Rightarrow> bool outcome" where
  "attr_false s a = andthen (getattr s a) (\<lambda>v. Inr (\<not> json_true v))"

definition attr_below :: "attrs \<Rightarrow> string \<Rightarrow> int \<Rightarrow> bool outcome" where
  "attr_below s a n = andthen (getattr s a) (\<lambda>v. py_lt v (JInt n))"

definition attr_less :: "attrs \<Rightarrow> string \<Rightarrow> string \<Rightarrow> bool outcome" where
  "attr_less s a b = andthen (getattr s a) (\<lambda>v. andthen (getattr s b) (\<lambda>w. py_lt v w))"

definition attr_not_in :: "attrs \<Rightarrow> string \<Rightarrow> string list \<Rightarrow> bool outcome" where
  "attr_not_in s a xs = andthen (getattr s a) (\<lambda>v. Inr (v \<notin> JStr ` set xs))"

fun is_jbool :: "json \<Rightarrow> bool" where
  "is_jbool (JBool b) = True"
| "is_jbool _ = False"

definition attr_not_bool :: "attrs \<Rightarrow> string \<Rightarrow> bool outcome" where
  "attr_not_bool s a = andthen (getattr s a) (\<lambda>v. Inr (\<not> is_jbool v))"

definition schedule_of :: "attrs \<Rightarrow> json list outcome" where
  "schedule_of s =
     andthen (getattr s ''basemap_provider_cooldown_schedule'') (\<lambda>v. andthen (py_list v) (\<lambda>l. Inr (elements l)))"

definition is_s3_configured :: "attrs \<Rightarrow> bool outcome" where
  "is_s3_configured s =
     and_also (attr_true s ''s3_tiles_data_endpoint'')
       (and_also (attr_true s ''s3_tiles_data_access_key'') (attr_true s ''s3_tiles_data_secret_key''))"

definition basemap_guards :: "attrs \<Rightarrow> bool outcome list" where
  "basemap_guards s =
     [attr_not_in s ''basemap_backup_mode'' BASEMAP_BACKUP_MODES,
      and_also (andthen (getattr s ''basemap_backup_mode'') (\<lambda>v. Inr (v = JStr ''relay_only'')))
        (attr_false s ''basemap_online_fallback_enabled''),
      attr_not_in s ''basemap_scrape_parallelism_mode'' BASEMAP_PARALLELISM_MODES,
      attr_below s ''basemap_scrape_per_host_concurrent'' 1,
      attr_less s ''basemap_scrape_concurrent'' ''basemap_scrape_per_host_concurrent'',
      andthen (getattr s ''basemap_provider_error_rate_threshold'') (\<lambda>v.
        andthen (and_also (py_lt (JInt 0) v) (py_le v (JInt 1))) (\<lambda>ok. Inr (\<not> ok))),
      attr_below s ''basemap_provider_error_rate_min_samples'' 1,
      attr_less s ''basemap_provider_error_rate_window'' ''basemap_provider_error_rate_min_samples'',
      attr_below s ''basemap_negative_cache_ttl'' 1,
      attr_false s ''basemap_provider_cooldown_schedule'',
      andthen (schedule_of s) (any_of (\<lambda>seconds. py_le seconds (JInt 0))),
      andthen (schedule_of s) (\<lambda>vs. any_of (\<lambda>(a, b). py_lt b a) (zip vs (drop 1 vs)))]"

definition shared_guards :: "attrs \<Rightarrow> bool outcome list" where
  "shared_guards s =
     [attr_not_bool s ''sync_prefetch'',
      attr_not_bool s ''weather_stations_sync_enabled'',
      attr_not_in s ''app_role'' APP_ROLES,
      attr_below s ''gfs_cycles_to_keep'' 1,
      attr_below s ''gfs_tile_ttl'' 1,
      attr_below s ''gfs_geojson_ttl'' 1,
      attr_below s ''weather_stations_scrape_interval_seconds'' 60,
      attr_below s ''weather_stations_s3_object_ttl_days'' 1,
      attr_false s ''redis_password'',
      and_also (attr_true s ''weather_stations_api_key_auth_enabled'')
        (attr_false s ''weather_stations_admin_password''),
      and_also (attr_true s ''weather_stations_api_key_auth_enabled'')
        (andthen (is_s3_configured s) (\<lambda>ok. Inr (\<not> ok))),
      and_also (attr_true s ''weather_stations_sync_enabled'')
        (andthen (and_also (attr_true s ''smn_api_username'') (attr_true s ''smn_api_password''))
           (\<lambda>ok. Inr (\<not> ok))),
      attr_below s ''metrics_max_rows'' 0,
      attr_below s ''redis_metrics_memory_sample_per_domain'' 0]"

definition validate :: "attrs \<Rightarrow> unit outcome" where
  "validate s = raise_if_any (basemap_guards s @ shared_guards s)"

text \<open>\<^verbatim>\<open>Settings()\<close>: the file, the environment, the validation.\<close>

definition boot :: "pybytes option \<Rightarrow> environ \<Rightarrow> attrs outcome" where
  "boot cfg env =
     andthen (load_from_json cfg (map_of CLASS_DEFAULTS)) (\<lambda>s.
     andthen (load_from_env env s) (\<lambda>s.
     andthen (validate s) (\<lambda>_. Inr s)))"

section \<open>The layers of the configuration\<close>

text \<open>What the file says about an attribute, after flattening and migration.\<close>

definition file_value :: "pybytes option \<Rightarrow> attrs" where
  "file_value cfg =
     (case cfg of
        Some (Json (JObj kvs)) \<Rightarrow>
          (case migrate_deprecated (walk [] kvs []) of
             Inr flat \<Rightarrow> (\<lambda>a. if a \<in> set JSON_KEYS then map_of flat a else None)
           | Inl e \<Rightarrow> Map.empty)
      | _ \<Rightarrow> Map.empty)"

definition base_value :: "pybytes option \<Rightarrow> attrs" where
  "base_value cfg = map_of CLASS_DEFAULTS ++ file_value cfg"

text \<open>The text a deprecated variable stands for under the current name, written out.\<close>

definition renamed_text :: "environ \<Rightarrow> string \<Rightarrow> string" where
  "renamed_text env key =
     (let switch = (\<lambda>t. if t = [] then [] else if t = ''full'' then ''true'' else ''false'')
      in if key = ''BASEMAP_BACKUP_MODE'' then
           (let t = getenv_text env ''BASEMAP_SYNC_MODE''
            in if t = ''full'' then ''backup_and_prefetch''
               else if t = ''on_demand'' then ''backup_and_cache_on_read''
               else if t = ''no_cache'' then ''backup_only'' else t)
         else if key = ''SYNC_PREFETCH'' then switch (getenv_text env ''SYNC_MODE'')
         else if key = ''WEATHER_STATIONS_SYNC_ENABLED'' then switch (getenv_text env ''WEATHER_STATIONS_SYNC_MODE'')
         else [])"

definition meant_text :: "environ \<Rightarrow> string \<Rightarrow> string" where
  "meant_text env key = (if getenv_text env key \<noteq> [] then getenv_text env key else renamed_text env key)"

text \<open>
  The text the environment gives a row, if it gives one: the plain reads take any text, the
  empty one included; the others take a non-empty text under the current name, else what the
  deprecated name stands for.
\<close>

definition env_source :: "environ \<Rightarrow> env_kind \<Rightarrow> string \<Rightarrow> string option" where
  "env_source env kind key =
     (case kind of
        Getenv \<Rightarrow> env key
      | GetenvOr \<Rightarrow> if getenv_text env key = [] then None else env key
      | _ \<Rightarrow> if meant_text env key = [] then None else Some (meant_text env key))"

lemma deprecated_env_names:
  "DEPRECATED_ENV =
     [(''BASEMAP_BACKUP_MODE'', ''BASEMAP_SYNC_MODE''),
      (''SYNC_PREFETCH'', ''SYNC_MODE''),
      (''WEATHER_STATIONS_SYNC_ENABLED'', ''WEATHER_STATIONS_SYNC_MODE'')]"
  by code_simp

lemma deprecated_lower:
  "py_lower ''BASEMAP_SYNC_MODE'' = ''basemap_sync_mode''" "py_lower ''SYNC_MODE'' = ''sync_mode''"
  "py_lower ''WEATHER_STATIONS_SYNC_MODE'' = ''weather_stations_sync_mode''"
  by code_simp+

lemma legacy_env_text: "legacy_env env key = Inr (renamed_text env key)"
  by (simp add: legacy_env_def renamed_text_def deprecated_env_names deprecated_lower DEPRECATED_KEYS_def
      BASEMAP_BACKUP_MODE_RENAMES_def sync_mode_to_prefetch_def weather_stations_mode_to_enabled_def Let_def)

lemma env_text_meant: "env_text env key = Inr (meant_text env key)"
  by (simp add: env_text_def meant_text_def legacy_env_text Let_def)

fun parse_text :: "env_kind \<Rightarrow> string \<Rightarrow> json option" where
  "parse_text EnvInt t = map_option JInt (py_int t)"
| "parse_text EnvFloat t = map_option JFloat (py_float t)"
| "parse_text EnvBool t = Some (JBool (py_lower (py_strip t) \<in> set [''1'', ''true'', ''yes'', ''on'']))"
| "parse_text EnvIntList t = map_option (\<lambda>ns. JArr (map JInt ns)) (parse_int_list t)"
| "parse_text _ t = Some (JStr t)"

fun as_list :: "json \<Rightarrow> json" where
  "as_list (JStr s) = JArr (map (\<lambda>c. JStr [c]) s)"
| "as_list (JObj kvs) = JArr (map (JStr \<circ> fst) kvs)"
| "as_list v = v"

definition stacked :: "pybytes option \<Rightarrow> environ \<Rightarrow> attrs" where
  "stacked cfg env a =
     (case map_of ENV_ROWS a of
        None \<Rightarrow> base_value cfg a
      | Some (kind, key) \<Rightarrow>
          (case env_source env kind key of
             Some t \<Rightarrow> parse_text kind t
           | None \<Rightarrow> (if kind = EnvIntList then map_option as_list (base_value cfg a) else base_value cfg a)))"

lemma env_value_layer:
  assumes "env_value env kind key cur = Inr v"
  shows "(case env_source env kind key of
            Some t \<Rightarrow> parse_text kind t
          | None \<Rightarrow> if kind = EnvIntList then map_option as_list cur else cur) = Some v"
proof (cases kind)
  case EnvIntList
  then show ?thesis using assms
    by (auto simp: andthen_eq_Inr env_int_list_def env_source_def env_text_meant split: list.splits if_splits
             elim!: py_list.elims)
next
  case EnvOr
  then show ?thesis using assms
    by (auto simp: andthen_eq_Inr env_source_def env_text_meant split: list.splits if_splits)
qed (use assms in \<open>auto simp: andthen_eq_Inr env_source_def env_text_meant getenv_def getenv_text_def env_int_def env_float_def
        env_bool_def split: list.splits if_splits option.splits\<close>)

lemma load_rows_eq:
  "load_rows rows env s = Inr s' \<Longrightarrow> distinct (map fst rows) \<Longrightarrow>
   (\<forall>(a, kind, key) \<in> set rows. env_value env kind key (s a) = Inr (the (s' a)) \<and> s' a \<noteq> None) \<and>
   (\<forall>a. a \<notin> fst ` set rows \<longrightarrow> s' a = s a)"
proof (induction rows arbitrary: s)
  case (Cons row rows)
  obtain a kind key where row: "row = (a, kind, key)" by (cases row)
  from Cons.prems(1) row obtain v where v: "env_value env kind key (s a) = Inr v"
    and rest: "load_rows rows env (s(a \<mapsto> v)) = Inr s'" by (auto simp: andthen_eq_Inr)
  have fresh: "a \<notin> fst ` set rows" using Cons.prems(2) row by simp
  have IH: "(\<forall>(a', kind, key) \<in> set rows. env_value env kind key ((s(a \<mapsto> v)) a') = Inr (the (s' a')) \<and> s' a' \<noteq> None)
      \<and> (\<forall>a'. a' \<notin> fst ` set rows \<longrightarrow> s' a' = (s(a \<mapsto> v)) a')"
    using Cons.IH [OF rest] Cons.prems(2) by simp
  then have "s' a = Some v" using fresh by simp
  moreover have "\<And>a' k key. (a', k, key) \<in> set rows \<Longrightarrow> a' \<noteq> a" using fresh by force
  ultimately show ?case using IH v row by fastforce
qed simp

lemma apply_keys_add:
  "apply_keys flat s = s ++ (\<lambda>a. if a \<in> set JSON_KEYS then map_of flat a else None)"
  by (auto simp: apply_keys_def map_add_def fun_eq_iff split: option.splits)

lemma load_from_json_base:
  assumes "load_from_json cfg (map_of CLASS_DEFAULTS) = Inr s"
  shows "s = base_value cfg"
proof (cases cfg)
  case None
  then show ?thesis using assms by (simp add: load_from_json_def base_value_def file_value_def)
next
  case (Some bs)
  then obtain data flat migrated where "json_loads bs = Some data" "flatten data = Inr flat"
    and "migrate_deprecated flat = Inr migrated" and s: "s = apply_keys migrated (map_of CLASS_DEFAULTS)"
    using assms by (auto simp: load_from_json_def andthen_eq_Inr)
  then show ?thesis using Some
    by (cases bs; cases data) (simp_all add: base_value_def file_value_def apply_keys_add del: walk.simps)
qed

lemma boot_stages:
  assumes "boot cfg env = Inr s"
  shows "load_from_json cfg (map_of CLASS_DEFAULTS) = Inr (base_value cfg)"
    and "load_from_env env (base_value cfg) = Inr s" and "validate s = Inr ()"
  using assms load_from_json_base by (auto simp: boot_def andthen_eq_Inr)

lemma boot_stacked:
  assumes "boot cfg env = Inr s"
  shows "s a = stacked cfg env a"
proof -
  have rows: "(\<forall>(a, kind, key) \<in> set ENV_ROWS. env_value env kind key (base_value cfg a) = Inr (the (s a)) \<and> s a \<noteq> None)
      \<and> (\<forall>a. a \<notin> fst ` set ENV_ROWS \<longrightarrow> s a = base_value cfg a)"
    using load_rows_eq [OF boot_stages(2) [OF assms, unfolded load_from_env_def] env_attributes_distinct] .
  show ?thesis
  proof (cases "map_of ENV_ROWS a")
    case None
    then have "a \<notin> fst ` set ENV_ROWS" by (simp add: map_of_eq_None_iff)
    then show ?thesis using rows None by (simp add: stacked_def)
  next
    case (Some r)
    obtain kind key where r: "r = (kind, key)" by (cases r)
    then have "(a, kind, key) \<in> set ENV_ROWS" using Some by (simp add: map_of_SomeD)
    then have "env_value env kind key (base_value cfg a) = Inr (the (s a))" "s a \<noteq> None"
      using rows by auto
    then show ?thesis using env_value_layer [of env kind key "base_value cfg a" "the (s a)"] Some r
      by (auto simp: stacked_def split: option.splits)
  qed
qed

end
