(* ===== verification/Settings_Boot.thy ===== *)
theory Settings_Boot
  imports Settings
begin

text \<open>
  What a started process may rely on: the settings it holds are the documented layers, valid in
  the sense of \<^verbatim>\<open>_validate\<close>, and the deprecated environment is another spelling of the current one.
\<close>

section \<open>The deprecated environment\<close>

text \<open>The environment an operator would write under the current names.\<close>

definition migrate_env :: "environ \<Rightarrow> environ" where
  "migrate_env env key =
     (if key \<in> set [''BASEMAP_SYNC_MODE'', ''SYNC_MODE'', ''WEATHER_STATIONS_SYNC_MODE''] then None
      else if key \<in> set [''BASEMAP_BACKUP_MODE'', ''SYNC_PREFETCH'', ''WEATHER_STATIONS_SYNC_ENABLED''] \<and>
              meant_text env key \<noteq> []
      then Some (meant_text env key)
      else env key)"

lemma migrate_env_table:
  "migrate_env env key =
     (if key \<in> snd ` set DEPRECATED_ENV then None
      else if map_of DEPRECATED_ENV key = None then env key
      else if meant_text env key = [] then env key else Some (meant_text env key))"
  by (simp add: migrate_env_def deprecated_env_names)

text \<open>No row reads a deprecated name, and a row with a deprecated alias reads it through \<^verbatim>\<open>_env\<close>.\<close>

definition row_migrates :: "env_row \<Rightarrow> bool" where
  "row_migrates =
     (\<lambda>(a, kind, key).
        key \<notin> set (map snd DEPRECATED_ENV) \<and>
        ((kind = Getenv \<or> kind = GetenvOr) \<longrightarrow> key \<notin> set (map fst DEPRECATED_ENV)))"

lemma rows_migrate: "list_all row_migrates ENV_ROWS"
  unfolding row_migrates_def deprecated_env_names by code_simp

lemma renamed_text_gone [simp]: "renamed_text (migrate_env env) key = []"
  by (simp add: renamed_text_def getenv_text_def migrate_env_def Let_def)

lemma meant_text_migrated:
  assumes "key \<notin> snd ` set DEPRECATED_ENV"
  shows "meant_text (migrate_env env) key = meant_text env key"
proof (cases "map_of DEPRECATED_ENV key")
  case None
  then have "renamed_text env key = []" by (auto simp: renamed_text_def deprecated_env_names split: if_splits)
  then show ?thesis using assms None by (simp add: meant_text_def migrate_env_table getenv_text_def)
next
  case (Some old)
  then show ?thesis using assms
    by (simp add: meant_text_def [of "migrate_env env"] migrate_env_table getenv_text_def)
       (simp add: meant_text_def getenv_text_def)
qed

lemma env_text_migrated:
  "key \<notin> snd ` set DEPRECATED_ENV \<Longrightarrow> env_text (migrate_env env) key = env_text env key"
  by (simp add: env_text_meant meant_text_migrated)

lemma env_value_migrated:
  assumes "row_migrates (a, kind, key)"
  shows "env_value (migrate_env env) kind key cur = env_value env kind key cur"
proof -
  have "key \<notin> snd ` set DEPRECATED_ENV" using assms by (simp add: row_migrates_def)
  note text_eq = env_text_migrated [OF this, of env]
  have "migrate_env env key = env key" if "kind = Getenv \<or> kind = GetenvOr"
    using that assms by (auto simp: row_migrates_def migrate_env_table map_of_eq_None_iff)
  then have "getenv (migrate_env env) key = getenv env key" if "kind = Getenv \<or> kind = GetenvOr"
    using that by (simp add: getenv_def fun_eq_iff)
  then show ?thesis using text_eq
    by (cases kind) (simp_all add: env_int_def [abs_def] env_float_def [abs_def]
        env_bool_def [abs_def] env_int_list_def [abs_def] cong: if_cong)
qed

lemma load_rows_cong:
  "(\<And>a kind key cur. (a, kind, key) \<in> set rows \<Longrightarrow> env_value env kind key cur = env_value env' kind key cur) \<Longrightarrow>
   load_rows rows env s = load_rows rows env' s"
proof (induction rows arbitrary: s)
  case (Cons row rows)
  obtain a kind key where row: "row = (a, kind, key)" by (cases row)
  have same: "env_value env k' key' cur = env_value env' k' key' cur" if "(a', k', key') \<in> set rows" for a' k' key' cur
    using Cons.prems [of a' k' key'] that by simp
  have "load_rows rows env s' = load_rows rows env' s'" for s' using same by (rule Cons.IH)
  moreover have "env_value env kind key (s a) = env_value env' kind key (s a)"
    using Cons.prems [of a kind key] row by simp
  ultimately show ?case using row by simp
qed simp

text \<open>
  C0. The variables of the previous release are only another spelling: rewriting them under
  their current names (a non-empty current name wins, the old mode names become the new ones,
  \<^verbatim>\<open>full\<close> becomes \<^verbatim>\<open>true\<close> and any other mode \<^verbatim>\<open>false\<close>) never changes what the process boots
  with, for any settings file, including whether and how it fails.
\<close>

theorem deprecated_env_migrates: "boot cfg env = boot cfg (migrate_env env)"
proof -
  have "load_rows ENV_ROWS env s = load_rows ENV_ROWS (migrate_env env) s" for s
  proof (rule load_rows_cong)
    fix a kind key cur assume "(a, kind, key) \<in> set ENV_ROWS"
    then have "row_migrates (a, kind, key)" using rows_migrate by (simp only: list_all_iff)
    then show "env_value env kind key cur = env_value (migrate_env env) kind key cur"
      by (simp only: env_value_migrated)
  qed
  then show ?thesis by (simp add: boot_def load_from_env_def)
qed

section \<open>Attributes nothing creates\<close>

lemma annotated_row:
  assumes "a \<in> set ANNOTATED_ONLY"
  shows "\<exists>kind key. (a, kind, key) \<in> set ENV_ROWS \<and> kind \<noteq> EnvOr"
proof -
  let ?rows = "map ((!) ENV_ROWS) [19, 20, 22, 15, 16, 23, 24, 30, 31, 32]"
  have names: "map fst ?rows = ANNOTATED_ONLY"
    unfolding annotated_rows ANNOTATED_ONLY_def by (simp only: list.map fst_conv)
  have kinds: "list_all (\<lambda>r. fst (snd r) \<noteq> EnvOr) ?rows"
    unfolding annotated_rows by (simp only: list.pred_inject fst_conv snd_conv env_kind.distinct not_False_eq_True simp_thms)
  have "length ENV_ROWS = 127" by code_simp
  then have sub: "set ?rows \<subseteq> set ENV_ROWS" by (simp del: list.set_map)
  define rs where "rs = ?rows"
  from assms obtain r where r: "r \<in> set rs" "fst r = a"
    unfolding names [symmetric] rs_def [symmetric] set_map by blast
  have "r \<in> set ENV_ROWS" using sub r(1) unfolding rs_def [symmetric] by blast
  moreover have "fst (snd r) \<noteq> EnvOr" using kinds r(1) unfolding rs_def [symmetric] list_all_iff by blast
  ultimately show ?thesis using r(2) by (metis prod.collapse)
qed

lemma annotated_no_default: "a \<in> set ANNOTATED_ONLY \<Longrightarrow> map_of CLASS_DEFAULTS a = None"
  using class_attributes_distinct by (auto simp: map_of_eq_None_iff)

lemma env_value_missing: "kind \<noteq> EnvOr \<Longrightarrow> env_value env kind key None = Inl AttributeError"
  by (cases kind) simp_all

lemma booted_annotated:
  assumes "boot cfg env = Inr s"
  shows "list_all (\<lambda>a. file_value cfg a \<noteq> None) ANNOTATED_ONLY"
  unfolding list_all_iff
proof
  fix a assume a: "a \<in> set ANNOTATED_ONLY"
  obtain kind key where row: "(a, kind, key) \<in> set ENV_ROWS" "kind \<noteq> EnvOr"
    using annotated_row [OF a] by blast
  obtain v where "env_value env kind key (base_value cfg a) = Inr v"
    using load_rows_eq [OF boot_stages(2) [OF assms, unfolded load_from_env_def] env_attributes_distinct] row(1)
    by blast
  then have "base_value cfg a \<noteq> None" using env_value_missing [OF row(2)] by (metis sum.distinct(1))
  then show "file_value cfg a \<noteq> None"
    using annotated_no_default [OF a] by (auto simp: base_value_def map_add_def split: option.splits)
qed

section \<open>Validity\<close>

lemma raise_if_any_ok: "raise_if_any cs = Inr () \<longleftrightarrow> (\<forall>c \<in> set cs. c = Inr False)"
  by (induction cs) (auto simp: andthen_eq_Inr split: if_splits)

lemma any_of_ok: "any_of f xs = Inr False \<longleftrightarrow> (\<forall>x \<in> set xs. f x = Inr False)"
  by (induction xs) (auto simp: andthen_eq_Inr)

lemma py_lt_number:
  "py_lt v (JInt n) = Inr False \<Longrightarrow> \<exists>q. num_of v = Some q \<and> of_int n \<le> q"
  by (cases v) (auto split: if_splits)

lemma attr_below_ok:
  "attr_below s a n = Inr False \<Longrightarrow> \<exists>q. Option.bind (s a) num_of = Some q \<and> of_int n \<le> q"
  by (auto simp: attr_below_def getattr_def andthen_eq_Inr simp del: py_lt.simps dest!: py_lt_number)

lemma py_lt_numbers:
  assumes "py_lt v w = Inr False" "num_of w = Some y"
  shows "\<exists>x. num_of v = Some x \<and> y \<le> x"
  using assms by (cases v; cases w) (auto split: if_splits)

lemma py_le_positive: "py_le v (JInt 0) = Inr False \<Longrightarrow> \<exists>q. num_of v = Some q \<and> 0 < q"
  by (cases v) (auto split: if_splits)

text \<open>A list of positive numbers in ascending order.\<close>

fun ascending :: "rat \<Rightarrow> json list \<Rightarrow> bool" where
  "ascending lo [] = True"
| "ascending lo (v # vs) =
     (case num_of v of Some q \<Rightarrow> 0 < q \<and> lo \<le> q \<and> ascending q vs | None \<Rightarrow> False)"

lemma ascending_schedule:
  assumes "\<forall>v \<in> set vs. py_le v (JInt 0) = Inr False"
    "\<forall>(a, b) \<in> set (zip vs (drop 1 vs)). py_lt b a = Inr False"
    "vs = [] \<or> (\<exists>q. num_of (hd vs) = Some q \<and> lo \<le> q)"
  shows "ascending lo vs"
  using assms
proof (induction vs arbitrary: lo)
  case (Cons v vs)
  obtain q where q: "num_of v = Some q" "0 < q" using Cons.prems(1) py_le_positive by auto
  have "ascending q vs"
  proof (rule Cons.IH)
    show "vs = [] \<or> (\<exists>r. num_of (hd vs) = Some r \<and> q \<le> r)"
    proof (cases vs)
      case (Cons w ws)
      then have "py_lt w v = Inr False" using Cons.prems(2) by simp
      then show ?thesis using py_lt_numbers [OF _ q(1)] Cons by simp
    qed simp
    show "\<forall>(a, b) \<in> set (zip vs (drop 1 vs)). py_lt b a = Inr False"
      using Cons.prems(2) by (cases vs) auto
  qed (use Cons.prems(1) in simp)
  then show ?case using q Cons.prems(3) by simp
qed simp

lemma guard_ok: "validate s = Inr () \<Longrightarrow> c \<in> set (basemap_guards s @ shared_guards s) \<Longrightarrow> c = Inr False"
  unfolding validate_def raise_if_any_ok by blast

lemma attr_not_in_ok: "attr_not_in s a xs = Inr False \<Longrightarrow> s a \<in> Some ` JStr ` set xs"
  by (auto simp: attr_not_in_def getattr_def andthen_eq_Inr)

lemma attr_less_ok:
  "attr_less s a b = Inr False \<Longrightarrow> Option.bind (s b) num_of = Some y \<Longrightarrow>
   \<exists>x. Option.bind (s a) num_of = Some x \<and> y \<le> x"
  by (auto simp: attr_less_def getattr_def andthen_eq_Inr simp del: py_lt.simps dest!: py_lt_numbers)

lemma attr_not_bool_ok: "attr_not_bool s a = Inr False \<Longrightarrow> \<exists>b. s a = Some (JBool b)"
  by (auto simp: attr_not_bool_def getattr_def andthen_eq_Inr elim!: is_jbool.elims)

lemma schedule_ok:
  assumes "attr_false s ''basemap_provider_cooldown_schedule'' = Inr False"
    "andthen (schedule_of s) (any_of (\<lambda>seconds. py_le seconds (JInt 0))) = Inr False"
    "andthen (schedule_of s) (\<lambda>vs. any_of (\<lambda>(a, b). py_lt b a) (zip vs (drop 1 vs))) = Inr False"
  shows "\<exists>vs. s ''basemap_provider_cooldown_schedule'' = Some (JArr vs) \<and> vs \<noteq> [] \<and> ascending 0 vs"
proof -
  obtain vs where vs: "schedule_of s = Inr vs" using assms(2) by (auto simp: andthen_eq_Inr)
  then have pos: "\<forall>v \<in> set vs. py_le v (JInt 0) = Inr False"
    and asc: "\<forall>(a, b) \<in> set (zip vs (drop 1 vs)). py_lt b a = Inr False"
    using assms(2,3) by (auto simp: any_of_ok simp del: py_le.simps py_lt.simps)
  obtain v l where v: "s ''basemap_provider_cooldown_schedule'' = Some v" "py_list v = Inr l" "elements l = vs"
    using vs by (auto simp: schedule_of_def getattr_def andthen_eq_Inr)
  have "json_true v" using assms(1) v(1) by (simp add: attr_false_def getattr_def)
  have txts: "w \<notin> set vs" if "w = JStr x" for w x using pos that by auto
  have "v = JArr vs \<and> vs \<noteq> []"
  proof (cases v)
    case (JStr x)
    then obtain c cs where "vs = JStr [c] # cs" using v(2,3) \<open>json_true v\<close> by (cases x) auto
    then show ?thesis using txts [of "JStr [c]" "[c]"] by simp
  next
    case (JObj kvs)
    then obtain k cs where "vs = JStr k # cs" using v(2,3) \<open>json_true v\<close> by (cases kvs) auto
    then show ?thesis using txts [of "JStr k" k] by simp
  qed (use v(2,3) \<open>json_true v\<close> in auto)
  then have "v = JArr vs" "vs \<noteq> []" by blast+
  moreover have "ascending 0 vs"
    using pos asc by (rule ascending_schedule) (use pos \<open>vs \<noteq> []\<close> in \<open>cases vs; auto dest!: py_le_positive intro: less_imp_le simp del: py_le.simps\<close>)
  ultimately show ?thesis using v(1) by blast
qed

lemma threshold_ok:
  assumes "andthen (getattr s a) (\<lambda>v. andthen (and_also (py_lt (JInt 0) v) (py_le v (JInt 1))) (\<lambda>ok. Inr (\<not> ok))) = Inr False"
  shows "\<exists>t. Option.bind (s a) num_of = Some t \<and> 0 < t \<and> t \<le> 1"
proof -
  obtain v where v: "s a = Some v" "py_lt (JInt 0) v = Inr True" "py_le v (JInt 1) = Inr True"
    using assms by (auto simp: getattr_def and_also_def andthen_eq_Inr split: if_splits simp del: py_lt.simps py_le.simps)
  then show ?thesis by (cases v) (auto split: if_splits)
qed

lemma relay_ok:
  assumes "and_also (andthen (getattr s m) (\<lambda>v. Inr (v = JStr r))) (attr_false s f) = Inr False"
  shows "s m \<noteq> Some (JStr r) \<or> (\<exists>v. s f = Some v \<and> json_true v)"
  using assms by (auto simp: and_also_def attr_false_def getattr_def andthen_eq_Inr split: if_splits)

text \<open>What the parts of a started process rely on.\<close>

definition settings_in_range :: "attrs \<Rightarrow> bool" where
  "settings_in_range s \<longleftrightarrow>
    s ''basemap_backup_mode'' \<in> Some ` JStr ` set BASEMAP_BACKUP_MODES \<and>
    s ''basemap_scrape_parallelism_mode'' \<in> Some ` JStr ` set BASEMAP_PARALLELISM_MODES \<and>
    s ''app_role'' \<in> Some ` JStr ` set APP_ROLES \<and>
    (\<exists>h c. Option.bind (s ''basemap_scrape_per_host_concurrent'') num_of = Some h \<and>
       Option.bind (s ''basemap_scrape_concurrent'') num_of = Some c \<and> 1 \<le> h \<and> h \<le> c) \<and>
    (\<exists>t. Option.bind (s ''basemap_provider_error_rate_threshold'') num_of = Some t \<and> 0 < t \<and> t \<le> 1) \<and>
    (\<exists>m w. Option.bind (s ''basemap_provider_error_rate_min_samples'') num_of = Some m \<and>
       Option.bind (s ''basemap_provider_error_rate_window'') num_of = Some w \<and> 1 \<le> m \<and> m \<le> w) \<and>
    (\<exists>vs. s ''basemap_provider_cooldown_schedule'' = Some (JArr vs) \<and> vs \<noteq> [] \<and> ascending 0 vs) \<and>
    (\<exists>b. s ''sync_prefetch'' = Some (JBool b)) \<and>
    (\<exists>b. s ''weather_stations_sync_enabled'' = Some (JBool b)) \<and>
    (\<exists>q. Option.bind (s ''weather_stations_scrape_interval_seconds'') num_of = Some q \<and> 60 \<le> q) \<and>
    (\<exists>q. Option.bind (s ''basemap_negative_cache_ttl'') num_of = Some q \<and> 1 \<le> q) \<and>
    (\<exists>q. Option.bind (s ''gfs_cycles_to_keep'') num_of = Some q \<and> 1 \<le> q) \<and>
    (s ''basemap_backup_mode'' \<noteq> Some (JStr ''relay_only'') \<or>
     (\<exists>v. s ''basemap_online_fallback_enabled'' = Some v \<and> json_true v))"

lemma booted_valid:
  assumes "boot cfg env = Inr s"
  shows "settings_in_range s"
proof -
  note ok = guard_ok [OF boot_stages(3) [OF assms]]
  note guards = basemap_guards_def shared_guards_def
  have budget: "\<exists>h. Option.bind (s ''basemap_scrape_per_host_concurrent'') num_of = Some h \<and> of_int 1 \<le> h"
    by (rule attr_below_ok, rule ok) (simp add: guards)
  have sample: "\<exists>m. Option.bind (s ''basemap_provider_error_rate_min_samples'') num_of = Some m \<and> of_int 1 \<le> m"
    by (rule attr_below_ok, rule ok) (simp add: guards)
  have lt1: "attr_less s ''basemap_scrape_concurrent'' ''basemap_scrape_per_host_concurrent'' = Inr False"
    and lt2: "attr_less s ''basemap_provider_error_rate_window'' ''basemap_provider_error_rate_min_samples'' = Inr False"
    by (rule ok, simp add: guards)+
  have "\<exists>q. Option.bind (s ''weather_stations_scrape_interval_seconds'') num_of = Some q \<and> of_int 60 \<le> q"
    by (rule attr_below_ok, rule ok) (simp add: guards)
  moreover have "\<exists>q. Option.bind (s ''basemap_negative_cache_ttl'') num_of = Some q \<and> of_int 1 \<le> q"
    "\<exists>q. Option.bind (s ''gfs_cycles_to_keep'') num_of = Some q \<and> of_int 1 \<le> q"
    by (rule attr_below_ok, rule ok, simp add: guards)+
  moreover have "s ''basemap_backup_mode'' \<in> Some ` JStr ` set BASEMAP_BACKUP_MODES"
    "s ''basemap_scrape_parallelism_mode'' \<in> Some ` JStr ` set BASEMAP_PARALLELISM_MODES"
    "s ''app_role'' \<in> Some ` JStr ` set APP_ROLES"
    by (rule attr_not_in_ok, rule ok, simp add: guards)+
  moreover have "\<exists>b. s ''sync_prefetch'' = Some (JBool b)" "\<exists>b. s ''weather_stations_sync_enabled'' = Some (JBool b)"
    by (rule attr_not_bool_ok, rule ok, simp add: guards)+
  moreover have "\<exists>t. Option.bind (s ''basemap_provider_error_rate_threshold'') num_of = Some t \<and> 0 < t \<and> t \<le> 1"
    by (rule threshold_ok, rule ok) (simp add: guards)
  moreover have "s ''basemap_backup_mode'' \<noteq> Some (JStr ''relay_only'') \<or>
      (\<exists>v. s ''basemap_online_fallback_enabled'' = Some v \<and> json_true v)"
    by (rule relay_ok, rule ok) (simp add: guards)
  moreover have "\<exists>vs. s ''basemap_provider_cooldown_schedule'' = Some (JArr vs) \<and> vs \<noteq> [] \<and> ascending 0 vs"
    by (rule schedule_ok; rule ok) (simp_all add: guards)
  moreover have "\<exists>h c. Option.bind (s ''basemap_scrape_per_host_concurrent'') num_of = Some h \<and>
       Option.bind (s ''basemap_scrape_concurrent'') num_of = Some c \<and> 1 \<le> h \<and> h \<le> c"
    using budget attr_less_ok [OF lt1] by (metis of_int_1)
  moreover have "\<exists>m w. Option.bind (s ''basemap_provider_error_rate_min_samples'') num_of = Some m \<and>
       Option.bind (s ''basemap_provider_error_rate_window'') num_of = Some w \<and> 1 \<le> m \<and> m \<le> w"
    using sample attr_less_ok [OF lt2] by (metis of_int_1)
  ultimately show ?thesis unfolding settings_in_range_def of_int_numeral of_int_1 by (intro conjI)
qed

end
