(* ===== verification/Settings_Layers.thy ===== *)
theory Settings_Layers
  imports Settings_Boot
begin

text \<open>
  The configuration as its documentation describes it, stated without the tables and loops of the
  loader: what a nested settings file says about an attribute, which variable stands for it, and
  which layer wins. A booted process holds exactly that.
\<close>

section \<open>What the file says\<close>

text \<open>
  An attribute is named by a path of nested keys joined by underscores. Of several paths to one
  name, a nested object beats a plain key beside it, and a later object an earlier one.
\<close>

definition after_key :: "string \<Rightarrow> string \<Rightarrow> string option" where
  "after_key k a = (if take (Suc (length k)) a = k @ ''_'' then Some (drop (Suc (length k)) a) else None)"

definition leaf_says :: "(string \<times> json) list \<Rightarrow> string \<Rightarrow> json option" where
  "leaf_says kvs = map_of (rev (filter (\<lambda>(k, v). \<not> is_jobj v) kvs))"

function (sequential) file_says :: "(string \<times> json) list \<Rightarrow> string \<Rightarrow> json option"
  and objects_say :: "(string \<times> json) list \<Rightarrow> string \<Rightarrow> json option" where
  "file_says kvs a = (case objects_say kvs a of Some v \<Rightarrow> Some v | None \<Rightarrow> leaf_says kvs a)"
| "objects_say [] a = None"
| "objects_say ((k, JObj sub) # kvs) a =
     (case objects_say kvs a of
        Some v \<Rightarrow> Some v
      | None \<Rightarrow> (case after_key k a of Some rest \<Rightarrow> file_says sub rest | None \<Rightarrow> None))"
| "objects_say ((k, v) # kvs) a = objects_say kvs a"
  by pat_completeness auto

termination
  by (relation "measure (case_sum
        (\<lambda>(kvs, a). 2 * size_list (size_prod (\<lambda>x. 0) size) kvs + 1)
        (\<lambda>(kvs, a). 2 * size_list (size_prod (\<lambda>x. 0) size) kvs))") auto

text \<open>A previous name of an attribute speaks for it when the current one is absent.\<close>

definition renamed_says :: "(string \<times> json) list \<Rightarrow> string \<Rightarrow> json option" where
  "renamed_says kvs a =
     (if a = ''basemap_backup_mode'' then
        map_option (\<lambda>v. if v = JStr ''full'' then JStr ''backup_and_prefetch''
                        else if v = JStr ''on_demand'' then JStr ''backup_and_cache_on_read''
                        else if v = JStr ''no_cache'' then JStr ''backup_only'' else v)
          (file_says kvs ''basemap_sync_mode'')
      else if a = ''sync_prefetch'' then
        map_option (\<lambda>v. JBool (v = JStr ''full'')) (file_says kvs ''sync_mode'')
      else if a = ''weather_stations_sync_enabled'' then
        map_option (\<lambda>v. JBool (v = JStr ''full'')) (file_says kvs ''weather_stations_sync_mode'')
      else None)"

definition file_layer :: "pybytes option \<Rightarrow> attrs" where
  "file_layer cfg a =
     (case cfg of
        Some (Json (JObj kvs)) \<Rightarrow>
          if a \<in> set JSON_KEYS
          then (case file_says kvs a of Some v \<Rightarrow> Some v | None \<Rightarrow> renamed_says kvs a)
          else None
      | _ \<Rightarrow> None)"

lemma after_key_Some: "after_key k a = Some rest \<longleftrightarrow> a = k @ ''_'' @ rest"
proof -
  have "a = k @ ''_'' @ rest" if "take (Suc (length k)) a = k @ ''_''" "drop (Suc (length k)) a = rest"
    using that append_take_drop_id [of "Suc (length k)" a] by simp
  then show ?thesis by (auto simp: after_key_def)
qed

definition below_prefix :: "string \<Rightarrow> string \<Rightarrow> string option" where
  "below_prefix pre x = (if take (length pre) x = pre then Some (drop (length pre) x) else None)"

lemma below_prefix_Some: "below_prefix pre x = Some a \<longleftrightarrow> x = pre @ a"
proof -
  have "x = pre @ a" if "take (length pre) x = pre" "drop (length pre) x = a"
    using that append_take_drop_id [of "length pre" x] by simp
  then show ?thesis by (auto simp: below_prefix_def)
qed

lemma below_prefix_key:
  "below_prefix (pre @ k @ ''_'') x = Option.bind (below_prefix pre x) (after_key k)"
proof -
  have "below_prefix (pre @ k @ ''_'') x = Some a \<longleftrightarrow> Option.bind (below_prefix pre x) (after_key k) = Some a" for a
    by (simp add: below_prefix_Some bind_eq_Some_conv after_key_Some)
  then show ?thesis by (metis option.exhaust)
qed

lemma walk_leaves_lookup:
  "map_of (walk_leaves pre kvs flat) x =
     (case Option.bind (below_prefix pre x) (leaf_says kvs) of Some v \<Rightarrow> Some v | None \<Rightarrow> map_of flat x)"
proof (induction kvs arbitrary: flat)
  case Nil
  then show ?case by (simp add: walk_leaves_def leaf_says_def split: option.split)
next
  case (Cons kv kvs)
  obtain k v where kv: "kv = (k, v)" by (cases kv)
  show ?case
  proof (cases "is_jobj v")
    case True
    then show ?thesis using Cons.IH kv by (simp add: walk_leaves_def leaf_says_def)
  next
    case False
    have "walk_leaves pre (kv # kvs) flat = walk_leaves pre kvs (dict_set flat (pre @ k) v)"
      using False kv by (simp add: walk_leaves_def)
    moreover have "x = pre @ k \<longleftrightarrow> below_prefix pre x = Some k" by (simp add: below_prefix_Some)
    ultimately show ?thesis using Cons.IH [of "dict_set flat (pre @ k) v"] False kv
      by (cases "below_prefix pre x")
         (auto simp: leaf_says_def dict_set_lookup map_add_def split: option.splits)
  qed
qed

lemma walk_lookup:
  "map_of (walk pre kvs flat) x =
     (case Option.bind (below_prefix pre x) (file_says kvs) of Some v \<Rightarrow> Some v | None \<Rightarrow> map_of flat x)"
  "map_of (walk_nested pre kvs flat) x =
     (case Option.bind (below_prefix pre x) (objects_say kvs) of Some v \<Rightarrow> Some v | None \<Rightarrow> map_of flat x)"
proof (induction pre kvs flat and pre kvs flat rule: walk_walk_nested.induct)
  case (1 pre kvs flat)
  then show ?case by (cases "below_prefix pre x") (auto simp: walk_leaves_lookup split: option.splits)
next
  case (2 pre flat)
  then show ?case by (simp split: option.split)
next
  case (3 pre k sub kvs flat)
  then show ?case
    by (cases "below_prefix pre x") (auto simp: below_prefix_key split: option.splits)
qed simp_all

lemma walk_file_says: "map_of (walk [] kvs []) = file_says kvs"
  by (rule ext) (simp add: walk_lookup(1) below_prefix_def del: walk.simps file_says.simps split: option.split)

section \<open>Previous names in the file\<close>

lemma map_of_filter_neq: "a \<noteq> old \<Longrightarrow> map_of (filter (\<lambda>(k, _). k \<noteq> old) m) a = map_of m a"
  by (induction m) auto

lemma map_of_None_keys: "new \<in> fst ` set m \<longleftrightarrow> map_of m new \<noteq> None"
  by (simp add: map_of_eq_None_iff)

lemma migrate_keys_Cons:
  assumes "migrate_keys ((old_key, new_key, convert) # rest) m = Inr m'" "old_key \<noteq> new_key"
    and meant: "\<And>v w. convert v = Inr w \<Longrightarrow> meant v = w"
  shows "\<exists>m1. migrate_keys rest m1 = Inr m' \<and>
     (\<forall>a. a \<noteq> old_key \<longrightarrow> map_of m1 a =
        (case map_of m a of
           Some v \<Rightarrow> Some v
         | None \<Rightarrow> if a = new_key then map_option meant (map_of m old_key) else None))"
proof (cases "map_of m old_key")
  case None
  then show ?thesis using assms by (intro exI [of _ m]) (simp split: option.split)
next
  case (Some v)
  let ?m = "filter (\<lambda>(k, _). k \<noteq> old_key) m"
  have same: "new_key \<in> fst ` set ?m \<longleftrightarrow> map_of m new_key \<noteq> None"
    unfolding map_of_None_keys using assms(2) by (simp add: map_of_filter_neq)
  show ?thesis
  proof (cases "map_of m new_key")
    case None
    then obtain w where w: "convert v = Inr w" "migrate_keys rest (dict_set ?m new_key w) = Inr m'"
      using assms(1) Some same by (auto simp: andthen_eq_Inr simp del: set_filter)
    have "map_of (dict_set ?m new_key w) a = (case map_of m a of Some v \<Rightarrow> Some v
        | None \<Rightarrow> if a = new_key then map_option meant (map_of m old_key) else None)" if "a \<noteq> old_key" for a
      using that None Some meant [OF w(1)] by (simp add: dict_set_lookup map_of_filter_neq split: option.split)
    then show ?thesis using w(2) by (intro exI [of _ "dict_set ?m new_key w"]) blast
  next
    case found: (Some u)
    then have "migrate_keys rest ?m = Inr m'" using assms(1) Some same by (simp del: set_filter)
    moreover have "map_of ?m a = (case map_of m a of Some v \<Rightarrow> Some v
        | None \<Rightarrow> if a = new_key then map_option meant (map_of m old_key) else None)" if "a \<noteq> old_key" for a
      using that found by (simp add: map_of_filter_neq split: option.split)
    ultimately show ?thesis by blast
  qed
qed

text \<open>What the three conversions mean.\<close>

definition meant_mode :: "json \<Rightarrow> json" where
  "meant_mode v =
     (if v = JStr ''full'' then JStr ''backup_and_prefetch''
      else if v = JStr ''on_demand'' then JStr ''backup_and_cache_on_read''
      else if v = JStr ''no_cache'' then JStr ''backup_only'' else v)"

lemma meant_conversions:
  "to_basemap_backup_mode v = Inr w \<Longrightarrow> meant_mode v = w"
  "sync_mode_to_prefetch v = Inr w \<Longrightarrow> JBool (v = JStr ''full'') = w"
  "weather_stations_mode_to_enabled v = Inr w \<Longrightarrow> JBool (v = JStr ''full'') = w"
  by (cases v) (auto simp: meant_mode_def BASEMAP_BACKUP_MODE_RENAMES_def sync_mode_to_prefetch_def
      weather_stations_mode_to_enabled_def split: option.splits if_splits)

lemma migrated_lookup:
  assumes "migrate_deprecated flat = Inr m"
    and a: "a \<noteq> ''basemap_sync_mode''" "a \<noteq> ''sync_mode''" "a \<noteq> ''weather_stations_sync_mode''"
  shows "map_of m a =
     (case map_of flat a of
        Some v \<Rightarrow> Some v
      | None \<Rightarrow>
          if a = ''basemap_backup_mode'' then map_option meant_mode (map_of flat ''basemap_sync_mode'')
          else if a = ''sync_prefetch'' then map_option (\<lambda>v. JBool (v = JStr ''full'')) (map_of flat ''sync_mode'')
          else if a = ''weather_stations_sync_enabled'' then
            map_option (\<lambda>v. JBool (v = JStr ''full'')) (map_of flat ''weather_stations_sync_mode'')
          else None)"
proof -
  let ?switch = "\<lambda>v. JBool (v = JStr ''full'')"
  have names: "''basemap_sync_mode'' \<noteq> ''basemap_backup_mode''" "''sync_mode'' \<noteq> ''sync_prefetch''"
    "''weather_stations_sync_mode'' \<noteq> ''weather_stations_sync_enabled''" by simp_all
  note run = assms(1) [unfolded migrate_deprecated_def DEPRECATED_KEYS_def]
  obtain m1 where m1: "migrate_keys [(''sync_mode'', ''sync_prefetch'', sync_mode_to_prefetch),
        (''weather_stations_sync_mode'', ''weather_stations_sync_enabled'', weather_stations_mode_to_enabled)] m1 = Inr m"
    "\<And>a. a \<noteq> ''basemap_sync_mode'' \<Longrightarrow> map_of m1 a = (case map_of flat a of Some v \<Rightarrow> Some v
       | None \<Rightarrow> if a = ''basemap_backup_mode'' then map_option meant_mode (map_of flat ''basemap_sync_mode'') else None)"
    using migrate_keys_Cons [where meant = meant_mode, OF run names(1) meant_conversions(1)] by blast
  obtain m2 where m2: "migrate_keys
        [(''weather_stations_sync_mode'', ''weather_stations_sync_enabled'', weather_stations_mode_to_enabled)] m2 = Inr m"
    "\<And>a. a \<noteq> ''sync_mode'' \<Longrightarrow> map_of m2 a = (case map_of m1 a of Some v \<Rightarrow> Some v
       | None \<Rightarrow> if a = ''sync_prefetch'' then map_option ?switch (map_of m1 ''sync_mode'') else None)"
    using migrate_keys_Cons [where meant = ?switch, OF m1(1) names(2) meant_conversions(2)] by blast
  have m3: "\<And>a. a \<noteq> ''weather_stations_sync_mode'' \<Longrightarrow> map_of m a = (case map_of m2 a of Some v \<Rightarrow> Some v
       | None \<Rightarrow> if a = ''weather_stations_sync_enabled''
                 then map_option ?switch (map_of m2 ''weather_stations_sync_mode'') else None)"
    using migrate_keys_Cons [where meant = ?switch, OF m2(1) names(3) meant_conversions(3)] by simp
  show ?thesis
    using a by (simp add: m1(2) m2(2) m3 split: option.split)
qed

lemma JSON_KEYS_current:
  "list_all (\<lambda>k. k \<notin> set [''basemap_sync_mode'', ''sync_mode'', ''weather_stations_sync_mode'']) JSON_KEYS"
  by code_simp

lemma file_value_layer:
  assumes "load_from_json cfg s = Inr s'"
  shows "file_value cfg = file_layer cfg"
proof (cases "\<exists>kvs. cfg = Some (Json (JObj kvs))")
  case True
  then obtain kvs where cfg: "cfg = Some (Json (JObj kvs))" by blast
  then obtain m where m: "migrate_deprecated (walk [] kvs []) = Inr m"
    using assms by (auto simp: load_from_json_def andthen_eq_Inr simp del: walk.simps)
  show ?thesis
  proof (rule ext)
    fix a
    show "file_value cfg a = file_layer cfg a"
    proof (cases "a \<in> set JSON_KEYS")
      case True
      then have "a \<noteq> ''basemap_sync_mode''" "a \<noteq> ''sync_mode''" "a \<noteq> ''weather_stations_sync_mode''"
        using JSON_KEYS_current by (auto simp: list_all_iff)
      note found = migrated_lookup [OF m this, unfolded walk_file_says]
      show ?thesis unfolding file_value_def file_layer_def cfg renamed_says_def
        by (simp add: m True found meant_mode_def [abs_def] del: walk.simps file_says.simps split: option.split)
    qed (simp add: file_value_def file_layer_def cfg m del: walk.simps)
  qed
qed (auto simp: file_value_def file_layer_def fun_eq_iff split: option.split pybytes.split json.split)

section \<open>What the environment says\<close>

text \<open>
  The class body: every attribute with a value of its declared type (its default, or a blank of
  the annotated type). The variable of an attribute is its name in capitals, but for four that
  GDAL names; an attribute's name has lower-case letters, digits and underscores only, so
  clearing one bit of the letters capitalises it. Fourteen attributes have no variable.
\<close>

definition DECLARED :: "(string \<times> json) list" where
  "DECLARED = CLASS_DEFAULTS @
      [(''satellite_tile_ttl'', JInt 0),
       (''radar_tile_ttl'', JInt 0),
       (''tileset_listing_ttl'', JInt 0),
       (''sync_interval_seconds'', JInt 0),
       (''sync_min_sleep_seconds'', JInt 0),
       (''cache_control_config'', JStr []),
       (''cache_control_tile'', JStr []),
       (''ecmwf_tile_ttl'', JInt 0),
       (''ecmwf_forecasts_to_keep'', JInt 0),
       (''ecmwf_mslp_geojson_ttl'', JInt 0)]"

fun capital :: "char \<Rightarrow> char" where
  "capital (Char b0 b1 b2 b3 b4 b5 b6 b7) = Char b0 b1 b2 b3 b4 (b5 \<and> \<not> b6) b6 b7"

definition variable_of :: "string \<Rightarrow> string" where
  "variable_of a =
     (if a = ''gdal_curl_use_head'' then ''CPL_VSIL_CURL_USE_HEAD''
      else if a = ''gdal_vsi_cache'' then ''VSI_CACHE''
      else if a = ''gdal_vsi_cache_size'' then ''VSI_CACHE_SIZE''
      else if a = ''gdal_vsicurl_cache_size'' then ''CPL_VSIL_CURL_CACHE_SIZE''
      else map capital a)"

definition NO_VARIABLE :: "string list" where
  "NO_VARIABLE =
     [''redis_max_connections'',
      ''redis_pool_wait_timeout_seconds'',
      ''redis_socket_timeout_seconds'',
      ''redis_socket_connect_timeout_seconds'',
      ''redis_health_check_interval_seconds'',
      ''product_availability_ttl_seconds'',
      ''sync_lock_path'',
      ''radar_lock_path'',
      ''ecmwf_tp_sync_lock_path'',
      ''ecmwf_mslp_sync_lock_path'',
      ''wrf_sync_lock_path'',
      ''gfs_sync_lock_path'',
      ''basemap_scrape_lock_path'',
      ''basemap_providers'']"

text \<open>Three texts take an empty variable for an unset one, as the numbers and switches do.\<close>

definition blank_is_unset :: "string \<Rightarrow> json \<Rightarrow> bool" where
  "blank_is_unset a shape \<longleftrightarrow>
     (\<forall>t. shape \<noteq> JStr t) \<or> a = ''app_role'' \<or> a = ''basemap_scrape_parallelism_mode'' \<or> a = ''basemap_backup_mode''"

fun read_as :: "json \<Rightarrow> string \<Rightarrow> json option" where
  "read_as (JInt _) t = map_option JInt (py_int t)"
| "read_as (JFloat _) t = map_option JFloat (py_float t)"
| "read_as (JBool _) t = Some (JBool (py_lower (py_strip t) \<in> set [''1'', ''true'', ''yes'', ''on'']))"
| "read_as (JArr _) t = map_option (\<lambda>ns. JArr (map JInt ns)) (parse_int_list t)"
| "read_as _ t = Some (JStr t)"

definition layered :: "pybytes option \<Rightarrow> environ \<Rightarrow> attrs" where
  "layered cfg env a =
     (let below = (case file_layer cfg a of Some v \<Rightarrow> Some v | None \<Rightarrow> map_of CLASS_DEFAULTS a);
          shown = meant_text env (variable_of a)
      in case map_of DECLARED a of
           None \<Rightarrow> below
         | Some shape \<Rightarrow>
             if a \<in> set NO_VARIABLE then below
             else if blank_is_unset a shape then
               (if shown \<noteq> [] then read_as shape shown
                else case shape of JArr _ \<Rightarrow> map_option as_list below | _ \<Rightarrow> below)
             else (case env (variable_of a) of Some t \<Rightarrow> Some (JStr t) | None \<Rightarrow> below))"

text \<open>The rows of the loader against that description.\<close>

fun kind_for :: "string \<Rightarrow> json \<Rightarrow> env_kind" where
  "kind_for a (JInt _) = EnvInt"
| "kind_for a (JFloat _) = EnvFloat"
| "kind_for a (JBool _) = EnvBool"
| "kind_for a (JArr _) = EnvIntList"
| "kind_for a _ = (if a = ''basemap_backup_mode'' then EnvOr
     else if a = ''app_role'' \<or> a = ''basemap_scrape_parallelism_mode'' then GetenvOr else Getenv)"

definition plain_shape :: "json \<Rightarrow> bool" where
  "plain_shape v = (case v of JNull \<Rightarrow> False | JObj _ \<Rightarrow> False | _ \<Rightarrow> True)"

definition row_conforms :: "env_row \<Rightarrow> string \<times> json \<Rightarrow> bool" where
  "row_conforms = (\<lambda>(a, kind, key) (b, shape).
     kind = kind_for a shape \<and> plain_shape shape \<and> key = variable_of a)"

text \<open>Which declared attribute each row sets, and which have no row.\<close>

definition row_indices :: "nat list" where
  "row_indices = [0, 1, 2, 3, 4, 5, 6, 7, 10, 11, 26, 27, 28, 29, 30, 134, 135, 33, 31, 131, 132, 32, 133, 136, 137, 41, 42, 43, 44, 45, 138, 139, 140, 46, 47, 48, 51, 52, 49, 53, 54, 55, 56, 58, 57, 50, 67, 59, 60, 61, 63, 62, 64, 65, 69, 70, 71, 72, 73, 74, 75, 76, 77, 78, 79, 80, 81, 82, 83, 84, 85, 86, 87, 88, 89, 90, 91, 92, 93, 94, 95, 96, 97, 98, 99, 8, 17, 18, 19, 20, 21, 22, 23, 24, 25, 100, 101, 102, 103, 104, 105, 106, 107, 108, 109, 110, 112, 111, 113, 114, 115, 116, 117, 118, 119, 120, 121, 9, 122, 123, 124, 125, 126, 127, 128, 129, 130]"

definition rowless_indices :: "nat list" where
  "rowless_indices = [12, 13, 14, 15, 16, 34, 35, 36, 37, 38, 39, 40, 66, 68]"

lemma rows_conform: "list_all2 row_conforms ENV_ROWS (map ((!) DECLARED) row_indices)"
  by code_simp

lemma no_variable_names: "map fst (map ((!) DECLARED) rowless_indices) = NO_VARIABLE"
  by code_simp

lemma rows_partition: "sort (row_indices @ rowless_indices) = [0..<141]"
  by code_simp

lemma declared_length: "length DECLARED = 141"
  by code_simp

lemma declared_names: "map fst DECLARED = map fst CLASS_DEFAULTS @ ANNOTATED_ONLY"
  by (simp add: DECLARED_def ANNOTATED_ONLY_def)

lemma declared_distinct: "distinct (map fst DECLARED)"
  unfolding declared_names by (rule class_attributes_distinct)

lemma row_names: "map fst ENV_ROWS = map fst (map ((!) DECLARED) row_indices)"
proof -
  have "list_all (\<lambda>i. i < 141) row_indices" by code_simp
  then have "map fst (map ((!) DECLARED) row_indices) = map ((!) (map fst DECLARED)) row_indices"
    by (auto simp: list_all_iff declared_length)
  then show ?thesis unfolding declared_names by (simp only: env_attributes_declared row_indices_def)
qed

lemma indices_facts:
  shows "set row_indices \<inter> set rowless_indices = {}" and "set row_indices \<union> set rowless_indices = {..<141}"
proof -
  have "distinct (row_indices @ rowless_indices)" "set (row_indices @ rowless_indices) = {..<141}"
    using arg_cong [OF rows_partition, of distinct] arg_cong [OF rows_partition, of set]
    by (simp_all only: distinct_sort set_sort distinct_upt set_upt atLeast0LessThan)
  then show "set row_indices \<inter> set rowless_indices = {}" "set row_indices \<union> set rowless_indices = {..<141}"
    by (simp_all only: distinct_append set_append)
qed

lemma row_declared:
  assumes "map_of ENV_ROWS a = Some (kind, key)"
  shows "\<exists>shape. map_of DECLARED a = Some shape \<and> kind = kind_for a shape \<and> plain_shape shape \<and>
     key = variable_of a \<and> a \<notin> set NO_VARIABLE"
proof -
  obtain i where i: "i < length ENV_ROWS" "ENV_ROWS ! i = (a, kind, key)"
    using map_of_SomeD [OF assms] by (auto simp: in_set_conv_nth)
  then have li: "i < length row_indices" using arg_cong [OF row_names, of length] by simp
  obtain b shape where d: "DECLARED ! (row_indices ! i) = (b, shape)" by fastforce
  have "b = a" using arg_cong [OF row_names, of "\<lambda>xs. xs ! i"] i li d by simp
  have "row_conforms (a, kind, key) (b, shape)" using list_all2_nthD [OF rows_conform i(1)] i li d by simp
  then have conf: "kind = kind_for a shape" "plain_shape shape" "key = variable_of a" by (simp_all add: row_conforms_def)
  have bound: "row_indices ! i < 141" using indices_facts(2) li nth_mem by blast
  then have "(a, shape) \<in> set DECLARED" using d \<open>b = a\<close> by (metis declared_length nth_mem)
  then have "map_of DECLARED a = Some shape" using declared_distinct by simp
  moreover have "a \<notin> set NO_VARIABLE"
  proof
    assume "a \<in> set NO_VARIABLE"
    then obtain j where j: "j \<in> set rowless_indices" "fst (DECLARED ! j) = a"
      unfolding no_variable_names [symmetric] by auto
    have "j < 141" using j(1) indices_facts(2) by blast
    moreover have "fst (DECLARED ! (row_indices ! i)) = a" using d \<open>b = a\<close> by simp
    ultimately have "j = row_indices ! i"
      using declared_distinct bound j(2) by (simp add: distinct_conv_nth declared_length) metis
    then show False using j(1) li indices_facts(1) nth_mem by blast
  qed
  ultimately show ?thesis using conf by blast
qed

lemma rowless_declared:
  assumes "map_of ENV_ROWS a = None"
  shows "map_of DECLARED a = None \<or> a \<in> set NO_VARIABLE"
proof (cases "map_of DECLARED a")
  case (Some shape)
  then obtain i where i: "i < 141" "DECLARED ! i = (a, shape)"
    by (metis map_of_SomeD in_set_conv_nth declared_length)
  have "i \<notin> set row_indices"
  proof
    assume "i \<in> set row_indices"
    then have "fst (DECLARED ! i) \<in> set (map fst ENV_ROWS)" unfolding row_names set_map by blast
    then have "a \<in> set (map fst ENV_ROWS)" using i(2) by simp
    then show False using assms by (simp add: map_of_eq_None_iff)
  qed
  then have "i \<in> set rowless_indices" using i(1) indices_facts(2) by blast
  then show ?thesis unfolding no_variable_names [symmetric] using i(2) by force
qed simp

lemma variable_names:
  "variable_of ''app_role'' = ''APP_ROLE''"
  "variable_of ''basemap_scrape_parallelism_mode'' = ''BASEMAP_SCRAPE_PARALLELISM_MODE''"
  by code_simp+

lemma source_layer:
  assumes "kind = kind_for a shape" "plain_shape shape"
  shows "(case env_source env kind (variable_of a) of
            Some t \<Rightarrow> parse_text kind t
          | None \<Rightarrow> if kind = EnvIntList then map_option as_list below else below) =
     (if blank_is_unset a shape then
        (if meant_text env (variable_of a) \<noteq> [] then read_as shape (meant_text env (variable_of a))
         else case shape of JArr _ \<Rightarrow> map_option as_list below | _ \<Rightarrow> below)
      else (case env (variable_of a) of Some t \<Rightarrow> Some (JStr t) | None \<Rightarrow> below))"
proof -
  show ?thesis
  proof (cases shape)
    case (JStr t)
    consider "a = ''basemap_backup_mode''" | "a = ''app_role'' \<or> a = ''basemap_scrape_parallelism_mode''"
      | "a \<noteq> ''basemap_backup_mode''" "a \<noteq> ''app_role''" "a \<noteq> ''basemap_scrape_parallelism_mode''" by blast
    then show ?thesis
    proof cases
      case 1
      then show ?thesis using assms(1) JStr by (simp add: env_source_def blank_is_unset_def)
    next
      case 2
      then have "renamed_text env (variable_of a) = []" by (elim disjE) (simp_all add: variable_names renamed_text_def)
      then have "meant_text env (variable_of a) = getenv_text env (variable_of a)" by (simp add: meant_text_def)
      moreover have "kind = GetenvOr" "blank_is_unset a shape"
        using assms(1) JStr 2 by (auto simp: blank_is_unset_def)
      ultimately show ?thesis using JStr
        by (cases "env (variable_of a)") (simp_all add: env_source_def getenv_text_def)
    next
      case 3
      then show ?thesis using assms(1) JStr
        by (simp add: env_source_def blank_is_unset_def cong: option.case_cong)
    qed
  qed (use assms in \<open>simp_all add: env_source_def blank_is_unset_def plain_shape_def\<close>)
qed

lemma boot_layers:
  assumes "boot cfg env = Inr s"
  shows "s = layered cfg env"
proof (rule ext)
  fix a
  have "file_value cfg = file_layer cfg" by (rule file_value_layer [OF boot_stages(1) [OF assms]])
  then have below: "base_value cfg a = (case file_layer cfg a of Some v \<Rightarrow> Some v | None \<Rightarrow> map_of CLASS_DEFAULTS a)"
    by (simp add: base_value_def map_add_def)
  have s: "s a = stacked cfg env a" by (rule boot_stacked [OF assms])
  show "s a = layered cfg env a"
  proof (cases "map_of ENV_ROWS a")
    case None
    then show ?thesis using rowless_declared [OF None] s
      by (auto simp: stacked_def layered_def Let_def below split: option.split)
  next
    case (Some r)
    then obtain kind key where r: "map_of ENV_ROWS a = Some (kind, key)" by (cases r) simp
    obtain shape where shape: "map_of DECLARED a = Some shape" "kind = kind_for a shape" "plain_shape shape"
      "key = variable_of a" "a \<notin> set NO_VARIABLE" using row_declared [OF r] by blast
    show ?thesis unfolding s stacked_def layered_def r shape(1) Let_def below [symmetric]
      using source_layer [OF shape(2,3)] shape(4,5) by simp
  qed
qed

end
