(* ===== verification/Settings_Shipped.thy ===== *)
theory Settings_Shipped
  imports Settings_Layers
begin

text \<open>
  The \<^verbatim>\<open>settings.json\<close> of the repository, and the process it boots when the environment
  carries the secrets the deployment documents: the instance at which the properties of the
  settings are applied.
\<close>

definition SHIPPED :: json where
  "SHIPPED = JObj
    [(''sync'', JObj [(''prefetch'', JBool True), (''interval_seconds'', JInt 60), (''min_sleep_seconds'', JInt 20)]),
     (''cache_control'', JObj [(''config'', JStr ''public, max-age=60, stale-while-revalidate=120''), (''tile'', JStr ''public, max-age=43200, immutable'')]),
     (''s3'', JObj [(''sync_max_inflight_tiles'', JInt 64)]),
     (''tileset_listing_ttl'', JInt 30),
     (''satellite'', JObj [(''tile_ttl'', JInt 21600)]),
     (''radar'', JObj [(''tile_ttl'', JInt 21600)]),
     (''ecmwf'', JObj [(''tile_ttl'', JInt 86400), (''forecasts_to_keep'', JInt 2), (''mslp'', JObj [(''geojson_ttl'', JInt 86400)])]),
     (''wrf'', JObj [(''tile_ttl'', JInt 64800), (''geojson_ttl'', JInt 64800), (''inits_to_keep'', JInt 3)]),
     (''gfs'', JObj [(''tile_ttl'', JInt 64800), (''geojson_ttl'', JInt 64800), (''cycles_to_keep'', JInt 2)]),
     (''basemap'', JObj
       [(''backup_mode'', JStr ''backup_only''),
        (''tile_ttl'', JInt 86400),
        (''cache_control'', JObj [(''tile_miss'', JStr ''public, max-age=300'')]),
        (''scrape'', JObj [(''parallelism_mode'', JStr ''per_origin'')]),
        (''providers'', JArr [JObj [(''id'', JStr ''argenmap''), (''enabled'', JBool True)], JObj [(''id'', JStr ''argenmapGris''), (''enabled'', JBool True)], JObj [(''id'', JStr ''argenmapOscuro''), (''enabled'', JBool True)], JObj [(''id'', JStr ''argenmapTopografico''), (''enabled'', JBool True)], JObj [(''id'', JStr ''satellite''), (''enabled'', JBool True)], JObj [(''id'', JStr ''topographic''), (''enabled'', JBool True)], JObj [(''id'', JStr ''googleSatellite''), (''enabled'', JBool True)], JObj [(''id'', JStr ''oceanBase''), (''enabled'', JBool True)], JObj [(''id'', JStr ''ign-provincia''), (''enabled'', JBool True)], JObj [(''id'', JStr ''ign-limite-internacional''), (''enabled'', JBool True)], JObj [(''id'', JStr ''ign-limite-interdepartamental-o-de-partido''), (''enabled'', JBool True)], JObj [(''id'', JStr ''ign-localidad''), (''enabled'', JBool True)], JObj [(''id'', JStr ''ign-sublocalidad''), (''enabled'', JBool True)], JObj [(''id'', JStr ''ign-gobierno-local''), (''enabled'', JBool True)]])])]"

definition SHIPPED_ENV :: "(string \<times> string) list" where
  "SHIPPED_ENV =
    [(''REDIS_PASSWORD'', ''secret''), (''WEATHER_STATIONS_ADMIN_PASSWORD'', ''admin''),
     (''S3_TILES_DATA_ENDPOINT'', ''minio:9000''), (''S3_TILES_DATA_ACCESS_KEY'', ''key''),
     (''S3_TILES_DATA_SECRET_KEY'', ''secret''),
     (''SMN_API_USERNAME'', ''smn''), (''SMN_API_PASSWORD'', ''secret'')]"

definition SHIPPED_FLAT :: "(string \<times> json) list" where
  "SHIPPED_FLAT =
     [(''tileset_listing_ttl'', JInt 30),
      (''sync_prefetch'', JBool True),
      (''sync_interval_seconds'', JInt 60),
      (''sync_min_sleep_seconds'', JInt 20),
      (''cache_control_config'', JStr ''public, max-age=60, stale-while-revalidate=120''),
      (''cache_control_tile'', JStr ''public, max-age=43200, immutable''),
      (''s3_sync_max_inflight_tiles'', JInt 64),
      (''satellite_tile_ttl'', JInt 21600),
      (''radar_tile_ttl'', JInt 21600),
      (''ecmwf_tile_ttl'', JInt 86400),
      (''ecmwf_forecasts_to_keep'', JInt 2),
      (''ecmwf_mslp_geojson_ttl'', JInt 86400),
      (''wrf_tile_ttl'', JInt 64800),
      (''wrf_geojson_ttl'', JInt 64800),
      (''wrf_inits_to_keep'', JInt 3),
      (''gfs_tile_ttl'', JInt 64800),
      (''gfs_geojson_ttl'', JInt 64800),
      (''gfs_cycles_to_keep'', JInt 2),
      (''basemap_backup_mode'', JStr ''backup_only''),
      (''basemap_tile_ttl'', JInt 86400),
      (''basemap_providers'', JArr [JObj [(''id'', JStr ''argenmap''), (''enabled'', JBool True)], JObj [(''id'', JStr ''argenmapGris''), (''enabled'', JBool True)], JObj [(''id'', JStr ''argenmapOscuro''), (''enabled'', JBool True)], JObj [(''id'', JStr ''argenmapTopografico''), (''enabled'', JBool True)], JObj [(''id'', JStr ''satellite''), (''enabled'', JBool True)], JObj [(''id'', JStr ''topographic''), (''enabled'', JBool True)], JObj [(''id'', JStr ''googleSatellite''), (''enabled'', JBool True)], JObj [(''id'', JStr ''oceanBase''), (''enabled'', JBool True)], JObj [(''id'', JStr ''ign-provincia''), (''enabled'', JBool True)], JObj [(''id'', JStr ''ign-limite-internacional''), (''enabled'', JBool True)], JObj [(''id'', JStr ''ign-limite-interdepartamental-o-de-partido''), (''enabled'', JBool True)], JObj [(''id'', JStr ''ign-localidad''), (''enabled'', JBool True)], JObj [(''id'', JStr ''ign-sublocalidad''), (''enabled'', JBool True)], JObj [(''id'', JStr ''ign-gobierno-local''), (''enabled'', JBool True)]]),
      (''basemap_cache_control_tile_miss'', JStr ''public, max-age=300''),
      (''basemap_scrape_parallelism_mode'', JStr ''per_origin'')]"

section \<open>The file\<close>

lemma shipped_flat: "flatten SHIPPED = Inr SHIPPED_FLAT"
  by code_simp

lemma shipped_migrate: "migrate_deprecated SHIPPED_FLAT = Inr SHIPPED_FLAT"
  by code_simp

lemma shipped_keys: "map fst SHIPPED_FLAT = map ((!) JSON_KEYS) [4, 0, 5, 6, 8, 10, 15, 1, 2, 16, 17, 18, 19, 20, 22, 26, 27, 28, 64, 32, 39, 62, 65]"
  by code_simp

lemma shipped_known: "fst ` set SHIPPED_FLAT \<subseteq> set JSON_KEYS"
proof -
  have "length JSON_KEYS = 102" by code_simp
  then show ?thesis unfolding set_map [symmetric] shipped_keys by simp
qed

lemma shipped_base: "base_value (Some (Json SHIPPED)) = map_of CLASS_DEFAULTS ++ map_of SHIPPED_FLAT"
proof -
  obtain kvs where kvs: "SHIPPED = JObj kvs" by (simp add: SHIPPED_def)
  have "walk [] kvs [] = SHIPPED_FLAT" using shipped_flat unfolding kvs flatten.simps by (simp only: sum.inject)
  moreover have "map_of SHIPPED_FLAT a = None" if "a \<notin> set JSON_KEYS" for a
    using that shipped_known by (auto simp: map_of_eq_None_iff)
  ultimately show ?thesis
    by (auto simp: base_value_def file_value_def kvs shipped_migrate fun_eq_iff map_add_def simp del: walk.simps
        split: option.splits)
qed

section \<open>The values the validation reads\<close>

lemma shipped_in_class:
  "map ((!) CLASS_DEFAULTS) [76, 95, 61, 97, 98, 99, 79, 96, 100, 2, 101, 106, 121, 125, 130] =
     [(''basemap_online_fallback_enabled'', JBool True),
      (''basemap_scrape_per_host_concurrent'', JInt 8),
      (''basemap_scrape_concurrent'', JInt 20),
      (''basemap_provider_error_rate_threshold'', JFloat (1 / 20)),
      (''basemap_provider_error_rate_min_samples'', JInt 50),
      (''basemap_provider_error_rate_window'', JInt 200),
      (''basemap_negative_cache_ttl'', JInt 300),
      (''basemap_provider_cooldown_schedule'', JArr [JInt 300, JInt 900, JInt 3600, JInt 10800, JInt 21600]),
      (''weather_stations_sync_enabled'', JBool True),
      (''app_role'', JStr ''all''),
      (''weather_stations_scrape_interval_seconds'', JInt 300),
      (''weather_stations_s3_object_ttl_days'', JInt 2),
      (''weather_stations_api_key_auth_enabled'', JBool True),
      (''metrics_max_rows'', JInt 1000000),
      (''redis_metrics_memory_sample_per_domain'', JInt 2000)]"
  by code_simp

lemma shipped_not_in_file:
  "list_all (\<lambda>i. map_of SHIPPED_FLAT (fst (CLASS_DEFAULTS ! i)) = None) [76, 95, 61, 97, 98, 99, 79, 96, 100, 2, 101, 106, 121, 125, 130]"
  by code_simp

lemma shipped_in_file:
  "map (map_of SHIPPED_FLAT) [''basemap_backup_mode'', ''basemap_scrape_parallelism_mode'', ''sync_prefetch'',
      ''gfs_cycles_to_keep'', ''gfs_tile_ttl'', ''gfs_geojson_ttl''] =
     [Some (JStr ''backup_only''), Some (JStr ''per_origin''), Some (JBool True),
      Some (JInt 2), Some (JInt 64800), Some (JInt 64800)]"
  by code_simp

lemma shipped_default:
  assumes "i \<in> set [76, 95, 61, 97, 98, 99, 79, 96, 100, 2, 101, 106, 121, 125, 130]"
  shows "base_value (Some (Json SHIPPED)) (fst (CLASS_DEFAULTS ! i)) = Some (snd (CLASS_DEFAULTS ! i))"
proof -
  have "length CLASS_DEFAULTS = 131" by code_simp
  then have "CLASS_DEFAULTS ! i \<in> set CLASS_DEFAULTS" using assms by auto
  then have "map_of CLASS_DEFAULTS (fst (CLASS_DEFAULTS ! i)) = Some (snd (CLASS_DEFAULTS ! i))"
    using class_attributes_distinct by simp
  moreover have "map_of SHIPPED_FLAT (fst (CLASS_DEFAULTS ! i)) = None"
    using shipped_not_in_file assms unfolding list_all_iff by blast
  ultimately show ?thesis by (simp add: shipped_base map_add_def)
qed

section \<open>The environment\<close>

lemma secret_rows:
  "map ((!) ENV_ROWS) [9, 94, 3, 4, 5, 87, 88] =
     [(''redis_password'', Getenv, ''REDIS_PASSWORD''),
      (''weather_stations_admin_password'', Getenv, ''WEATHER_STATIONS_ADMIN_PASSWORD''),
      (''s3_tiles_data_endpoint'', Getenv, ''S3_TILES_DATA_ENDPOINT''),
      (''s3_tiles_data_access_key'', Getenv, ''S3_TILES_DATA_ACCESS_KEY''),
      (''s3_tiles_data_secret_key'', Getenv, ''S3_TILES_DATA_SECRET_KEY''),
      (''smn_api_username'', Getenv, ''SMN_API_USERNAME''),
      (''smn_api_password'', Getenv, ''SMN_API_PASSWORD'')]"
  by code_simp

definition SECRETS :: "string list" where
  "SECRETS =
     [''redis_password'',
      ''weather_stations_admin_password'',
      ''s3_tiles_data_endpoint'',
      ''s3_tiles_data_access_key'',
      ''s3_tiles_data_secret_key'',
      ''smn_api_username'',
      ''smn_api_password'']"

lemma env_rows_length: "length ENV_ROWS = 127"
  by code_simp

lemma env_row_by_key:
  assumes "(a, kind, key) \<in> set ENV_ROWS" "(a', kind', key) \<in> set ENV_ROWS"
  shows "a = a' \<and> kind = kind'"
proof -
  have "inj_on (\<lambda>(a, k, v). v) (set ENV_ROWS)" using env_variables_distinct by (simp add: distinct_map)
  from inj_onD [OF this, of "(a, kind, key)" "(a', kind', key)"] assms show ?thesis by simp
qed

lemma shipped_env_secret:
  assumes "(a, kind, key) \<in> set ENV_ROWS" "key \<in> fst ` set SHIPPED_ENV"
  shows "kind = Getenv \<and> a \<in> set SECRETS"
proof -
  let ?rows = "map ((!) ENV_ROWS) [9, 94, 3, 4, 5, 87, 88]"
  have sub: "set ?rows \<subseteq> set ENV_ROWS" by (intro selected_subset) (simp add: env_rows_length)
  have "list_all (\<lambda>(key, v). \<exists>a \<in> set SECRETS. (a, Getenv, key) \<in> set ?rows) SHIPPED_ENV"
    unfolding secret_rows SHIPPED_ENV_def SECRETS_def by simp
  then obtain a' where "a' \<in> set SECRETS" "(a', Getenv, key) \<in> set ENV_ROWS"
    using assms(2) sub by (fastforce simp: list_all_iff simp del: list.set_map)
  then show ?thesis using env_row_by_key [OF assms(1)] by blast
qed

lemma shipped_legacy: "legacy_env (map_of SHIPPED_ENV) key = Inr []"
proof (cases "map_of DEPRECATED_ENV key")
  case (Some old)
  then have "old \<in> {''BASEMAP_SYNC_MODE'', ''SYNC_MODE'', ''WEATHER_STATIONS_SYNC_MODE''}"
    using map_of_SomeD [OF Some] by (auto simp: deprecated_env_names)
  then have "getenv_text (map_of SHIPPED_ENV) old = []" by (auto simp: getenv_text_def SHIPPED_ENV_def)
  then show ?thesis using Some by (simp add: legacy_env_def)
qed (simp add: legacy_env_def)

lemma shipped_env_text:
  "(a, kind, key) \<in> set ENV_ROWS \<Longrightarrow> a \<notin> set SECRETS \<Longrightarrow>
   env_text (map_of SHIPPED_ENV) key = Inr [] \<and> map_of SHIPPED_ENV key = None"
proof -
  assume "(a, kind, key) \<in> set ENV_ROWS" "a \<notin> set SECRETS"
  then have "map_of SHIPPED_ENV key = None"
    using shipped_env_secret [of a kind key] by (auto simp: map_of_eq_None_iff)
  then show ?thesis using shipped_legacy [of key] by (simp add: env_text_def getenv_text_def)
qed

lemma int_list_rows: "list_all (\<lambda>(a, kind, key). kind = EnvIntList \<longrightarrow> a = ''basemap_provider_cooldown_schedule'') ENV_ROWS"
  by code_simp

lemma shipped_env_value:
  assumes "(a, kind, key) \<in> set ENV_ROWS" "a \<notin> set SECRETS" "base_value (Some (Json SHIPPED)) a = Some v"
  shows "env_value (map_of SHIPPED_ENV) kind key (Some v) = Inr v"
proof -
  note env = shipped_env_text [OF assms(1,2)]
  show ?thesis
  proof (cases "kind = EnvIntList")
    case True
    then have "a = ''basemap_provider_cooldown_schedule''" using assms(1) int_list_rows by (auto simp: list_all_iff)
    then have "v = JArr [JInt 300, JInt 900, JInt 3600, JInt 10800, JInt 21600]"
      using assms(3) shipped_default [of 96] shipped_in_class by simp
    then show ?thesis using env True by (simp add: env_int_list_def)
  next
    case False
    then show ?thesis using env
      by (cases kind) (simp_all add: getenv_def env_int_def env_float_def env_bool_def)
  qed
qed

lemma shipped_declared:
  assumes "a \<in> fst ` set ENV_ROWS"
  shows "\<exists>v. base_value (Some (Json SHIPPED)) a = Some v"
proof -
  have "length (map fst CLASS_DEFAULTS @ ANNOTATED_ONLY) = 141" by code_simp
  then have "set (map fst ENV_ROWS) \<subseteq> set (map fst CLASS_DEFAULTS @ ANNOTATED_ONLY)"
    unfolding env_attributes_declared by (intro selected_subset) simp
  then have "a \<in> fst ` set CLASS_DEFAULTS \<or> a \<in> set ANNOTATED_ONLY" using assms by auto
  moreover have "set ANNOTATED_ONLY \<subseteq> fst ` set SHIPPED_FLAT"
    unfolding ANNOTATED_ONLY_def SHIPPED_FLAT_def by simp
  ultimately show ?thesis
    by (auto simp: shipped_base map_add_def map_of_eq_None_iff split: option.splits)
       (metis map_of_eq_None_iff not_None_eq image_eqI fst_conv)
qed

lemma load_rows_total:
  "(\<And>a kind key. (a, kind, key) \<in> set rows \<Longrightarrow> \<exists>v. env_value env kind key (s a) = Inr v) \<Longrightarrow>
   distinct (map fst rows) \<Longrightarrow> \<exists>s'. load_rows rows env s = Inr s'"
proof (induction rows arbitrary: s)
  case (Cons row rows)
  obtain a kind key where row: "row = (a, kind, key)" by (cases row)
  obtain v where v: "env_value env kind key (s a) = Inr v" using Cons.prems(1) [of a kind key] row by auto
  have "\<exists>s'. load_rows rows env (s(a \<mapsto> v)) = Inr s'"
  proof (rule Cons.IH)
    fix a' k' key' assume r: "(a', k', key') \<in> set rows"
    then have "a' \<noteq> a" using Cons.prems(2) row by force
    then show "\<exists>w. env_value env k' key' ((s(a \<mapsto> v)) a') = Inr w" using Cons.prems(1) [of a' k' key'] r by simp
  qed (use Cons.prems(2) in simp)
  then show ?case using v row by simp
qed simp

lemma shipped_loads:
  "\<exists>s. load_from_env (map_of SHIPPED_ENV) (base_value (Some (Json SHIPPED))) = Inr s \<and>
     (\<forall>a. a \<notin> set SECRETS \<longrightarrow> s a = base_value (Some (Json SHIPPED)) a) \<and>
     (\<forall>a key. (a, Getenv, key) \<in> set ENV_ROWS \<longrightarrow> map_of SHIPPED_ENV key \<noteq> None \<longrightarrow>
        s a = map_option JStr (map_of SHIPPED_ENV key))"
proof -
  let ?base = "base_value (Some (Json SHIPPED))" and ?env = "map_of SHIPPED_ENV"
  have "\<exists>s. load_rows ENV_ROWS ?env ?base = Inr s"
  proof (rule load_rows_total [OF _ env_attributes_distinct])
    fix a kind key assume row: "(a, kind, key) \<in> set ENV_ROWS"
    then obtain v where v: "?base a = Some v" using shipped_declared [of a] by force
    show "\<exists>w. env_value ?env kind key (?base a) = Inr w"
    proof (cases "a \<in> set SECRETS")
      case True
      have "list_all (\<lambda>(a, kind, key). a \<in> set SECRETS \<longrightarrow> kind = Getenv) ENV_ROWS" by code_simp
      then have "kind = Getenv" using row True by (auto simp: list_all_iff)
      then show ?thesis using v by simp
    qed (use shipped_env_value [OF row _ v] v in simp)
  qed
  then obtain s where s: "load_rows ENV_ROWS ?env ?base = Inr s" by blast
  note rows = load_rows_eq [OF s env_attributes_distinct]
  have "s a = ?base a" if a: "a \<notin> set SECRETS" for a
  proof (cases "a \<in> fst ` set ENV_ROWS")
    case True
    then obtain kind key where row: "(a, kind, key) \<in> set ENV_ROWS" by auto
    obtain v where v: "?base a = Some v" using shipped_declared [OF True] by blast
    have "env_value ?env kind key (?base a) = Inr (the (s a))" "s a \<noteq> None" using rows row by blast+
    then show ?thesis using shipped_env_value [OF row a v] v by auto
  qed (use rows in blast)
  moreover have "s a = map_option JStr (?env key)" if "(a, Getenv, key) \<in> set ENV_ROWS" "?env key \<noteq> None" for a key
  proof -
    have "env_value ?env Getenv key (?base a) = Inr (the (s a))" "s a \<noteq> None" using rows that(1) by blast+
    then show ?thesis using that(2) by (auto simp: andthen_eq_Inr getenv_def)
  qed
  ultimately show ?thesis using s unfolding load_from_env_def by blast
qed

lemma shipped_secret:
  assumes "(a, Getenv, key) \<in> set (map ((!) ENV_ROWS) [9, 94, 3, 4, 5, 87, 88])"
    "load_from_env (map_of SHIPPED_ENV) (base_value (Some (Json SHIPPED))) = Inr s"
    "\<forall>a key. (a, Getenv, key) \<in> set ENV_ROWS \<longrightarrow> map_of SHIPPED_ENV key \<noteq> None \<longrightarrow>
        s a = map_option JStr (map_of SHIPPED_ENV key)"
    "map_of SHIPPED_ENV key = Some v"
  shows "s a = Some (JStr v)"
proof -
  have "set (map ((!) ENV_ROWS) [9, 94, 3, 4, 5, 87, 88]) \<subseteq> set ENV_ROWS"
    by (intro selected_subset) (simp add: env_rows_length)
  then have "(a, Getenv, key) \<in> set ENV_ROWS" using assms(1) by blast
  then show ?thesis using assms(3,4) by simp
qed

lemma shipped_boots_ready:
  "\<exists>s. boot (Some (Json SHIPPED)) (map_of SHIPPED_ENV) = Inr s \<and>
     s |` (- set SECRETS) = (map_of CLASS_DEFAULTS ++ map_of SHIPPED_FLAT) |` (- set SECRETS) \<and>
     s ''redis_password'' = Some (JStr ''secret'') \<and> is_s3_configured s = Inr True"
proof -
  let ?base = "base_value (Some (Json SHIPPED))"
  obtain s where s: "load_from_env (map_of SHIPPED_ENV) ?base = Inr s"
    and quiet: "\<And>a. a \<notin> set SECRETS \<Longrightarrow> s a = ?base a"
    and secret: "\<forall>a key. (a, Getenv, key) \<in> set ENV_ROWS \<longrightarrow> map_of SHIPPED_ENV key \<noteq> None \<longrightarrow>
        s a = map_option JStr (map_of SHIPPED_ENV key)"
    using shipped_loads by blast
  have plain: "list_all (\<lambda>i. fst (CLASS_DEFAULTS ! i) \<notin> set SECRETS) [76, 95, 61, 97, 98, 99, 79, 96, 100, 2, 101, 106, 121, 125, 130]" by code_simp
  have "map s (map fst (map ((!) CLASS_DEFAULTS) [76, 95, 61, 97, 98, 99, 79, 96, 100, 2, 101, 106, 121, 125, 130])) = map (Some \<circ> snd) (map ((!) CLASS_DEFAULTS) [76, 95, 61, 97, 98, 99, 79, 96, 100, 2, 101, 106, 121, 125, 130])"
    using plain shipped_default quiet by (auto simp: list_all_iff)
  note class_values = this [unfolded shipped_in_class]
  have "map s [''basemap_backup_mode'', ''basemap_scrape_parallelism_mode'', ''sync_prefetch'',
      ''gfs_cycles_to_keep'', ''gfs_tile_ttl'', ''gfs_geojson_ttl''] =
     [Some (JStr ''backup_only''), Some (JStr ''per_origin''), Some (JBool True),
      Some (JInt 2), Some (JInt 64800), Some (JInt 64800)]"
    using shipped_in_file quiet by (simp add: shipped_base SECRETS_def)
  note file_values = this
  have secrets: "s ''redis_password'' = Some (JStr ''secret'')"
    "s ''weather_stations_admin_password'' = Some (JStr ''admin'')"
    "s ''s3_tiles_data_endpoint'' = Some (JStr ''minio:9000'')" "s ''s3_tiles_data_access_key'' = Some (JStr ''key'')"
    "s ''s3_tiles_data_secret_key'' = Some (JStr ''secret'')"
    "s ''smn_api_username'' = Some (JStr ''smn'')" "s ''smn_api_password'' = Some (JStr ''secret'')"
    by (rule shipped_secret [OF _ s secret, unfolded secret_rows], simp, simp add: SHIPPED_ENV_def)+
  have "\<forall>c \<in> set (basemap_guards s). c = Inr False"
    using class_values file_values
    by (simp add: basemap_guards_def attr_not_in_def attr_false_def attr_below_def attr_less_def and_also_def
        schedule_of_def getattr_def BASEMAP_BACKUP_MODES_def BASEMAP_PARALLELISM_MODES_def)
  moreover have "\<forall>c \<in> set (shared_guards s). c = Inr False"
    using class_values file_values secrets
    by (simp add: shared_guards_def attr_not_in_def attr_not_bool_def attr_true_def attr_false_def attr_below_def
        and_also_def is_s3_configured_def getattr_def APP_ROLES_def)
  ultimately have "validate s = Inr ()" unfolding validate_def raise_if_any_ok by auto
  moreover have "load_from_json (Some (Json SHIPPED)) (map_of CLASS_DEFAULTS) = Inr ?base"
  proof -
    have "load_from_json (Some (Json SHIPPED)) (map_of CLASS_DEFAULTS) = Inr (apply_keys SHIPPED_FLAT (map_of CLASS_DEFAULTS))"
      by (simp add: load_from_json_def shipped_flat shipped_migrate)
    then show ?thesis using load_from_json_base by metis
  qed
  ultimately have "boot (Some (Json SHIPPED)) (map_of SHIPPED_ENV) = Inr s" using s by (simp add: boot_def)
  moreover have "is_s3_configured s = Inr True"
    using secrets by (simp add: is_s3_configured_def and_also_def attr_true_def getattr_def)
  ultimately show ?thesis using quiet secrets(1) by (auto simp: shipped_base restrict_map_def fun_eq_iff)
qed

lemma shipped_boots:
  "\<exists>s. boot (Some (Json SHIPPED)) (map_of SHIPPED_ENV) = Inr s \<and>
     s |` (- set SECRETS) = (map_of CLASS_DEFAULTS ++ map_of SHIPPED_FLAT) |` (- set SECRETS) \<and>
     s ''redis_password'' = Some (JStr ''secret'')"
  using shipped_boots_ready by blast

section \<open>Properties\<close>

text \<open>
  The shipped \<^verbatim>\<open>settings.json\<close> boots once the environment carries the secrets: every
  attribute the environment does not set has the value of the file, or the class default
  where the file is silent, and the values pass the validation.
\<close>

theorem shipped_settings_boot:
  "\<exists>s. boot (Some (Json SHIPPED)) (map_of SHIPPED_ENV) = Inr s \<and>
     s |` (- set SECRETS) = (map_of CLASS_DEFAULTS ++ map_of SHIPPED_FLAT) |` (- set SECRETS) \<and>
     s ''redis_password'' = Some (JStr ''secret'')"
  by (rule shipped_boots)



text \<open>
  C0. Ten attributes are annotated in the class body without a value. A settings file that
  leaves one of them out cannot be made up for by the environment: whatever the variables
  say, a process that boots has all ten from \<^verbatim>\<open>settings.json\<close>; in particular it never boots
  without the file, although a missing file is tolerated by \<^verbatim>\<open>_load_from_json\<close>.
\<close>

theorem annotated_only_needs_file:
  assumes "boot cfg env = Inr s"
  shows "list_all (\<lambda>a. file_value cfg a \<noteq> None) ANNOTATED_ONLY"
  by (rule booted_annotated [OF assms])

theorem annotated_only_needs_file_witness:
  "\<exists>s. boot (Some (Json SHIPPED)) (map_of SHIPPED_ENV) = Inr s \<and>
     list_all (\<lambda>a. file_value (Some (Json SHIPPED)) a \<noteq> None) ANNOTATED_ONLY"
  using shipped_boots annotated_only_needs_file by blast

text \<open>
  C0. A booted process has settings its parts can run on: a known backup mode, scheduling mode
  and role; a per-host budget between 1 and the global one; an error-rate threshold in (0, 1]
  measured over a window no smaller than its minimum sample; a non-empty cooldown schedule of
  positive numbers in ascending order; the two switches booleans; the scrape interval at least
  a minute; positive lifetimes and retention; and a relay without a fallback only with a backup.
\<close>

theorem booted_settings_valid:
  assumes "boot cfg env = Inr s"
  shows "settings_in_range s"
  by (rule booted_valid [OF assms])

theorem booted_settings_valid_witness:
  "\<exists>s. boot (Some (Json SHIPPED)) (map_of SHIPPED_ENV) = Inr s \<and> settings_in_range s"
proof -
  obtain s where s: "boot (Some (Json SHIPPED)) (map_of SHIPPED_ENV) = Inr s" using shipped_boots by blast
  show ?thesis by (rule exI [of _ s], rule conjI, rule s, rule booted_settings_valid [OF s])
qed

end
