(* ===== verification/Station_Snapshots.thy ===== *)
theory Station_Snapshots
  imports S3_Mirror "HOL-Library.Product_Lexorder"
begin

text \<open>
  The shared contract of the weather stations (\<^verbatim>\<open>services/weather_stations_cache.py\<close>, and the key
  builders of \<^verbatim>\<open>services/weather_stations_scraper_service.py\<close>): snapshot keys and tileset ids,
  grouping of snapshots into hour buckets, and the per-station series.

  A date with time, always UTC, is its six fields, ordered like Python orders them. The
  numeric text of \<^verbatim>\<open>float(..)\<close>, the instants of \<^verbatim>\<open>datetime.fromisoformat\<close> and the floating-point
  formula of the dew point are parameters (\<^verbatim>\<open>station_lib\<close>).
\<close>

section \<open>Dates\<close>

datatype datetime =
  DateTime (dt_year: nat) (dt_month: nat) (dt_day: nat) (dt_hour: nat) (dt_minute: nat) (dt_second: nat)

fun dt_fields :: "datetime \<Rightarrow> nat \<times> nat \<times> nat \<times> nat \<times> nat \<times> nat" where
  "dt_fields (DateTime y mo d h mi s) = (y, mo, d, h, mi, s)"

lemma dt_fields_inject: "dt_fields a = dt_fields b \<longleftrightarrow> a = b"
  by (cases a; cases b) simp

instantiation datetime :: linorder
begin

definition less_eq_datetime :: "datetime \<Rightarrow> datetime \<Rightarrow> bool" where
  "less_eq_datetime a b = (dt_fields a \<le> dt_fields b)"

definition less_datetime :: "datetime \<Rightarrow> datetime \<Rightarrow> bool" where
  "less_datetime a b = (dt_fields a < dt_fields b)"

instance
  by standard (auto simp: less_eq_datetime_def less_datetime_def dt_fields_inject intro: order_trans)

end

fun leap_year :: "nat \<Rightarrow> bool" where
  "leap_year y = (y mod 4 = 0 \<and> (y mod 100 \<noteq> 0 \<or> y mod 400 = 0))"

fun days_in_month :: "nat \<Rightarrow> nat \<Rightarrow> nat" where
  "days_in_month y mo =
     (if mo = 2 then (if leap_year y then 29 else 28)
      else if mo = 4 \<or> mo = 6 \<or> mo = 9 \<or> mo = 11 then 30 else 31)"

text \<open>The constructor raises \<^verbatim>\<open>ValueError\<close> outside these ranges.\<close>

fun valid_datetime :: "datetime \<Rightarrow> bool" where
  "valid_datetime (DateTime y mo d h mi s) =
     (1 \<le> y \<and> y \<le> 9999 \<and> 1 \<le> mo \<and> mo \<le> 12 \<and> 1 \<le> d \<and> d \<le> days_in_month y mo \<and> h < 24 \<and> mi < 60 \<and> s < 60)"

definition make_datetime :: "nat \<Rightarrow> nat \<Rightarrow> nat \<Rightarrow> nat \<Rightarrow> nat \<Rightarrow> nat \<Rightarrow> datetime option" where
  "make_datetime y mo d h mi s =
     (let t = DateTime y mo d h mi s in if valid_datetime t then Some t else None)"

text \<open>The next midnight, and one hour later; past the last year is an \<^verbatim>\<open>OverflowError\<close>.\<close>

fun next_day :: "datetime \<Rightarrow> datetime option" where
  "next_day (DateTime y mo d h mi s) =
     (if d < days_in_month y mo then Some (DateTime y mo (d + 1) h mi s)
      else if mo < 12 then Some (DateTime y (mo + 1) 1 h mi s)
      else if y < 9999 then Some (DateTime (y + 1) 1 1 h mi s)
      else None)"

fun add_hour :: "datetime \<Rightarrow> datetime option" where
  "add_hour (DateTime y mo d h mi s) =
     (if h < 23 then Some (DateTime y mo d (h + 1) mi s) else next_day (DateTime y mo d 0 mi s))"

definition pad2 :: "nat \<Rightarrow> string" where
  "pad2 n = [digit_char (n div 10), digit_char (n mod 10)]"

definition pad4 :: "nat \<Rightarrow> string" where
  "pad4 n = pad2 (n div 100) @ pad2 (n mod 100)"

text \<open>\<^verbatim>\<open>%Y\<close> prints the year without padding.\<close>

fun strftime_stamp :: "datetime \<Rightarrow> string" where
  "strftime_stamp (DateTime y mo d h mi s) =
     str_of_nat y @ pad2 mo @ pad2 d @ ''T'' @ pad2 h @ pad2 mi @ pad2 s @ ''Z''"

fun strftime_day :: "datetime \<Rightarrow> string" where
  "strftime_day (DateTime y mo d h mi s) = str_of_nat y @ ''/'' @ pad2 mo @ ''/'' @ pad2 d"

text \<open>\<^verbatim>\<open>ts.isoformat().replace("+00:00", "Z")\<close>, without microseconds.\<close>

fun iso_utc :: "datetime \<Rightarrow> string" where
  "iso_utc (DateTime y mo d h mi s) =
     pad4 y @ ''-'' @ pad2 mo @ ''-'' @ pad2 d @ ''T'' @ pad2 h @ '':'' @ pad2 mi @ '':'' @ pad2 s @ ''Z''"

section \<open>Keys\<close>

definition latest_key :: string where "latest_key = ''cache:ws:latest''"
definition tilesets_key :: string where "tilesets_key = ''cache:ws:tilesets''"
definition registry_key :: string where "registry_key = ''cache:ws:registry''"

definition snap_body_key :: "string \<Rightarrow> string" where
  "snap_body_key s3_key = ''cache:ws:snap:'' @ s3_key"

definition series_key :: "int \<Rightarrow> string" where
  "series_key station_id = ''cache:ws:series:'' @ str_of_int station_id"

definition SNAPSHOTS_PREFIX :: string where "SNAPSHOTS_PREFIX = ''weather-stations/snapshots/''"
definition SNAPSHOT_META_SUFFIX :: string where "SNAPSHOT_META_SUFFIX = ''.meta.json''"

definition snapshot_key :: "datetime \<Rightarrow> string" where
  "snapshot_key ts =
     SNAPSHOTS_PREFIX @ strftime_day ts @ ''/'' @ pad2 (dt_hour ts) @ ''/'' @ strftime_stamp ts @ ''.json''"

definition snapshot_meta_key :: "string \<Rightarrow> string" where
  "snapshot_meta_key key = take (length key - length ''.json'') key @ SNAPSHOT_META_SUFFIX"

text \<open>
  A fixed field of decimal digits. A match of \<^verbatim>\<open>\d\<close> in a text of the first 256 code points is one of
  the ten ASCII digits.
\<close>

definition field :: "nat \<Rightarrow> nat \<Rightarrow> string \<Rightarrow> string" where
  "field a n s = take n (drop a s)"

definition stamp_fields :: "string \<Rightarrow> bool" where
  "stamp_fields s =
     (list_all is_digit (field 0 8 s) \<and> field 8 1 s = ''T'' \<and> list_all is_digit (field 9 6 s) \<and> drop 15 s = ''Z.json'')"

text \<open>
  \<^verbatim>\<open>.*/(\d{4})(\d{2})(\d{2})T(\d{2})(\d{2})(\d{2})Z\.json$\<close> from the start: the last 21 characters
  are the stamp, a slash stands before them, no newline before that; \<^verbatim>\<open>$\<close> also matches before a
  final newline.
\<close>

definition drop_newline :: "string \<Rightarrow> string" where
  "drop_newline s = (if s \<noteq> [] \<and> last s = CHR 0x0A then butlast s else s)"

definition match_snapshot_key :: "string \<Rightarrow> string option" where
  "match_snapshot_key key =
     (let k = drop_newline key; n = length k
      in if 22 \<le> n \<and> k ! (n - 22) = CHR ''/'' \<and> CHR 0x0A \<notin> set (take (n - 22) k) \<and> stamp_fields (drop (n - 21) k)
         then Some (drop (n - 21) k) else None)"

definition parse_snapshot_key :: "string \<Rightarrow> datetime option" where
  "parse_snapshot_key key =
     (case match_snapshot_key key of
        None \<Rightarrow> None
      | Some s \<Rightarrow>
          make_datetime (digits_value (field 0 4 s)) (digits_value (field 4 2 s)) (digits_value (field 6 2 s))
            (digits_value (field 9 2 s)) (digits_value (field 11 2 s)) (digits_value (field 13 2 s)))"

text \<open>\<^verbatim>\<open>^(\d{4})(\d{2})(\d{2})T(\d{2})(\d{2})Z$\<close>; \<^const>\<open>None\<close> is a \<^verbatim>\<open>TilesetIdFormatError\<close>.\<close>

definition parse_tileset_id :: "string \<Rightarrow> datetime option" where
  "parse_tileset_id tileset_id =
     (let s = drop_newline tileset_id
      in if list_all is_digit (field 0 8 s) \<and> length (field 0 8 s) = 8 \<and> field 8 1 s = ''T''
            \<and> list_all is_digit (field 9 4 s) \<and> drop 13 s = ''Z''
         then make_datetime (digits_value (field 0 4 s)) (digits_value (field 4 2 s)) (digits_value (field 6 2 s))
                (digits_value (field 9 2 s)) (digits_value (field 11 2 s)) 0
         else None)"

fun tileset_id_for :: "datetime \<Rightarrow> string" where
  "tileset_id_for (DateTime y mo d h mi s) = str_of_nat y @ pad2 mo @ pad2 d @ ''T'' @ pad2 h @ ''00Z''"

fun midnight :: "datetime \<Rightarrow> datetime" where
  "midnight (DateTime y mo d h mi s) = DateTime y mo d 0 0 0"

text \<open>
  The loop over days. \<^verbatim>\<open>fuel\<close> bounds it; the callers pass the number of days up to the end, and
  a step past the last representable day raises.
\<close>

fun day_loop :: "nat \<Rightarrow> datetime \<Rightarrow> datetime \<Rightarrow> string list option" where
  "day_loop 0 day end_day = (if day \<le> end_day then None else Some [])"
| "day_loop (Suc fuel) day end_day =
     (if day \<le> end_day
      then (case next_day day of
              None \<Rightarrow> None
            | Some d \<Rightarrow> map_option ((#) (SNAPSHOTS_PREFIX @ strftime_day day @ ''/'')) (day_loop fuel d end_day))
      else Some [])"

definition day_prefixes_covering :: "nat \<Rightarrow> datetime \<Rightarrow> datetime \<Rightarrow> string list option" where
  "day_prefixes_covering fuel start stop =
     (if stop < start then day_loop fuel (midnight stop) (midnight start)
      else day_loop fuel (midnight start) (midnight stop))"

section \<open>Hour buckets\<close>

text \<open>The latest snapshot of each bucket: a strictly later one replaces, order of first arrival.\<close>

definition bucket_step ::
  "string \<Rightarrow> (string \<times> datetime \<times> string) list \<Rightarrow> (string \<times> datetime \<times> string) list" where
  "bucket_step key per_bucket =
     (if endswith key SNAPSHOT_META_SUFFIX then per_bucket
      else case parse_snapshot_key key of
        None \<Rightarrow> per_bucket
      | Some ts \<Rightarrow>
          let bucket = tileset_id_for ts
          in (case map_of per_bucket bucket of
                None \<Rightarrow> dict_set per_bucket bucket (ts, key)
              | Some (ts0, key0) \<Rightarrow> if ts > ts0 then dict_set per_bucket bucket (ts, key) else per_bucket))"

definition per_bucket_of :: "string list \<Rightarrow> (string \<times> datetime \<times> string) list" where
  "per_bucket_of keys = fold bucket_step keys []"

definition latest_snapshot_per_bucket ::
  "(string \<Rightarrow> ('w, string list) io) \<Rightarrow> ('w, (string \<times> datetime \<times> string) list) io" where
  "latest_snapshot_per_bucket lister = bnd (lister SNAPSHOTS_PREFIX) (\<lambda>keys. ret (per_bucket_of keys))"

definition parse_json_or_none :: "pybytes \<Rightarrow> json option" where
  "parse_json_or_none body =
     (case json_loads body of Some (JObj kvs) \<Rightarrow> Some (JObj kvs) | _ \<Rightarrow> None)"

text \<open>\<^verbatim>\<open>isinstance(v, int)\<close>, with its value: booleans are integers.\<close>

fun json_as_int :: "json \<Rightarrow> int option" where
  "json_as_int (JInt n) = Some n"
| "json_as_int (JBool b) = Some (if b then 1 else 0)"
| "json_as_int _ = None"

definition station_count_of :: "pybytes option \<Rightarrow> int" where
  "station_count_of body =
     (case Option.bind body parse_json_or_none of
        None \<Rightarrow> 0
      | Some meta \<Rightarrow>
          (case jget meta ''station_count'' of
             None \<Rightarrow> 0
           | Some v \<Rightarrow> (case json_as_int v of None \<Rightarrow> 0 | Some n \<Rightarrow> n)))"

definition read_station_count :: "'w s3 \<Rightarrow> string \<Rightarrow> ('w, int) io" where
  "read_station_count S key =
     bnd (download_tile S (snapshot_meta_key key)) (\<lambda>body. ret (station_count_of body))"

record tileset_entry =
  te_tileset_id :: string
  te_scraped_at :: string
  te_station_count :: int

definition compute_tilesets_entries ::
  "'w s3 \<Rightarrow> (string \<Rightarrow> ('w, string list) io) \<Rightarrow> ('w, tileset_entry list) io" where
  "compute_tilesets_entries S lister =
     bnd (latest_snapshot_per_bucket lister) (\<lambda>per_bucket.
       let items = sort_key (\<lambda>kv. fst (snd kv)) per_bucket
       in bnd (for_each items (\<lambda>kv. read_station_count S (snd (snd kv)))) (\<lambda>counts.
          ret (map (\<lambda>(kv, count). \<lparr> te_tileset_id = fst kv, te_scraped_at = iso_utc (fst (snd kv)),
                                   te_station_count = count \<rparr>) (zip items counts))))"

definition recent_snapshot_keys :: "(string \<Rightarrow> ('w, string list) io) \<Rightarrow> int \<Rightarrow> ('w, string list) io" where
  "recent_snapshot_keys lister window =
     (if window \<le> 0 then ret []
      else bnd (latest_snapshot_per_bucket lister) (\<lambda>per_bucket.
             ret (map snd (take (nat window) (sorted_desc_key fst (map snd per_bucket))))))"

text \<open>
  The read side (\<^verbatim>\<open>WeatherStationsService._resolve_bucket_snapshot_key\<close>): the latest snapshot in
  \<^verbatim>\<open>[target, target + 1h)\<close> among the keys of the day.
\<close>

definition best_step :: "datetime \<Rightarrow> datetime \<Rightarrow> string \<Rightarrow> (datetime \<times> string) option \<Rightarrow> (datetime \<times> string) option" where
  "best_step target bucket_end key best =
     (if endswith key SNAPSHOT_META_SUFFIX then best
      else case parse_snapshot_key key of
        None \<Rightarrow> best
      | Some ts \<Rightarrow>
          if ts < target \<or> bucket_end \<le> ts then best
          else (case best of
                  None \<Rightarrow> Some (ts, key)
                | Some (best_ts, best_key) \<Rightarrow> if ts > best_ts then Some (ts, key) else best))"

definition best_in_bucket :: "datetime \<Rightarrow> datetime \<Rightarrow> string list \<Rightarrow> string option" where
  "best_in_bucket target bucket_end keys = map_option snd (fold (best_step target bucket_end) keys None)"

section \<open>Lemmas on stamps\<close>

lemma digits_value_pad2: "n < 100 \<Longrightarrow> digits_value (pad2 n) = n"
  by (simp add: digits_value_def pad2_def)

lemma pad2_digits: "n < 100 \<Longrightarrow> list_all is_digit (pad2 n)"
  by (simp add: pad2_def)

lemma length_pad2 [simp]: "length (pad2 n) = 2"
  by (simp add: pad2_def)

lemma length_str_of_nat4:
  assumes "1000 \<le> n" "n \<le> 9999"
  shows "length (str_of_nat n) = 4"
proof -
  let ?a = "n div 10" and ?b = "n div 10 div 10" and ?c = "n div 10 div 10 div 10"
  have "\<not> n < 10" "\<not> ?a < 10" "\<not> ?b < 10" "?c < 10"
    using assms by (simp_all add: not_less less_eq_div_iff_mult_less_eq div_less_iff_less_mult)
  then show ?thesis
    by (simp add: str_of_nat.simps [of n] str_of_nat.simps [of ?a] str_of_nat.simps [of ?b] str_of_nat.simps [of ?c])
qed

lemma str_of_nat_all_digits: "list_all is_digit (str_of_nat n)"
  by (auto simp: list_all_iff dest: str_of_nat_digits)

lemma days_in_month_le: "days_in_month y mo \<le> 31"
  by simp

lemma valid_datetimeD:
  assumes "valid_datetime (DateTime y mo d h mi s)"
  shows "mo < 100" "d < 100" "h < 100" "mi < 100" "s < 100" "y \<le> 9999"
  using assms days_in_month_le [of y mo] by (auto simp del: days_in_month.simps)

lemma pad2_no [simp]: "n < 100 \<Longrightarrow> \<not> is_digit c \<Longrightarrow> c \<notin> set (pad2 n)"
  using pad2_digits [of n] by (auto simp: list_all_iff)

lemma str_of_nat_no [simp]: "\<not> is_digit c \<Longrightarrow> c \<notin> set (str_of_nat n)"
  using str_of_nat_digits by auto

lemma newline_no_digit [simp]: "\<not> is_digit (CHR 0x0A)"
  by (simp add: is_digit_def)

lemma match_snapshot_key_stamp:
  assumes "length stem = 21" "stamp_fields stem" "last stem \<noteq> CHR 0x0A" "CHR 0x0A \<notin> set pre"
  shows "match_snapshot_key (pre @ ''/'' @ stem) = Some stem"
proof -
  have "stem \<noteq> []" using assms(1) by auto
  then have "drop_newline (pre @ ''/'' @ stem) = pre @ ''/'' @ stem" using assms(3) by (simp add: drop_newline_def)
  then show ?thesis using assms by (simp add: match_snapshot_key_def Let_def nth_append)
qed

text \<open>The name of a snapshot gives its time back.\<close>

lemma parse_snapshot_key_snapshot_key:
  assumes "valid_datetime ts" "1000 \<le> dt_year ts"
  shows "parse_snapshot_key (snapshot_key ts) = Some ts"
proof (cases ts)
  case (DateTime y mo d h mi s)
  note v = valid_datetimeD [OF assms(1) [unfolded DateTime]]
  have y: "length (str_of_nat y) = 4" using assms(2) v DateTime by (intro length_str_of_nat4) auto
  define stem where "stem = strftime_stamp ts @ ''.json''"
  let ?pre = "SNAPSHOTS_PREFIX @ strftime_day ts @ ''/'' @ pad2 (dt_hour ts)"
  have stem: "stem = str_of_nat y @ pad2 mo @ pad2 d @ ''T'' @ pad2 h @ pad2 mi @ pad2 s @ ''Z.json''"
    using DateTime by (simp add: stem_def)
  have f: "field 0 4 stem = str_of_nat y" "field 4 2 stem = pad2 mo" "field 6 2 stem = pad2 d"
    "field 9 2 stem = pad2 h" "field 11 2 stem = pad2 mi" "field 13 2 stem = pad2 s"
    "field 0 8 stem = str_of_nat y @ pad2 mo @ pad2 d" "field 8 1 stem = ''T''"
    "field 9 6 stem = pad2 h @ pad2 mi @ pad2 s" "drop 15 stem = ''Z.json''"
    unfolding stem field_def using y by simp_all
  have sf: "stamp_fields stem"
    unfolding stamp_fields_def f using v by (simp add: pad2_digits str_of_nat_all_digits)
  have pre: "CHR 0x0A \<notin> set ?pre"
    using DateTime v by (simp add: SNAPSHOTS_PREFIX_def)
  have len: "length stem = 21" unfolding stem using y by simp
  have "match_snapshot_key (?pre @ ''/'' @ stem) = Some stem"
    by (rule match_snapshot_key_stamp [OF len sf _ pre]) (simp add: stem_def)
  then have "match_snapshot_key (snapshot_key ts) = Some stem" by (simp add: snapshot_key_def stem_def)
  then show ?thesis
    using assms(1) v DateTime
    by (simp add: parse_snapshot_key_def f digits_value_pad2 make_datetime_def Let_def
        del: valid_datetime.simps)
qed

fun hour_floor :: "datetime \<Rightarrow> datetime" where
  "hour_floor (DateTime y mo d h mi s) = DateTime y mo d h 0 0"

lemma parse_tileset_id_tileset_id_for:
  assumes "valid_datetime ts" "1000 \<le> dt_year ts"
  shows "parse_tileset_id (tileset_id_for ts) = Some (hour_floor ts)"
proof (cases ts)
  case (DateTime y mo d h mi s)
  note v = valid_datetimeD [OF assms(1) [unfolded DateTime]]
  have y: "length (str_of_nat y) = 4" using assms(2) v DateTime by (intro length_str_of_nat4) auto
  define u where "u = str_of_nat y @ pad2 mo @ pad2 d @ ''T'' @ pad2 h @ ''00Z''"
  have f: "field 0 4 u = str_of_nat y" "field 4 2 u = pad2 mo" "field 6 2 u = pad2 d"
    "field 9 2 u = pad2 h" "field 11 2 u = ''00''"
    "field 0 8 u = str_of_nat y @ pad2 mo @ pad2 d" "field 8 1 u = ''T''"
    "field 9 4 u = pad2 h @ ''00''" "drop 13 u = ''Z''"
    unfolding field_def u_def using y by simp_all
  have z: "digits_value ''00'' = 0" "is_digit (CHR ''0'')"
    by (simp_all add: digits_value_def digit_val_def is_digit_def)
  have n: "drop_newline u = u" by (simp add: drop_newline_def u_def)
  have "valid_datetime (DateTime y mo d h 0 0)" using assms(1) DateTime by simp
  then have "parse_tileset_id u = Some (DateTime y mo d h 0 0)"
    using v y
    by (simp add: parse_tileset_id_def n f z digits_value_pad2 pad2_digits str_of_nat_all_digits make_datetime_def Let_def
        del: valid_datetime.simps One_nat_def)
  moreover have "tileset_id_for ts = u" using DateTime by (simp add: u_def)
  ultimately show ?thesis using DateTime by simp
qed

section \<open>Listing and fetching agree\<close>

text \<open>Both walks over the keys keep the first of the latest snapshots that satisfy a condition.\<close>

definition best_where :: "(datetime \<Rightarrow> bool) \<Rightarrow> string \<Rightarrow> (datetime \<times> string) option \<Rightarrow> (datetime \<times> string) option" where
  "best_where P key best =
     (if endswith key SNAPSHOT_META_SUFFIX then best
      else case parse_snapshot_key key of
        None \<Rightarrow> best
      | Some ts \<Rightarrow>
          if \<not> P ts then best
          else (case best of None \<Rightarrow> Some (ts, key)
                | Some (t0, k0) \<Rightarrow> if ts > t0 then Some (ts, key) else best))"

lemma best_step_where: "best_step target stop = best_where (\<lambda>ts. target \<le> ts \<and> ts < stop)"
  by (auto simp: best_step_def best_where_def fun_eq_iff not_less not_le split: option.splits)

lemma bucket_step_where:
  "map_of (bucket_step key pb) b = best_where (\<lambda>ts. tileset_id_for ts = b) key (map_of pb b)"
  by (auto simp: bucket_step_def best_where_def dict_set_lookup Let_def split: option.splits)

lemma per_bucket_where:
  "map_of (per_bucket_of keys) b = fold (best_where (\<lambda>ts. tileset_id_for ts = b)) keys None"
proof -
  have "map_of (fold bucket_step keys pb) b = fold (best_where (\<lambda>ts. tileset_id_for ts = b)) keys (map_of pb b)" for pb
    by (induction keys arbitrary: pb) (simp_all add: bucket_step_where)
  from this [of "[]"] show ?thesis by (simp add: per_bucket_of_def)
qed

lemma best_where_cong:
  "(\<And>ts. parse_snapshot_key key = Some ts \<Longrightarrow> P ts = Q ts) \<Longrightarrow> best_where P key = best_where Q key"
  by (auto simp: best_where_def fun_eq_iff split: option.splits)

lemma best_where_none: "(\<And>ts. parse_snapshot_key key = Some ts \<Longrightarrow> \<not> P ts) \<Longrightarrow> best_where P key best = best"
  by (auto simp: best_where_def split: option.splits)

lemma fold_best_filter:
  assumes "\<And>key ts. key \<in> set keys \<Longrightarrow> parse_snapshot_key key = Some ts \<Longrightarrow> P ts \<Longrightarrow> F key"
  shows "fold (best_where P) (filter F keys) best = fold (best_where P) keys best"
  using assms
proof (induction keys arbitrary: best)
  case (Cons key keys)
  show ?case
  proof (cases "F key")
    case False
    then have "best_where P key best = best" using Cons.prems by (intro best_where_none) auto
    then show ?thesis using Cons False by auto
  qed (use Cons in auto)
qed simp

lemma best_where_member:
  assumes "fold (best_where P) keys None = Some (ts, key)"
  shows "key \<in> set keys \<and> parse_snapshot_key key = Some ts \<and> P ts"
proof -
  have "fold (best_where P) keys best = Some (ts, key) \<Longrightarrow>
      best = Some (ts, key) \<or> key \<in> set keys \<and> parse_snapshot_key key = Some ts \<and> P ts" for best
    by (induction keys arbitrary: best)
       (force simp: best_where_def split: option.splits if_splits)+
  from this [OF assms] show ?thesis by simp
qed

lemma parse_snapshot_key_valid: "parse_snapshot_key key = Some ts \<Longrightarrow> valid_datetime ts"
  by (auto simp: parse_snapshot_key_def make_datetime_def Let_def split: option.splits if_splits
      simp del: valid_datetime.simps)

text \<open>An hour bucket is the half-open hour after its id.\<close>

lemma tileset_id_for_inject:
  assumes "valid_datetime a" "1000 \<le> dt_year a" "valid_datetime b" "1000 \<le> dt_year b"
  shows "tileset_id_for a = tileset_id_for b \<longleftrightarrow> hour_floor a = hour_floor b"
proof
  assume "tileset_id_for a = tileset_id_for b"
  then show "hour_floor a = hour_floor b"
    using parse_tileset_id_tileset_id_for [OF assms(1,2)] parse_tileset_id_tileset_id_for [OF assms(3,4)] by simp
next
  assume "hour_floor a = hour_floor b"
  then show "tileset_id_for a = tileset_id_for b" by (cases a; cases b) simp
qed

lemma floor_le_iff:
  "DateTime y mo d h 0 0 \<le> DateTime y' mo' d' h' mi s \<longleftrightarrow> (y, mo, d, h) \<le> (y', mo', d', h')"
  by (auto simp: less_eq_datetime_def less_eq_prod_def)

lemma less_floor_iff:
  "DateTime y' mo' d' h' mi s < DateTime y mo d h 0 0 \<longleftrightarrow> (y', mo', d', h') < (y, mo, d, h)"
  by (auto simp: less_datetime_def less_prod_def)

lemma hour_window:
  assumes "valid_datetime t" "valid_datetime ts" "add_hour (hour_floor t) = Some stop"
  shows "hour_floor ts = hour_floor t \<longleftrightarrow> hour_floor t \<le> ts \<and> ts < stop"
proof -
  obtain y mo d h mi s where t: "t = DateTime y mo d h mi s" by (cases t)
  obtain y' mo' d' h' mi' s' where ts: "ts = DateTime y' mo' d' h' mi' s'" by (cases ts)
  note v = assms(1) [unfolded t valid_datetime.simps] and v' = assms(2) [unfolded ts valid_datetime.simps]
  obtain yy mm dd hh where e: "stop = DateTime yy mm dd hh 0 0"
    and c: "(yy, mm, dd, hh) = (y, mo, d, h + 1)
      \<or> h = 23 \<and> (yy, mm, dd, hh) = (y, mo, d + 1, 0)
      \<or> h = 23 \<and> d = days_in_month y mo \<and> (yy, mm, dd, hh) = (y, mo + 1, 1, 0)
      \<or> h = 23 \<and> d = days_in_month y mo \<and> mo = 12 \<and> (yy, mm, dd, hh) = (y + 1, 1, 1, 0)"
    using assms(3) v unfolding t by (auto simp del: days_in_month.simps split: if_splits)
  have "(y', mo', d', h') = (y, mo, d, h) \<longleftrightarrow>
      (y, mo, d, h) \<le> (y', mo', d', h') \<and> (y', mo', d', h') < (yy, mm, dd, hh)"
    using c
  proof (elim disjE conjE, goal_cases)
    case 1
    then show ?case by (auto simp: less_eq_prod_def less_prod_def)
  next
    case 2
    then show ?case using v' by (auto simp: less_eq_prod_def less_prod_def simp del: days_in_month.simps)
  next
    case 3
    then show ?case using v' by (cases "mo' = mo") (auto simp: less_eq_prod_def less_prod_def simp del: days_in_month.simps)
  next
    case 4
    then show ?case using v' by (cases "y' = y") (auto simp: less_eq_prod_def less_prod_def simp del: days_in_month.simps)
  qed
  then show ?thesis unfolding t ts e by (simp add: floor_le_iff less_floor_iff)
qed

lemma strftime_day_floor: "strftime_day (hour_floor t) = strftime_day t"
  by (cases t) simp

lemma same_hour_same_day: "hour_floor a = hour_floor b \<Longrightarrow> strftime_day a = strftime_day b"
  by (cases a; cases b) simp

text \<open>The keys as the scraper writes them: every snapshot lies under the directory of its own day.\<close>

definition well_placed :: "string list \<Rightarrow> bool" where
  "well_placed keys \<longleftrightarrow>
     (\<forall>key \<in> set keys. \<forall>ts. parse_snapshot_key key = Some ts \<longrightarrow>
        1000 \<le> dt_year ts \<and> startswith key (SNAPSHOTS_PREFIX @ strftime_day ts @ ''/''))"

lemma snapshot_keys_well_placed:
  assumes "\<And>ts. ts \<in> set tss \<Longrightarrow> valid_datetime ts \<and> 1000 \<le> dt_year ts"
  shows "well_placed (map snapshot_key tss)"
proof -
  have "startswith (snapshot_key ts) (SNAPSHOTS_PREFIX @ strftime_day ts @ ''/'')" for ts
    by (simp add: snapshot_key_def startswith_def)
  then show ?thesis
    using assms by (auto simp: well_placed_def parse_snapshot_key_snapshot_key simp del: strftime_day.simps)
qed

section \<open>Properties\<close>

text \<open>
  C14. The listing and the fetch of tilesets agree. When the listing of the snapshots puts an object
  into a bucket, then the bucket's id parses, to the start of its hour, and the fetch by that id,
  which only lists the directory of that day and looks for the latest snapshot of the hour, picks the
  very same object.
\<close>

theorem tileset_fetch_matches_listing:
  assumes "well_placed keys" "map_of (per_bucket_of keys) b = Some (ts, key)"
    and "add_hour (hour_floor ts) = Some stop"
  shows "parse_tileset_id b = Some (hour_floor ts)
       \<and> best_in_bucket (hour_floor ts) stop
           (filter (\<lambda>k. startswith k (SNAPSHOTS_PREFIX @ strftime_day (hour_floor ts) @ ''/'')) keys) = Some key"
proof -
  let ?P = "\<lambda>t. tileset_id_for t = b" and ?Q = "\<lambda>t. hour_floor ts \<le> t \<and> t < stop"
  let ?F = "\<lambda>k. startswith k (SNAPSHOTS_PREFIX @ strftime_day (hour_floor ts) @ ''/'')"
  have best: "fold (best_where ?P) keys None = Some (ts, key)" using assms(2) by (simp add: per_bucket_where)
  then have m: "key \<in> set keys" "parse_snapshot_key key = Some ts" "tileset_id_for ts = b"
    using best_where_member by blast+
  note v = parse_snapshot_key_valid [OF m(2)]
  have y: "1000 \<le> dt_year ts" using assms(1) m unfolding well_placed_def by blast
  have PQ: "?P t = ?Q t" if "k \<in> set keys" "parse_snapshot_key k = Some t" for k t
  proof -
    have "1000 \<le> dt_year t" using assms(1) that unfolding well_placed_def by blast
    then show ?thesis
      using tileset_id_for_inject [OF parse_snapshot_key_valid [OF that(2)] _ v y] m(3)
        hour_window [OF v parse_snapshot_key_valid [OF that(2)] assms(3)] by auto
  qed
  have "fold (best_where ?Q) keys best = fold (best_where ?P) keys best" for best
    using PQ by (intro fold_cong best_where_cong) auto
  moreover have "fold (best_where ?Q) (filter ?F keys) None = fold (best_where ?Q) keys None"
  proof (rule fold_best_filter)
    fix k t assume k: "k \<in> set keys" "parse_snapshot_key k = Some t" "?Q t"
    have "hour_floor t = hour_floor ts"
      using hour_window [OF v parse_snapshot_key_valid [OF k(2)] assms(3)] k(3) by simp
    then have "strftime_day t = strftime_day (hour_floor ts)"
      using same_hour_same_day strftime_day_floor by metis
    then show "?F k" using assms(1) k(1,2) unfolding well_placed_def by fastforce
  qed
  ultimately have "best_in_bucket (hour_floor ts) stop (filter ?F keys) = Some key"
    using best by (simp add: best_in_bucket_def best_step_where)
  then show ?thesis using parse_tileset_id_tileset_id_for [OF v y] m(3) by simp
qed

definition demo_times :: "datetime list" where
  "demo_times = [DateTime 2026 12 31 23 5 0, DateTime 2027 1 1 0 5 0, DateTime 2026 12 31 23 55 0]"

lemma demo_times_placed: "well_placed (map snapshot_key demo_times)"
  by (rule snapshot_keys_well_placed) (auto simp: demo_times_def)

lemma snapshot_key_not_meta: "\<not> endswith (snapshot_key ts) SNAPSHOT_META_SUFFIX"
proof -
  have "snapshot_key ts = butlast (SNAPSHOTS_PREFIX @ strftime_day ts @ ''/'' @ pad2 (dt_hour ts) @ ''/'' @ strftime_stamp ts)
      @ ''Z.json''"
    by (cases ts) (simp add: snapshot_key_def butlast_append)
  then show ?thesis by (auto simp: endswith_def SNAPSHOT_META_SUFFIX_def suffix_append suffix_Cons)
qed

lemma demo_bucket:
  "map_of (per_bucket_of (map snapshot_key demo_times)) (tileset_id_for (DateTime 2026 12 31 23 55 0))
     = Some (DateTime 2026 12 31 23 55 0, snapshot_key (DateTime 2026 12 31 23 55 0))"
proof -
  have p: "parse_snapshot_key (snapshot_key t) = Some t" if "t \<in> set demo_times" for t
    using that by (intro parse_snapshot_key_snapshot_key) (auto simp: demo_times_def)
  have "tileset_id_for (DateTime 2027 1 1 0 5 0) \<noteq> tileset_id_for (DateTime 2026 12 31 23 55 0)"
    by (subst tileset_id_for_inject) (simp_all del: tileset_id_for.simps)
  then show ?thesis
    using p unfolding per_bucket_where demo_times_def
    by (simp add: best_where_def snapshot_key_not_meta less_datetime_def del: tileset_id_for.simps)
qed

theorem tileset_fetch_matches_listing_witness:
  "let t = DateTime 2026 12 31 23 55 0; keys = map snapshot_key demo_times
   in parse_tileset_id (tileset_id_for t) = Some (hour_floor t)
    \<and> best_in_bucket (hour_floor t) (DateTime 2027 1 1 0 0 0)
        (filter (\<lambda>k. startswith k (SNAPSHOTS_PREFIX @ strftime_day (hour_floor t) @ ''/'')) keys)
        = Some (snapshot_key t)"
  unfolding Let_def
  by (rule tileset_fetch_matches_listing [OF demo_times_placed demo_bucket]) simp

end
