(* ===== verification/Station_Series.thy ===== *)
theory Station_Series
  imports Station_Snapshots
begin

text \<open>
  Observations of the weather stations (\<^verbatim>\<open>services/weather_stations_cache.py\<close>): coercion of the
  feed's numbers, the derived dew point, and the per-station series, computed for one station by
  the read side and for all stations at once by the scraper.

  A Python dictionary read from JSON is a \<^typ>\<open>json\<close> object; \<^verbatim>\<open>.get(k)\<close> of a missing key is
  \<^verbatim>\<open>None\<close>, like a JSON null.
\<close>

section \<open>Library functions\<close>

text \<open>
  \<^verbatim>\<open>float(text)\<close>, \<^verbatim>\<open>datetime.fromisoformat\<close> as an instant in UTC (a naive time taken as UTC), and the
  rounded floating-point value of the Magnus formula.
\<close>

record station_lib =
  sl_float :: "string \<Rightarrow> rat option"
  sl_fromisoformat :: "string \<Rightarrow> rat option"
  sl_magnus :: "rat \<Rightarrow> rat \<Rightarrow> rat"

fun replace_char :: "char \<Rightarrow> string \<Rightarrow> string \<Rightarrow> string" where
  "replace_char c r [] = []"
| "replace_char c r (x # xs) = (if x = c then r @ replace_char c r xs else x # replace_char c r xs)"

definition dget :: "json \<Rightarrow> string \<Rightarrow> json" where
  "dget v k = (case jget v k of None \<Rightarrow> JNull | Some x \<Rightarrow> x)"

definition parse_observed_at :: "station_lib \<Rightarrow> json \<Rightarrow> rat option" where
  "parse_observed_at L v =
     (case v of
        JStr s \<Rightarrow> if s = [] then None else sl_fromisoformat L (replace_char (CHR ''Z'') ''+00:00'' s)
      | _ \<Rightarrow> None)"

text \<open>An es-AR number: with both separators the dot groups thousands.\<close>

definition normalize_number :: "string \<Rightarrow> string" where
  "normalize_number text =
     (if CHR '','' \<in> set text \<and> CHR ''.'' \<in> set text
      then replace_char (CHR '','') ''.'' (replace_char (CHR ''.'') [] text)
      else replace_char (CHR '','') ''.'' text)"

fun to_float :: "station_lib \<Rightarrow> json \<Rightarrow> rat option" where
  "to_float L (JBool b) = None"
| "to_float L (JInt n) = Some (of_int n)"
| "to_float L (JFloat q) = Some q"
| "to_float L (JStr s) = (let text = py_strip s in if text = [] then None else sl_float L (normalize_number text))"
| "to_float L _ = None"

definition DEW_T_MIN :: rat where "DEW_T_MIN = - 45"
definition DEW_T_MAX :: rat where "DEW_T_MAX = 60"
definition DEW_HR_TOLERANCE :: rat where "DEW_HR_TOLERANCE = 1005 / 10"

text \<open>\<^verbatim>\<open>float(v)\<close> of a JSON value; numbers of the model are finite.\<close>

fun py_float_of :: "station_lib \<Rightarrow> json \<Rightarrow> rat option" where
  "py_float_of L (JBool b) = Some (if b then 1 else 0)"
| "py_float_of L (JInt n) = Some (of_int n)"
| "py_float_of L (JFloat q) = Some q"
| "py_float_of L (JStr s) = sl_float L s"
| "py_float_of L _ = None"

definition magnus_dew_point :: "station_lib \<Rightarrow> json \<Rightarrow> json \<Rightarrow> rat option" where
  "magnus_dew_point L temperature humidity =
     (case (py_float_of L temperature, py_float_of L humidity) of
        (Some t, Some hr) \<Rightarrow>
          if hr \<le> 0 \<or> hr > DEW_HR_TOLERANCE then None
          else let hr' = min hr 100
               in if \<not> (DEW_T_MIN \<le> t \<and> t \<le> DEW_T_MAX) then None else Some (sl_magnus L t hr')
      | _ \<Rightarrow> None)"

fun json_of_float :: "rat option \<Rightarrow> json" where
  "json_of_float None = JNull"
| "json_of_float (Some q) = JFloat q"

text \<open>A dict assignment on a JSON object; other values are left alone by the callers.\<close>

fun json_put :: "json \<Rightarrow> string \<Rightarrow> json \<Rightarrow> json" where
  "json_put (JObj kvs) k v = JObj (dict_set kvs k v)"
| "json_put j k v = j"

definition annotate_dew_point :: "station_lib \<Rightarrow> json \<Rightarrow> json" where
  "annotate_dew_point L body =
     (case dget body ''stations'' of
        JArr stations \<Rightarrow>
          json_put body ''stations'' (JArr (map (\<lambda>obs.
            json_put obs ''dew_point'' (json_of_float (magnus_dew_point L (dget obs ''temperature'') (dget obs ''humidity''))))
            stations))
      | _ \<Rightarrow> body)"

definition observation_to_point :: "station_lib \<Rightarrow> json \<Rightarrow> json" where
  "observation_to_point L obs =
     (let wind = (case dget obs ''wind'' of JObj kvs \<Rightarrow> JObj kvs | _ \<Rightarrow> JObj []);
          weather = (case dget obs ''weather'' of JObj kvs \<Rightarrow> JObj kvs | _ \<Rightarrow> JObj [])
      in JObj [ (''observed_at'', dget obs ''observed_at''), (''temperature'', dget obs ''temperature''),
                (''feels_like'', dget obs ''feels_like''), (''humidity'', dget obs ''humidity''),
                (''pressure'', dget obs ''pressure''), (''visibility'', dget obs ''visibility''),
                (''dew_point'', json_of_float (magnus_dew_point L (dget obs ''temperature'') (dget obs ''humidity''))),
                (''condition'', dget weather ''description''), (''wind_speed'', dget wind ''speed''),
                (''wind_deg'', dget wind ''deg''), (''wind_direction'', dget wind ''direction'') ])"

section \<open>Series\<close>

definition sorted_points :: "station_lib \<Rightarrow> (string \<times> json) list \<Rightarrow> json list" where
  "sorted_points L by_observed_at =
     map snd (sort_key fst
       (List.map_filter (\<lambda>(raw, point). map_option (\<lambda>ts. (ts, point)) (parse_observed_at L (JStr raw))) by_observed_at))"

definition is_dict :: "json \<Rightarrow> bool" where
  "is_dict v = (case v of JObj kvs \<Rightarrow> True | _ \<Rightarrow> False)"

text \<open>The observations of a body: none when it, or its list, is not one.\<close>

definition stations_of :: "json \<Rightarrow> json list" where
  "stations_of body =
     (if \<not> is_dict body then []
      else case dget body ''stations'' of JArr stations \<Rightarrow> stations | _ \<Rightarrow> [])"

text \<open>Python's \<^verbatim>\<open>v == n\<close> for an integer \<^verbatim>\<open>n\<close>.\<close>

fun equals_int :: "json \<Rightarrow> int \<Rightarrow> bool" where
  "equals_int (JInt m) n = (m = n)"
| "equals_int (JBool b) n = ((if b then 1 else 0) = n)"
| "equals_int (JFloat q) n = (q = of_int n)"
| "equals_int _ n = False"

definition is_obs_of :: "int \<Rightarrow> json \<Rightarrow> bool" where
  "is_obs_of station_id obs = (is_dict obs \<and> equals_int (dget obs ''station_id'') station_id)"

text \<open>Keep the first reading of each time.\<close>

definition add_reading :: "station_lib \<Rightarrow> json \<Rightarrow> (string \<times> json) list \<Rightarrow> (string \<times> json) list" where
  "add_reading L obs by_observed_at =
     (case dget obs ''observed_at'' of
        JStr t \<Rightarrow> if map_of by_observed_at t = None then dict_set by_observed_at t (observation_to_point L obs)
                  else by_observed_at
      | _ \<Rightarrow> by_observed_at)"

definition extract_body ::
  "station_lib \<Rightarrow> int \<Rightarrow> json \<Rightarrow> (string \<times> json) list \<Rightarrow> (string \<times> json) list" where
  "extract_body L station_id body by_observed_at =
     (case List.find (is_obs_of station_id) (stations_of body) of
        None \<Rightarrow> by_observed_at
      | Some obs \<Rightarrow> add_reading L obs by_observed_at)"

definition extract_station_series :: "station_lib \<Rightarrow> json list \<Rightarrow> int \<Rightarrow> json list" where
  "extract_station_series L bodies station_id =
     sorted_points L (fold (extract_body L station_id) bodies [])"

text \<open>\<^verbatim>\<open>per_station.setdefault(station_id, {})\<close> and the reading.\<close>

definition pivot_obs ::
  "station_lib \<Rightarrow> json \<Rightarrow> (int \<times> (string \<times> json) list) list \<Rightarrow> (int \<times> (string \<times> json) list) list" where
  "pivot_obs L obs per_station =
     (if \<not> is_dict obs then per_station
      else case (json_as_int (dget obs ''station_id''), dget obs ''observed_at'') of
        (Some sid, JStr t) \<Rightarrow>
          dict_set per_station sid
            (add_reading L obs (case map_of per_station sid of None \<Rightarrow> [] | Some points \<Rightarrow> points))
      | _ \<Rightarrow> per_station)"

definition pivot_station_series :: "station_lib \<Rightarrow> json list \<Rightarrow> (int \<times> json list) list" where
  "pivot_station_series L bodies =
     map (\<lambda>(sid, points). (sid, sorted_points L points))
       (fold (\<lambda>body. fold (pivot_obs L) (stations_of body)) bodies [])"

section \<open>The two computations agree\<close>

text \<open>What the pass over all stations holds for one station after one observation.\<close>

definition held :: "(int \<times> (string \<times> json) list) list \<Rightarrow> int \<Rightarrow> (string \<times> json) list" where
  "held per_station sid = (case map_of per_station sid of None \<Rightarrow> [] | Some points \<Rightarrow> points)"

text \<open>The station ids of the feed: integers, as the snapshot builder lets through.\<close>

definition int_id :: "json \<Rightarrow> bool" where
  "int_id obs = (is_dict obs \<longrightarrow> (case dget obs ''station_id'' of JFloat q \<Rightarrow> False | _ \<Rightarrow> True))"

lemma json_as_int_equals: "int_id obs \<Longrightarrow> is_dict obs \<Longrightarrow> json_as_int (dget obs ''station_id'') = Some n \<longleftrightarrow> equals_int (dget obs ''station_id'') n"
  by (cases "dget obs ''station_id''") (auto simp: int_id_def)

lemma held_pivot_obs:
  assumes "int_id obs"
  shows "held (pivot_obs L obs ps) sid = (if is_obs_of sid obs then add_reading L obs (held ps sid) else held ps sid)"
proof (cases "is_dict obs")
  case True
  note eq = json_as_int_equals [OF assms True]
  show ?thesis
  proof (cases "\<exists>n t. json_as_int (dget obs ''station_id'') = Some n \<and> dget obs ''observed_at'' = JStr t")
    case c: True
    then obtain n t where n: "json_as_int (dget obs ''station_id'') = Some n" "dget obs ''observed_at'' = JStr t" by blast
    have "is_obs_of sid obs \<longleftrightarrow> n = sid" using eq [of sid] n True by (auto simp: is_obs_of_def)
    then show ?thesis using True n by (auto simp: pivot_obs_def held_def dict_set_lookup)
  next
    case False
    then have p: "pivot_obs L obs ps = ps"
      by (auto simp: pivot_obs_def split: option.splits json.splits)
    moreover have "is_obs_of sid obs \<Longrightarrow> add_reading L obs x = x" for x
      using False eq [of sid] True by (auto simp: is_obs_of_def add_reading_def split: json.splits)
    ultimately show ?thesis by simp
  qed
next
  case False
  then show ?thesis by (simp add: pivot_obs_def is_obs_of_def)
qed

lemma held_pivot_body:
  assumes "\<And>obs. obs \<in> set obss \<Longrightarrow> int_id obs" "length (filter (is_obs_of sid) obss) \<le> 1"
  shows "held (fold (pivot_obs L) obss ps) sid =
           (case List.find (is_obs_of sid) obss of None \<Rightarrow> held ps sid | Some obs \<Rightarrow> add_reading L obs (held ps sid))"
  using assms
proof (induction obss arbitrary: ps)
  case (Cons obs obss)
  have none: "held (fold (pivot_obs L) obss ps') sid = held ps' sid" if "filter (is_obs_of sid) obss = []" for ps'
  proof -
    have "List.find (is_obs_of sid) obss = None" using that by (simp add: find_None_iff filter_empty_conv)
    then show ?thesis using Cons.IH [of ps'] Cons.prems that by simp
  qed
  show ?case
  proof (cases "is_obs_of sid obs")
    case True
    then have "filter (is_obs_of sid) obss = []" using Cons.prems(2) by simp
    then show ?thesis using True none Cons.prems(1) held_pivot_obs by simp
  next
    case False
    then show ?thesis using Cons.IH [of "pivot_obs L obs ps"] Cons.prems held_pivot_obs [of obs L ps sid] by (simp split: option.split)
  qed
qed simp

text \<open>Bodies in which every station appears at most once, under an integer id.\<close>

definition one_reading_each :: "json list \<Rightarrow> int \<Rightarrow> bool" where
  "one_reading_each bodies sid \<longleftrightarrow>
     (\<forall>body \<in> set bodies. (\<forall>obs \<in> set (stations_of body). int_id obs)
        \<and> length (filter (is_obs_of sid) (stations_of body)) \<le> 1)"

lemma held_pivot:
  assumes "one_reading_each bodies sid"
  shows "held (fold (\<lambda>body. fold (pivot_obs L) (stations_of body)) bodies ps) sid
           = fold (extract_body L sid) bodies (held ps sid)"
  using assms
proof (induction bodies arbitrary: ps)
  case (Cons body bodies)
  then have "held (fold (pivot_obs L) (stations_of body) ps) sid = extract_body L sid body (held ps sid)"
    using held_pivot_body [of "stations_of body" sid L ps]
    by (simp add: one_reading_each_def extract_body_def)
  then show ?case using Cons by (simp add: one_reading_each_def)
qed simp

section \<open>Properties\<close>

text \<open>
  C17. The series the scraper warms for a station is the series the read side would rebuild: over
  snapshot bodies in which the station appears at most once, under an integer id, the entry of the
  one-pass pivot is the list extracted for that station alone, and a station the pivot has no entry
  for has an empty series.
\<close>

theorem pivot_equals_extract:
  assumes "one_reading_each bodies sid"
  shows "(case map_of (pivot_station_series L bodies) sid of None \<Rightarrow> [] | Some points \<Rightarrow> points)
           = extract_station_series L bodies sid"
proof -
  let ?ps = "fold (\<lambda>body. fold (pivot_obs L) (stations_of body)) bodies []"
  have "map_of (pivot_station_series L bodies) sid = map_option (sorted_points L) (map_of ?ps sid)"
    by (simp add: pivot_station_series_def map_of_map)
  moreover have "sorted_points L [] = []" by (simp add: sorted_points_def List.map_filter_def)
  ultimately have "(case map_of (pivot_station_series L bodies) sid of None \<Rightarrow> [] | Some points \<Rightarrow> points)
      = sorted_points L (held ?ps sid)"
    by (simp add: held_def split: option.splits)
  also have "\<dots> = extract_station_series L bodies sid"
    using held_pivot [OF assms, of L "[]"] by (simp add: extract_station_series_def held_def)
  finally show ?thesis .
qed

definition demo_lib :: station_lib where
  "demo_lib = \<lparr> sl_float = (\<lambda>s. None), sl_fromisoformat = (\<lambda>s. Some (of_nat (length s))), sl_magnus = (\<lambda>t h. t) \<rparr>"

definition demo_body :: "string \<Rightarrow> int \<Rightarrow> json" where
  "demo_body t temp =
     JObj [(''stations'', JArr [
       JObj [(''station_id'', JInt 87344), (''observed_at'', JStr t), (''temperature'', JInt temp)],
       JObj [(''station_id'', JInt 87416), (''observed_at'', JStr t), (''temperature'', JInt 9)]])]"

theorem pivot_equals_extract_witness:
  "let bodies = [demo_body ''2026-05-17T14:00'' 20, demo_body ''2026-05-17T13'' 18, demo_body ''2026-05-17T13'' 30]
   in (case map_of (pivot_station_series demo_lib bodies) 87344 of None \<Rightarrow> [] | Some points \<Rightarrow> points)
        = extract_station_series demo_lib bodies 87344"
  unfolding Let_def
  by (rule pivot_equals_extract)
     (simp add: one_reading_each_def demo_body_def stations_of_def is_dict_def dget_def int_id_def is_obs_of_def)

end
