(* ===== verification/Smn_Clients.thy ===== *)
theory Smn_Clients
  imports Station_Series
begin

text \<open>
  The two clients of the weather service: \<^verbatim>\<open>clients/smn_api_client.py\<close>, with its token cache, and
  \<^verbatim>\<open>clients/smn_registry_client.py\<close>, which downloads the zipped station registry. The HTTP client,
  the sleep and the monotonic clock are parameters: calls on a world, and a reading of the
  world; time passes inside calls. Texts of messages are not modelled.
\<close>

section \<open>Exceptions\<close>

text \<open>\<^verbatim>\<open>httpx.TransportError\<close> with its subclass \<^verbatim>\<open>TimeoutException\<close>; other errors of the client are not caught.\<close>

definition TransportError :: exn where "TransportError = OtherError ''TransportError''"
definition SmnApiError :: exn where "SmnApiError = OtherError ''SmnApiError''"
definition Unauthorized :: exn where "Unauthorized = OtherError ''_Unauthorized''"
definition SmnRegistryError :: exn where "SmnRegistryError = OtherError ''SmnRegistryError''"
definition SmnRegistryBlockedError :: exn where "SmnRegistryBlockedError = OtherError ''SmnRegistryBlockedError''"
definition BadZipFile :: exn where "BadZipFile = OtherError ''BadZipFile''"

lemmas smn_exn_defs = TransportError_def SmnApiError_def Unauthorized_def
  SmnRegistryError_def SmnRegistryBlockedError_def BadZipFile_def

definition is_transport :: "exn \<Rightarrow> bool" where
  "is_transport e = (e = TransportError)"

text \<open>\<^verbatim>\<open>except SmnRegistryError\<close>, subclass included.\<close>

definition is_registry_error :: "exn \<Rightarrow> bool" where
  "is_registry_error e = (e = SmnRegistryError \<or> e = SmnRegistryBlockedError)"

section \<open>Requests and their log\<close>




record http_request =
  rq_method :: string
  rq_url :: string
  rq_headers :: "(string \<times> string) list"
  rq_content :: pybytes






section \<open>The API client\<close>

record smn_config =
  sc_base_url :: string
  sc_username :: string
  sc_password :: string
  sc_max_retries :: int
  sc_token_cache_ttl :: rat
  sc_settling_delay :: rat

definition smn_config_of :: "string \<Rightarrow> string \<Rightarrow> string \<Rightarrow> int \<Rightarrow> rat \<Rightarrow> rat \<Rightarrow> smn_config" where
  "smn_config_of base_url username password max_retries token_cache_ttl_seconds token_settling_delay_seconds =
     \<lparr> sc_base_url = py_rstrip (CHR ''/'') base_url, sc_username = username, sc_password = password,
       sc_max_retries = max_retries, sc_token_cache_ttl = token_cache_ttl_seconds,
       sc_settling_delay = token_settling_delay_seconds \<rparr>"

record smn_state =
  st_token :: "string option"
  st_token_minted_at :: rat

definition smn_initial :: smn_state where
  "smn_initial = \<lparr> st_token = None, st_token_minted_at = 0 \<rparr>"

record smn_response =
  rs_status_code :: int
  rs_content :: pybytes
  rs_headers :: "(string \<times> string) list"

record 'w smn_http =
  sx_send :: "http_request \<Rightarrow> ('w, smn_response) io"
  sx_sleep :: "rat \<Rightarrow> ('w, unit) io"
  sx_monotonic :: "'w \<Rightarrow> rat"

text \<open>The requests as the client builds them; \<^verbatim>\<open>httpx\<close> merges its own default headers.\<close>

definition stations_request :: "smn_config \<Rightarrow> string \<Rightarrow> http_request" where
  "stations_request cfg token =
     \<lparr> rq_method = ''GET'', rq_url = sc_base_url cfg @ ''/weather/station'',
       rq_headers = [(''Authorization'', ''JWT '' @ token), (''Accept'', ''application/json'')], rq_content = Raw [] \<rparr>"

definition auth_request :: "smn_config \<Rightarrow> http_request" where
  "auth_request cfg =
     \<lparr> rq_method = ''POST'', rq_url = sc_base_url cfg @ ''/api-token/auth'',
       rq_headers = [(''Accept'', ''application/json'')],
       rq_content = Json (JObj [(''username'', JStr (sc_username cfg)), (''password'', JStr (sc_password cfg))]) \<rparr>"

text \<open>\<^verbatim>\<open>min(2 ** (attempt - 1), 10)\<close> seconds before the next attempt.\<close>

definition retry_delay :: "nat \<Rightarrow> rat" where
  "retry_delay attempt = min (2 ^ (attempt - 1)) 10"

text \<open>\<^verbatim>\<open>response.json()\<close>: a body that is not JSON is a \<^verbatim>\<open>JSONDecodeError\<close>, a \<^verbatim>\<open>ValueError\<close>.\<close>

definition response_json :: "smn_response \<Rightarrow> ('w, json) io" where
  "response_json response = (case json_loads (rs_content response) of None \<Rightarrow> raise ValueError | Some v \<Rightarrow> ret v)"

text \<open>The attempts left and the number of the next one.\<close>

fun get_stations_from :: "smn_config \<Rightarrow> 'w smn_http \<Rightarrow> string \<Rightarrow> nat \<Rightarrow> nat \<Rightarrow> ('w, json list) io" where
  "get_stations_from cfg C token 0 attempt = raise SmnApiError"
| "get_stations_from cfg C token (Suc n) attempt =
     bnd (catching is_transport (sx_send C (stations_request cfg token))) (\<lambda>r.
       case r of
         Inl e \<Rightarrow> seq (sx_sleep C (retry_delay attempt)) (get_stations_from cfg C token n (Suc attempt))
       | Inr response \<Rightarrow>
           if rs_status_code response = 401 then raise Unauthorized
           else if 500 \<le> rs_status_code response \<and> rs_status_code response < 600 then
             seq (sx_sleep C (retry_delay attempt)) (get_stations_from cfg C token n (Suc attempt))
           else if rs_status_code response \<noteq> 200 then raise SmnApiError
           else bnd (response_json response) (\<lambda>payload.
                  case payload of JArr rows \<Rightarrow> ret rows | _ \<Rightarrow> raise SmnApiError))"

definition get_stations :: "smn_config \<Rightarrow> 'w smn_http \<Rightarrow> string \<Rightarrow> ('w, json list) io" where
  "get_stations cfg C token = get_stations_from cfg C token (nat (sc_max_retries cfg)) 1"

text \<open>The cached token while it is not empty and not older than its time to live.\<close>

definition fresh_token :: "smn_config \<Rightarrow> rat \<Rightarrow> smn_state \<Rightarrow> string option" where
  "fresh_token cfg now st =
     (case st_token st of
        Some t \<Rightarrow> if t \<noteq> [] \<and> now - st_token_minted_at st < sc_token_cache_ttl cfg then Some t else None
      | None \<Rightarrow> None)"

definition token_of_payload :: "json \<Rightarrow> string option" where
  "token_of_payload payload =
     (case jget payload ''token'' of Some (JStr t) \<Rightarrow> if t = [] then None else Some t | _ \<Rightarrow> None)"

definition mint_token :: "smn_config \<Rightarrow> 'w smn_http \<Rightarrow> ('w \<times> smn_state, string) io" where
  "mint_token cfg C =
     bnd (catching is_transport (on_world2 (sx_send C (auth_request cfg)))) (\<lambda>r.
       case r of
         Inl e \<Rightarrow> raise SmnApiError
       | Inr response \<Rightarrow>
           if rs_status_code response \<noteq> 200 then raise SmnApiError
           else bnd (response_json response) (\<lambda>payload.
                  case token_of_payload payload of
                    None \<Rightarrow> raise SmnApiError
                  | Some token \<Rightarrow>
                      bnd (reads (\<lambda>ws. sx_monotonic C (fst ws))) (\<lambda>now.
                        seq (on_state2 (\<lambda>st. st \<lparr> st_token := Some token, st_token_minted_at := now \<rparr>))
                            (seq (if sc_settling_delay cfg > 0 then on_world2 (sx_sleep C (sc_settling_delay cfg)) else ret ())
                                 (ret token)))))"

text \<open>Runs under the refresh lock: one call at a time, from its start to its end.\<close>

definition refresh_token :: "smn_config \<Rightarrow> 'w smn_http \<Rightarrow> string option \<Rightarrow> ('w \<times> smn_state, string) io" where
  "refresh_token cfg C invalidate =
     bnd (reads (\<lambda>ws. fresh_token cfg (sx_monotonic C (fst ws)) (snd ws))) (\<lambda>cached.
       case cached of
         Some t \<Rightarrow> if invalidate = None \<or> Some t \<noteq> invalidate then ret t else mint_token cfg C
       | None \<Rightarrow> mint_token cfg C)"

definition get_token :: "smn_config \<Rightarrow> 'w smn_http \<Rightarrow> ('w \<times> smn_state, string) io" where
  "get_token cfg C =
     bnd (reads (\<lambda>ws. fresh_token cfg (sx_monotonic C (fst ws)) (snd ws))) (\<lambda>cached.
       case cached of Some t \<Rightarrow> ret t | None \<Rightarrow> refresh_token cfg C None)"

definition is_unauthorized :: "exn \<Rightarrow> bool" where
  "is_unauthorized e = (e = Unauthorized)"

definition fetch_current_weather_stations :: "smn_config \<Rightarrow> 'w smn_http \<Rightarrow> ('w \<times> smn_state, json list) io" where
  "fetch_current_weather_stations cfg C =
     bnd (get_token cfg C) (\<lambda>token.
       bnd (catching is_unauthorized (on_world2 (get_stations cfg C token))) (\<lambda>first.
         case first of
           Inr rows \<Rightarrow> ret rows
         | Inl e \<Rightarrow>
             bnd (refresh_token cfg C (Some token)) (\<lambda>token'.
               bnd (catching is_unauthorized (on_world2 (get_stations cfg C token'))) (\<lambda>second.
                 case second of Inr rows \<Rightarrow> ret rows | Inl e \<Rightarrow> raise SmnApiError))))"

section \<open>The registry client\<close>

text \<open>The archive of a byte string: \<^verbatim>\<open>ZipFile(..).namelist()\<close> and the content of a member.\<close>

record zip_lib =
  zl_namelist :: "pybytes \<Rightarrow> exn + string list"
  zl_read :: "pybytes \<Rightarrow> string \<Rightarrow> exn + string"

text \<open>\<^verbatim>\<open>headers.get(k)\<close>: names ignore case, repeated headers are joined.\<close>

definition header_get :: "(string \<times> string) list \<Rightarrow> string \<Rightarrow> string option" where
  "header_get headers k =
     (let vals = map snd (filter (\<lambda>h. py_lower (fst h) = py_lower k) headers)
      in if vals = [] then None else Some (py_join '', '' vals))"

definition is_cloudflare_challenge :: "smn_response \<Rightarrow> bool" where
  "is_cloudflare_challenge response =
     (if (case header_get (rs_headers response) ''cf-mitigated'' of None \<Rightarrow> False | Some v \<Rightarrow> v \<noteq> []) then True
      else rs_status_code response = 403
           \<and> sublist ''cloudflare''
               (py_lower (case header_get (rs_headers response) ''server'' of None \<Rightarrow> [] | Some v \<Rightarrow> v)))"

definition registry_request :: "string \<Rightarrow> http_request" where
  "registry_request url = \<lparr> rq_method = ''GET'', rq_url = url, rq_headers = [], rq_content = Raw [] \<rparr>"

fun download_from :: "'w smn_http \<Rightarrow> string \<Rightarrow> nat \<Rightarrow> nat \<Rightarrow> ('w, pybytes) io" where
  "download_from C url 0 attempt = raise SmnRegistryError"
| "download_from C url (Suc n) attempt =
     bnd (catching is_transport (sx_send C (registry_request url))) (\<lambda>r.
       case r of
         Inl e \<Rightarrow> seq (sx_sleep C (retry_delay attempt)) (download_from C url n (Suc attempt))
       | Inr response \<Rightarrow>
           if rs_status_code response \<noteq> 200 then
             if is_cloudflare_challenge response then raise SmnRegistryBlockedError
             else seq (sx_sleep C (retry_delay attempt)) (download_from C url n (Suc attempt))
           else ret (rs_content response))"

definition download_registry :: "'w smn_http \<Rightarrow> string \<Rightarrow> int \<Rightarrow> ('w, pybytes) io" where
  "download_registry C url max_retries = download_from C url (nat max_retries) 1"

text \<open>\<^verbatim>\<open>raw.decode("latin-1")\<close> maps every byte to the code point of its value.\<close>

definition unzip_first_text :: "zip_lib \<Rightarrow> pybytes \<Rightarrow> ('w, string) io" where
  "unzip_first_text Z zip_bytes =
     (case (case zl_namelist Z zip_bytes of
              Inl e \<Rightarrow> Inl e
            | Inr names \<Rightarrow> (case names of [] \<Rightarrow> Inl SmnRegistryError | name # _ \<Rightarrow> zl_read Z zip_bytes name)) of
        Inl e \<Rightarrow> if e = BadZipFile then raise SmnRegistryError else raise e
      | Inr raw \<Rightarrow> ret raw)"

definition fetch_registry_text :: "zip_lib \<Rightarrow> 'w smn_http \<Rightarrow> string \<Rightarrow> int \<Rightarrow> ('w, string) io" where
  "fetch_registry_text Z C url max_retries =
     bnd (download_registry C url max_retries) (\<lambda>zip_bytes. unzip_first_text Z zip_bytes)"


section \<open>One attempt\<close>

text \<open>Which outcomes of a request for the stations are tried again, and what the others mean.\<close>

fun try_again :: "exn + smn_response \<Rightarrow> bool" where
  "try_again (Inl e) = is_transport e"
| "try_again (Inr response) = (500 \<le> rs_status_code response \<and> rs_status_code response < 600)"

fun stations_answer :: "exn + smn_response \<Rightarrow> exn + json list" where
  "stations_answer (Inl e) = Inl e"
| "stations_answer (Inr response) =
     (if rs_status_code response = 401 then Inl Unauthorized
      else if rs_status_code response \<noteq> 200 then Inl SmnApiError
      else case rs_content response of
        Json (JArr rows) \<Rightarrow> Inr rows
      | Json v \<Rightarrow> Inl SmnApiError
      | Raw s \<Rightarrow> Inl ValueError)"

lemma get_stations_from_step:
  assumes "sx_send C (stations_request cfg token) w = (a, w1)"
  shows "get_stations_from cfg C token (Suc n) attempt w =
    (if try_again a then seq (sx_sleep C (retry_delay attempt)) (get_stations_from cfg C token n (Suc attempt)) w1
     else (stations_answer a, w1))"
  using assms
  by (cases a)
     (auto simp: catching_def bnd_apply response_json_def split: json.splits option.splits pybytes.splits
       elim!: json_loads.elims)

text \<open>
  The exceptions that leave the client beside its own: what the transport raised and nobody
  caught, and a body that is no JSON.
\<close>

definition passed_on :: "'w smn_http \<Rightarrow> exn \<Rightarrow> bool" where
  "passed_on C e \<longleftrightarrow> e = ValueError \<or> (\<exists>q v v'. sx_send C q v = (Inl e, v') \<and> \<not> is_transport e)"

section \<open>An observed network\<close>

text \<open>
  A network whose requests can be observed: \<^verbatim>\<open>sent\<close> is the list of requests so far, a request is
  appended whatever its outcome, sleeping returns and sends nothing, and no call raises the
  client's own marker for a 401.
\<close>

locale smn_upstream =
  fixes C :: "'w smn_http" and sent :: "'w \<Rightarrow> http_request list"
  assumes send_sent: "sx_send C q w = (r, w') \<Longrightarrow> sent w' = sent w @ [q]"
    and send_marker: "sx_send C q w = (Inl e, w') \<Longrightarrow> e \<noteq> Unauthorized"
    and sleep_sent: "\<exists>w'. sx_sleep C d w = (Inr (), w') \<and> sent w' = sent w"
begin

lemma stations_answer_errors:
  assumes "sx_send C q w = (a, w1)" "\<not> try_again a" "stations_answer a = Inl e"
  shows "e = SmnApiError \<or> e = Unauthorized \<or> passed_on C e"
  using assms by (cases a) (auto simp: passed_on_def split: if_splits pybytes.splits json.splits)

lemma get_stations_from_trace:
  "get_stations_from cfg C token n attempt w = (r, w') \<Longrightarrow>
   (\<exists>k \<le> n. sent w' = sent w @ replicate k (stations_request cfg token))
   \<and> (\<forall>e. r = Inl e \<longrightarrow> e = SmnApiError \<or> e = Unauthorized \<or> passed_on C e)"
proof (induction n arbitrary: attempt w)
  case (Suc n)
  let ?q = "stations_request cfg token"
  obtain a w1 where a: "sx_send C ?q w = (a, w1)" by (cases "sx_send C ?q w")
  note s1 = send_sent [OF a]
  note step = get_stations_from_step [OF a, of n attempt]
  show ?case
  proof (cases "try_again a")
    case True
    obtain w2 where w2: "sx_sleep C (retry_delay attempt) w1 = (Inr (), w2)" "sent w2 = sent w1"
      using sleep_sent by blast
    have "get_stations_from cfg C token n (Suc attempt) w2 = (r, w')"
      using Suc(2) step True w2 by (simp add: seq_apply)
    from Suc(1) [OF this] obtain k where k: "k \<le> n" "sent w' = sent w2 @ replicate k ?q"
      and e: "\<forall>e. r = Inl e \<longrightarrow> e = SmnApiError \<or> e = Unauthorized \<or> passed_on C e" by blast
    then show ?thesis using s1 w2 by (intro conjI exI [of _ "Suc k"]) (auto simp: replicate_app_Cons_same)
  next
    case False
    then have "r = stations_answer a" "w' = w1" using Suc(2) step by auto
    then show ?thesis using s1 stations_answer_errors [OF a False] by (intro conjI exI [of _ 1]) auto
  qed
qed (auto intro: exI [of _ 0])

lemma mint_token_trace:
  assumes "mint_token cfg C (w, st) = (r, (w', st'))"
  shows "sent w' = sent w @ [auth_request cfg] \<and> (\<forall>e. r = Inl e \<longrightarrow> e = SmnApiError \<or> passed_on C e)"
proof -
  obtain a w1 where a: "sx_send C (auth_request cfg) w = (a, w1)" by (cases "sx_send C (auth_request cfg) w")
  obtain w2 where w2: "sx_sleep C (sc_settling_delay cfg) w1 = (Inr (), w2)" "sent w2 = sent w1"
    using sleep_sent by blast
  have "sent w' = sent w1 \<and> (\<forall>e. r = Inl e \<longrightarrow> e = SmnApiError \<or> passed_on C e)"
    using assms a w2
    by (cases a)
       (auto simp: mint_token_def catching_def on_world2_def on_state2_def bnd_apply seq_apply response_json_def passed_on_def
         split: if_splits option.splits)
  then show ?thesis using send_sent [OF a] by simp
qed

lemma refresh_token_trace:
  assumes "refresh_token cfg C rejected (w, st) = (r, (w', st'))"
  shows "(\<exists>k \<le> 1. sent w' = sent w @ replicate k (auth_request cfg))
         \<and> (\<forall>e. r = Inl e \<longrightarrow> e = SmnApiError \<or> passed_on C e)"
proof (cases "mint_token cfg C (w, st) = (r, (w', st'))")
  case True
  then show ?thesis using mint_token_trace [OF True] by (intro conjI exI [of _ 1]) auto
next
  case False
  then have "r = Inr (the (st_token st)) \<and> w' = w"
    using assms by (auto simp: refresh_token_def bnd_apply fresh_token_def split: option.splits if_splits)
  then show ?thesis by (intro conjI exI [of _ 0]) auto
qed

lemma get_token_trace:
  assumes "get_token cfg C (w, st) = (r, (w', st'))"
  shows "(\<exists>k \<le> 1. sent w' = sent w @ replicate k (auth_request cfg))
         \<and> (\<forall>e. r = Inl e \<longrightarrow> e = SmnApiError \<or> passed_on C e)"
proof (cases "refresh_token cfg C None (w, st) = (r, (w', st'))")
  case False
  then have "r = Inr (the (st_token st)) \<and> w' = w"
    using assms by (auto simp: get_token_def bnd_apply fresh_token_def split: option.splits if_splits)
  then show ?thesis by (intro conjI exI [of _ 0]) auto
qed (rule refresh_token_trace)

lemma not_marker: "passed_on C Unauthorized \<longleftrightarrow> False" "SmnApiError \<noteq> Unauthorized"
  using send_marker by (auto simp: passed_on_def smn_exn_defs)

lemma fetch_trace:
  assumes "fetch_current_weather_stations cfg C (w, st) = (r, (w', st'))"
  shows "\<exists>a k b k' token token'. a \<le> 1 \<and> b \<le> 1 \<and> k \<le> nat (sc_max_retries cfg) \<and> k' \<le> nat (sc_max_retries cfg)
      \<and> sent w' = sent w @ replicate a (auth_request cfg) @ replicate k (stations_request cfg token)
                  @ replicate b (auth_request cfg) @ replicate k' (stations_request cfg token')"
    (is "\<exists>a k b k' token token'. ?P a k b k' token token'")
    and "r = Inl e \<Longrightarrow> e = SmnApiError \<or> (passed_on C e \<and> e \<noteq> Unauthorized)"
proof -
  let ?gs = "\<lambda>t w. get_stations cfg C t w"
  obtain r1 w1 st1 where t1: "get_token cfg C (w, st) = (r1, (w1, st1))" by (metis prod.exhaust)
  from get_token_trace [OF this] obtain a where a: "a \<le> 1" "sent w1 = sent w @ replicate a (auth_request cfg)"
    and e1: "\<And>e. r1 = Inl e \<Longrightarrow> e = SmnApiError \<or> passed_on C e" by blast
  have main: "(\<exists>a k b k' token token'. ?P a k b k' token token')
      \<and> (\<forall>e. r = Inl e \<longrightarrow> e = SmnApiError \<or> (passed_on C e \<and> e \<noteq> Unauthorized))"
  proof (cases r1)
    case (Inl e)
    then have "r = Inl e" "w' = w1" using assms t1 by (auto simp: fetch_current_weather_stations_def)
    then show ?thesis using a e1 [OF Inl] not_marker
      by (intro conjI exI [of _ a] exI [of _ 0]) auto
  next
    case (Inr token)
    obtain r2 w2 where g2: "?gs token w1 = (r2, w2)" by (metis prod.exhaust)
    from get_stations_from_trace [OF this [unfolded get_stations_def]] obtain k
      where k: "k \<le> nat (sc_max_retries cfg)" "sent w2 = sent w1 @ replicate k (stations_request cfg token)"
      and e2: "\<And>e. r2 = Inl e \<Longrightarrow> e = SmnApiError \<or> e = Unauthorized \<or> passed_on C e" by blast
    show ?thesis
    proof (cases "r2 = Inl Unauthorized")
      case False
      then have "r = r2" "w' = w2"
        using assms t1 Inr g2
        by (auto simp: fetch_current_weather_stations_def catching_def on_world2_def is_unauthorized_def bnd_apply
            split: sum.splits)
      then show ?thesis using a k e2 False not_marker
        by (intro conjI exI [of _ a] exI [of _ k] exI [of _ 0] exI [of _ token]) auto
    next
      case True
      obtain r3 w3 st3 where t3: "refresh_token cfg C (Some token) (w2, st1) = (r3, (w3, st3))" by (metis prod.exhaust)
      from refresh_token_trace [OF this] obtain b where b: "b \<le> 1" "sent w3 = sent w2 @ replicate b (auth_request cfg)"
        and e3: "\<And>e. r3 = Inl e \<Longrightarrow> e = SmnApiError \<or> passed_on C e" by blast
      have un: "is_unauthorized Unauthorized" by (simp add: is_unauthorized_def)
      show ?thesis
      proof (cases r3)
        case (Inl e)
        then have "r = Inl e" "w' = w3"
          using assms t1 Inr g2 True t3 un
          by (auto simp: fetch_current_weather_stations_def catching_def on_world2_def bnd_apply)
        then show ?thesis using a k b e3 [OF Inl] not_marker
          by (intro conjI exI [of _ a] exI [of _ k] exI [of _ b] exI [of _ 0] exI [of _ token]) auto
      next
        case (Inr token')
        obtain r4 w4 where g4: "?gs token' w3 = (r4, w4)" by (metis prod.exhaust)
        from get_stations_from_trace [OF this [unfolded get_stations_def]] obtain k'
          where k': "k' \<le> nat (sc_max_retries cfg)" "sent w4 = sent w3 @ replicate k' (stations_request cfg token')"
          and e4: "\<And>e. r4 = Inl e \<Longrightarrow> e = SmnApiError \<or> e = Unauthorized \<or> passed_on C e" by blast
        have "r = (if r4 = Inl Unauthorized then Inl SmnApiError else r4)" "w' = w4"
          using assms t1 \<open>r1 = Inr token\<close> g2 True t3 un Inr g4
          by (auto simp: fetch_current_weather_stations_def catching_def on_world2_def bnd_apply is_unauthorized_def
              split: sum.splits if_splits)
        then show ?thesis using a k b k' e4 not_marker
          by (intro conjI exI [of _ a] exI [of _ k] exI [of _ b] exI [of _ k'] exI [of _ token] exI [of _ token']) auto
      qed
    qed
  qed
  then show "\<exists>a k b k' token token'. ?P a k b k' token token'"
    and "r = Inl e \<Longrightarrow> e = SmnApiError \<or> (passed_on C e \<and> e \<noteq> Unauthorized)" by blast+
qed

lemma download_from_trace:
  "download_from C url n attempt w = (r, w') \<Longrightarrow>
   (\<exists>k \<le> n. sent w' = sent w @ replicate k (registry_request url))
   \<and> (\<forall>e. r = Inl e \<longrightarrow> is_registry_error e \<or> passed_on C e)"
proof (induction n arbitrary: attempt w)
  case (Suc n)
  let ?q = "registry_request url"
  obtain a w1 where a: "sx_send C ?q w = (a, w1)" by (cases "sx_send C ?q w")
  obtain w2 where w2: "sx_sleep C (retry_delay attempt) w1 = (Inr (), w2)" "sent w2 = sent w1"
    using sleep_sent by blast
  show ?case
  proof (cases "download_from C url n (Suc attempt) w2 = (r, w')")
    case True
    from Suc(1) [OF this] obtain k where k: "k \<le> n" "sent w' = sent w2 @ replicate k ?q"
      and e: "\<forall>e. r = Inl e \<longrightarrow> is_registry_error e \<or> passed_on C e" by blast
    then show ?thesis using send_sent [OF a] w2
      by (intro conjI exI [of _ "Suc k"]) (auto simp: replicate_app_Cons_same)
  next
    case False
    have "w' = w1 \<and> (\<forall>e. r = Inl e \<longrightarrow> is_registry_error e \<or> passed_on C e)"
      using Suc(2) a w2 False
      by (cases a)
         (auto simp: catching_def bnd_apply seq_apply is_registry_error_def passed_on_def split: if_splits)
    then show ?thesis using send_sent [OF a] by (intro conjI exI [of _ 1]) auto
  qed
qed (auto simp: is_registry_error_def intro: exI [of _ 0])

text \<open>An answer that is a challenge ends the download at once.\<close>

lemma challenge_not_retried:
  assumes "sx_send C (registry_request url) w = (Inr response, w1)" "rs_status_code response \<noteq> 200"
    "is_cloudflare_challenge response" "0 < max_retries"
  shows "download_registry C url max_retries w = (Inl SmnRegistryBlockedError, w1)"
proof -
  obtain n where "nat max_retries = Suc n" using assms(4) by (cases "nat max_retries") auto
  then show ?thesis using assms by (simp add: download_registry_def catching_def bnd_apply)
qed

end

section \<open>A scripted network\<close>

text \<open>The requests so far and the answers to come; without one the connection fails.\<close>

type_synonym network = "http_request list \<times> (exn + smn_response) list"

definition script_smn :: "network smn_http" where
  "script_smn =
     \<lparr> sx_send = (\<lambda>q (qs, answers).
         case answers of
           [] \<Rightarrow> (Inl TransportError, (qs @ [q], []))
         | a # as \<Rightarrow> (if a = Inl Unauthorized then Inl TransportError else a, (qs @ [q], as))),
       sx_sleep = (\<lambda>d. ret ()), sx_monotonic = (\<lambda>w. of_nat (length (fst w))) \<rparr>"

interpretation scripted_smn: smn_upstream script_smn fst
  by unfold_locales (auto simp: script_smn_def smn_exn_defs split: list.splits if_splits)

definition answer :: "int \<Rightarrow> json \<Rightarrow> exn + smn_response" where
  "answer status v = Inr \<lparr> rs_status_code = status, rs_content = Json v, rs_headers = [] \<rparr>"

definition token_answer :: "string \<Rightarrow> exn + smn_response" where
  "token_answer t = answer 200 (JObj [(''token'', JStr t)])"

definition demo_smn :: smn_config where
  "demo_smn = smn_config_of ''https://api/'' ''user'' ''secret'' 3 600 (5 / 2)"

section \<open>Properties\<close>

text \<open>
  C23. The traffic of one fetch. Whatever the upstream answers, a fetch sends at most one
  authentication request, then at most \<^verbatim>\<open>max_retries\<close> requests for the stations with one token, then
  at most one more authentication request and at most \<^verbatim>\<open>max_retries\<close> requests with the token it gave. It
  never raises the internal marker of a 401: it fails with \<^verbatim>\<open>SmnApiError\<close>, or with an exception
  the client does not handle (a transport error outside the two caught classes, a body that is
  not JSON).
\<close>

theorem smn_fetch_traffic:
  assumes "smn_upstream C sent" "fetch_current_weather_stations cfg C (w, st) = (r, (w', st'))"
  shows "(\<exists>a k b k' token token'. a \<le> 1 \<and> b \<le> 1 \<and> k \<le> nat (sc_max_retries cfg) \<and> k' \<le> nat (sc_max_retries cfg)
      \<and> sent w' = sent w @ replicate a (auth_request cfg) @ replicate k (stations_request cfg token)
                  @ replicate b (auth_request cfg) @ replicate k' (stations_request cfg token'))
      \<and> (\<forall>e. r = Inl e \<longrightarrow> e = SmnApiError \<or> (passed_on C e \<and> e \<noteq> Unauthorized))"
  using smn_upstream.fetch_trace [OF assms] by blast

lemma demo_fetch:
  "fetch_current_weather_stations demo_smn script_smn
     (([], [token_answer ''t1'', answer 401 JNull, token_answer ''t2'', answer 503 JNull, answer 200 (JArr [])]), smn_initial)
   = (Inr [], (([auth_request demo_smn, stations_request demo_smn ''t1'', auth_request demo_smn,
        stations_request demo_smn ''t2'', stations_request demo_smn ''t2''], []),
        \<lparr> st_token = Some ''t2'', st_token_minted_at = 3 \<rparr>))"
  by (simp add: fetch_current_weather_stations_def get_token_def refresh_token_def mint_token_def get_stations_def
      get_stations_from.simps fresh_token_def smn_initial_def script_smn_def catching_def on_world2_def on_state2_def bnd_apply
      seq_apply answer_def token_answer_def is_unauthorized_def response_json_def token_of_payload_def demo_smn_def
      smn_config_of_def smn_exn_defs is_transport_def numeral_3_eq_3)

theorem smn_fetch_traffic_witness:
  "\<exists>a k b k' token token'. a \<le> 1 \<and> b \<le> 1 \<and> k \<le> 3 \<and> k' \<le> 3
      \<and> [auth_request demo_smn, stations_request demo_smn ''t1'', auth_request demo_smn,
         stations_request demo_smn ''t2'', stations_request demo_smn ''t2'']
        = replicate a (auth_request demo_smn) @ replicate k (stations_request demo_smn token)
          @ replicate b (auth_request demo_smn) @ replicate k' (stations_request demo_smn token')"
  using smn_fetch_traffic [OF scripted_smn.smn_upstream_axioms demo_fetch]
  by (simp add: demo_smn_def smn_config_of_def)

text \<open>One of the tasks that wait for the refresh lock: others run, then it refreshes.\<close>

definition waiter ::
  "smn_config \<Rightarrow> 'w smn_http \<Rightarrow> string \<Rightarrow> ('w \<Rightarrow> 'w) \<Rightarrow> ('w \<times> smn_state, string) io" where
  "waiter cfg C rejected others =
     seq (\<lambda>(w, st). (Inr (), (others w, st))) (refresh_token cfg C (Some rejected))"

lemma refresh_token_holds:
  assumes "refresh_token cfg C rejected (w, st) = (Inr t, (w1, st1))"
  shows "st_token st1 = Some t \<and> t \<noteq> []"
  using assms
  by (auto simp: refresh_token_def mint_token_def fresh_token_def bnd_apply seq_apply catching_def on_world2_def on_state2_def
      token_of_payload_def split: option.splits if_splits prod.splits sum.splits json.splits)

lemma waiter_reuses:
  assumes "st_token st1 = Some t'" "t' \<noteq> []" "t' \<noteq> t" "sx_monotonic C (d w1) - st_token_minted_at st1 < sc_token_cache_ttl cfg"
  shows "waiter cfg C t d (w1, st1) = (Inr t', (d w1, st1))"
  using assms by (simp add: waiter_def seq_apply refresh_token_def fresh_token_def)

text \<open>
  C24. A burst of rejections mints one token. When a refresh after a rejection returned a token
  other than the rejected one, every further task that held the rejected token and waited for the
  lock gets that same token, as long as it has not reached its time to live. None of them calls
  the upstream: the world changes only by what other tasks did meanwhile, and the cached token
  stays.
\<close>

theorem stampede_mints_once:
  assumes "refresh_token cfg C (Some t) (w, st) = (Inr t', (w1, st1))" "t' \<noteq> t"
    and "\<And>k. 0 < k \<Longrightarrow> k \<le> length ds \<Longrightarrow>
           sx_monotonic C (fold (\<lambda>d. d) (take k ds) w1) - st_token_minted_at st1 < sc_token_cache_ttl cfg"
  shows "for_each ds (waiter cfg C t) (w1, st1) = (Inr (map (\<lambda>_. t') ds), (fold (\<lambda>d. d) ds w1, st1))"
proof -
  note held = refresh_token_holds [OF assms(1)]
  show ?thesis
    using assms(3)
  proof (induction ds arbitrary: w1)
    case (Cons d ds)
    have "sx_monotonic C (d w1) - st_token_minted_at st1 < sc_token_cache_ttl cfg"
      using Cons(2) [of 1] by simp
    then have "waiter cfg C t d (w1, st1) = (Inr t', (d w1, st1))"
      using held assms(2) by (intro waiter_reuses) auto
    moreover have "for_each ds (waiter cfg C t) (d w1, st1) = (Inr (map (\<lambda>_. t') ds), (fold (\<lambda>d. d) ds (d w1), st1))"
      using Cons(2) by (intro Cons(1)) (metis Suc_le_mono fold_simps(2) length_Cons take_Suc_Cons zero_less_Suc)
    ultimately show ?case by simp
  qed simp
qed

lemma demo_refresh:
  "refresh_token demo_smn script_smn (Some ''t1'') (([], [token_answer ''t2'']), \<lparr> st_token = Some ''t1'', st_token_minted_at = 0 \<rparr>)
   = (Inr ''t2'', (([auth_request demo_smn], []), \<lparr> st_token = Some ''t2'', st_token_minted_at = 1 \<rparr>))"
  by (simp add: refresh_token_def mint_token_def fresh_token_def script_smn_def catching_def on_world2_def on_state2_def bnd_apply
      seq_apply answer_def token_answer_def response_json_def token_of_payload_def demo_smn_def smn_config_of_def smn_exn_defs)

theorem stampede_mints_once_witness:
  "for_each [\<lambda>w. w, \<lambda>w. w, \<lambda>w. w] (waiter demo_smn script_smn ''t1'')
     (([auth_request demo_smn], []), \<lparr> st_token = Some ''t2'', st_token_minted_at = 1 \<rparr>)
   = (Inr [''t2'', ''t2'', ''t2''], (([auth_request demo_smn], []), \<lparr> st_token = Some ''t2'', st_token_minted_at = 1 \<rparr>))"
proof -
  have "fold (\<lambda>d. d) (take k [\<lambda>w. w, \<lambda>w. w, \<lambda>w. w]) v = v" for k and v :: network
    by (cases k; cases "k - 1"; cases "k - 2") (auto simp: take_Cons split: nat.splits)
  then show ?thesis
    using stampede_mints_once [OF demo_refresh, of "[\<lambda>w. w, \<lambda>w. w, \<lambda>w. w]"]
    by (simp add: script_smn_def demo_smn_def smn_config_of_def)
qed


text \<open>A 200 whose body is not JSON leaves the client as a \<^verbatim>\<open>ValueError\<close>.\<close>

lemma non_json_answer_escapes:
  assumes "sx_send C (stations_request cfg t) w = (Inr response, w1)" "rs_status_code response = 200"
    "rs_content response = Raw s" "0 < sc_max_retries cfg"
    and "st_token st = Some t" "t \<noteq> []" "sx_monotonic C w - st_token_minted_at st < sc_token_cache_ttl cfg"
  shows "fetch_current_weather_stations cfg C (w, st) = (Inl ValueError, (w1, st))"
proof -
  obtain n where n: "nat (sc_max_retries cfg) = Suc n" using assms(4) by (cases "nat (sc_max_retries cfg)") auto
  have "get_stations cfg C t w = (Inl ValueError, w1)"
    using get_stations_from_step [OF assms(1)] assms(2,3) by (simp add: get_stations_def n)
  then show ?thesis
    using assms(5-7)
    by (simp add: fetch_current_weather_stations_def get_token_def fresh_token_def catching_def on_world2_def bnd_apply
        is_unauthorized_def smn_exn_defs)
qed

end
