(* ===== verification/Startup.thy ===== *)
theory Startup
  imports Settings Basemap_Config
begin

text \<open>
  The life of the process (\<^verbatim>\<open>main.py\<close>): the bounded wait for the object store, the strategies,
  the base-map and weather-station subsystems by mode and role, and the shutdown whose steps are
  isolated from one another. The calls \<^verbatim>\<open>main.py\<close> makes on its parts are actions; the world is
  the trace of the actions attempted, and an oracle says of each whether it raises and, for a
  probe of the store, what it answers. The FastAPI application object and its middleware are
  not modelled.
\<close>

section \<open>Actions\<close>

datatype resource =
    RedisConn | MetricsDb | ProbeS3 | ProductS3 | BasemapS3 | ReaderHttp | TileReader | StateStore
  | ScraperHttp | BasemapScraper | ApiKeysS3 | Keystore | WeatherS3 | SmnApi | RegistryApi
  | StationScraper | MetricsCollector | ProductLoop string

text \<open>
  \<^verbatim>\<open>Connect\<close> opens a client, \<^verbatim>\<open>Start\<close> starts a background loop, \<^verbatim>\<open>Close\<close> is its \<^verbatim>\<open>close()\<close> or
  \<^verbatim>\<open>stop()\<close>; \<^verbatim>\<open>Build\<close> constructs an object that holds nothing yet; \<^verbatim>\<open>Wire\<close> hands something to a
  module-level singleton and never raises.
\<close>

datatype action =
    Connect resource | Start resource | Build resource | Close resource
  | EnsureBucket resource | Migrate | Gdal | Probe | Sleep rat | Wire string

type_synonym trace = "action list"
type_synonym answers = "trace \<Rightarrow> action \<Rightarrow> bool outcome"

definition ask :: "answers \<Rightarrow> action \<Rightarrow> (trace, bool) io" where
  "ask orc a tr = (orc tr a, tr @ [a])"

definition act :: "answers \<Rightarrow> action \<Rightarrow> (trace, unit) io" where
  "act orc a = bnd (ask orc a) (\<lambda>_. ret ())"

definition note_action :: "action \<Rightarrow> (trace, unit) io" where
  "note_action a = modify (\<lambda>tr. tr @ [a])"

definition if_do :: "bool \<Rightarrow> ('w, unit) io \<Rightarrow> ('w, unit) io" where
  "if_do c m = (if c then m else ret ())"

fun run_all :: "('w, unit) io list \<Rightarrow> ('w, unit) io" where
  "run_all [] = ret ()"
| "run_all (m # ms) = seq m (run_all ms)"

section \<open>Settings read by the start-up\<close>

text \<open>The attributes of booted settings; every one read here exists.\<close>

definition conf :: "attrs \<Rightarrow> string \<Rightarrow> json" where
  "conf s a = (case s a of Some v \<Rightarrow> v | None \<Rightarrow> JNull)"

definition enabled :: "attrs \<Rightarrow> string \<Rightarrow> bool" where
  "enabled s a = json_true (conf s a)"

definition s3_ready :: "attrs \<Rightarrow> bool" where
  "s3_ready s = (is_s3_configured s = Inr True)"

definition runs_background_jobs :: "attrs \<Rightarrow> bool" where
  "runs_background_jobs s = (conf s ''app_role'' \<in> {JStr ''worker'', JStr ''all''})"

section \<open>Waiting for the object store\<close>

definition S3_STARTUP_WAIT_MAX_SECONDS :: rat where "S3_STARTUP_WAIT_MAX_SECONDS = 120"

text \<open>
  The retry loop. \<^verbatim>\<open>naps\<close> is the number of sleeps after which the task is cancelled: the only
  way the unbounded loop of development ends when the store never answers.
\<close>

fun wait_loop :: "nat \<Rightarrow> answers \<Rightarrow> bool \<Rightarrow> rat \<Rightarrow> rat \<Rightarrow> (trace, unit) io" where
  "wait_loop naps orc bounded backoff waited =
     bnd (ask orc Probe) (\<lambda>up.
       if up then ret ()
       else if bounded \<and> S3_STARTUP_WAIT_MAX_SECONDS \<le> waited then raise RuntimeError
       else case naps of
              0 \<Rightarrow> raise CancelledError
            | Suc n \<Rightarrow> seq (act orc (Sleep backoff))
                (wait_loop n orc bounded (min (backoff * 2) 30) (waited + backoff)))"

declare wait_loop.simps [simp del]

definition wait_for_s3_reachable :: "nat \<Rightarrow> answers \<Rightarrow> attrs \<Rightarrow> (trace, unit) io" where
  "wait_for_s3_reachable naps orc s =
     try_finally
       (seq (act orc (Connect ProbeS3))
            (wait_loop naps orc (conf s ''app_env'' = JStr ''production'') 1 0))
       (act orc (Close ProbeS3))"

section \<open>Product strategies\<close>

text \<open>The background loops of the products, in start order.\<close>

definition SYNC_SERVICES :: "string list" where
  "SYNC_SERVICES =
     [''satellite'', ''radar'', ''inta_radar'', ''ecmwf_tp'', ''ecmwf_mslp'', ''wrf'', ''gfs'']"

text \<open>A strategy object: its class, the settings its constructor takes, and its radar network.\<close>

datatype product_strategy = Strategy string "json list" "string option"

definition product_strategies :: "attrs \<Rightarrow> product_strategy list" where
  "product_strategies s =
     (let kind = (if enabled s ''sync_prefetch'' then ''FullSyncStrategy'' else ''OnDemandStrategy'');
          make = (\<lambda>family keys net. Strategy (family @ kind) (map (conf s) keys) net)
      in [make ''Satellite'' [''satellite_tile_ttl'', ''tileset_listing_ttl''] None,
          make ''Radar'' [''radar_tile_ttl'', ''tileset_listing_ttl''] None,
          make ''Radar'' [''radar_tile_ttl'', ''tileset_listing_ttl''] (Some ''inta''),
          make ''EcmwfTp'' [''ecmwf_tile_ttl'', ''tileset_listing_ttl''] None,
          make ''EcmwfMslp'' [''ecmwf_mslp_geojson_ttl'', ''tileset_listing_ttl''] None,
          make ''Wrf'' [''wrf_tile_ttl'', ''wrf_geojson_ttl'', ''tileset_listing_ttl'', ''wrf_inits_to_keep''] None,
          make ''Gfs'' [''gfs_tile_ttl'', ''gfs_geojson_ttl'', ''tileset_listing_ttl'', ''gfs_cycles_to_keep''] None])"

definition NoS3ClientConfiguredError :: exn where
  "NoS3ClientConfiguredError = OtherError ''NoS3ClientConfiguredError''"

definition start_product_loop :: "answers \<Rightarrow> attrs \<Rightarrow> string \<Rightarrow> (trace, unit) io" where
  "start_product_loop orc s name =
     run_all
       [note_action (Wire (name @ ''.redis'')),
        if_do (enabled s ''metrics_enabled'') (note_action (Wire (name @ ''.metrics''))),
        act orc (Start (ProductLoop name))]"

text \<open>
  \<^verbatim>\<open>configure_strategies\<close>. The point-value strategy is built whatever the mode, and its
  constructor refuses a missing S3 client.
\<close>

definition configure_strategies :: "answers \<Rightarrow> attrs \<Rightarrow> (trace, bool \<times> product_strategy list) io" where
  "configure_strategies orc s =
     seq (if_do (s3_ready s) (act orc (Connect ProductS3)))
       (if \<not> s3_ready s then raise NoS3ClientConfiguredError
        else seq (if_do (enabled s ''sync_prefetch'' \<and> runs_background_jobs s)
                   (run_all (map (start_product_loop orc s) SYNC_SERVICES)))
               (ret (True, product_strategies s)))"

section \<open>The base map\<close>

record basemap_runtime =
  br_s3_client :: bool
  br_scraper_http :: bool
  br_state_store :: bool
  br_scraper :: bool

text \<open>\<^verbatim>\<open>cfg.get("id")\<close> and \<^verbatim>\<open>cfg.get("enabled", True)\<close> of the entries of \<^verbatim>\<open>basemap_providers\<close>.\<close>

definition toggle_of :: "json \<Rightarrow> provider_toggle" where
  "toggle_of v =
     \<lparr> pt_id = (case jget v ''id'' of Some (JStr i) \<Rightarrow> Some i | _ \<Rightarrow> None),
       pt_enabled = map_option json_true (jget v ''enabled'') \<rparr>"

definition basemap_toggles :: "attrs \<Rightarrow> provider_toggle list" where
  "basemap_toggles s = map toggle_of (elements (conf s ''basemap_providers''))"

definition S3_BACKED :: "json set" where
  "S3_BACKED = {JStr ''backup_and_prefetch'', JStr ''backup_and_cache_on_read'', JStr ''backup_only''}"

text \<open>The four switches \<^verbatim>\<open>configure_basemap\<close> derives from the mode and the role.\<close>

record basemap_switches =
  bs_run_scraper :: bool
  bs_scraper_writes_redis :: bool
  bs_redis_cache :: bool
  bs_s3_cache :: bool

definition basemap_switches_of :: "attrs \<Rightarrow> basemap_switches" where
  "basemap_switches_of s =
     (let mode = conf s ''basemap_backup_mode''
      in \<lparr> bs_run_scraper = (mode \<in> S3_BACKED \<and> runs_background_jobs s),
           bs_scraper_writes_redis = (mode = JStr ''backup_and_prefetch''),
           bs_redis_cache = (mode \<in> {JStr ''backup_and_prefetch'', JStr ''backup_and_cache_on_read''}),
           bs_s3_cache = (mode \<in> S3_BACKED) \<rparr>)"

definition configure_basemap :: "answers \<Rightarrow> environ \<Rightarrow> attrs \<Rightarrow> (trace, basemap_runtime option) io" where
  "configure_basemap orc env s =
     (let sw = basemap_switches_of s
      in if load_providers env (basemap_toggles s) = [] then ret None
         else if bs_s3_cache sw \<and> \<not> s3_ready s then ret None
         else seq (run_all
           [if_do (bs_s3_cache sw) (act orc (Connect BasemapS3)),
            act orc (Connect ReaderHttp),
            note_action (Build TileReader),
            if_do (bs_s3_cache sw)
              (seq (act orc (Connect StateStore)) (note_action (Wire ''basemap_state_store''))),
            if_do (bs_run_scraper sw)
              (seq (act orc (Connect ScraperHttp))
                   (seq (note_action (Build BasemapScraper)) (act orc (Start BasemapScraper)))),
            note_action (Wire ''basemap_service'')])
           (ret (Some \<lparr> br_s3_client = bs_s3_cache sw, br_scraper_http = bs_run_scraper sw,
                        br_state_store = bs_s3_cache sw, br_scraper = bs_run_scraper sw \<rparr>)))"

section \<open>The weather stations\<close>

record stations_runtime =
  wr_keystore :: bool
  wr_api_keys_s3 :: bool
  wr_s3_client :: bool
  wr_smn_client :: bool
  wr_registry_client :: bool
  wr_scraper :: bool

definition stations_off :: "bool \<Rightarrow> stations_runtime" where
  "stations_off keys =
     \<lparr> wr_keystore = keys, wr_api_keys_s3 = keys, wr_s3_client = False,
       wr_smn_client = False, wr_registry_client = False, wr_scraper = False \<rparr>"

definition configure_weather_stations :: "answers \<Rightarrow> attrs \<Rightarrow> (trace, stations_runtime) io" where
  "configure_weather_stations orc s =
     seq (if_do (s3_ready s)
           (run_all [act orc (Connect ApiKeysS3), act orc (EnsureBucket ApiKeysS3),
                     note_action (Build Keystore), note_action (Wire ''weather_stations_keystore'')]))
       (if \<not> enabled s ''weather_stations_sync_enabled'' then
          seq (note_action (Wire ''weather_stations_service.off'')) (ret (stations_off (s3_ready s)))
        else if \<not> s3_ready s then
          seq (note_action (Wire ''weather_stations_service.off'')) (ret (stations_off (s3_ready s)))
        else
          seq (act orc (Connect WeatherS3))
            (seq (if_do (runs_background_jobs s)
                   (run_all [note_action (Build SmnApi), note_action (Build RegistryApi),
                             note_action (Build StationScraper), act orc (Start StationScraper)]))
              (seq (note_action (Wire ''weather_stations_service''))
                (ret \<lparr> wr_keystore = True, wr_api_keys_s3 = True, wr_s3_client = True,
                       wr_smn_client = runs_background_jobs s, wr_registry_client = runs_background_jobs s,
                       wr_scraper = runs_background_jobs s \<rparr>))))"

section \<open>Shutdown\<close>

text \<open>\<^verbatim>\<open>_safe_shutdown\<close>: \<^verbatim>\<open>except Exception\<close>, which a cancellation is not.\<close>

definition safe_shutdown :: "answers \<Rightarrow> resource \<Rightarrow> (trace, unit) io" where
  "safe_shutdown orc r = bnd (catching (\<lambda>e. e \<noteq> CancelledError) (act orc (Close r))) (\<lambda>_. ret ())"

definition shutdown_weather_stations :: "answers \<Rightarrow> stations_runtime \<Rightarrow> (trace, unit) io" where
  "shutdown_weather_stations orc rt =
     run_all
       [if_do (wr_scraper rt) (safe_shutdown orc StationScraper),
        if_do (wr_smn_client rt) (safe_shutdown orc SmnApi),
        if_do (wr_registry_client rt) (safe_shutdown orc RegistryApi),
        if_do (wr_s3_client rt) (safe_shutdown orc WeatherS3),
        if_do (wr_keystore rt) (safe_shutdown orc Keystore),
        if_do (wr_api_keys_s3 rt) (safe_shutdown orc ApiKeysS3)]"

definition shutdown_basemap :: "answers \<Rightarrow> basemap_runtime option \<Rightarrow> (trace, unit) io" where
  "shutdown_basemap orc runtime =
     (case runtime of
        None \<Rightarrow> ret ()
      | Some rt \<Rightarrow>
          run_all
            [if_do (br_scraper rt) (safe_shutdown orc BasemapScraper),
             if_do (br_state_store rt) (safe_shutdown orc StateStore),
             safe_shutdown orc TileReader,
             safe_shutdown orc ReaderHttp,
             if_do (br_scraper_http rt) (safe_shutdown orc ScraperHttp),
             if_do (br_s3_client rt) (safe_shutdown orc BasemapS3)])"

definition shutdown_services :: "answers \<Rightarrow> attrs \<Rightarrow> (trace, unit) io" where
  "shutdown_services orc s =
     if_do (enabled s ''sync_prefetch'')
       (run_all (map (\<lambda>name. safe_shutdown orc (ProductLoop name)) SYNC_SERVICES))"

section \<open>The lifespan\<close>

record app_runtime =
  ar_s3_client :: bool
  ar_basemap :: "basemap_runtime option"
  ar_stations :: stations_runtime
  ar_metrics_loop :: bool

definition STRATEGY_SINGLETONS :: "string list" where
  "STRATEGY_SINGLETONS =
     [''satellite_service'', ''radar_service'', ''inta_radar_service'', ''ecmwf_tp_service'',
      ''ecmwf_mslp_service'', ''point_value_service'', ''wrf_service'', ''gfs_service'']"

definition startup :: "nat \<Rightarrow> answers \<Rightarrow> environ \<Rightarrow> attrs \<Rightarrow> (trace, app_runtime) io" where
  "startup naps orc env s =
     seq (run_all [note_action Gdal, act orc (Connect RedisConn), act orc Migrate, act orc (Connect MetricsDb),
                   if_do (s3_ready s) (wait_for_s3_reachable naps orc s)])
    (bnd (configure_strategies orc s) (\<lambda>(has_s3, strategies).
     seq (run_all (map (\<lambda>name. note_action (Wire name)) STRATEGY_SINGLETONS))
    (seq (note_action (Wire ''product_availability_service''))
    (bnd (configure_basemap orc env s) (\<lambda>basemap.
     bnd (configure_weather_stations orc s) (\<lambda>stations.
     let metrics_loop = (enabled s ''metrics_enabled'' \<and> runs_background_jobs s)
     in seq (if_do metrics_loop (seq (note_action (Build MetricsCollector)) (act orc (Start MetricsCollector))))
          (ret \<lparr> ar_s3_client = has_s3, ar_basemap = basemap, ar_stations = stations,
                 ar_metrics_loop = metrics_loop \<rparr>)))))))"

definition shutdown :: "answers \<Rightarrow> attrs \<Rightarrow> app_runtime \<Rightarrow> (trace, unit) io" where
  "shutdown orc s app =
     run_all
       [if_do (ar_metrics_loop app) (safe_shutdown orc MetricsCollector),
        shutdown_weather_stations orc (ar_stations app),
        shutdown_basemap orc (ar_basemap app),
        shutdown_services orc s,
        if_do (ar_s3_client app) (safe_shutdown orc ProductS3),
        safe_shutdown orc MetricsDb,
        safe_shutdown orc RedisConn]"

end
