(* ===== verification/Startup_Facts.thy ===== *)
theory Startup_Facts
  imports Startup Settings_Shipped
begin

text \<open>
  The properties of the process life cycle: the wait for the store is bounded in production, the
  web role starts no background loop, what a successful start-up opens the shutdown closes
  whatever raises in between, and without a configured store there is no start-up.
\<close>

section \<open>Traces\<close>

text \<open>\<^verbatim>\<open>emits P m\<close>: whatever \<^verbatim>\<open>m\<close> does, it only appends actions satisfying \<^verbatim>\<open>P\<close>.\<close>

definition emits :: "(action \<Rightarrow> bool) \<Rightarrow> (trace, 'a) io \<Rightarrow> bool" where
  "emits P m \<longleftrightarrow> (\<forall>tr. \<exists>t. snd (m tr) = tr @ t \<and> list_all P t)"

named_theorems emits \<open>rules for \<^verbatim>\<open>emits\<close>\<close>

lemma emitsI: "(\<And>tr. \<exists>t. snd (m tr) = tr @ t \<and> list_all P t) \<Longrightarrow> emits P m"
  by (simp add: emits_def)

lemma emitsD:
  assumes "emits P m" "m tr = (r, tr')"
  obtains t where "tr' = tr @ t" "list_all P t"
  using assms unfolding emits_def by (metis snd_conv)

lemma emits_pure [emits]: "emits P (ret x)" "emits P (raise e)"
  by (simp_all add: emits_def)

lemma emits_ask [emits]: "P a \<Longrightarrow> emits P (ask orc a)"
  by (simp add: emits_def ask_def)

lemma emits_note [emits]: "P a \<Longrightarrow> emits P (note_action a)"
  by (simp add: emits_def note_action_def modify_def)

lemma emits_bnd [emits]:
  assumes "emits P m" "\<And>x. emits P (f x)"
  shows "emits P (bnd m f)"
proof (rule emitsI)
  fix tr
  obtain r tr1 where m: "m tr = (r, tr1)" by (cases "m tr")
  obtain t where t: "tr1 = tr @ t" "list_all P t" by (rule emitsD [OF assms(1) m])
  show "\<exists>t. snd (bnd m f tr) = tr @ t \<and> list_all P t"
  proof (cases r)
    case (Inl e)
    then show ?thesis using m t by simp
  next
    case (Inr x)
    obtain r2 tr2 where f: "f x tr1 = (r2, tr2)" by (cases "f x tr1")
    obtain t' where "tr2 = tr1 @ t'" "list_all P t'" by (rule emitsD [OF assms(2) f])
    then have "snd (bnd m f tr) = tr @ (t @ t') \<and> list_all P (t @ t')" using Inr m f t by simp
    then show ?thesis by blast
  qed
qed

lemma emits_seq [emits]: "emits P m \<Longrightarrow> emits P n \<Longrightarrow> emits P (seq m n)"
  unfolding seq_def by (rule emits_bnd)

lemma emits_act [emits]: "P a \<Longrightarrow> emits P (act orc a)"
  unfolding act_def by (intro emits)

lemma emits_if_do [emits]: "(c \<Longrightarrow> emits P m) \<Longrightarrow> emits P (if_do c m)"
  by (simp add: if_do_def emits_pure)

lemma emits_if [emits]: "(c \<Longrightarrow> emits P m) \<Longrightarrow> (\<not> c \<Longrightarrow> emits P n) \<Longrightarrow> emits P (if c then m else n)"
  by simp

lemma emits_run_all [emits]: "(\<And>m. m \<in> set ms \<Longrightarrow> emits P m) \<Longrightarrow> emits P (run_all ms)"
  by (induction ms) (auto intro!: emits)

lemma emits_finally [emits]:
  assumes "emits P m" "emits P fin"
  shows "emits P (try_finally m fin)"
proof (rule emitsI)
  fix tr
  obtain r tr1 where m: "m tr = (r, tr1)" by (cases "m tr")
  obtain t where t: "tr1 = tr @ t" "list_all P t" by (rule emitsD [OF assms(1) m])
  obtain r2 tr2 where f: "fin tr1 = (r2, tr2)" by (cases "fin tr1")
  obtain t' where t': "tr2 = tr1 @ t'" "list_all P t'" by (rule emitsD [OF assms(2) f])
  have "snd (try_finally m fin tr) = tr @ (t @ t') \<and> list_all P (t @ t')"
    using m f t t' by (cases r2) (simp_all add: try_finally_def)
  then show "\<exists>t. snd (try_finally m fin tr) = tr @ t \<and> list_all P t" by blast
qed

lemma emits_wait_loop [emits]:
  "P Probe \<Longrightarrow> (\<And>q. P (Sleep q)) \<Longrightarrow> emits P (wait_loop naps orc bounded backoff waited)"
proof (induction naps arbitrary: bounded backoff waited)
  case (Suc n)
  show ?case by (subst wait_loop.simps) (auto intro!: emits Suc)
qed (subst wait_loop.simps, auto intro!: emits)

section \<open>The web role\<close>

fun not_start :: "action \<Rightarrow> bool" where
  "not_start (Start r) = False"
| "not_start _ = True"

lemmas startup_parts =
  startup_def wait_for_s3_reachable_def configure_strategies_def start_product_loop_def configure_basemap_def
  configure_weather_stations_def Let_def case_prod_beta

lemma web_startup_emits:
  "\<not> runs_background_jobs s \<Longrightarrow> emits not_start (startup naps orc env s)"
  unfolding startup_parts basemap_switches_of_def
  by (auto intro!: emits)

section \<open>Shutdown\<close>

text \<open>No close is cancelled: the process is not killed while it shuts down.\<close>

definition not_killed :: "answers \<Rightarrow> bool" where
  "not_killed orc \<longleftrightarrow> (\<forall>tr r. orc tr (Close r) \<noteq> Inl CancelledError)"

text \<open>\<^verbatim>\<open>plays m as\<close>: \<^verbatim>\<open>m\<close> returns and performs exactly these actions.\<close>

definition plays :: "(trace, unit) io \<Rightarrow> action list \<Rightarrow> bool" where
  "plays m as \<longleftrightarrow> (\<forall>tr. m tr = (Inr (), tr @ as))"

named_theorems plays \<open>rules for \<^verbatim>\<open>plays\<close>\<close>

lemma plays_ret [plays]: "plays (ret ()) []"
  by (simp add: plays_def)

lemma plays_seq [plays]: "plays m as \<Longrightarrow> plays n bs \<Longrightarrow> plays (seq m n) (as @ bs)"
  by (simp add: plays_def seq_apply)

lemma plays_cons: "plays m as \<Longrightarrow> plays (run_all ms) bs \<Longrightarrow> plays (run_all (m # ms)) (as @ bs)"
  by (simp add: plays_seq)

lemma plays_nil: "plays (run_all []) []"
  by (simp add: plays_ret)

lemma plays_if_do [plays]: "plays m as \<Longrightarrow> plays (if_do c m) (if c then as else [])"
  by (simp add: if_do_def plays_def)

lemma plays_safe_shutdown [plays]: "not_killed orc \<Longrightarrow> plays (safe_shutdown orc r) [Close r]"
  by (auto simp: plays_def safe_shutdown_def not_killed_def act_def ask_def bnd_def catching_def split: sum.splits)

lemma plays_map [plays]:
  "(\<And>x. plays (f x) (g x)) \<Longrightarrow> plays (run_all (map f xs)) (concat (map g xs))"
  by (induction xs) (auto intro!: plays)

lemma plays_eq: "plays m as \<Longrightarrow> as = bs \<Longrightarrow> plays m bs"
  by simp

text \<open>What a shutdown closes, in order.\<close>

definition closes :: "attrs \<Rightarrow> app_runtime \<Rightarrow> resource list" where
  "closes s app =
     (let opt = (\<lambda>c r. if c then [r] else []); w = ar_stations app
      in opt (ar_metrics_loop app) MetricsCollector @
         opt (wr_scraper w) StationScraper @ opt (wr_smn_client w) SmnApi @
         opt (wr_registry_client w) RegistryApi @ opt (wr_s3_client w) WeatherS3 @
         opt (wr_keystore w) Keystore @ opt (wr_api_keys_s3 w) ApiKeysS3 @
         (case ar_basemap app of
            None \<Rightarrow> []
          | Some b \<Rightarrow>
              opt (br_scraper b) BasemapScraper @ opt (br_state_store b) StateStore @
              [TileReader, ReaderHttp] @ opt (br_scraper_http b) ScraperHttp @ opt (br_s3_client b) BasemapS3) @
         (if enabled s ''sync_prefetch'' then map ProductLoop SYNC_SERVICES else []) @
         opt (ar_s3_client app) ProductS3 @ [MetricsDb, RedisConn])"

lemma shutdown_plays:
  assumes "not_killed orc"
  shows "plays (shutdown orc s app) (map Close (closes s app))"
proof -
  note safe = plays_safe_shutdown [OF assms]
  have stations: "plays (shutdown_weather_stations orc w)
      ((if wr_scraper w then [Close StationScraper] else []) @ (if wr_smn_client w then [Close SmnApi] else []) @
       (if wr_registry_client w then [Close RegistryApi] else []) @ (if wr_s3_client w then [Close WeatherS3] else []) @
       (if wr_keystore w then [Close Keystore] else []) @ (if wr_api_keys_s3 w then [Close ApiKeysS3] else []) @ [])" for w
    unfolding shutdown_weather_stations_def by (intro plays_cons plays_nil plays_if_do safe)
  have basemap: "plays (shutdown_basemap orc (Some b))
      ((if br_scraper b then [Close BasemapScraper] else []) @ (if br_state_store b then [Close StateStore] else []) @
       [Close TileReader] @ [Close ReaderHttp] @ (if br_scraper_http b then [Close ScraperHttp] else []) @
       (if br_s3_client b then [Close BasemapS3] else []) @ [])" for b
    unfolding shutdown_basemap_def option.case by (intro plays_cons plays_nil plays_if_do safe)
  have no_basemap: "plays (shutdown_basemap orc None) []"
    by (simp add: shutdown_basemap_def plays_ret)
  have loops: "plays (shutdown_services orc s)
      (if enabled s ''sync_prefetch'' then concat (map (\<lambda>name. [Close (ProductLoop name)]) SYNC_SERVICES) else [])"
    unfolding shutdown_services_def by (intro plays_if_do plays_map safe)
  show ?thesis
  proof (cases "ar_basemap app")
    case None
    show ?thesis
      by (rule plays_eq, unfold shutdown_def None,
          (rule plays_cons plays_nil plays_if_do safe stations no_basemap loops)+,
          simp add: closes_def None Let_def concat_map_singleton comp_def)
  next
    case (Some b)
    show ?thesis
      by (rule plays_eq, unfold shutdown_def Some,
          (rule plays_cons plays_nil plays_if_do safe stations basemap loops)+,
          simp add: closes_def Some Let_def concat_map_singleton comp_def)
  qed
qed

section \<open>What a start-up opens\<close>

text \<open>The resource an action brings to life.\<close>

fun opens :: "action \<Rightarrow> resource option" where
  "opens (Connect r) = Some r"
| "opens (Start r) = Some r"
| "opens (Build r) = Some r"
| "opens _ = None"

definition opens_only :: "resource set \<Rightarrow> action \<Rightarrow> bool" where
  "opens_only R a = (case opens a of None \<Rightarrow> True | Some r \<Rightarrow> r \<in> R)"

lemma opens_only_simps [simp]:
  "opens_only R (Connect r) = (r \<in> R)" "opens_only R (Start r) = (r \<in> R)" "opens_only R (Build r) = (r \<in> R)"
  "opens_only R (Wire x)" "opens_only R Gdal" "opens_only R Migrate" "opens_only R Probe" "opens_only R (Sleep q)"
  "opens_only R (EnsureBucket r)" "opens_only R (Close r)"
  by (simp_all add: opens_only_def)

text \<open>The runtime a start-up returns is fixed by the settings.\<close>

definition app_of :: "environ \<Rightarrow> attrs \<Rightarrow> app_runtime" where
  "app_of env s =
     (let sw = basemap_switches_of s; bg = runs_background_jobs s
      in \<lparr> ar_s3_client = True,
           ar_basemap = (if load_providers env (basemap_toggles s) = [] then None
                         else Some \<lparr> br_s3_client = bs_s3_cache sw, br_scraper_http = bs_run_scraper sw,
                                     br_state_store = bs_s3_cache sw, br_scraper = bs_run_scraper sw \<rparr>),
           ar_stations = (if enabled s ''weather_stations_sync_enabled''
                          then \<lparr> wr_keystore = True, wr_api_keys_s3 = True, wr_s3_client = True,
                                 wr_smn_client = bg, wr_registry_client = bg, wr_scraper = bg \<rparr>
                          else stations_off True),
           ar_metrics_loop = (enabled s ''metrics_enabled'' \<and> bg) \<rparr>)"

lemma configure_strategies_Inr:
  "configure_strategies orc s tr = (Inr x, tr') \<Longrightarrow> s3_ready s \<and> x = (True, product_strategies s)"
  unfolding configure_strategies_def seq_def by (auto simp: bnd_eq_Inr split: if_splits)

lemma configure_basemap_Inr:
  "configure_basemap orc env s tr = (Inr b, tr') \<Longrightarrow> s3_ready s \<Longrightarrow> b = ar_basemap (app_of env s)"
  unfolding configure_basemap_def seq_def app_of_def Let_def by (auto simp: bnd_eq_Inr split: if_splits)

lemma configure_weather_stations_Inr:
  "configure_weather_stations orc s tr = (Inr w, tr') \<Longrightarrow> s3_ready s \<Longrightarrow> w = ar_stations (app_of env s)"
  unfolding configure_weather_stations_def seq_def app_of_def Let_def by (auto simp: bnd_eq_Inr split: if_splits)

lemma startup_Inr:
  assumes "startup naps orc env s tr = (Inr app, tr')"
  shows "s3_ready s \<and> app = app_of env s"
proof -
  obtain x tr1 tr2 b tr3 tr4 w tr5 where x: "configure_strategies orc s tr1 = (Inr x, tr2)"
    and b: "configure_basemap orc env s tr3 = (Inr b, tr4)"
    and w: "configure_weather_stations orc s tr4 = (Inr w, tr5)"
    and app: "app = \<lparr> ar_s3_client = fst x, ar_basemap = b, ar_stations = w,
                      ar_metrics_loop = enabled s ''metrics_enabled'' \<and> runs_background_jobs s \<rparr>"
    using assms unfolding startup_def seq_def Let_def case_prod_beta by (auto simp: bnd_eq_Inr)
  have ready: "s3_ready s" "fst x = True" using configure_strategies_Inr [OF x] by auto
  have "b = ar_basemap (app_of env s)" "w = ar_stations (app_of env s)"
    using configure_basemap_Inr [OF b ready(1)] configure_weather_stations_Inr [OF w ready(1)] by blast+
  then show ?thesis using app ready by (simp add: app_of_def Let_def)
qed

lemma startup_opens:
  assumes "s3_ready s"
  shows "emits (opens_only (insert ProbeS3 (set (closes s (app_of env s))))) (startup naps orc env s)"
  using assms unfolding startup_parts
  by (auto intro!: emits simp: closes_def app_of_def basemap_switches_of_def Let_def stations_off_def)

section \<open>The wait for the store\<close>

text \<open>The back-off and the time already waited when \<^verbatim>\<open>k\<close> more sleeps are allowed in production.\<close>

definition stage :: "nat \<Rightarrow> rat \<times> rat" where
  "stage k = [(30, 121), (30, 91), (30, 61), (30, 31), (16, 15), (8, 7), (4, 3), (2, 1), (1, 0)] ! k"

fun slept :: "trace \<Rightarrow> rat" where
  "slept [] = 0"
| "slept (Sleep q # tr) = q + slept tr"
| "slept (a # tr) = slept tr"

definition probes :: "trace \<Rightarrow> nat" where
  "probes tr = length (filter ((=) Probe) tr)"

lemma slept_append [simp]: "slept (a @ b) = slept a + slept b"
  by (induction a rule: slept.induct) simp_all

lemma probes_simps [simp]:
  "probes [] = 0" "probes (Probe # tr) = Suc (probes tr)" "a \<noteq> Probe \<Longrightarrow> probes (a # tr) = probes tr"
  "probes (a1 @ a2) = probes a1 + probes a2"
  by (simp_all add: probes_def)

lemma stage_step:
  assumes "k < 8"
  shows "snd (stage (Suc k)) < 120 \<and> stage k = (min (fst (stage (Suc k)) * 2) 30, snd (stage (Suc k)) + fst (stage (Suc k)))"
proof -
  have "k = 0 \<or> k = 1 \<or> k = 2 \<or> k = 3 \<or> k = 4 \<or> k = 5 \<or> k = 6 \<or> k = 7" using assms by linarith
  then show ?thesis by (elim disjE) (simp_all add: stage_def)
qed

lemma wait_stage_max: "k < 8 \<Longrightarrow> fst (stage (Suc k)) + snd (stage (Suc k)) \<le> 121"
proof -
  assume "k < 8"
  then have "k = 0 \<or> k = 1 \<or> k = 2 \<or> k = 3 \<or> k = 4 \<or> k = 5 \<or> k = 6 \<or> k = 7" by linarith
  then show ?thesis by (elim disjE) (simp_all add: stage_def)
qed

text \<open>How a wait ends: reachable, the bounded failure, or an exception of one of its own calls.\<close>

definition wait_ends :: "answers \<Rightarrow> unit outcome \<Rightarrow> bool" where
  "wait_ends orc r \<longleftrightarrow> r = Inr () \<or> r = Inl RuntimeError \<or> (\<exists>tr a e. orc tr a = Inl e \<and> r = Inl e)"

lemma wait_loop_bounded:
  "k \<le> 8 \<Longrightarrow>
   \<exists>r t. (\<forall>j. wait_loop (k + j) orc True (fst (stage k)) (snd (stage k)) tr = (r, tr @ t)) \<and>
     wait_ends orc r \<and> probes t \<le> Suc k \<and> slept t + snd (stage k) \<le> 121"
proof (induction k arbitrary: tr)
  case 0
  have last: "wait_loop j orc True 30 121 tr = bnd (ask orc Probe) (\<lambda>up. if up then ret () else raise RuntimeError) tr" for j
    by (subst wait_loop.simps) (simp add: S3_STARTUP_WAIT_MAX_SECONDS_def)
  show ?case
    by (cases "orc tr Probe") (auto simp: stage_def last ask_def bnd_def wait_ends_def)
next
  case (Suc k)
  let ?b = "fst (stage (Suc k))" and ?w = "snd (stage (Suc k))"
  have k: "k < 8" "k \<le> 8" using Suc.prems by simp_all
  note step = stage_step [OF k(1)]
  have unfold: "wait_loop (Suc (k + j)) orc True ?b ?w tr =
      bnd (ask orc Probe) (\<lambda>up. if up then ret ()
        else seq (act orc (Sleep ?b)) (wait_loop (k + j) orc True (fst (stage k)) (snd (stage k)))) tr" for j
    by (subst wait_loop.simps) (use step in \<open>auto simp: S3_STARTUP_WAIT_MAX_SECONDS_def cong: if_cong\<close>)
  have w: "?w \<le> 121" using step by simp
  show ?case
  proof (cases "orc tr Probe")
    case (Inl e)
    then have "wait_ends orc (Inl e)" by (auto simp: wait_ends_def)
    then show ?thesis using Inl w by (auto simp: unfold ask_def intro!: exI [of _ "Inl e"] exI [of _ "[Probe]"])
  next
    case (Inr up)
    show ?thesis
    proof (cases up)
      case True
      then show ?thesis using Inr w
        by (auto simp: unfold ask_def wait_ends_def intro!: exI [of _ "Inr ()"] exI [of _ "[Probe]"])
    next
      case False
      show ?thesis
      proof (cases "orc (tr @ [Probe]) (Sleep ?b)")
        case (Inl e)
        then have "wait_ends orc (Inl e)" by (auto simp: wait_ends_def)
        moreover have "wait_loop (Suc k + j) orc True ?b ?w tr = (Inl e, tr @ [Probe, Sleep ?b])" for j
          using Inl Inr False by (simp add: unfold ask_def act_def seq_def bnd_def)
        moreover have "slept [Probe, Sleep ?b] + ?w \<le> 121"
          using wait_stage_max [OF k(1)] by simp
        ultimately show ?thesis by (intro exI [of _ "Inl e"] exI [of _ "[Probe, Sleep ?b]"]) simp
      next
        case Inr2: (Inr u)
        obtain r t where IH: "\<forall>j. wait_loop (k + j) orc True (fst (stage k)) (snd (stage k)) (tr @ [Probe, Sleep ?b])
              = (r, (tr @ [Probe, Sleep ?b]) @ t)"
          "wait_ends orc r" "probes t \<le> Suc k" "slept t + snd (stage k) \<le> 121"
          using Suc.IH [OF k(2), of "tr @ [Probe, Sleep ?b]"] by blast
        have "wait_loop (Suc k + j) orc True ?b ?w tr = (r, tr @ (Probe # Sleep ?b # t))" for j
          using Inr Inr2 False IH(1) by (simp add: unfold ask_def act_def seq_def bnd_def)
        moreover have "slept (Probe # Sleep ?b # t) + ?w \<le> 121" using IH(4) step by simp
        ultimately show ?thesis using IH(2,3) by (intro exI [of _ r] exI [of _ "Probe # Sleep ?b # t"]) simp
      qed
    qed
  qed
qed

section \<open>Runs that succeed\<close>

text \<open>Nothing raises and the store answers.\<close>

definition quiet :: answers where
  "quiet tr a = Inr True"

text \<open>The store never answers; everything else works.\<close>

definition store_down :: answers where
  "store_down tr a = Inr (a \<noteq> Probe)"

definition succeeds :: "(trace, 'a) io \<Rightarrow> bool" where
  "succeeds m \<longleftrightarrow> (\<forall>tr. \<exists>x tr'. m tr = (Inr x, tr'))"

named_theorems succeeds \<open>rules for \<^verbatim>\<open>succeeds\<close>\<close>

lemma succeeds_basic [succeeds]:
  "succeeds (ret x)" "succeeds (ask quiet a)" "succeeds (note_action a)"
  by (auto simp: succeeds_def ask_def quiet_def note_action_def modify_def)

lemma succeeds_bnd [succeeds]: "succeeds m \<Longrightarrow> (\<And>x. succeeds (f x)) \<Longrightarrow> succeeds (bnd m f)"
  unfolding succeeds_def by (metis bnd_Inr)

lemma succeeds_seq [succeeds]: "succeeds m \<Longrightarrow> succeeds n \<Longrightarrow> succeeds (seq m n)"
  unfolding seq_def by (rule succeeds_bnd)

lemma succeeds_act [succeeds]: "succeeds (act quiet a)"
  unfolding act_def by (intro succeeds)

lemma succeeds_if [succeeds]: "succeeds m \<Longrightarrow> succeeds (if_do c m)"
  "succeeds a \<Longrightarrow> succeeds b \<Longrightarrow> succeeds (if c then a else b)"
  by (simp_all add: if_do_def succeeds)

lemma succeeds_run_all [succeeds]: "(\<And>m. m \<in> set ms \<Longrightarrow> succeeds m) \<Longrightarrow> succeeds (run_all ms)"
  by (induction ms) (auto intro!: succeeds)

lemma succeeds_finally [succeeds]: "succeeds m \<Longrightarrow> succeeds n \<Longrightarrow> succeeds (try_finally m n)"
  unfolding succeeds_def try_finally_def
proof
  fix tr assume m: "\<forall>tr. \<exists>x tr'. m tr = (Inr x, tr')" and n: "\<forall>tr. \<exists>x tr'. n tr = (Inr x, tr')"
  obtain x tr1 where "m tr = (Inr x, tr1)" using m by blast
  moreover obtain u tr2 where "n tr1 = (Inr u, tr2)" using n by blast
  ultimately show "\<exists>x tr'. (case m tr of (r, w') \<Rightarrow> case n w' of (Inl e, w'') \<Rightarrow> (Inl e, w'') | (Inr _, w'') \<Rightarrow> (r, w'')) = (Inr x, tr')"
    by simp
qed

lemma succeeds_wait_loop [succeeds]: "succeeds (wait_loop naps quiet b q w)"
  by (subst wait_loop.simps) (auto simp: succeeds_def ask_def bnd_def quiet_def)

lemma succeeds_wait [succeeds]: "succeeds (wait_for_s3_reachable naps quiet s)"
  unfolding wait_for_s3_reachable_def by (intro succeeds)

lemma quiet_startup:
  assumes "s3_ready s"
  shows "\<exists>tr'. startup naps quiet env s tr = (Inr (app_of env s), tr')"
proof -
  have "succeeds (startup naps quiet env s)"
    using assms unfolding startup_def configure_strategies_def start_product_loop_def configure_basemap_def
      configure_weather_stations_def Let_def case_prod_beta
    by (auto intro!: succeeds)
  then obtain x tr' where "startup naps quiet env s tr = (Inr x, tr')" unfolding succeeds_def by blast
  then show ?thesis using startup_Inr by blast
qed

lemma shipped_ready:
  "\<exists>s. boot (Some (Json SHIPPED)) (map_of SHIPPED_ENV) = Inr s \<and> s3_ready s"
  using shipped_boots_ready by (auto simp: s3_ready_def)

section \<open>Properties\<close>

lemma wait_closes_probe:
  assumes "wait_for_s3_reachable naps orc s tr = (Inr u, tr')"
  shows "Close ProbeS3 \<in> set tr'"
  using assms unfolding wait_for_s3_reachable_def try_finally_def
  by (auto simp: act_def ask_def bnd_def split: prod.splits sum.splits)

lemma emits_extends: "emits P m \<Longrightarrow> m tr = (r, tr') \<Longrightarrow> set tr \<subseteq> set tr'"
  by (erule (1) emitsD) simp

lemma startup_waits:
  assumes "startup naps orc env s tr = (Inr app, tr')"
  shows "Close ProbeS3 \<in> set tr'"
proof -
  obtain u tr1 tr2 where wait: "wait_for_s3_reachable naps orc s tr1 = (Inr u, tr2)"
    and rest: "set tr2 \<subseteq> set tr'"
  proof -
    have ready: "s3_ready s" using startup_Inr [OF assms] by blast
    define rest where "rest = bnd (configure_strategies orc s) (\<lambda>(has_s3, strategies).
     seq (run_all (map (\<lambda>name. note_action (Wire name)) STRATEGY_SINGLETONS))
    (seq (note_action (Wire ''product_availability_service''))
    (bnd (configure_basemap orc env s) (\<lambda>basemap.
     bnd (configure_weather_stations orc s) (\<lambda>stations.
     let metrics_loop = (enabled s ''metrics_enabled'' \<and> runs_background_jobs s)
     in seq (if_do metrics_loop (seq (note_action (Build MetricsCollector)) (act orc (Start MetricsCollector))))
          (ret \<lparr> ar_s3_client = has_s3, ar_basemap = basemap, ar_stations = stations,
                 ar_metrics_loop = metrics_loop \<rparr>))))))"
    have emits: "emits (\<lambda>_. True) rest"
      unfolding rest_def startup_parts by (auto intro!: emits)
    have "startup naps orc env s =
        seq (run_all [note_action Gdal, act orc (Connect RedisConn), act orc Migrate, act orc (Connect MetricsDb),
                      if_do (s3_ready s) (wait_for_s3_reachable naps orc s)]) rest"
      unfolding startup_def rest_def ..
    then obtain tr1 u tr2 where "wait_for_s3_reachable naps orc s tr1 = (Inr u, tr2)" "rest tr2 = (Inr app, tr')"
      using assms ready by (auto simp: seq_def bnd_eq_Inr if_do_def)
    then show ?thesis using emits_extends [OF emits] that by blast
  qed
  show ?thesis using wait_closes_probe [OF wait] rest by blast
qed

text \<open>
  C33. In production the wait for the object store ends by itself: at most nine probes and 121
  seconds of sleep, then the process either goes on, fails with the start-up error or with an
  exception one of its own calls raised; more allowance changes nothing (from the eighth nap on
  the bound on naps is not reached), and the probe client is closed on every one of these exits.
\<close>

theorem s3_wait_bounded:
  assumes "conf s ''app_env'' = JStr ''production''"
  shows "\<exists>r t. (wait_for_s3_reachable (8 + j) orc s tr = (r, tr @ t)) \<and>
     wait_for_s3_reachable 8 orc s tr = (r, tr @ t) \<and> wait_ends orc r \<and>
     probes t \<le> 9 \<and> slept t \<le> 121 \<and> last t = Close ProbeS3"
proof -
  let ?fin = "act orc (Close ProbeS3)"
  have fin: "\<exists>r. try_finally m ?fin tr = (r, tr' @ [Close ProbeS3]) \<and>
      (r = r0 \<or> (\<exists>e. orc tr' (Close ProbeS3) = Inl e \<and> r = Inl e))" if "m tr = (r0, tr')" for m r0 tr'
    using that by (cases "orc tr' (Close ProbeS3)") (auto simp: try_finally_def act_def ask_def bnd_def)
  have concl: ?thesis
    if run: "\<And>n. n = 8 \<or> n = 8 + j \<Longrightarrow>
      seq (act orc (Connect ProbeS3)) (wait_loop n orc True 1 0) tr = (r0, tr @ t0)"
    and ends: "wait_ends orc r0" "probes t0 \<le> 9" "slept t0 \<le> 121" for r0 t0
  proof -
    have run8: "seq (act orc (Connect ProbeS3)) (wait_loop 8 orc True 1 0) tr = (r0, tr @ t0)" by (rule run) simp
    obtain r where r: "try_finally (seq (act orc (Connect ProbeS3)) (wait_loop 8 orc True 1 0)) ?fin tr
        = (r, (tr @ t0) @ [Close ProbeS3])"
      "r = r0 \<or> (\<exists>e. orc (tr @ t0) (Close ProbeS3) = Inl e \<and> r = Inl e)"
      using fin [of "seq (act orc (Connect ProbeS3)) (wait_loop 8 orc True 1 0)" r0 "tr @ t0"] run8 by blast
    have "try_finally (seq (act orc (Connect ProbeS3)) (wait_loop (8 + j) orc True 1 0)) ?fin tr
        = (r, (tr @ t0) @ [Close ProbeS3])"
      using r(1) run8 run [of "8 + j"] by (simp add: try_finally_def)
    moreover have "wait_ends orc r" using r(2) ends(1) by (auto simp: wait_ends_def)
    ultimately show ?thesis using r(1) ends(2,3) assms
      by (intro exI [of _ r] exI [of _ "t0 @ [Close ProbeS3]"]) (simp add: wait_for_s3_reachable_def)
  qed
  show ?thesis
  proof (cases "orc tr (Connect ProbeS3)")
    case (Inl e)
    then have "wait_ends orc (Inl e)" by (auto simp: wait_ends_def)
    then show ?thesis
      by (intro concl [of "Inl e" "[Connect ProbeS3]"]) (simp_all add: Inl act_def ask_def seq_def bnd_def)
  next
    case (Inr b)
    obtain r t where wait: "\<forall>j. wait_loop (8 + j) orc True (fst (stage 8)) (snd (stage 8)) (tr @ [Connect ProbeS3])
          = (r, (tr @ [Connect ProbeS3]) @ t)"
      and ends: "wait_ends orc r" "probes t \<le> 9" "slept t + snd (stage 8) \<le> 121"
      using wait_loop_bounded [of 8 orc "tr @ [Connect ProbeS3]"] by (auto simp: eval_nat_numeral)
    have "stage 8 = (1, 0)" by (simp add: stage_def)
    then have "wait_loop n orc True 1 0 (tr @ [Connect ProbeS3]) = (r, tr @ Connect ProbeS3 # t)"
      if "n = 8 \<or> n = 8 + j" for n
      using wait that by (metis add.right_neutral append_Cons append_Nil append_assoc fst_conv snd_conv)
    then show ?thesis
      by (intro concl [of r "Connect ProbeS3 # t"])
         (use ends Inr \<open>stage 8 = (1, 0)\<close> in \<open>auto simp: act_def ask_def seq_def bnd_def\<close>)
  qed
qed

theorem s3_wait_bounded_witness:
  "\<exists>r t. wait_for_s3_reachable (8 + 100) store_down [''app_env'' \<mapsto> JStr ''production''] [] = (r, [] @ t) \<and>
     wait_for_s3_reachable 8 store_down [''app_env'' \<mapsto> JStr ''production''] [] = (r, [] @ t) \<and>
     wait_ends store_down r \<and> probes t \<le> 9 \<and> slept t \<le> 121 \<and> last t = Close ProbeS3"
  by (rule s3_wait_bounded) (simp add: conf_def)

text \<open>
  C34. A process in the web role starts no background loop: whatever raises and whatever the
  other settings say, no action of its start-up is the start of a sync, scrape or metrics loop.
\<close>

theorem web_role_starts_no_loop:
  assumes "conf s ''app_role'' = JStr ''web''"
  shows "\<exists>t. snd (startup naps orc env s tr) = tr @ t \<and> list_all not_start t"
proof -
  have "\<not> runs_background_jobs s" using assms by (simp add: runs_background_jobs_def)
  then show ?thesis using web_startup_emits [of s naps orc env] by (simp add: emits_def)
qed

theorem web_role_starts_no_loop_witness:
  "\<exists>t. snd (startup 0 quiet Map.empty ((map_of CLASS_DEFAULTS)(''app_role'' \<mapsto> JStr ''web'')) []) = [] @ t \<and> list_all not_start t"
  by (rule web_role_starts_no_loop) (simp add: conf_def)

text \<open>
  C26. What a successful start-up brought to life the shutdown closes: whatever the closes
  themselves raise (short of a cancellation), the shutdown returns after attempting every one
  of them, in reverse order of the subsystems, and every client connected, object built or loop
  started since the process began is among what has been closed.
\<close>

theorem lifespan_releases:
  assumes "startup naps orc env s [] = (Inr app, up)" "not_killed orc"
  shows "shutdown orc s app up = (Inr (), up @ map Close (closes s app)) \<and>
     {r. Some r \<in> opens ` set up} \<subseteq> {r. Close r \<in> set (up @ map Close (closes s app))}"
proof
  show "shutdown orc s app up = (Inr (), up @ map Close (closes s app))"
    using shutdown_plays [OF assms(2)] by (simp add: plays_def)
  have app: "s3_ready s" "app = app_of env s" using startup_Inr [OF assms(1)] by blast+
  obtain t where "up = [] @ t" "list_all (opens_only (insert ProbeS3 (set (closes s app)))) t"
    using emitsD [OF startup_opens [OF app(1)] assms(1)] unfolding app(2) by blast
  then have "\<forall>a \<in> set up. opens_only (insert ProbeS3 (set (closes s app))) a" by (simp add: list_all_iff)
  then have "r = ProbeS3 \<or> r \<in> set (closes s app)" if "Some r \<in> opens ` set up" for r
    using that by (fastforce simp: opens_only_def split: option.splits)
  then show "{r. Some r \<in> opens ` set up} \<subseteq> {r. Close r \<in> set (up @ map Close (closes s app))}"
    using startup_waits [OF assms(1)] by (auto simp del: image_iff)
qed

theorem lifespan_releases_witness:
  "\<exists>s app up. boot (Some (Json SHIPPED)) (map_of SHIPPED_ENV) = Inr s \<and>
     startup 0 quiet (map_of SHIPPED_ENV) s [] = (Inr app, up) \<and>
     shutdown quiet s app up = (Inr (), up @ map Close (closes s app)) \<and>
     {r. Some r \<in> opens ` set up} \<subseteq> {r. Close r \<in> set (up @ map Close (closes s app))}"
proof -
  obtain s where s: "boot (Some (Json SHIPPED)) (map_of SHIPPED_ENV) = Inr s" "s3_ready s"
    using shipped_ready by blast
  obtain up where up: "startup 0 quiet (map_of SHIPPED_ENV) s [] = (Inr (app_of (map_of SHIPPED_ENV) s), up)"
    using quiet_startup [OF s(2)] by blast
  have "not_killed quiet" by (simp add: not_killed_def quiet_def)
  from lifespan_releases [OF up this] show ?thesis using s(1) up by blast
qed

text \<open>
  C35. A process whose settings do not configure the object store never finishes its start-up,
  in any mode and any role: the point-value strategy is built unconditionally and its
  constructor refuses a missing client. The branches for an unconfigured store that follow
  (the base map's relay mode, the stations without a keystore) are never reached.
\<close>

theorem no_store_no_startup:
  assumes "\<not> s3_ready s"
  shows "fst (startup naps orc env s tr) \<noteq> Inr app"
  using startup_Inr [of naps orc env s tr app] assms by (metis prod.collapse)

theorem no_store_no_startup_witness:
  "fst (startup 0 quiet Map.empty (map_of CLASS_DEFAULTS) []) \<noteq> Inr (app_of Map.empty (map_of CLASS_DEFAULTS))"
  by (rule no_store_no_startup)
     (simp add: s3_ready_def is_s3_configured_def and_also_def attr_true_def getattr_def CLASS_DEFAULTS_def
        INFRA_DEFAULTS_def)

end
