(* ===== verification/Station_Keystore.thy ===== *)
theory Station_Keystore
  imports S3_Mirror
begin

text \<open>
  The API keys of the weather stations (\<^verbatim>\<open>clients/weather_stations_keystore.py\<close>): one object
  per key, named by the hash of its secret, and a cache of positive validations per process.

  The state of an operation is the world and the validation cache. The hash, the clock, the
  random generators and Python's \<^verbatim>\<open>str\<close> of a JSON value that is not a string are parameters.
  The lock of the cache serialises single dictionary accesses and is not modelled.
\<close>

section \<open>State\<close>

record api_key_record =
  ak_key_id :: string
  ak_label :: string
  ak_created_at :: int
  ak_last_used_at :: "int option"

record created_api_key =
  ck_key_id :: string
  ck_label :: string
  ck_secret :: string
  ck_created_at :: int

type_synonym validation_cache = "(string \<times> rat) list"

record 'w keystore =
  ke_s3 :: "'w s3"
  ke_sha256 :: "string \<Rightarrow> string"               \<comment> \<open>the hex digest\<close>
  ke_time :: "'w \<Rightarrow> rat \<times> 'w"
  ke_token_hex :: "nat \<Rightarrow> 'w \<Rightarrow> string \<times> 'w"
  ke_randbelow :: "nat \<Rightarrow> 'w \<Rightarrow> nat \<times> 'w"    \<comment> \<open>what \<^verbatim>\<open>secrets.choice\<close> picks with\<close>
  ke_str :: "json \<Rightarrow> string"

definition KEY_PREFIX :: string where "KEY_PREFIX = ''keys/''"
definition OBJECT_SUFFIX :: string where "OBJECT_SUFFIX = ''.json''"
definition VALIDATION_CACHE_TTL_SECONDS :: rat where "VALIDATION_CACHE_TTL_SECONDS = 60"
definition DEFAULT_SECRET_LENGTH :: nat where "DEFAULT_SECRET_LENGTH = 43"

definition ALPHABET :: string where
  "ALPHABET = ''abcdefghijklmnopqrstuvwxyzABCDEFGHIJKLMNOPQRSTUVWXYZ0123456789''"

definition SecretAlreadyInUseError :: exn where
  "SecretAlreadyInUseError = OtherError ''SecretAlreadyInUseError''"

definition key_object :: "string \<Rightarrow> string" where
  "key_object key_hash = KEY_PREFIX @ key_hash @ OBJECT_SUFFIX"

definition extract_hash_from_object_key :: "string \<Rightarrow> string option" where
  "extract_hash_from_object_key object_key =
     (if \<not> startswith object_key KEY_PREFIX \<or> \<not> endswith object_key OBJECT_SUFFIX then None
      else let h = take (length object_key - length OBJECT_SUFFIX - length KEY_PREFIX) (drop (length KEY_PREFIX) object_key)
           in if h = [] then None else Some h)"

fun pick_chars :: "'w keystore \<Rightarrow> nat \<Rightarrow> 'w \<Rightarrow> string \<times> 'w" where
  "pick_chars K 0 w = ([], w)"
| "pick_chars K (Suc n) w =
     (case ke_randbelow K (length ALPHABET) w of (i, w1) \<Rightarrow>
        case pick_chars K n w1 of (s, w2) \<Rightarrow> ((ALPHABET ! i) # s, w2))"

definition generate_secret :: "'w keystore \<Rightarrow> 'w \<Rightarrow> string \<times> 'w" where
  "generate_secret K = pick_chars K DEFAULT_SECRET_LENGTH"

section \<open>Records\<close>

definition encode_record :: "string \<Rightarrow> string \<Rightarrow> int \<Rightarrow> int option \<Rightarrow> pybytes" where
  "encode_record key_id label created_at last_used_at =
     Json (JObj [(''key_id'', JStr key_id), (''label'', JStr label), (''created_at'', JInt created_at),
                 (''last_used_at'', case last_used_at of None \<Rightarrow> JNull | Some t \<Rightarrow> JInt t)])"

text \<open>\<^verbatim>\<open>str(v)\<close> and \<^verbatim>\<open>int(v)\<close> of a JSON value; \<^const>\<open>None\<close> is a \<^verbatim>\<open>TypeError\<close> or \<^verbatim>\<open>ValueError\<close>.\<close>

fun json_str :: "'w keystore \<Rightarrow> json \<Rightarrow> string" where
  "json_str K (JStr s) = s"
| "json_str K v = ke_str K v"

fun json_int :: "json \<Rightarrow> int option" where
  "json_int (JInt n) = Some n"
| "json_int (JBool b) = Some (if b then 1 else 0)"
| "json_int (JFloat q) = Some (py_trunc q)"
| "json_int (JStr s) = py_int s"
| "json_int _ = None"

definition decode_record :: "'w keystore \<Rightarrow> pybytes \<Rightarrow> api_key_record option" where
  "decode_record K body =
     (case json_loads body of
        Some (JObj kvs) \<Rightarrow>
          (case (map_of kvs ''key_id'', map_of kvs ''label'', map_of kvs ''created_at'') of
             (Some k, Some l, Some c) \<Rightarrow>
               (case json_int c of
                  None \<Rightarrow> None
                | Some created \<Rightarrow>
                    let rec = (\<lambda>u. Some \<lparr> ak_key_id = json_str K k, ak_label = json_str K l,
                                       ak_created_at = created, ak_last_used_at = u \<rparr>)
                    in (case map_of kvs ''last_used_at'' of
                          None \<Rightarrow> rec None
                        | Some JNull \<Rightarrow> rec None
                        | Some v \<Rightarrow> (case json_int v of None \<Rightarrow> None | Some t \<Rightarrow> rec (Some t))))
           | _ \<Rightarrow> None)
      | _ \<Rightarrow> None)"

section \<open>Minting\<close>

definition keystore_clock :: "'w keystore \<Rightarrow> ('w, rat) io" where
  "keystore_clock K w = (case ke_time K w of (t, w') \<Rightarrow> (Inr t, w'))"

definition store_new_secret :: "'w keystore \<Rightarrow> string \<Rightarrow> string \<Rightarrow> bool \<Rightarrow> ('w, created_api_key) io" where
  "store_new_secret K label secret allow_new_only =
     (let key_hash = ke_sha256 K secret
      in bnd (if allow_new_only then object_exists (ke_s3 K) (key_object key_hash) else ret False) (\<lambda>taken.
         if taken then raise SecretAlreadyInUseError
         else bnd (\<lambda>w. case ke_token_hex K 8 w of (i, w') \<Rightarrow> (Inr i, w')) (\<lambda>key_id.
              bnd (keystore_clock K) (\<lambda>t.
                let created_at = py_trunc t
                in seq (upload_tile (ke_s3 K) (key_object key_hash) (encode_record key_id label created_at None)
                          ''application/json'')
                       (ret \<lparr> ck_key_id = key_id, ck_label = label, ck_secret = secret, ck_created_at = created_at \<rparr>)))))"

definition create :: "'w keystore \<Rightarrow> string \<Rightarrow> ('w, created_api_key) io" where
  "create K label =
     bnd (\<lambda>w. case generate_secret K w of (s, w') \<Rightarrow> (Inr s, w')) (\<lambda>secret. store_new_secret K label secret False)"

definition add_custom :: "'w keystore \<Rightarrow> string \<Rightarrow> string \<Rightarrow> ('w, created_api_key) io" where
  "add_custom K label secret = store_new_secret K label secret True"

section \<open>Listing and revoking\<close>

definition list_all_keys :: "'w keystore \<Rightarrow> ('w, api_key_record list) io" where
  "list_all_keys K =
     bnd (list_object_keys (ke_s3 K) KEY_PREFIX) (\<lambda>object_keys.
     bnd (for_each object_keys (download_tile (ke_s3 K))) (\<lambda>bodies.
       ret (sorted_desc_key ak_created_at
              (List.map_filter (\<lambda>body. Option.bind body (decode_record K)) bodies))))"

definition drop_cached :: "string \<Rightarrow> validation_cache \<Rightarrow> validation_cache" where
  "drop_cached object_key cache =
     (case extract_hash_from_object_key object_key of
        None \<Rightarrow> cache | Some h \<Rightarrow> filter (\<lambda>(k, t). k \<noteq> h) cache)"

fun revoke_scan :: "'w keystore \<Rightarrow> string \<Rightarrow> string list \<Rightarrow> ('w \<times> validation_cache, bool) io" where
  "revoke_scan K key_id [] = ret False"
| "revoke_scan K key_id (object_key # rest) =
     bnd (on_world2 (download_tile (ke_s3 K) object_key)) (\<lambda>body.
       case Option.bind body (decode_record K) of
         None \<Rightarrow> revoke_scan K key_id rest
       | Some record \<Rightarrow>
           if ak_key_id record \<noteq> key_id then revoke_scan K key_id rest
           else seq (on_world2 (delete_object (ke_s3 K) object_key))
               (seq (on_state2 (drop_cached object_key)) (ret True)))"

definition revoke :: "'w keystore \<Rightarrow> string \<Rightarrow> ('w \<times> validation_cache, bool) io" where
  "revoke K key_id =
     bnd (on_world2 (list_object_keys (ke_s3 K) KEY_PREFIX)) (revoke_scan K key_id)"

section \<open>Validation\<close>

definition best_effort_touch :: "'w keystore \<Rightarrow> string \<Rightarrow> api_key_record \<Rightarrow> rat \<Rightarrow> ('w, unit) io" where
  "best_effort_touch K key_hash record now =
     bnd (catching any_exception
            (upload_tile (ke_s3 K) (key_object key_hash)
               (encode_record (ak_key_id record) (ak_label record) (ak_created_at record) (Some (py_trunc now)))
               ''application/json'')) (\<lambda>_. ret ())"

definition cache_fresh :: "validation_cache \<Rightarrow> string \<Rightarrow> rat \<Rightarrow> bool" where
  "cache_fresh cache key_hash now = (case map_of cache key_hash of None \<Rightarrow> False | Some expiry \<Rightarrow> expiry > now)"

text \<open>Up to the touch: the verdict, and what is left to do.\<close>

definition check_secret ::
  "'w keystore \<Rightarrow> string \<Rightarrow> ('w \<times> validation_cache, bool \<times> (string \<times> api_key_record \<times> rat) option) io" where
  "check_secret K presented_secret =
     (if presented_secret = [] then ret (False, None)
      else let key_hash = ke_sha256 K presented_secret
        in bnd (on_world2 (keystore_clock K)) (\<lambda>now.
           bnd (reads snd) (\<lambda>cache.
             if cache_fresh cache key_hash now then ret (True, None)
             else bnd (on_world2 (download_tile (ke_s3 K) (key_object key_hash))) (\<lambda>body.
               case Option.bind body (decode_record K) of
                 None \<Rightarrow> ret (False, None)
               | Some record \<Rightarrow>
                   seq (on_state2 (\<lambda>cache. dict_set cache key_hash (now + VALIDATION_CACHE_TTL_SECONDS)))
                       (ret (True, Some (key_hash, record, now)))))))"

definition is_valid :: "'w keystore \<Rightarrow> string \<Rightarrow> ('w \<times> validation_cache, bool) io" where
  "is_valid K presented_secret =
     bnd (check_secret K presented_secret) (\<lambda>(verdict, todo).
       case todo of
         None \<Rightarrow> ret verdict
       | Some (key_hash, record, now) \<Rightarrow> seq (on_world2 (best_effort_touch K key_hash record now)) (ret verdict))"

section \<open>Facts about names and records\<close>

lemma key_object_inject: "key_object h = key_object h' \<longleftrightarrow> h = h'"
  by (simp add: key_object_def)

lemma extract_hash_key_object: "h \<noteq> [] \<Longrightarrow> extract_hash_from_object_key (key_object h) = Some h"
  by (simp add: extract_hash_from_object_key_def key_object_def KEY_PREFIX_def OBJECT_SUFFIX_def
      startswith_def endswith_def suffix_def Let_def)

lemma decode_encode_record:
  "decode_record K (encode_record k l c u) =
     Some \<lparr> ak_key_id = k, ak_label = l, ak_created_at = c, ak_last_used_at = u \<rparr>"
  by (cases u) (simp_all add: decode_record_def encode_record_def)

lemma pick_chars_alphabet:
  assumes "\<And>n w. 0 < n \<Longrightarrow> fst (ke_randbelow K n w) < n"
  shows "length (fst (pick_chars K n w)) = n \<and> set (fst (pick_chars K n w)) \<subseteq> set ALPHABET"
proof (induction n arbitrary: w)
  case (Suc n)
  obtain i w1 where r: "ke_randbelow K (length ALPHABET) w = (i, w1)" by (cases "ke_randbelow K (length ALPHABET) w")
  obtain s w2 where p: "pick_chars K n w1 = (s, w2)" by (cases "pick_chars K n w1")
  have "i < length ALPHABET" using assms [of "length ALPHABET" w] r by (simp add: ALPHABET_def)
  then show ?case using Suc [of w1] r p by auto
qed simp

section \<open>The key bucket\<close>

text \<open>A secret is issued when the bucket holds a readable record under its hash.\<close>

definition issued :: "'w keystore \<Rightarrow> bucket \<Rightarrow> string \<Rightarrow> bool" where
  "issued K b secret =
     (case b (key_object (ke_sha256 K secret)) of None \<Rightarrow> False | Some d \<Rightarrow> decode_record K d \<noteq> None)"

text \<open>
  The object store with deletion, under clocks and generators that leave it alone. A deletion
  that raises has deleted or not.
\<close>

locale key_bucket = object_store S \<beta>
  for S :: "'w s3" and \<beta> +
  fixes K :: "'w keystore"
  assumes keystore_s3: "ke_s3 K = S"
    and delete_returns: "b_delete_object S k w = (Inr (), w') \<Longrightarrow> \<beta> w' = (\<beta> w)(k := None)"
    and delete_raises: "b_delete_object S k w = (Inl e, w') \<Longrightarrow> \<beta> w' = \<beta> w \<or> \<beta> w' = (\<beta> w)(k := None)"
    and clock_keeps: "ke_time K w = (t, w') \<Longrightarrow> \<beta> w' = \<beta> w"
begin

lemma keystore_clock_keeps [frame]: "keeps \<beta> (keystore_clock K)"
  using clock_keeps by (auto simp: keeps_def keystore_clock_def split: prod.splits)

lemma upload_tile_returns:
  assumes "upload_tile S k d ct w = (Inr (), w')" shows "\<beta> w' = (\<beta> w)(k \<mapsto> d)"
proof -
  obtain w1 where c: "ensure_connected S w = (Inr (), w1)" and p: "b_put_object S k d ct w1 = (Inr (), w')"
    using assms by (auto simp: upload_tile_def seq_apply split: prod.splits sum.splits)
  then show ?thesis using ensure_connected_keeps [OF c] put_returns [OF p] by simp
qed

lemma delete_object_returns:
  assumes "delete_object S k w = (Inr True, w')" shows "\<beta> w' = (\<beta> w)(k := None)"
proof -
  obtain w1 where c: "ensure_connected S w = (Inr (), w1)" and p: "b_delete_object S k w1 = (Inr (), w')"
    using assms
    by (auto simp: delete_object_def seq_apply bnd_apply catching_def split: prod.splits sum.splits if_splits)
  then show ?thesis using ensure_connected_keeps [OF c] delete_returns [OF p] by simp
qed

lemma check_secret_spec:
  assumes run: "check_secret K s (w, cache) = (Inr (v, todo), (w', cache'))"
    and now: "ke_time K w = (now, w1)"
  shows "\<beta> w' = \<beta> w"
    and "v \<Longrightarrow> s \<noteq> [] \<and> (cache_fresh cache (ke_sha256 K s) now \<or> issued K (\<beta> w) s)"
    and "s \<noteq> [] \<Longrightarrow> cache_fresh cache (ke_sha256 K s) now
           \<or> fst (download_tile S (key_object (ke_sha256 K s)) w1) = Inr (\<beta> w (key_object (ke_sha256 K s))) \<and> issued K (\<beta> w) s
           \<Longrightarrow> v"
proof -
  let ?h = "ke_sha256 K s"
  have clk: "keystore_clock K w = (Inr now, w1)" using now by (simp add: keystore_clock_def)
  have b1: "\<beta> w1 = \<beta> w" using clock_keeps [OF now] .
  obtain d w2 where dl: "download_tile S (key_object ?h) w1 = (d, w2)" by (cases "download_tile S (key_object ?h) w1")
  have b2: "\<beta> w2 = \<beta> w" using keepsD [OF download_tile_keeps dl] b1 by simp
  note unf = check_secret_def Let_def bnd_apply seq_apply on_world2_def on_state2_def clk dl keystore_s3
  show "\<beta> w' = \<beta> w"
    using run b1 b2 by (auto simp: unf split: if_splits sum.splits option.splits)
  show "s \<noteq> [] \<and> (cache_fresh cache ?h now \<or> issued K (\<beta> w) s)" if vt: v
  proof (cases "s = [] \<or> cache_fresh cache ?h now")
    case False
    then obtain body where d: "d = Inr (Some body)" "decode_record K body \<noteq> None"
      using run vt by (auto simp: unf split: sum.splits option.splits bind_splits)
    then show ?thesis using False download_tile_sound [of "key_object ?h" w1 body w2] dl b1
      by (auto simp: issued_def)
  qed (use run vt in \<open>auto simp: unf\<close>)
  show v if "s \<noteq> []" "cache_fresh cache ?h now
      \<or> fst (download_tile S (key_object ?h) w1) = Inr (\<beta> w (key_object ?h)) \<and> issued K (\<beta> w) s"
    using run that by (auto simp: unf issued_def split: if_splits sum.splits option.splits bind_splits)
qed

lemma is_valid_check:
  assumes "is_valid K s ws = (Inr v, ws')"
  obtains todo ws1 where "check_secret K s ws = (Inr (v, todo), ws1)"
  using assms
  by (auto simp: is_valid_def bnd_apply seq_apply split: prod.splits sum.splits option.splits if_splits)

end

section \<open>Revocation\<close>

context key_bucket
begin

lemma delete_object_effect:
  assumes "delete_object S k w = (r, w')" shows "\<beta> w' = \<beta> w \<or> \<beta> w' = (\<beta> w)(k := None)"
proof -
  obtain c w1 where c: "ensure_connected S w = (c, w1)" by (cases "ensure_connected S w")
  obtain x w2 where x: "b_delete_object S k w1 = (x, w2)" by (cases "b_delete_object S k w1")
  have "\<beta> w2 = \<beta> w1 \<or> \<beta> w2 = (\<beta> w1)(k := None)"
    using delete_returns [of k w1 w2] delete_raises [of k w1 _ w2] x by (cases x) auto
  then show ?thesis
    using assms c x ensure_connected_keeps [OF c]
    by (auto simp: delete_object_def seq_apply bnd_apply catching_def split: sum.splits if_splits)
qed

lemma list_object_keys_listed:
  assumes "list_object_keys S pfx w = (Inr keys, w')"
  shows "set keys \<subseteq> {k \<in> dom (\<beta> w). Sublist.prefix pfx k}"
proof -
  obtain x w1 where x: "list_objects S pfx [] w = (x, w1)" by (cases "list_objects S pfx [] w")
  then show ?thesis
    using assms list_objects_returns [of pfx "[]" w _ w1]
    by (cases x) (auto simp: list_object_keys_def bnd_apply catching_def listed_def split: if_splits)
qed

lemma revoke_scan_spec:
  assumes "revoke_scan K kid keys (w, cache) = (Inr True, (w', cache'))"
  shows "\<exists>k \<in> set keys. \<exists>d r w1 b. \<beta> w1 = \<beta> w \<and> \<beta> w k = Some d \<and> decode_record K d = Some r \<and> ak_key_id r = kid
           \<and> delete_object S k w1 = (b, w') \<and> cache' = drop_cached k cache"
  using assms
proof (induction keys arbitrary: w)
  case (Cons k rest)
  obtain x w1 where x: "download_tile S k w = (x, w1)" by (cases "download_tile S k w")
  have b1: "\<beta> w1 = \<beta> w" using keepsD [OF download_tile_keeps x] .
  show ?case
  proof (cases "\<exists>d r. x = Inr (Some d) \<and> decode_record K d = Some r \<and> ak_key_id r = kid")
    case True
    then obtain d r where d: "x = Inr (Some d)" "decode_record K d = Some r" "ak_key_id r = kid" by blast
    have "\<beta> w k = Some d" using download_tile_sound x d(1) by simp
    moreover obtain b w2 where b: "delete_object S k w1 = (b, w2)" by (cases "delete_object S k w1")
    ultimately show ?thesis
      using Cons.prems x d b1
      by (auto simp: on_world2_def on_state2_def bnd_apply seq_apply keystore_s3 split: sum.splits)
  next
    case False
    then have "revoke_scan K kid rest (w1, cache) = (Inr True, (w', cache'))"
      using Cons.prems x
      by (auto simp: on_world2_def bnd_apply keystore_s3 split: sum.splits option.splits bind_splits if_splits)
    from Cons.IH [OF this] show ?thesis using b1 by auto
  qed
qed simp

lemma revoke_spec:
  assumes "revoke K kid (w, cache) = (Inr True, (w', cache'))"
  obtains k d r where "Sublist.prefix KEY_PREFIX k" "\<beta> w k = Some d" "decode_record K d = Some r" "ak_key_id r = kid"
    "\<beta> w' = \<beta> w \<or> \<beta> w' = (\<beta> w)(k := None)" "cache' = drop_cached k cache"
proof -
  obtain keys w1 where l: "list_object_keys S KEY_PREFIX w = (Inr keys, w1)"
    and s: "revoke_scan K kid keys (w1, cache) = (Inr True, (w', cache'))"
    using assms by (auto simp: revoke_def on_world2_def bnd_apply keystore_s3 split: prod.splits sum.splits)
  have b: "\<beta> w1 = \<beta> w" using keepsD [OF list_object_keys_keeps l] .
  obtain k d r w2 x where k: "k \<in> set keys" "\<beta> w2 = \<beta> w1" "\<beta> w1 k = Some d" "decode_record K d = Some r"
      "ak_key_id r = kid" "delete_object S k w2 = (x, w')" "cache' = drop_cached k cache"
    using revoke_scan_spec [OF s] by blast
  show thesis
    using that [of k d r] k b list_object_keys_listed [OF l] delete_object_effect [OF k(6)] by auto
qed

lemma drop_cached_forgets: "h \<noteq> [] \<Longrightarrow> \<not> cache_fresh (drop_cached (key_object h) cache) h now"
proof -
  assume "h \<noteq> []"
  moreover have "map_of (filter (\<lambda>(k, t). k \<noteq> h) cache) h = None"
    by (auto simp: map_of_eq_None_iff)
  ultimately show ?thesis by (simp add: drop_cached_def extract_hash_key_object cache_fresh_def)
qed

lemma revoked_rejected:
  assumes rev: "revoke K kid (w, cache) = (Inr True, (w', cache'))"
    and own: "\<And>k d r. \<beta> w k = Some d \<Longrightarrow> decode_record K d = Some r \<Longrightarrow> ak_key_id r = kid \<Longrightarrow>
                Sublist.prefix KEY_PREFIX k \<Longrightarrow> k = key_object (ke_sha256 K s)"
    and gone: "\<beta> w' (key_object (ke_sha256 K s)) = None" and digest: "ke_sha256 K s \<noteq> []"
    and val: "is_valid K s (w', cache') = (Inr v, ws)"
  shows "\<not> v \<and> (\<forall>k. k \<noteq> key_object (ke_sha256 K s) \<longrightarrow> \<beta> w' k = \<beta> w k)"
proof -
  let ?h = "ke_sha256 K s"
  obtain k d r where k: "Sublist.prefix KEY_PREFIX k" "\<beta> w k = Some d" "decode_record K d = Some r" "ak_key_id r = kid"
    and e: "\<beta> w' = \<beta> w \<or> \<beta> w' = (\<beta> w)(k := None)" and c: "cache' = drop_cached k cache"
    using revoke_spec [OF rev] by blast
  have "k = key_object ?h" using own k by blast
  obtain todo w2 cache2 where ch: "check_secret K s (w', cache') = (Inr (v, todo), (w2, cache2))"
    using is_valid_check [OF val] by (metis prod.exhaust)
  obtain now w1 where now: "ke_time K w' = (now, w1)" by (cases "ke_time K w'")
  have "\<not> v"
    using check_secret_spec(2) [OF ch now] gone drop_cached_forgets [OF digest] c \<open>k = key_object ?h\<close>
    by (auto simp: issued_def)
  then show ?thesis using e \<open>k = key_object ?h\<close> by auto
qed

end

section \<open>An instance\<close>

text \<open>The bucket in memory with a counter: a clock that ticks, a toy digest and generators.\<close>

definition tick :: "(bucket \<times> nat) \<Rightarrow> rat \<times> (bucket \<times> nat)" where
  "tick w = (of_nat (snd w), (fst w, Suc (snd w)))"

definition demo_keystore :: "(bucket \<times> nat) s3 \<Rightarrow> (bucket \<times> nat) keystore" where
  "demo_keystore S =
     \<lparr> ke_s3 = S, ke_sha256 = (\<lambda>s. CHR ''h'' # s), ke_time = tick, ke_token_hex = (\<lambda>n w. (replicate n (CHR ''a''), w)),
       ke_randbelow = (\<lambda>n w. (0, w)), ke_str = (\<lambda>v. []) \<rparr>"

text \<open>A bucket that refuses deletions.\<close>

definition stuck_s3 :: "(bucket \<times> nat) s3" where
  "stuck_s3 = mem_s3\<lparr> b_delete_object := (\<lambda>k. raise (ClientError ''AccessDenied'')) \<rparr>"

interpretation mem_keys: key_bucket mem_s3 fst "demo_keystore mem_s3"
  by unfold_locales
     (auto simp: mem_s3_def demo_keystore_def tick_def mem_listing_def members_of_def finite_listed
      split: option.splits if_splits)

interpretation stuck_keys: key_bucket stuck_s3 fst "demo_keystore stuck_s3"
  by unfold_locales
     (auto simp: mem_s3_def stuck_s3_def demo_keystore_def tick_def mem_listing_def members_of_def finite_listed
      split: option.splits if_splits)

definition demo_record :: pybytes where
  "demo_record = encode_record ''k1'' ''app'' 5 None"

definition demo_key :: string where
  "demo_key = key_object ''hpw''"

definition demo_keys_world :: "bucket \<times> nat" where
  "demo_keys_world = ([demo_key \<mapsto> demo_record], 7)"

lemma demo_keystore_parts:
  "ke_s3 (demo_keystore S) = S" "ke_sha256 (demo_keystore S) = (\<lambda>s. CHR ''h'' # s)"
  "ke_time (demo_keystore S) = tick"
  by (simp_all add: demo_keystore_def)

lemma mem_key_calls:
  "download_tile mem_s3 k w = (Inr (fst w k), w)"
  "upload_tile mem_s3 k d ct w = (Inr (), ((fst w)(k \<mapsto> d), snd w))"
  "delete_object mem_s3 k w = (Inr True, ((fst w)(k := None), snd w))"
  "download_tile stuck_s3 k w = (Inr (fst w k), w)"
  "delete_object stuck_s3 k w = (Inr False, w)"
  by (auto simp: download_tile_def upload_tile_def delete_object_def ensure_connected_def mem_s3_def stuck_s3_def
      any_exception_def catching_def bnd_apply seq_apply infra_error.simps split: option.splits)

lemma demo_listing:
  "list_object_keys mem_s3 KEY_PREFIX demo_keys_world = (Inr [demo_key], demo_keys_world)"
  "list_object_keys stuck_s3 KEY_PREFIX demo_keys_world = (Inr [demo_key], demo_keys_world)"
proof -
  have "listed KEY_PREFIX [] [demo_key \<mapsto> demo_record] = {demo_key}"
    by (auto simp: listed_def demo_key_def key_object_def)
  moreover have "\<not> endswith demo_key ''/''"
    by (simp add: demo_key_def key_object_def KEY_PREFIX_def OBJECT_SUFFIX_def endswith_def suffix_def)
  ultimately show
    "list_object_keys mem_s3 KEY_PREFIX demo_keys_world = (Inr [demo_key], demo_keys_world)"
    "list_object_keys stuck_s3 KEY_PREFIX demo_keys_world = (Inr [demo_key], demo_keys_world)"
    by (simp_all add: list_object_keys_def list_objects_def require_client_def mem_s3_def stuck_s3_def
        demo_keys_world_def mem_listing_def members_of_single catching_def bnd_apply seq_apply)
qed

lemma demo_decode:
  "decode_record K demo_record =
     Some \<lparr> ak_key_id = ''k1'', ak_label = ''app'', ak_created_at = 5, ak_last_used_at = None \<rparr>"
  by (simp add: demo_record_def decode_encode_record)

lemma demo_revoke:
  "revoke (demo_keystore mem_s3) ''k1'' (demo_keys_world, [(''hpw'', 60)])
     = (Inr True, ((Map.empty, 7), []))"
  by (simp add: revoke_def on_world2_def on_state2_def bnd_apply seq_apply demo_keystore_parts demo_listing mem_key_calls
      demo_decode)
     (simp add: demo_keys_world_def demo_decode drop_cached_def demo_key_def extract_hash_key_object mem_key_calls
      bnd_apply seq_apply on_world2_def on_state2_def demo_keystore_parts)

lemma demo_revoke_stuck:
  "revoke (demo_keystore stuck_s3) ''k1'' (demo_keys_world, [(''hpw'', 60)])
     = (Inr True, (demo_keys_world, []))"
  by (simp add: revoke_def on_world2_def on_state2_def bnd_apply seq_apply demo_keystore_parts demo_listing mem_key_calls
      demo_decode)
     (simp add: demo_keys_world_def demo_decode drop_cached_def demo_key_def extract_hash_key_object mem_key_calls
      bnd_apply seq_apply on_world2_def on_state2_def demo_keystore_parts)

context key_bucket
begin

text \<open>A revocation whose deletions change nothing changes nothing.\<close>

lemma revoke_keeps:
  assumes inert: "\<And>k w1 r w2. delete_object S k w1 = (r, w2) \<Longrightarrow> \<beta> w2 = \<beta> w1"
    and rev: "revoke K kid (w, cache) = (Inr True, (w', cache'))"
  shows "\<beta> w' = \<beta> w"
proof -
  obtain keys w1 where l: "list_object_keys S KEY_PREFIX w = (Inr keys, w1)"
    and s: "revoke_scan K kid keys (w1, cache) = (Inr True, (w', cache'))"
    using rev by (auto simp: revoke_def on_world2_def bnd_apply keystore_s3 split: prod.splits sum.splits)
  show ?thesis
    using revoke_scan_spec [OF s] inert keepsD [OF list_object_keys_keeps l] by metis
qed

end

section \<open>Properties\<close>



text \<open>
  C7. A revoked key is rejected at once by the worker that revoked it: when \<^verbatim>\<open>revoke\<close> returns
  \<^verbatim>\<open>True\<close>, the id belongs to the key of the secret only and its object is gone, the next
  validation of the secret returns \<^verbatim>\<open>False\<close>, whatever the validation cache held before; and no
  other object of the bucket was touched.
\<close>

theorem revoked_key_is_rejected:
  assumes "key_bucket S \<beta> K" "revoke K kid (w, cache) = (Inr True, (w', cache'))"
    and "\<And>k d r. \<beta> w k = Some d \<Longrightarrow> decode_record K d = Some r \<Longrightarrow> ak_key_id r = kid \<Longrightarrow>
           Sublist.prefix KEY_PREFIX k \<Longrightarrow> k = key_object (ke_sha256 K s)"
    and "\<beta> w' (key_object (ke_sha256 K s)) = None" "ke_sha256 K s \<noteq> []"
    and "is_valid K s (w', cache') = (Inr v, ws)"
  shows "\<not> v \<and> (\<forall>k. k \<noteq> key_object (ke_sha256 K s) \<longrightarrow> \<beta> w' k = \<beta> w k)"
  using key_bucket.revoked_rejected [OF assms(1,2) _ assms(4-6)] assms(3) by blast

theorem revoked_key_is_rejected_witness:
  "cache_fresh [(''hpw'', 60)] ''hpw'' 7
   \<and> fst (is_valid (demo_keystore mem_s3) ''pw''
        (snd (revoke (demo_keystore mem_s3) ''k1'' (demo_keys_world, [(''hpw'', 60)])))) = Inr False"
proof -
  let ?K = "demo_keystore mem_s3"
  have v: "is_valid ?K ''pw'' ((Map.empty, 7), []) = (Inr False, ((Map.empty, 8), []))"
    by (simp add: is_valid_def check_secret_def on_world2_def on_state2_def keystore_clock_def
        bnd_apply seq_apply catching_def cache_fresh_def demo_keystore_parts tick_def mem_key_calls Let_def)
  have "\<not> False \<and> (\<forall>k. k \<noteq> key_object (ke_sha256 ?K ''pw'') \<longrightarrow> fst (Map.empty, 7 :: nat) k = fst demo_keys_world k)"
    by (rule revoked_key_is_rejected [OF mem_keys.key_bucket_axioms demo_revoke _ _ _ v])
       (auto simp: demo_keys_world_def demo_keystore_parts demo_key_def split: if_splits)
  then show ?thesis using v by (simp add: demo_revoke cache_fresh_def)
qed

text \<open>
  A revocation that deletes nothing reports success: the result of the deletion is not looked
  at, so on a bucket that refuses deletions \<^verbatim>\<open>revoke\<close> may return \<^verbatim>\<open>True\<close>, the bucket is unchanged,
  and every secret issued before is still issued.
\<close>

theorem revoke_reports_failed_delete:
  assumes "key_bucket S \<beta> K" "\<And>k w. b_delete_object S k w = (Inl e, w)"
    and "revoke K kid (w, cache) = (Inr True, (w', cache'))"
  shows "\<beta> w' = \<beta> w \<and> (\<forall>s. issued K (\<beta> w') s \<longleftrightarrow> issued K (\<beta> w) s)"
proof -
  have "\<beta> w2 = \<beta> w1" if "delete_object S k w1 = (r, w2)" for k w1 r w2
    using that assms(2) keepsD [OF object_store.ensure_connected_frame_rule [OF key_bucket.axioms(1) [OF assms(1)]]]
    by (auto simp: delete_object_def seq_apply bnd_apply catching_def split: prod.splits sum.splits if_splits)
  then have "\<beta> w' = \<beta> w" by (rule key_bucket.revoke_keeps [OF assms(1) _ assms(3)])
  then show ?thesis by simp
qed

theorem revoke_reports_failed_delete_witness:
  "issued (demo_keystore stuck_s3) (fst demo_keys_world) ''pw''
   \<and> fst (revoke (demo_keystore stuck_s3) ''k1'' (demo_keys_world, [(''hpw'', 60)])) = Inr True
   \<and> issued (demo_keystore stuck_s3)
        (fst (fst (snd (revoke (demo_keystore stuck_s3) ''k1'' (demo_keys_world, [(''hpw'', 60)]))))) ''pw''"
proof -
  have i: "issued (demo_keystore stuck_s3) (fst demo_keys_world) ''pw''"
    by (simp add: issued_def demo_keystore_parts demo_keys_world_def demo_key_def demo_decode)
  have "fst demo_keys_world = fst demo_keys_world
      \<and> (\<forall>s. issued (demo_keystore stuck_s3) (fst demo_keys_world) s
            \<longleftrightarrow> issued (demo_keystore stuck_s3) (fst demo_keys_world) s)"
    by (rule revoke_reports_failed_delete [OF stuck_keys.key_bucket_axioms _ demo_revoke_stuck])
       (simp add: stuck_s3_def)
  then show ?thesis using i by (simp add: demo_revoke_stuck)
qed

text \<open>
  A validation in progress can bring a revoked key back: after its lookup, a validation
  re-uploads the record to note its use. When the key is revoked between the two, the upload puts
  the object back, and the secret is issued again although \<^verbatim>\<open>revoke\<close> returned \<^verbatim>\<open>True\<close> and had deleted
  it.
\<close>

theorem touch_revives_revoked_key:
  assumes "key_bucket S \<beta> K"
    and "check_secret K s (w, cache) = (Inr (True, Some (h, r, now)), (w1, cache1))"
    and "revoke K kid (w1, cache1) = (Inr True, (w2, cache2))" "\<not> issued K (\<beta> w2) s"
    and "fst (upload_tile S (key_object h)
           (encode_record (ak_key_id r) (ak_label r) (ak_created_at r) (Some (py_trunc now))) ''application/json'' w2) = Inr ()"
  shows "issued K (\<beta> (snd (best_effort_touch K h r now w2))) s"
proof -
  let ?d = "encode_record (ak_key_id r) (ak_label r) (ak_created_at r) (Some (py_trunc now))"
  obtain w3 where u: "upload_tile S (key_object h) ?d ''application/json'' w2 = (Inr (), w3)"
    using assms(5) by (metis prod.collapse)
  have h: "h = ke_sha256 K s"
    using assms(2)
    by (auto simp: check_secret_def Let_def bnd_apply seq_apply on_world2_def on_state2_def
        split: if_splits prod.splits sum.splits option.splits)
  have "best_effort_touch K h r now w2 = (Inr (), w3)"
    using u key_bucket.keystore_s3 [OF assms(1)] by (simp add: best_effort_touch_def bnd_apply catching_def)
  moreover have "\<beta> w3 = (\<beta> w2)(key_object h \<mapsto> ?d)" by (rule key_bucket.upload_tile_returns [OF assms(1) u])
  ultimately show ?thesis by (simp add: issued_def h decode_encode_record)
qed

lemma demo_check:
  "check_secret (demo_keystore mem_s3) ''pw'' (demo_keys_world, [])
     = (Inr (True, Some (''hpw'', \<lparr> ak_key_id = ''k1'', ak_label = ''app'', ak_created_at = 5, ak_last_used_at = None \<rparr>, 7)),
        (([demo_key \<mapsto> demo_record], 8), [(''hpw'', 67)]))"
  by (simp add: check_secret_def on_world2_def on_state2_def keystore_clock_def VALIDATION_CACHE_TTL_SECONDS_def
        bnd_apply seq_apply cache_fresh_def demo_keystore_parts tick_def demo_keys_world_def mem_key_calls
        demo_key_def demo_decode Let_def)

theorem touch_revives_revoked_key_witness:
  "let r = \<lparr> ak_key_id = ''k1'', ak_label = ''app'', ak_created_at = 5, ak_last_used_at = None \<rparr>;
       K = demo_keystore mem_s3
   in issued K (fst (snd (best_effort_touch K ''hpw'' r 7 (Map.empty, 8)))) ''pw''"
proof -
  have l: "list_object_keys mem_s3 KEY_PREFIX ([demo_key \<mapsto> demo_record], 8 :: nat)
      = (Inr [demo_key], ([demo_key \<mapsto> demo_record], 8))"
    using demo_listing(1) unfolding demo_keys_world_def
    by (simp add: list_object_keys_def list_objects_def require_client_def mem_s3_def catching_def bnd_apply seq_apply
        split: if_splits)
  have rv: "revoke (demo_keystore mem_s3) ''k1'' (([demo_key \<mapsto> demo_record], 8), [(''hpw'', 67)])
      = (Inr True, ((Map.empty, 8), []))"
    by (simp add: revoke_def on_world2_def on_state2_def bnd_apply seq_apply demo_keystore_parts l mem_key_calls
        demo_decode)
       (simp add: drop_cached_def demo_key_def extract_hash_key_object)
  show ?thesis unfolding Let_def
    by (rule touch_revives_revoked_key [OF mem_keys.key_bucket_axioms demo_check rv])
       (simp_all add: issued_def mem_key_calls)
qed

end
