(* ===== verification/Station_Registry.thy ===== *)
theory Station_Registry
  imports Station_Series
begin

text \<open>
  The parser of the station registry (\<^verbatim>\<open>services/smn_stations_registry.py\<close>): a table of fixed-width
  text with two header lines, in which a name longer than its column continues on the next
  lines. Coordinates are exact fractions of a degree; the range of floats is not modelled.
\<close>

section \<open>Text\<close>

definition LF :: char where "LF = CHR 0x0A"
definition CR :: char where "CR = CHR 0x0D"

text \<open>\<^verbatim>\<open>content.replace("\r\n", "\n")\<close>.\<close>

fun replace_crlf :: "string \<Rightarrow> string" where
  "replace_crlf [] = []"
| "replace_crlf [x] = [x]"
| "replace_crlf (x # y # xs) =
     (if x = CR \<and> y = LF then LF # replace_crlf xs else x # replace_crlf (y # xs))"

text \<open>\<^verbatim>\<open>text.split()\<close>: the runs of characters that are not whitespace.\<close>

function split_ws :: "string \<Rightarrow> string list" where
  "split_ws s =
     (let t = dropWhile py_isspace s
      in if t = [] then []
         else takeWhile (\<lambda>c. \<not> py_isspace c) t # split_ws (dropWhile (\<lambda>c. \<not> py_isspace c) t))"
  by auto
termination
proof (relation "measure length")
  fix s t :: string
  assume t: "t = dropWhile py_isspace s" "t \<noteq> []"
  obtain c u where c: "t = c # u" using t(2) by (meson neq_Nil_conv)
  then have "\<not> py_isspace c" using t hd_dropWhile [of py_isspace s] by simp
  then have "length (dropWhile (\<lambda>c. \<not> py_isspace c) t) \<le> length u"
    using c length_dropWhile_le by simp
  also have "\<dots> < length s" using c t(1) length_dropWhile_le [of py_isspace s] by simp
  finally show "(dropWhile (\<lambda>c. \<not> py_isspace c) t, s) \<in> measure length" by simp
qed simp

declare split_ws.simps [simp del]

definition py_rstrip_ws :: "string \<Rightarrow> string" where
  "py_rstrip_ws s = rev (dropWhile py_isspace (rev s))"

definition ljust :: "nat \<Rightarrow> string \<Rightarrow> string" where
  "ljust n s = s @ replicate (n - length s) (CHR '' '')"

section \<open>Rows\<close>

record station_metadata =
  sm_station_id :: int
  sm_name :: string
  sm_province :: string
  sm_latitude :: rat
  sm_longitude :: rat
  sm_altitude_meters :: int
  sm_oaci_code :: "string option"

definition NAME_COLUMN_WIDTH :: nat where "NAME_COLUMN_WIDTH = 30"

definition dms_to_decimal :: "int \<Rightarrow> int \<Rightarrow> rat" where
  "dms_to_decimal deg minutes = (let sgn = (if deg < 0 then - 1 else 1) in of_int deg + sgn * (of_int minutes / 60))"

text \<open>The number groups \<^verbatim>\<open>-?\d+\<close> and the code \<^verbatim>\<open>[A-Z0-9]+\<close> of the row pattern.\<close>

fun signed_digits :: "string \<Rightarrow> bool" where
  "signed_digits [] = False"
| "signed_digits (c # cs) = (if c = CHR ''-'' then py_isdigit cs else py_isdigit (c # cs))"

definition oaci_chars :: "string \<Rightarrow> bool" where
  "oaci_chars s = (s \<noteq> [] \<and> list_all (\<lambda>c. is_digit c \<or> (65 \<le> (of_char c :: nat) \<and> (of_char c :: nat) \<le> 90)) s)"

record row_match =
  rm_province :: string
  rm_lat_deg :: string
  rm_lat_min :: string
  rm_lon_deg :: string
  rm_lon_min :: string
  rm_altura :: string
  rm_nro :: string
  rm_oaci :: "string option"

definition number_groups :: "string \<Rightarrow> string \<Rightarrow> string \<Rightarrow> string \<Rightarrow> string \<Rightarrow> string \<Rightarrow> bool" where
  "number_groups a b c d e f =
     (signed_digits a \<and> py_isdigit b \<and> signed_digits c \<and> py_isdigit d \<and> signed_digits e \<and> py_isdigit f)"

text \<open>
  The pattern after the province. Its groups contain no whitespace and are separated by
  whitespace, so each takes a whole word and the match, when there is one, is unique.
\<close>

definition match_after_province :: "string \<Rightarrow> string \<Rightarrow> row_match option" where
  "match_after_province province rest =
     (if length (takeWhile py_isspace rest) < 2 then None
      else case split_ws rest of
        [a, b, c, d, e, f] \<Rightarrow>
          if number_groups a b c d e f then Some (row_match.make province a b c d e f None) else None
      | [a, b, c, d, e, f, g] \<Rightarrow>
          if number_groups a b c d e f \<and> oaci_chars g then Some (row_match.make province a b c d e f (Some g)) else None
      | _ \<Rightarrow> None)"

text \<open>
  \<^verbatim>\<open>_ROW_TAIL_RE.match\<close>: the leading \<^verbatim>\<open>\s*\<close> gives up characters only when nothing else matches,
  the province \<^verbatim>\<open>.+?\<close> grows one character at a time. A line has no newline.
\<close>

fun first_some :: "('a \<Rightarrow> 'b option) \<Rightarrow> 'a list \<Rightarrow> 'b option" where
  "first_some f [] = None"
| "first_some f (x # xs) = (case f x of None \<Rightarrow> first_some f xs | Some y \<Rightarrow> Some y)"

definition match_from :: "string \<Rightarrow> nat \<Rightarrow> row_match option" where
  "match_from tail k =
     first_some (\<lambda>i. match_after_province (take (i - k) (drop k tail)) (drop i tail)) [Suc k..<Suc (length tail)]"

definition match_row_tail :: "string \<Rightarrow> row_match option" where
  "match_row_tail tail = first_some (match_from tail) (rev [0..<Suc (length (takeWhile py_isspace tail))])"

text \<open>The \<^verbatim>\<open>int(..)\<close> conversions; \<^const>\<open>None\<close> is the \<^verbatim>\<open>ValueError\<close> that skips the row.\<close>

definition station_of_match :: "string \<Rightarrow> row_match \<Rightarrow> station_metadata option" where
  "station_of_match name m =
     (case (py_int (rm_nro m), py_int (rm_lat_deg m), py_int (rm_lat_min m),
            py_int (rm_lon_deg m), py_int (rm_lon_min m), py_int (rm_altura m)) of
        (Some nro, Some lat_deg, Some lat_min, Some lon_deg, Some lon_min, Some altura) \<Rightarrow>
          Some \<lparr> sm_station_id = nro, sm_name = py_strip name, sm_province = py_strip (rm_province m),
                 sm_latitude = dms_to_decimal lat_deg lat_min, sm_longitude = dms_to_decimal lon_deg lon_min,
                 sm_altitude_meters = altura, sm_oaci_code = rm_oaci m \<rparr>
      | _ \<Rightarrow> None)"

definition continue_name :: "string \<Rightarrow> station_metadata list \<Rightarrow> station_metadata list" where
  "continue_name sfx parsed =
     (if parsed = [] \<or> sfx = [] then parsed
      else let prev = last parsed
           in butlast parsed @ [prev \<lparr> sm_name := py_strip (sm_name prev @ sfx) \<rparr>])"

definition parse_line :: "string \<Rightarrow> station_metadata list \<Rightarrow> station_metadata list" where
  "parse_line raw_line parsed =
     (if py_strip raw_line = [] then parsed
      else let padded = (if length raw_line \<ge> NAME_COLUMN_WIDTH then raw_line else ljust NAME_COLUMN_WIDTH raw_line);
               tail = drop NAME_COLUMN_WIDTH padded
           in if py_strip tail = [] then continue_name (py_rstrip_ws (take NAME_COLUMN_WIDTH padded)) parsed
              else case match_row_tail tail of
                None \<Rightarrow> parsed
              | Some m \<Rightarrow>
                  (case station_of_match (take NAME_COLUMN_WIDTH padded) m of
                     None \<Rightarrow> parsed
                   | Some st \<Rightarrow> parsed @ [st]))"

definition parse_estaciones_txt :: "string \<Rightarrow> station_metadata list" where
  "parse_estaciones_txt content =
     (let raw_lines = py_split LF (replace_char CR [LF] (replace_crlf content));
          data_lines = drop 2 raw_lines
      in fold parse_line data_lines [])"

definition station_to_json :: "station_metadata \<Rightarrow> json" where
  "station_to_json s =
     JObj [ (''station_id'', JInt (sm_station_id s)), (''name'', JStr (sm_name s)), (''province'', JStr (sm_province s)),
            (''latitude'', JFloat (sm_latitude s)), (''longitude'', JFloat (sm_longitude s)),
            (''altitude_meters'', JInt (sm_altitude_meters s)),
            (''oaci_code'', case sm_oaci_code s of None \<Rightarrow> JNull | Some c \<Rightarrow> JStr c) ]"

definition station_metadata_to_jsonable :: "station_metadata list \<Rightarrow> json list" where
  "station_metadata_to_jsonable stations = map station_to_json stations"

section \<open>The layout of the table\<close>

text \<open>
  One row of the table as its publisher lays it out: the name in a column of 30, the rest of a
  longer name on continuation lines of 30, every other field in a column of its own, padded to
  any width and separated by blanks, at least two after the province.
\<close>

record registry_row =
  rr_name :: string
  rr_province :: string
  rr_lat :: "int \<times> nat"
  rr_lon :: "int \<times> nat"
  rr_altitude :: int
  rr_number :: nat
  rr_oaci :: "string option"

fun pieces :: "nat \<Rightarrow> string \<Rightarrow> string list" where
  "pieces n s = (if n = 0 \<or> s = [] then [] else take n s # pieces n (drop n s))"

declare pieces.simps [simp del]

definition columns :: "(nat \<Rightarrow> nat) \<Rightarrow> registry_row \<Rightarrow> string" where
  "columns w r =
     ljust (w 1) (str_of_int (fst (rr_lat r))) @ '' '' @ ljust (w 2) (str_of_nat (snd (rr_lat r))) @ '' ''
     @ ljust (w 3) (str_of_int (fst (rr_lon r))) @ '' '' @ ljust (w 4) (str_of_nat (snd (rr_lon r))) @ '' ''
     @ ljust (w 5) (str_of_int (rr_altitude r)) @ '' '' @ ljust (w 6) (str_of_nat (rr_number r)) @ '' ''
     @ (case rr_oaci r of None \<Rightarrow> [] | Some c \<Rightarrow> ljust (w 7) c)"

definition row_tail :: "(nat \<Rightarrow> nat) \<Rightarrow> registry_row \<Rightarrow> string" where
  "row_tail w r = '' '' @ ljust (w 0) (rr_province r) @ ''  '' @ columns w r"

definition row_lines :: "(nat \<Rightarrow> nat) \<Rightarrow> registry_row \<Rightarrow> string list" where
  "row_lines w r =
     (ljust 30 (take 30 (rr_name r)) @ row_tail w r) # pieces 30 (drop 30 (rr_name r))"

definition registry_text :: "(nat \<Rightarrow> nat) \<Rightarrow> string \<Rightarrow> string \<Rightarrow> registry_row list \<Rightarrow> string" where
  "registry_text w h1 h2 rows = py_join [LF] (h1 # h2 # concat (map (row_lines w) rows))"

text \<open>
  What a row says. Degrees and minutes are a distance from the equator or the meridian, to the
  south or west under a minus sign. A name is laid out in pieces of 30, and blanks at the end of a
  column cannot be told from padding.
\<close>

definition coordinate :: "int \<times> nat \<Rightarrow> rat" where
  "coordinate p =
     (let away = of_int \<bar>fst p\<bar> + of_nat (snd p) / 60 in if fst p < 0 then - away else away)"

definition kept_name :: "string \<Rightarrow> string" where
  "kept_name s = concat (map py_rstrip_ws (pieces 30 s))"

definition row_station :: "registry_row \<Rightarrow> station_metadata" where
  "row_station r =
     \<lparr> sm_station_id = int (rr_number r), sm_name = kept_name (rr_name r), sm_province = rr_province r,
       sm_latitude = coordinate (rr_lat r), sm_longitude = coordinate (rr_lon r),
       sm_altitude_meters = rr_altitude r, sm_oaci_code = rr_oaci r \<rparr>"

definition one_line :: "string \<Rightarrow> bool" where
  "one_line s = (LF \<notin> set s \<and> CR \<notin> set s)"

text \<open>
  A name is trimmed; a province is trimmed and has no two blanks in a row.
\<close>

definition trimmed :: "string \<Rightarrow> bool" where
  "trimmed s = (s \<noteq> [] \<and> \<not> py_isspace (hd s) \<and> \<not> py_isspace (last s))"

fun double_blank :: "string \<Rightarrow> bool" where
  "double_blank (x # y # s) = ((py_isspace x \<and> py_isspace y) \<or> double_blank (y # s))"
| "double_blank _ = False"

definition wf_row :: "registry_row \<Rightarrow> bool" where
  "wf_row r =
     (trimmed (rr_name r) \<and> one_line (rr_name r)
      \<and> trimmed (rr_province r) \<and> one_line (rr_province r)
      \<and> \<not> double_blank (rr_province r)
      \<and> (case rr_oaci r of None \<Rightarrow> True | Some c \<Rightarrow> oaci_chars c))"

section \<open>Lemmas on text\<close>

lemma space_blank [simp]: "py_isspace (CHR '' '')"
  by (simp add: py_isspace_def)

lemma split_ws_Nil [simp]: "split_ws [] = []"
  by (simp add: split_ws.simps)

lemma split_ws_blanks: "list_all py_isspace s \<Longrightarrow> split_ws (s @ u) = split_ws u"
  by (subst (1 2) split_ws.simps) (simp add: dropWhile_append list_all_iff)

lemma split_ws_blank [simp]: "split_ws (CHR '' '' # u) = split_ws u"
  using split_ws_blanks [of "'' ''" u] by simp

lemma split_ws_word:
  assumes "t \<noteq> []" "list_all (\<lambda>c. \<not> py_isspace c) t" "u = [] \<or> py_isspace (hd u)"
  shows "split_ws (t @ u) = t # split_ws u"
proof -
  obtain c cs where c: "t = c # cs" using assms(1) by (cases t) auto
  have d: "dropWhile py_isspace (t @ u) = t @ u" using c assms(2) by simp
  have "takeWhile (\<lambda>c. \<not> py_isspace c) u = []" "dropWhile (\<lambda>c. \<not> py_isspace c) u = u"
    using assms(3) by (cases u; simp)+
  then have "takeWhile (\<lambda>c. \<not> py_isspace c) (t @ u) = t" "dropWhile (\<lambda>c. \<not> py_isspace c) (t @ u) = u"
    using assms(2) by (simp_all add: list_all_iff dropWhile_append)
  then show ?thesis using assms(1) by (subst split_ws.simps) (simp add: d)
qed

lemma split_ws_ljust:
  assumes "t \<noteq> []" "list_all (\<lambda>c. \<not> py_isspace c) t"
  shows "split_ws (ljust n t @ CHR '' '' # u) = t # split_ws u" "split_ws (ljust n t) = [t]"
proof -
  have r: "list_all py_isspace (replicate m (CHR '' ''))" for m by (simp add: list_all_iff)
  have h: "v = [] \<or> py_isspace (hd v) \<Longrightarrow>
      replicate m (CHR '' '') @ v = [] \<or> py_isspace (hd (replicate m (CHR '' '') @ v))" for v m
    by (cases m) simp_all
  show "split_ws (ljust n t @ CHR '' '' # u) = t # split_ws u"
    using split_ws_word [OF assms h [of "CHR '' '' # u" "n - length t"]] split_ws_blanks [OF r]
    by (simp add: ljust_def)
  show "split_ws (ljust n t) = [t]"
    using split_ws_word [OF assms h [of "[]" "n - length t"]] split_ws_blanks [OF r, of _ "[]"]
    by (simp add: ljust_def)
qed

lemma digits_no_space: "list_all is_digit s \<Longrightarrow> list_all (\<lambda>c. \<not> py_isspace c) s"
  by (auto simp: list_all_iff dest: is_digit_not_space)

lemma str_of_int_word: "list_all (\<lambda>c. \<not> py_isspace c) (str_of_int i)"
  using str_of_int_no_space by (auto simp: list_all_iff)

lemma str_of_nat_word: "list_all (\<lambda>c. \<not> py_isspace c) (str_of_nat n)"
  using digits_no_space str_of_nat_all_digits by blast

lemma oaci_word: "oaci_chars c \<Longrightarrow> c \<noteq> [] \<and> list_all (\<lambda>x. \<not> py_isspace x) c"
  by (auto simp: oaci_chars_def list_all_iff py_isspace_def is_digit_def)

lemma py_isdigit_str_of_nat [simp]: "py_isdigit (str_of_nat n)"
  by (simp add: py_isdigit_def str_of_nat_all_digits)

lemma signed_digits_str_of_int [simp]: "signed_digits (str_of_int i)"
proof (cases "i < 0")
  case False
  obtain c cs where c: "str_of_nat (nat i) = c # cs" by (cases "str_of_nat (nat i)") auto
  have "py_isdigit (c # cs)" using py_isdigit_str_of_nat [of "nat i"] c by simp
  then show ?thesis using False c is_digit_ne(1) [of c] by (auto simp: str_of_int_def py_isdigit_def)
qed (simp add: str_of_int_def)

lemma py_int_str_of_nat [simp]: "py_int (str_of_nat n) = Some (int n)"
  using py_int_str_of_int [of "int n"] by (simp add: str_of_int_def)

lemma split_ws_columns:
  assumes "case rr_oaci r of None \<Rightarrow> True | Some c \<Rightarrow> oaci_chars c"
  shows "split_ws (columns w r) =
    [str_of_int (fst (rr_lat r)), str_of_nat (snd (rr_lat r)), str_of_int (fst (rr_lon r)), str_of_nat (snd (rr_lon r)),
     str_of_int (rr_altitude r), str_of_nat (rr_number r)] @ (case rr_oaci r of None \<Rightarrow> [] | Some c \<Rightarrow> [c])"
  using assms
  by (auto simp: columns_def split_ws_ljust str_of_int_word str_of_nat_word oaci_word split: option.splits)

section \<open>Lemmas on rows\<close>

lemma first_some_append: "first_some f (xs @ ys) = (case first_some f xs of None \<Rightarrow> first_some f ys | Some y \<Rightarrow> Some y)"
  by (induction xs) (auto split: option.splits)

lemma first_some_None: "first_some f xs = None \<longleftrightarrow> (\<forall>x \<in> set xs. f x = None)"
  by (induction xs) (auto split: option.splits)

lemma first_some_upt:
  assumes "a \<le> i" "i < b" "f i = Some y" "\<And>j. a \<le> j \<Longrightarrow> j < i \<Longrightarrow> f j = None"
  shows "first_some f [a..<b] = Some y"
proof -
  have "[a..<b] = [a..<i] @ i # [Suc i..<b]" using assms(1,2) by (simp add: upt_conv_Cons [symmetric] upt_add_eq_append [symmetric] flip: upt_conv_Cons) (metis le_add_diff_inverse less_or_eq_imp_le upt_add_eq_append upt_conv_Cons)
  moreover have "first_some f [a..<i] = None" using assms(4) by (simp add: first_some_None)
  ultimately show ?thesis using assms(3) by (simp add: first_some_append)
qed

lemma two_leading:
  "2 \<le> length (takeWhile py_isspace s) \<Longrightarrow> 2 \<le> length s \<and> py_isspace (s ! 0) \<and> py_isspace (s ! 1)"
  by (cases s; cases "tl s") (auto split: if_splits)

lemma no_double_blank:
  "\<not> double_blank s \<Longrightarrow> i < length s - 1 \<Longrightarrow> \<not> (py_isspace (s ! i) \<and> py_isspace (s ! Suc i))"
proof (induction s arbitrary: i rule: double_blank.induct)
  case (1 x y s)
  then show ?case by (cases i) auto
qed auto

lemma match_row_tail_row:
  assumes "wf_row r"
  shows "match_row_tail (row_tail w r) =
    Some (row_match.make (rr_province r) (str_of_int (fst (rr_lat r))) (str_of_nat (snd (rr_lat r)))
       (str_of_int (fst (rr_lon r))) (str_of_nat (snd (rr_lon r))) (str_of_int (rr_altitude r)) (str_of_nat (rr_number r)) (rr_oaci r))"
    (is "_ = Some ?m")
proof -
  let ?p = "rr_province r"
  define pad where "pad = replicate (w 0 - length ?p) (CHR '' '') @ ''  ''"
  have tail: "row_tail w r = CHR '' '' # ?p @ pad @ columns w r"
    by (simp add: row_tail_def ljust_def pad_def)
  have p: "?p \<noteq> []" "\<not> py_isspace (hd ?p)" "\<not> py_isspace (last ?p)"
    and nn: "\<And>i. i < length ?p - 1 \<Longrightarrow> \<not> (py_isspace (?p ! i) \<and> py_isspace (?p ! Suc i))"
    using assms no_double_blank [of ?p] by (auto simp: wf_row_def trimmed_def)
  have pad: "list_all py_isspace pad" "2 \<le> length pad" by (simp_all add: pad_def list_all_iff)
  have one: "length (takeWhile py_isspace (row_tail w r)) = 1"
    using p by (cases ?p) (simp_all add: tail)
  have hit: "match_after_province ?p (pad @ columns w r) = Some ?m"
  proof -
    have "length pad \<le> length (takeWhile py_isspace (pad @ columns w r))"
      using pad(1) by (simp add: list_all_iff)
    then have "\<not> length (takeWhile py_isspace (pad @ columns w r)) < 2" using pad(2) by linarith
    moreover have "case rr_oaci r of None \<Rightarrow> True | Some c \<Rightarrow> oaci_chars c" using assms by (simp add: wf_row_def)
    ultimately show ?thesis
      by (auto simp: match_after_province_def split_ws_blanks [OF pad(1)] split_ws_columns number_groups_def
          split: option.splits)
  qed
  have miss: "match_after_province q (drop j (row_tail w r)) = None" if j: "Suc 1 \<le> j" "j < Suc (length ?p)" for q j
  proof -
    obtain k where k: "j = Suc k" "1 \<le> k" "k < length ?p" using j by (cases j) auto
    have s: "drop j (row_tail w r) = drop k ?p @ pad @ columns w r" using k by (simp add: tail)
    have "\<not> 2 \<le> length (takeWhile py_isspace (drop j (row_tail w r)))"
    proof
      assume "2 \<le> length (takeWhile py_isspace (drop j (row_tail w r)))"
      then have b: "py_isspace ((drop k ?p @ pad @ columns w r) ! 0)" "py_isspace ((drop k ?p @ pad @ columns w r) ! 1)"
        using two_leading s by auto
      show False
      proof (cases "k = length ?p - 1")
        case True
        then show False using b(1) p k by (simp add: nth_append last_conv_nth)
      next
        case False
        then have "k < length ?p - 1" "Suc k < length ?p" "1 < length ?p - k" using k by linarith+
        then show False using b nn [of k] by (simp add: nth_append)
      qed
    qed
    then show ?thesis by (simp add: match_after_province_def)
  qed
  have "match_from (row_tail w r) 1 = Some ?m"
    unfolding match_from_def
  proof (rule first_some_upt [where i = "Suc (length ?p)"])
    show "match_after_province (take (Suc (length ?p) - 1) (drop 1 (row_tail w r))) (drop (Suc (length ?p)) (row_tail w r)) = Some ?m"
      using hit by (simp add: tail)
  qed (use miss p in \<open>auto simp: tail Suc_le_eq\<close>)
  then show ?thesis unfolding match_row_tail_def one by simp
qed


lemma py_strip_blank_iff: "py_strip s = [] \<longleftrightarrow> list_all py_isspace s"
proof -
  have "dropWhile py_isspace s = [] \<or> \<not> py_isspace (hd (dropWhile py_isspace s))"
    using hd_dropWhile by blast
  then show ?thesis
    by (cases "dropWhile py_isspace s")
       (auto simp: py_strip_def list_all_iff dest: set_dropWhileD, metis list.set_intros(1) set_dropWhileD)
qed

lemma py_rstrip_ws_id: "s = [] \<or> \<not> py_isspace (last s) \<Longrightarrow> py_rstrip_ws s = s"
  by (cases s rule: rev_cases) (auto simp: py_rstrip_ws_def)

lemma dropWhile_blanks: "list_all P v \<Longrightarrow> dropWhile P (v @ u) = dropWhile P u"
  by (induction v) auto

lemma py_rstrip_ws_ljust: "s = [] \<or> \<not> py_isspace (last s) \<Longrightarrow> py_rstrip_ws (ljust n s) = s"
  using py_rstrip_ws_id [of s]
  by (simp add: py_rstrip_ws_def ljust_def dropWhile_blanks list_all_iff)

lemma py_strip_ljust:
  assumes "trimmed s"
  shows "py_strip (ljust n s) = s"
proof -
  have "dropWhile py_isspace (ljust n s) = ljust n s"
    using assms by (cases s) (auto simp: trimmed_def ljust_def)
  then show ?thesis
    using assms py_rstrip_ws_ljust [of s n] by (simp add: py_strip_def py_rstrip_ws_def trimmed_def)
qed

lemma length_ljust: "length (ljust n s) = max n (length s)"
  by (simp add: ljust_def)

lemma row_tail_not_blank: "wf_row r \<Longrightarrow> py_strip (row_tail w r) \<noteq> []"
  by (cases "rr_province r") (auto simp: py_strip_blank_iff wf_row_def trimmed_def row_tail_def ljust_def)

definition named :: "registry_row \<Rightarrow> string \<Rightarrow> station_metadata" where
  "named r n = (row_station r) \<lparr> sm_name := n \<rparr>"

lemma py_rstrip_ws_last: "py_rstrip_ws s = [] \<or> \<not> py_isspace (last (py_rstrip_ws s))"
proof -
  have "dropWhile py_isspace (rev s) = [] \<or> \<not> py_isspace (hd (dropWhile py_isspace (rev s)))"
    using hd_dropWhile by blast
  then show ?thesis by (auto simp: py_rstrip_ws_def last_rev)
qed

lemma last_rstrip: "\<not> py_isspace (last n) \<Longrightarrow> \<not> py_isspace (last (n @ py_rstrip_ws p))"
  using py_rstrip_ws_last [of p] by (cases "py_rstrip_ws p = []") simp_all

lemma py_rstrip_ws_pad: "py_rstrip_ws (ljust n s) = py_rstrip_ws s"
  by (simp add: py_rstrip_ws_def ljust_def dropWhile_blanks list_all_iff)

lemma py_rstrip_ws_blank: "list_all py_isspace s \<Longrightarrow> py_rstrip_ws s = []"
  by (simp add: py_rstrip_ws_def list_all_iff)

lemma py_rstrip_ws_hd:
  assumes "s \<noteq> []" "\<not> py_isspace (hd s)"
  shows "py_rstrip_ws s \<noteq> [] \<and> hd (py_rstrip_ws s) = hd s"
proof -
  obtain c cs where s: "s = c # cs" using assms(1) by (cases s) auto
  then show ?thesis using assms(2) dropWhile_append3 [of py_isspace c "rev cs"]
    by (cases "dropWhile py_isspace (rev cs)") (simp_all add: py_rstrip_ws_def dropWhile_append)
qed

lemma first_column:
  assumes "wf_row r"
  shows "py_strip (ljust 30 (take 30 (rr_name r))) = py_rstrip_ws (take 30 (rr_name r))"
    and "py_rstrip_ws (take 30 (rr_name r)) \<noteq> []" and "\<not> py_isspace (hd (py_rstrip_ws (take 30 (rr_name r))))"
proof -
  let ?t = "take 30 (rr_name r)"
  have t: "?t \<noteq> []" "\<not> py_isspace (hd ?t)" using assms by (auto simp: wf_row_def trimmed_def hd_take)
  then have "dropWhile py_isspace (ljust 30 ?t) = ljust 30 ?t" by (cases ?t) (auto simp: ljust_def)
  then have "py_strip (ljust 30 ?t) = py_rstrip_ws (ljust 30 ?t)" by (simp add: py_strip_def py_rstrip_ws_def)
  then show "py_strip (ljust 30 ?t) = py_rstrip_ws ?t" by (simp add: py_rstrip_ws_pad)
  show "py_rstrip_ws ?t \<noteq> []" "\<not> py_isspace (hd (py_rstrip_ws ?t))" using py_rstrip_ws_hd [OF t] t by simp_all
qed

lemma dms_coordinate: "dms_to_decimal d (int m) = coordinate (d, m)"
  by (simp add: dms_to_decimal_def coordinate_def Let_def)

lemma parse_line_first:
  assumes "wf_row r"
  shows "parse_line (ljust 30 (take 30 (rr_name r)) @ row_tail w r) parsed =
     parsed @ [named r (py_rstrip_ws (take 30 (rr_name r)))]"
proof -
  define a where "a = ljust 30 (take 30 (rr_name r))"
  have len: "length a = 30" by (simp add: a_def length_ljust)
  have strip: "py_strip a = py_rstrip_ws (take 30 (rr_name r))" using first_column(1) [OF assms] by (simp add: a_def)
  have nb: "py_strip (a @ row_tail w r) \<noteq> []" "py_strip (row_tail w r) \<noteq> []"
    using row_tail_not_blank [OF assms, of w] by (auto simp: py_strip_blank_iff)
  have prov: "py_strip (rr_province r) = rr_province r"
    using assms by (intro py_strip_id) (auto simp: wf_row_def trimmed_def)
  have "station_of_match a (row_match.make (rr_province r) (str_of_int (fst (rr_lat r))) (str_of_nat (snd (rr_lat r)))
       (str_of_int (fst (rr_lon r))) (str_of_nat (snd (rr_lon r))) (str_of_int (rr_altitude r)) (str_of_nat (rr_number r)) (rr_oaci r))
     = Some (named r (py_rstrip_ws (take 30 (rr_name r))))"
    by (simp add: station_of_match_def row_match.defs strip prov named_def row_station_def dms_coordinate)
  then show ?thesis
    unfolding a_def [symmetric]
    by (simp add: parse_line_def NAME_COLUMN_WIDTH_def Let_def len nb match_row_tail_row [OF assms])
qed

lemma parse_line_more:
  assumes p: "length p \<le> 30" and n: "n \<noteq> []" "\<not> py_isspace (hd n)" "\<not> py_isspace (last n)"
  shows "parse_line p (parsed @ [named r n]) = parsed @ [named r (n @ py_rstrip_ws p)]"
proof (cases "list_all py_isspace p")
  case True
  then show ?thesis by (simp add: parse_line_def py_strip_blank_iff py_rstrip_ws_blank)
next
  case False
  define a where "a = ljust 30 p"
  have len: "length a = 30" using p by (simp add: a_def length_ljust)
  have pad: "(if 30 \<le> length p then p else ljust 30 p) = a" using p by (simp add: a_def ljust_def)
  have nb: "py_strip p \<noteq> []" using False by (simp add: py_strip_blank_iff)
  have rs: "py_rstrip_ws a = py_rstrip_ws p" by (simp add: a_def py_rstrip_ws_pad)
  have "py_strip (n @ py_rstrip_ws p) = n @ py_rstrip_ws p"
    using n last_rstrip [OF n(3)] by (intro py_strip_id) auto
  then have c: "continue_name (py_rstrip_ws p) (parsed @ [named r n]) = parsed @ [named r (n @ py_rstrip_ws p)]"
    by (simp add: continue_name_def named_def)
  have "py_strip [] = []" by (simp add: py_strip_def)
  then show ?thesis
    unfolding parse_line_def NAME_COLUMN_WIDTH_def pad Let_def using nb c rs len by simp
qed

lemma parse_pieces:
  assumes "n \<noteq> []" "\<not> py_isspace (hd n)" "\<not> py_isspace (last n)"
  shows "fold parse_line (pieces 30 s) (parsed @ [named r n]) = parsed @ [named r (n @ kept_name s)]"
  using assms
proof (induction "30 :: nat" s arbitrary: n rule: pieces.induct)
  case (1 s)
  show ?case
  proof (cases "s = []")
    case False
    then have ps: "pieces 30 s = take 30 s # pieces 30 (drop 30 s)" by (subst pieces.simps) simp
    let ?n = "n @ py_rstrip_ws (take 30 s)"
    have "hd ?n = hd n" "\<not> py_isspace (last ?n)" using 1(2) last_rstrip [OF 1(4)] by simp_all
    moreover have "parse_line (take 30 s) (parsed @ [named r n]) = parsed @ [named r ?n]"
      using 1(2-4) by (intro parse_line_more) simp_all
    ultimately show ?thesis using 1(1) [of ?n] False 1(2,3) by (simp add: ps kept_name_def)
  qed (simp add: pieces.simps kept_name_def)
qed

lemma parse_row:
  assumes "wf_row r"
  shows "fold parse_line (row_lines w r) parsed = parsed @ [row_station r]"
proof -
  note t = first_column [OF assms]
  have "rr_name r \<noteq> []" using assms by (auto simp: wf_row_def trimmed_def)
  then have "kept_name (rr_name r) = py_rstrip_ws (take 30 (rr_name r)) @ kept_name (drop 30 (rr_name r))"
    by (simp add: kept_name_def) (subst pieces.simps, simp)
  then show ?thesis
    using parse_pieces [OF t(2,3), of "drop 30 (rr_name r)" parsed r] t(2) py_rstrip_ws_last [of "take 30 (rr_name r)"]
    by (simp add: row_lines_def parse_line_first [OF assms] named_def row_station_def)
qed

text \<open>A name is kept as it is exactly when no piece of it ends in a blank.\<close>

lemma concat_pieces: "0 < n \<Longrightarrow> concat (pieces n s) = s"
proof (induction n s rule: pieces.induct)
  case (1 n s)
  then show ?case by (subst pieces.simps) auto
qed

lemma py_rstrip_ws_prefix: "s = py_rstrip_ws s @ drop (length (py_rstrip_ws s)) s"
proof -
  have "s = py_rstrip_ws s @ rev (takeWhile py_isspace (rev s))"
    by (metis py_rstrip_ws_def rev_append rev_rev_ident takeWhile_dropWhile_id)
  then show ?thesis by (metis append_eq_conv_conj)
qed

lemma py_rstrip_ws_length: "length (py_rstrip_ws s) \<le> length s"
  by (simp add: py_rstrip_ws_def) (metis length_dropWhile_le length_rev)

lemma py_rstrip_ws_same: "py_rstrip_ws s = s \<longleftrightarrow> s = [] \<or> \<not> py_isspace (last s)"
  using py_rstrip_ws_id py_rstrip_ws_last by metis

lemma kept_name_same: "kept_name s = s \<longleftrightarrow> list_all (\<lambda>p. \<not> py_isspace (last p)) (pieces 30 s)"
proof -
  have nonempty: "[] \<notin> set (pieces 30 s)"
    by (induction "30 :: nat" s rule: pieces.induct) (subst pieces.simps, auto)
  have whole: "concat (pieces 30 s) = s" by (rule concat_pieces) simp
  have shorter: "length (concat (map py_rstrip_ws ps)) \<le> length (concat ps)" for ps
    by (induction ps) (auto intro: add_mono py_rstrip_ws_length)
  have "concat (map py_rstrip_ws ps) = concat ps \<longleftrightarrow> (\<forall>p \<in> set ps. py_rstrip_ws p = p)" for ps
  proof (induction ps)
    case (Cons p ps)
    show ?case
    proof (cases "py_rstrip_ws p = p")
      case False
      have "p = py_rstrip_ws p @ drop (length (py_rstrip_ws p)) p"
        using py_rstrip_ws_prefix by blast
      then have "length (py_rstrip_ws p) < length p" using False by (metis append_Nil2 drop_eq_Nil not_less)
      then have "length (concat (map py_rstrip_ws (p # ps))) < length (concat (p # ps))"
        using shorter [of ps] by simp
      then show ?thesis using False by (metis less_irrefl list.set_intros(1))
    qed (use Cons in simp)
  qed simp
  then show ?thesis
    using nonempty py_rstrip_ws_same by (metis (no_types, lifting) kept_name_def list_all_iff whole)
qed

section \<open>Lines\<close>

lemma replace_crlf_id: "CR \<notin> set s \<Longrightarrow> replace_crlf s = s"
  by (induction s rule: replace_crlf.induct) auto

lemma replace_char_id: "c \<notin> set s \<Longrightarrow> replace_char c r s = s"
  by (induction s) auto

lemma py_split_join:
  "ls \<noteq> [] \<Longrightarrow> (\<forall>l \<in> set ls. c \<notin> set l) \<Longrightarrow> py_split c (py_join [c] ls) = ls"
  by (induction ls rule: induct_list012) auto

lemma set_py_join: "set (py_join sep ls) \<subseteq> set sep \<union> (\<Union>l \<in> set ls. set l)"
  by (induction ls rule: induct_list012) auto

lemma one_line_simps [simp]:
  "one_line []" "one_line (a @ b) \<longleftrightarrow> one_line a \<and> one_line b" "one_line (x # b) \<longleftrightarrow> x \<noteq> LF \<and> x \<noteq> CR \<and> one_line b"
  "one_line (ljust n a) \<longleftrightarrow> one_line a"
  by (auto simp: one_line_def ljust_def LF_def CR_def)

lemma one_line_words:
  assumes "list_all (\<lambda>c. \<not> py_isspace c) s"
  shows "one_line s"
proof -
  have "py_isspace LF" "py_isspace CR" by (simp_all add: LF_def CR_def py_isspace_def)
  then show ?thesis using assms by (auto simp: one_line_def list_all_iff)
qed

lemma one_line_pieces: "one_line s \<Longrightarrow> l \<in> set (pieces n s) \<Longrightarrow> one_line l"
proof (induction n s rule: pieces.induct)
  case (1 n s)
  have "one_line (take n s)" "one_line (drop n s)"
    using 1(2) by (auto simp: one_line_def dest: in_set_takeD in_set_dropD)
  then show ?case using 1(1,3) by (subst (asm) pieces.simps) (auto split: if_splits)
qed

lemma one_line_row: "wf_row r \<Longrightarrow> l \<in> set (row_lines w r) \<Longrightarrow> one_line l"
proof -
  assume wf: "wf_row r" and l: "l \<in> set (row_lines w r)"
  have n: "one_line (take 30 (rr_name r))" "one_line (drop 30 (rr_name r))"
    using wf by (auto simp: wf_row_def one_line_def dest: in_set_takeD in_set_dropD)
  have b: "CHR '' '' \<noteq> LF" "CHR '' '' \<noteq> CR" by (simp_all add: LF_def CR_def)
  have "one_line (columns w r)" "one_line (rr_province r)"
    using wf by (auto simp: columns_def wf_row_def b one_line_words str_of_int_word str_of_nat_word oaci_word split: option.splits)
  then have "one_line (row_tail w r)" by (simp add: row_tail_def b)
  then show ?thesis using l n one_line_pieces by (auto simp: row_lines_def)
qed

lemma registry_text_lines:
  assumes "one_line h1" "one_line h2" "list_all wf_row rows"
  shows "py_split LF (replace_char CR [LF] (replace_crlf (registry_text w h1 h2 rows)))
         = h1 # h2 # concat (map (row_lines w) rows)"
proof -
  let ?ls = "h1 # h2 # concat (map (row_lines w) rows)"
  have ol: "\<forall>l \<in> set ?ls. one_line l" using assms one_line_row by (auto simp: list_all_iff)
  have "CR \<notin> set (registry_text w h1 h2 rows)"
    using ol set_py_join [of "[LF]" ?ls] unfolding registry_text_def one_line_def by (auto simp: LF_def CR_def)
  moreover have "py_split LF (registry_text w h1 h2 rows) = ?ls"
    unfolding registry_text_def using ol by (intro py_split_join) (auto simp: one_line_def)
  ultimately show ?thesis by (simp add: replace_crlf_id replace_char_id)
qed

lemma parse_registry_text:
  assumes "one_line h1" "one_line h2" "list_all wf_row rows"
  shows "parse_estaciones_txt (registry_text w h1 h2 rows) = map row_station rows"
proof -
  have "fold parse_line (concat (map (row_lines w) rows)) parsed = parsed @ map row_station rows" for parsed
    using assms(3) by (induction rows arbitrary: parsed) (simp_all add: parse_row)
  from this [of "[]"] show ?thesis
    by (simp add: parse_estaciones_txt_def registry_text_lines [OF assms])
qed

section \<open>Properties\<close>

text \<open>
  C0. Printing and parsing: a registry of well-formed rows, laid out in columns of any widths
  (names in lines of 30, every other field padded and separated), parses to exactly its stations in
  order: number, province, altitude, code, the coordinates as signed decimal degrees, and the name.
  The name is the one printed exactly when none of its lines of 30 ends in a blank; otherwise it is the
  lines put together without the blanks at their ends.
\<close>

theorem registry_roundtrip:
  assumes "one_line h1" "one_line h2" "list_all wf_row rows"
  shows "parse_estaciones_txt (registry_text w h1 h2 rows) = map row_station rows \<and>
    list_all (\<lambda>r. sm_name (row_station r) = rr_name r \<longleftrightarrow>
       list_all (\<lambda>p. \<not> py_isspace (last p)) (pieces 30 (rr_name r))) rows"
  using parse_registry_text [OF assms] by (simp add: row_station_def kept_name_same list_all_iff)

definition pena_row :: registry_row where
  "pena_row =
     \<lparr> rr_name = ''PRESIDENCIA ROQUE SAENZ PENA AERO'', rr_province = ''TIERRA DEL FUEGO'', rr_lat = (-26, 45),
       rr_lon = (-60, 29), rr_altitude = 93, rr_number = 87148, rr_oaci = Some ''SARS'' \<rparr>"

lemma pena_pieces: "pieces 30 (rr_name pena_row) = [''PRESIDENCIA ROQUE SAENZ PENA A'', ''ERO'']"
  by (simp add: pena_row_def pieces.simps)

lemma wf_pena_row: "wf_row pena_row"
  by (simp add: wf_row_def pena_row_def trimmed_def one_line_def LF_def CR_def py_isspace_def oaci_chars_def is_digit_def)

theorem registry_roundtrip_witness:
  "parse_estaciones_txt (registry_text (\<lambda>_. 12) ''NOMBRE'' ''[gr]'' [pena_row]) =
     [\<lparr> sm_station_id = 87148, sm_name = rr_name pena_row, sm_province = ''TIERRA DEL FUEGO'', sm_latitude = - 107 / 4,
        sm_longitude = - 3629 / 60, sm_altitude_meters = 93, sm_oaci_code = Some ''SARS'' \<rparr>]"
proof -
  have "sm_name (row_station pena_row) = rr_name pena_row \<and>
      parse_estaciones_txt (registry_text (\<lambda>_. 12) ''NOMBRE'' ''[gr]'' [pena_row]) = [row_station pena_row]"
    using registry_roundtrip [of "''NOMBRE''" "''[gr]''" "[pena_row]" "\<lambda>_. 12"] wf_pena_row
    by (simp add: LF_def CR_def pena_pieces py_isspace_def)
  then show ?thesis by (simp add: row_station_def coordinate_def pena_row_def)
qed

text \<open>
  A blank in the last column of a full line is lost: the name of the row is trimmed before the
  continuation is joined to it.
\<close>

lemma wrapped_blank_is_lost:
  assumes "wf_row r" "rr_name r = n @ '' '' @ p" "length n = 29" "\<not> py_isspace (last n)" "length p \<le> 30"
  shows "parse_estaciones_txt (registry_text w [] [] [r]) = [named r (n @ p)]"
proof -
  have "p \<noteq> []" "\<not> py_isspace (last p)" using assms(1,2) by (auto simp: wf_row_def trimmed_def split: if_splits)
  moreover have "py_rstrip_ws (n @ '' '') = n"
    using assms(3,4) by (cases n rule: rev_cases) (auto simp: py_rstrip_ws_def py_isspace_def)
  moreover have "pieces 30 (rr_name r) = [n @ '' '', p]"
    using assms(2,3,5) \<open>p \<noteq> []\<close> by (simp add: pieces.simps)
  ultimately have "kept_name (rr_name r) = n @ p" by (simp add: kept_name_def py_rstrip_ws_id)
  then show ?thesis using parse_registry_text [of "[]" "[]" "[r]" w] assms(1)
    by (simp add: named_def row_station_def)
qed

text \<open>Minus zero degrees lose their sign.\<close>

lemma dms_minus_zero: "map_option (\<lambda>d. dms_to_decimal d 30) (py_int ''-0'') = Some (1 / 2)"
  by (simp add: py_int_def py_strip_def py_isspace_def is_digit_def digit_val_def dms_to_decimal_def)

end
