(* ===== verification/Station_Service.thy ===== *)
theory Station_Service
  imports Read_Coherence Station_Series
begin

text \<open>
  The read service of the weather stations (\<^verbatim>\<open>services/weather_stations_service.py\<close>): Redis first,
  the object store behind it, a write-back that never fails the read, and a listing cache in
  memory. Gathered coroutines run in list order; a spawned write runs when its caller spawns
  it, and its outcome is dropped. The lock of the listing cache is not modelled.
\<close>

section \<open>Instants\<close>

text \<open>
  The day number of a date (\<^verbatim>\<open>date.toordinal\<close>) and the seconds up to a time. The instants of
  \<^verbatim>\<open>parse_observed_at\<close> are counted on the same scale.
\<close>

fun days_before_month :: "nat \<Rightarrow> nat \<Rightarrow> nat" where
  "days_before_month y mo = sum_list (map (days_in_month y) [1..<mo])"

definition days_before_year :: "nat \<Rightarrow> nat" where
  "days_before_year y = (let p = y - 1 in p * 365 + p div 4 - p div 100 + p div 400)"

fun toordinal :: "datetime \<Rightarrow> nat" where
  "toordinal (DateTime y mo d h mi s) = days_before_year y + days_before_month y mo + d"

fun instant_of :: "datetime \<Rightarrow> rat" where
  "instant_of (DateTime y mo d h mi s) =
     of_nat (((toordinal (DateTime y mo d h mi s) * 24 + h) * 60 + mi) * 60 + s)"

section \<open>State\<close>

text \<open>The attributes \<^verbatim>\<open>configure\<close> sets, the monotonic clock, and beside the world the listing cache.\<close>

record 'w ws_service =
  wv_s3 :: "'w s3 option"
  wv_redis :: "'w redis option"
  wv_cache_enabled :: bool
  wv_latest_ttl :: int
  wv_tilesets_ttl :: int
  wv_snapshot_ttl :: int
  wv_registry_ttl :: int
  wv_series_ttl :: int
  wv_list_cache_ttl :: rat
  wv_monotonic :: "'w \<Rightarrow> rat"
  wv_lib :: station_lib

type_synonym list_cache = "(string \<times> rat \<times> string list) list"

definition configure_stations ::
  "'w s3 option \<Rightarrow> rat \<Rightarrow> 'w redis option \<Rightarrow> bool \<Rightarrow> int \<Rightarrow> int \<Rightarrow> int \<Rightarrow> int \<Rightarrow> int \<Rightarrow> 'w ws_service \<Rightarrow> 'w ws_service" where
  "configure_stations s3_client list_cache_ttl redis_client cache_enabled latest_ttl tilesets_ttl snapshot_ttl registry_ttl
      series_ttl V =
     V \<lparr> wv_s3 := s3_client, wv_list_cache_ttl := list_cache_ttl, wv_redis := redis_client,
         wv_cache_enabled := (cache_enabled \<and> redis_client \<noteq> None), wv_latest_ttl := latest_ttl,
         wv_tilesets_ttl := tilesets_ttl, wv_snapshot_ttl := snapshot_ttl, wv_registry_ttl := registry_ttl,
         wv_series_ttl := series_ttl \<rparr>"

definition LATEST_OBJECT :: string where "LATEST_OBJECT = ''weather-stations/latest.json''"
definition REGISTRY_OBJECT :: string where "REGISTRY_OBJECT = ''weather-stations/stations.json''"

definition WeatherStationsNotConfiguredError :: exn where
  "WeatherStationsNotConfiguredError = OtherError ''WeatherStationsNotConfiguredError''"

definition TilesetIdFormatError :: exn where "TilesetIdFormatError = OtherError ''TilesetIdFormatError''"
definition OverflowError :: exn where "OverflowError = OtherError ''OverflowError''"
section \<open>Cache access\<close>

definition require_s3 :: "'w ws_service \<Rightarrow> ('w, 'w s3) io" where
  "require_s3 V = (case wv_s3 V of None \<Rightarrow> raise WeatherStationsNotConfiguredError | Some S \<Rightarrow> ret S)"

definition ws_cache_get :: "'w ws_service \<Rightarrow> string \<Rightarrow> ('w, pybytes option) io" where
  "ws_cache_get V cache_key =
     (case wv_redis V of
        None \<Rightarrow> ret None
      | Some R \<Rightarrow>
          if \<not> wv_cache_enabled V then ret None
          else bnd (catching any_exception (get_cached_listing R cache_key)) (\<lambda>r.
                 case r of Inl e \<Rightarrow> ret None | Inr data \<Rightarrow> ret data))"

definition ws_cache_set :: "'w redis \<Rightarrow> string \<Rightarrow> pybytes \<Rightarrow> int \<Rightarrow> ('w, unit) io" where
  "ws_cache_set R cache_key data ttl =
     bnd (catching any_exception (cache_listing R cache_key data ttl)) (\<lambda>r. ret ())"

definition ws_cache_set_bg :: "'w ws_service \<Rightarrow> string \<Rightarrow> pybytes \<Rightarrow> int \<Rightarrow> ('w, unit) io" where
  "ws_cache_set_bg V cache_key data ttl =
     (case wv_redis V of
        None \<Rightarrow> ret ()
      | Some R \<Rightarrow> if \<not> wv_cache_enabled V then ret () else spawn (ws_cache_set R cache_key data ttl))"

text \<open>A JSON object: from the cache when it parses, else from the bucket with a write-back.\<close>

definition get_cached_object :: "'w ws_service \<Rightarrow> string \<Rightarrow> string \<Rightarrow> int \<Rightarrow> ('w, json option) io" where
  "get_cached_object V cache_key s3_key ttl =
     bnd (ws_cache_get V cache_key) (\<lambda>cached.
       case Option.bind cached parse_json_or_none of
         Some parsed \<Rightarrow> ret (Some parsed)
       | None \<Rightarrow>
           bnd (require_s3 V) (\<lambda>S.
             bnd (download_tile S s3_key) (\<lambda>body.
               case body of
                 None \<Rightarrow> ret None
               | Some b \<Rightarrow> seq (ws_cache_set_bg V cache_key b ttl) (ret (parse_json_or_none b)))))"

definition get_snapshot_body :: "'w ws_service \<Rightarrow> string \<Rightarrow> ('w, json option) io" where
  "get_snapshot_body V key =
     bnd (ws_cache_get V (snap_body_key key)) (\<lambda>cached.
       case Option.bind cached parse_json_or_none of
         Some parsed \<Rightarrow> ret (Some parsed)
       | None \<Rightarrow>
           bnd (require_s3 V) (\<lambda>S.
             bnd (download_tile S key) (\<lambda>body.
               case body of
                 None \<Rightarrow> ret None
               | Some b \<Rightarrow> seq (ws_cache_set_bg V (snap_body_key key) b (wv_snapshot_ttl V)) (ret (parse_json_or_none b)))))"

text \<open>The listing cache; the check is made again under the lock.\<close>

definition list_hit :: "list_cache \<Rightarrow> string \<Rightarrow> rat \<Rightarrow> string list option" where
  "list_hit cache pfx now =
     (case map_of cache pfx of Some (expires, keys) \<Rightarrow> if expires > now then Some keys else None | None \<Rightarrow> None)"

definition look_up_listing :: "'w ws_service \<Rightarrow> string \<Rightarrow> ('w \<times> list_cache, string list option) io" where
  "look_up_listing V pfx = reads (\<lambda>(w, cache). list_hit cache pfx (wv_monotonic V w))"

definition cached_list :: "'w ws_service \<Rightarrow> string \<Rightarrow> ('w \<times> list_cache, string list) io" where
  "cached_list V pfx =
     bnd (look_up_listing V pfx) (\<lambda>cached.
       case cached of
         Some keys \<Rightarrow> ret keys
       | None \<Rightarrow>
           bnd (look_up_listing V pfx) (\<lambda>cached.
             case cached of
               Some keys \<Rightarrow> ret keys
             | None \<Rightarrow>
                 bnd (on_world2 (bnd (require_s3 V) (\<lambda>S. list_object_keys S pfx))) (\<lambda>keys.
                   bnd (reads (\<lambda>ws. wv_monotonic V (fst ws))) (\<lambda>now.
                     seq (on_state2 (\<lambda>cache. dict_set cache pfx (now + wv_list_cache_ttl V, keys))) (ret keys)))))"

section \<open>Latest, registry and tilesets\<close>

definition get_latest_snapshot :: "'w ws_service \<Rightarrow> ('w, json option) io" where
  "get_latest_snapshot V =
     bnd (get_cached_object V latest_key LATEST_OBJECT (wv_latest_ttl V)) (\<lambda>body.
       ret (map_option (annotate_dew_point (wv_lib V)) body))"

definition get_stations_registry :: "'w ws_service \<Rightarrow> ('w, json option) io" where
  "get_stations_registry V = get_cached_object V registry_key REGISTRY_OBJECT (wv_registry_ttl V)"

definition tileset_entry_json :: "tileset_entry \<Rightarrow> json" where
  "tileset_entry_json e =
     JObj [(''tileset_id'', JStr (te_tileset_id e)), (''scraped_at'', JStr (te_scraped_at e)),
           (''station_count'', JInt (te_station_count e))]"

text \<open>A cached value that is a JSON list.\<close>

definition cached_array :: "pybytes option \<Rightarrow> json list option" where
  "cached_array cached =
     (case Option.bind cached json_loads of Some (JArr entries) \<Rightarrow> Some entries | _ \<Rightarrow> None)"

text \<open>
  \<^verbatim>\<open>compute_tilesets_entries\<close> with the listing cache as lister; the counts are read from the
  bucket.
\<close>

definition computed_tilesets :: "'w ws_service \<Rightarrow> 'w s3 \<Rightarrow> ('w \<times> list_cache, tileset_entry list) io" where
  "computed_tilesets V S =
     bnd (latest_snapshot_per_bucket (cached_list V)) (\<lambda>per_bucket.
       let items = sort_key (\<lambda>kv. fst (snd kv)) per_bucket
       in bnd (on_world2 (for_each items (\<lambda>kv. read_station_count S (snd (snd kv))))) (\<lambda>counts.
          ret (map (\<lambda>(kv, count). \<lparr> te_tileset_id = fst kv, te_scraped_at = iso_utc (fst (snd kv)),
                                   te_station_count = count \<rparr>) (zip items counts))))"

definition list_tilesets :: "'w ws_service \<Rightarrow> ('w \<times> list_cache, json list) io" where
  "list_tilesets V =
     bnd (on_world2 (ws_cache_get V tilesets_key)) (\<lambda>cached.
       case cached_array cached of
         Some entries \<Rightarrow> ret entries
       | None \<Rightarrow>
           bnd (on_world2 (require_s3 V)) (\<lambda>S.
             bnd (computed_tilesets V S) (\<lambda>entries.
               let js = map tileset_entry_json entries
               in seq (on_world2 (ws_cache_set_bg V tilesets_key (Json (JArr js)) (wv_tilesets_ttl V))) (ret js))))"

section \<open>One tileset\<close>

text \<open>The number of days the loop over day prefixes can visit.\<close>

definition window_fuel :: "datetime \<Rightarrow> datetime \<Rightarrow> nat" where
  "window_fuel a b = Suc (max (toordinal a) (toordinal b) - min (toordinal a) (toordinal b))"

definition list_snapshot_keys_for_window ::
  "'w ws_service \<Rightarrow> datetime \<Rightarrow> datetime \<Rightarrow> ('w \<times> list_cache, string list) io" where
  "list_snapshot_keys_for_window V window_start target =
     (case day_prefixes_covering (window_fuel window_start target) window_start target of
        None \<Rightarrow> raise OverflowError
      | Some day_pfxs \<Rightarrow> bnd (for_each day_pfxs (cached_list V)) (\<lambda>per_day. ret (concat per_day)))"

definition resolve_bucket_snapshot_key :: "'w ws_service \<Rightarrow> datetime \<Rightarrow> ('w \<times> list_cache, string option) io" where
  "resolve_bucket_snapshot_key V target =
     (case add_hour target of
        None \<Rightarrow> raise OverflowError
      | Some bucket_end \<Rightarrow>
          bnd (list_snapshot_keys_for_window V target target) (\<lambda>keys. ret (best_in_bucket target bucket_end keys)))"

text \<open>\<^verbatim>\<open>target - timedelta(hours=..)\<close>, before the first representable instant an \<^verbatim>\<open>OverflowError\<close>.\<close>

definition window_start_of :: "datetime \<Rightarrow> rat \<Rightarrow> rat option" where
  "window_start_of target grace_period_hours =
     (let t = instant_of target - grace_period_hours * 3600
      in if t < instant_of (DateTime 1 1 1 0 0 0) then None else Some t)"

definition annotate_is_current :: "station_lib \<Rightarrow> json \<Rightarrow> rat \<Rightarrow> json" where
  "annotate_is_current L body window_start =
     (case dget body ''stations'' of
        JArr stations \<Rightarrow>
          json_put body ''stations'' (JArr (map (\<lambda>obs.
            json_put obs ''is_current'' (JBool (case parse_observed_at L (dget obs ''observed_at'') of
                None \<Rightarrow> False | Some ts \<Rightarrow> window_start \<le> ts))) stations))
      | _ \<Rightarrow> body)"

definition get_snapshot_for_tileset :: "'w ws_service \<Rightarrow> string \<Rightarrow> rat \<Rightarrow> ('w \<times> list_cache, json option) io" where
  "get_snapshot_for_tileset V tileset_id grace_period_hours =
     (if grace_period_hours < 0 then raise ValueError
      else case parse_tileset_id tileset_id of
        None \<Rightarrow> raise TilesetIdFormatError
      | Some target \<Rightarrow>
          bnd (resolve_bucket_snapshot_key V target) (\<lambda>best_key.
            case best_key of
              None \<Rightarrow> ret None
            | Some key \<Rightarrow>
                bnd (on_world2 (get_snapshot_body V key)) (\<lambda>body.
                  case body of
                    None \<Rightarrow> ret None
                  | Some b \<Rightarrow>
                      (case window_start_of target grace_period_hours of
                         None \<Rightarrow> raise OverflowError
                       | Some window_start \<Rightarrow>
                           ret (Some (annotate_is_current (wv_lib V) (annotate_dew_point (wv_lib V) b) window_start))))))"

section \<open>Series of one station\<close>

definition station_series_points :: "'w ws_service \<Rightarrow> int \<Rightarrow> int \<Rightarrow> ('w \<times> list_cache, json list) io" where
  "station_series_points V station_id hours =
     bnd (on_world2 (ws_cache_get V (series_key station_id))) (\<lambda>cached.
       case cached_array cached of
         Some points \<Rightarrow> ret points
       | None \<Rightarrow>
           bnd (on_world2 (require_s3 V)) (\<lambda>S.
             bnd (recent_snapshot_keys (cached_list V) hours) (\<lambda>keys.
               bnd (on_world2 (for_each keys (get_snapshot_body V))) (\<lambda>bodies.
                 let points = extract_station_series (wv_lib V) (List.map_filter (\<lambda>b. b) bodies) station_id
                 in seq (on_world2 (ws_cache_set_bg V (series_key station_id) (Json (JArr points)) (wv_series_ttl V)))
                        (ret points)))))"

text \<open>
  The entry of a station in the registry. Iterating over text or over a dict gives strings, none
  of them an entry; over any other value it is a \<^verbatim>\<open>TypeError\<close>.
\<close>

definition registry_entries :: "json \<Rightarrow> exn + json list" where
  "registry_entries registry =
     (case jget registry ''stations'' of
        None \<Rightarrow> Inr []
      | Some (JArr entries) \<Rightarrow> Inr entries
      | Some (JObj kvs) \<Rightarrow> Inr []
      | Some (JStr s) \<Rightarrow> Inr []
      | Some _ \<Rightarrow> Inl TypeError)"

definition station_meta :: "'w ws_service \<Rightarrow> int \<Rightarrow> ('w, json \<times> json) io" where
  "station_meta V station_id =
     bnd (get_stations_registry V) (\<lambda>registry.
       case registry of
         None \<Rightarrow> ret (JNull, JNull)
       | Some reg \<Rightarrow>
           (case registry_entries reg of
              Inl e \<Rightarrow> raise e
            | Inr entries \<Rightarrow>
                (case List.find (is_obs_of station_id) entries of
                   None \<Rightarrow> ret (JNull, JNull)
                 | Some entry \<Rightarrow> ret (dget entry ''name'', dget entry ''province''))))"

definition get_station_series :: "'w ws_service \<Rightarrow> int \<Rightarrow> int \<Rightarrow> ('w \<times> list_cache, json) io" where
  "get_station_series V station_id hours =
     bnd (station_series_points V station_id hours) (\<lambda>points.
       bnd (on_world2 (station_meta V station_id)) (\<lambda>(name, province).
         ret (JObj [(''station_id'', JInt station_id), (''station_name'', name), (''province'', province),
                    (''hours'', JInt hours), (''points'', JArr points),
                    (''latest'', if points = [] then JNull else last points)])))"

section \<open>Reads against the two stores\<close>

text \<open>A cached object, when it is usable at all, is the object of the bucket.\<close>

definition true_copy :: "string \<Rightarrow> string \<Rightarrow> keyspace \<Rightarrow> bucket \<Rightarrow> bool" where
  "true_copy cache_key s3_key ks b \<longleftrightarrow>
     (\<forall>d. ks cache_key = Some (RString d) \<longrightarrow> parse_json_or_none d \<noteq> None \<longrightarrow> b s3_key = Some d)"

text \<open>Redis answers every read of a string and every write.\<close>

definition redis_up :: "'w redis \<Rightarrow> ('w \<Rightarrow> keyspace) \<Rightarrow> bool" where
  "redis_up R \<alpha> \<longleftrightarrow>
     (\<forall>k w d. \<alpha> w k = Some (RString d) \<longrightarrow> (\<exists>v w'. rd_get R k w = (Inr v, w')))
     \<and> (\<forall>k d ttl w. \<exists>w'. rd_set R k d ttl w = (Inr (), w'))"

context cached_bucket
begin

lemma ws_cache_get_spec:
  assumes "wv_redis V = Some R" "ws_cache_get V k w = (r, w')"
  shows "\<beta> w' = \<beta> w \<and> \<alpha> w' = \<alpha> w
    \<and> (r = Inl CancelledError \<or> r = Inr None \<or> (\<exists>d. \<alpha> w k = Some (RString d) \<and> r = Inr (Some d)))"
proof -
  obtain g w1 where g: "rd_get R k w = (g, w1)" by (cases "rd_get R k w")
  show ?thesis
    using assms g get_value_frame [OF g] get_returns [of k w _ w1] connected
    by (cases g)
       (auto simp: ws_cache_get_def get_cached_listing_def get_value_def conn_def catching_def bnd_apply any_exception_def
         split: if_splits option.splits rvalue.splits)
qed

lemma ws_cache_set_bg_spec:
  assumes "wv_redis V = Some R" "ws_cache_set_bg V k d ttl w = (r, w')"
  shows "r = Inr () \<and> \<beta> w' = \<beta> w \<and> (\<alpha> w' = \<alpha> w \<or> \<alpha> w' = (\<alpha> w)(k \<mapsto> RString d))"
proof -
  obtain g w1 where g: "rd_set R k d (Some ttl) w = (g, w1)" by (cases "rd_set R k d (Some ttl) w")
  show ?thesis
    using assms g set_frame [OF g] set_outcome [OF g] connected
    by (cases g)
       (auto simp: ws_cache_set_bg_def ws_cache_set_def cache_listing_def conn_def spawn_def catching_def bnd_apply any_exception_def
         split: if_splits)
qed

lemma get_cached_object_spec:
  assumes V: "wv_redis V = Some R" "wv_s3 V = Some S" and c: "true_copy ck sk (\<alpha> w) (\<beta> w)"
    and run: "get_cached_object V ck sk ttl w = (r, w')"
  shows "\<beta> w' = \<beta> w \<and> true_copy ck sk (\<alpha> w') (\<beta> w') \<and> (\<forall>k. k \<noteq> ck \<longrightarrow> \<alpha> w' k = \<alpha> w k)
    \<and> (\<forall>v. r = Inr v \<longrightarrow> v = None \<or> v = Option.bind (\<beta> w sk) parse_json_or_none)
    \<and> (readable S \<beta> sk \<longrightarrow> r = Inr (Option.bind (\<beta> w sk) parse_json_or_none) \<or> r = Inl CancelledError)"
proof (cases "fst (ws_cache_get V ck w) = Inl CancelledError")
  case True
  then obtain w1 where g: "ws_cache_get V ck w = (Inl CancelledError, w1)" by (metis prod.collapse)
  then have "r = Inl CancelledError" "w' = w1" using run by (auto simp: get_cached_object_def)
  then show ?thesis using ws_cache_get_spec [OF V(1) g] c by simp
next
  case False
  obtain g w1 where g: "ws_cache_get V ck w = (g, w1)" by (cases "ws_cache_get V ck w")
  note f1 = ws_cache_get_spec [OF V(1) g]
  then obtain cached where cached: "g = Inr cached" "cached = None \<or> (\<exists>d. \<alpha> w ck = Some (RString d) \<and> cached = Some d)"
    using False g by auto
  show ?thesis
  proof (cases "Option.bind cached parse_json_or_none")
    case (Some parsed)
    then obtain d where "cached = Some d" "\<alpha> w ck = Some (RString d)" "parse_json_or_none d = Some parsed"
      using cached(2) by (cases cached) auto
    then have "Option.bind (\<beta> w sk) parse_json_or_none = Some parsed" using c by (simp add: true_copy_def)
    moreover have "r = Inr (Some parsed)" "w' = w1" using run g cached(1) Some by (auto simp: get_cached_object_def)
    ultimately show ?thesis using f1 c by simp
  next
    case None
    obtain x w2 where x: "download_tile S sk w1 = (x, w2)" by (cases "download_tile S sk w1")
    note f2 = download_tile_frame [OF x]
    have rest: "(case x of Inl e \<Rightarrow> (r, w') = (Inl e, w2) | Inr None \<Rightarrow> (r, w') = (Inr None, w2)
        | Inr (Some b) \<Rightarrow> (r, w') = seq (ws_cache_set_bg V ck b ttl) (ret (parse_json_or_none b)) w2)"
      using run g cached(1) None V(2) x
      by (auto simp: get_cached_object_def require_s3_def bnd_apply split: sum.splits option.splits)
    have rd: "x = Inr (\<beta> w sk)" if "readable S \<beta> sk" using that x f1 by (metis fst_conv readable_def)
    show ?thesis
    proof (cases "\<exists>b. x = Inr (Some b)")
      case True
      then obtain b where b: "x = Inr (Some b)" by blast
      then have bs: "\<beta> w sk = Some b" using f1 f2 by auto
      obtain y w3 where y: "ws_cache_set_bg V ck b ttl w2 = (y, w3)" by (cases "ws_cache_set_bg V ck b ttl w2")
      note f3 = ws_cache_set_bg_spec [OF V(1) y]
      have "r = Inr (parse_json_or_none b)" "w' = w3" using rest b y f3 by (auto simp: seq_apply)
      then show ?thesis using f1 f2 f3 bs c by (auto simp: true_copy_def)
    next
      case False
      then show ?thesis using rest f1 f2 c rd by (cases x) (auto split: option.splits)
    qed
  qed
qed

lemma series_entry_after:
  assumes V: "wv_redis V = Some R" "wv_cache_enabled V" and up: "redis_up R \<alpha>"
    and run: "station_series_points V sid h (w, lc) = (Inr pts, (w1, lc1))"
  shows "\<exists>d. \<alpha> w1 (series_key sid) = Some (RString d) \<and> cached_array (Some d) = Some pts"
proof -
  let ?k = "series_key sid"
  obtain g w2 where g: "ws_cache_get V ?k w = (g, w2)" by (cases "ws_cache_get V ?k w")
  note f = ws_cache_get_spec [OF V(1) g]
  show ?thesis
  proof (cases "\<exists>c p. g = Inr c \<and> cached_array c = Some p")
    case True
    then obtain c p where c: "g = Inr c" "cached_array c = Some p" by blast
    then obtain d where "c = Some d" by (cases c) (auto simp: cached_array_def)
    then show ?thesis
      using run g f c by (auto simp: station_series_points_def on_world2_def bnd_apply)
  next
    case False
    then obtain v ttl where w1: "spawn (ws_cache_set R ?k (Json (JArr pts)) ttl) v = (Inr (), w1)"
      using run g f V
      by (auto simp: station_series_points_def on_world2_def bnd_apply seq_apply Let_def ws_cache_set_bg_def
          split: option.splits sum.splits prod.splits)
    obtain v' where v': "rd_set R ?k (Json (JArr pts)) (Some ttl) v = (Inr (), v')" using up unfolding redis_up_def by blast
    have "w1 = v'" using w1 v' connected
      by (simp add: spawn_def ws_cache_set_def cache_listing_def conn_def catching_def bnd_apply)
    then show ?thesis using set_returns [OF v'] by (simp add: cached_array_def)
  qed
qed

lemma series_entry_hit:
  assumes V: "wv_redis V = Some R" "wv_cache_enabled V" and up: "redis_up R \<alpha>"
    and d: "\<alpha> w1 (series_key sid) = Some (RString d)" "cached_array (Some d) = Some pts"
  shows "\<exists>w2. station_series_points V sid h (w1, lc1) = (Inr pts, (w2, lc1))"
proof -
  obtain v w2 where g: "rd_get R (series_key sid) w1 = (Inr v, w2)" using up d(1) unfolding redis_up_def by blast
  then have "v = Some d" using get_returns [OF g] d(1) by simp
  then have "ws_cache_get V (series_key sid) w1 = (Inr (Some d), w2)"
    using V g connected by (simp add: ws_cache_get_def get_cached_listing_def get_value_def conn_def catching_def bnd_apply)
  then show ?thesis using d(2) by (simp add: station_series_points_def on_world2_def bnd_apply)
qed

end

section \<open>Properties\<close>

text \<open>
  C15. A read of a station object serves the bucket. When the cached copy of the object, if it is
  usable, is the object itself, then a read through the cache returns the parsed object of
  the bucket or nothing, and exactly the parsed object when the bucket can be read, whatever errors
  Redis raises; it changes no object and no other cache entry, and the copy stays true. The same
  holds for the body of a snapshot.
\<close>

theorem station_reads_serve_bucket:
  assumes "cached_bucket S \<beta> R \<alpha>" "wv_redis V = Some R" "wv_s3 V = Some S"
    and "true_copy ck sk (\<alpha> w) (\<beta> w)"
    and "get_cached_object V ck sk ttl w = (r, w') \<or> ck = snap_body_key sk \<and> get_snapshot_body V sk w = (r, w')"
  shows "\<beta> w' = \<beta> w \<and> true_copy ck sk (\<alpha> w') (\<beta> w') \<and> (\<forall>k. k \<noteq> ck \<longrightarrow> \<alpha> w' k = \<alpha> w k)
    \<and> (\<forall>v. r = Inr v \<longrightarrow> v = None \<or> v = Option.bind (\<beta> w sk) parse_json_or_none)
    \<and> (readable S \<beta> sk \<longrightarrow> r = Inr (Option.bind (\<beta> w sk) parse_json_or_none) \<or> r = Inl CancelledError)"
proof -
  have "get_snapshot_body V sk = get_cached_object V (snap_body_key sk) sk (wv_snapshot_ttl V)"
    by (simp add: get_snapshot_body_def get_cached_object_def)
  then obtain t where "get_cached_object V ck sk t w = (r, w')" using assms(5) by auto
  then show ?thesis by (rule cached_bucket.get_cached_object_spec [OF assms(1-4)])
qed

definition demo_service :: "(bucket \<times> keyspace) ws_service" where
  "demo_service =
     \<lparr> wv_s3 = Some mem_s3, wv_redis = Some (pair_redis mem_redis), wv_cache_enabled = True, wv_latest_ttl = 600,
       wv_tilesets_ttl = 600, wv_snapshot_ttl = 3600, wv_registry_ttl = 3600, wv_series_ttl = 3600,
       wv_list_cache_ttl = 30, wv_monotonic = (\<lambda>w. 0), wv_lib = demo_lib \<rparr>"

definition demo_registry :: json where
  "demo_registry = JObj [(''stations'', JArr [])]"

lemmas demo_call_defs = ws_cache_get_def ws_cache_set_bg_def ws_cache_set_def get_cached_listing_def cache_listing_def
  get_value_def conn_def demo_service_def pair_redis_def mem_redis_def on_cache_def catching_def bnd_apply seq_apply
  spawn_def require_s3_def download_tile_def ensure_connected_def mem_s3_def

lemma demo_read:
  "get_cached_object demo_service registry_key REGISTRY_OBJECT 60 ([REGISTRY_OBJECT \<mapsto> Json demo_registry], Map.empty)
   = (Inr (Some demo_registry),
      ([REGISTRY_OBJECT \<mapsto> Json demo_registry], [registry_key \<mapsto> RString (Json demo_registry)]))"
  by (simp add: get_cached_object_def demo_call_defs demo_registry_def parse_json_or_none_def)

theorem station_reads_serve_bucket_witness:
  "let b = [REGISTRY_OBJECT \<mapsto> Json demo_registry]; ks = [registry_key \<mapsto> RString (Json demo_registry)]
   in true_copy registry_key REGISTRY_OBJECT ks b
      \<and> (\<forall>k. k \<noteq> registry_key \<longrightarrow> ks k = None)
      \<and> Some demo_registry = Option.bind (b REGISTRY_OBJECT) parse_json_or_none"
proof -
  have "true_copy registry_key REGISTRY_OBJECT (Map.empty :: keyspace) b" for b by (simp add: true_copy_def)
  then show ?thesis
    using station_reads_serve_bucket [OF mem_cached.cached_bucket_axioms _ _ _ disjI1 [OF demo_read]] mem_readable
    by (simp add: demo_service_def Let_def)
qed

text \<open>
  A series ignores the hours it is asked for once any series of the station is cached. With
  Redis up, after a request for the series of a station with some number of hours, every request
  with any other number of hours is answered with the points of the first one.
\<close>

theorem series_ignores_hours:
  assumes "cached_bucket S \<beta> R \<alpha>" "wv_redis V = Some R" "wv_cache_enabled V" "redis_up R \<alpha>"
    and "station_series_points V station_id hours (w, lc) = (Inr points, (w1, lc1))"
  shows "\<exists>w2. station_series_points V station_id hours' (w1, lc1) = (Inr points, (w2, lc1))"
  using cached_bucket.series_entry_after [OF assms] cached_bucket.series_entry_hit [OF assms(1-4)] by blast

lemma demo_redis_up: "redis_up (pair_redis mem_redis) snd"
  by (auto simp: redis_up_def pair_redis_def mem_redis_def on_cache_def)

lemma demo_series:
  "station_series_points demo_service 87344 0 ((b, Map.empty), [])
   = (Inr [], ((b, [series_key 87344 \<mapsto> RString (Json (JArr []))]), []))"
  by (simp add: station_series_points_def demo_call_defs on_world2_def cached_array_def recent_snapshot_keys_def
      extract_station_series_def sorted_points_def Let_def List.map_filter_def)

theorem series_ignores_hours_witness:
  "\<exists>w2. station_series_points demo_service 87344 48
          (([snapshot_key (DateTime 2026 7 1 0 0 0) \<mapsto> Json (demo_body ''2026-07-01T00:00:00Z'' 20)],
            [series_key 87344 \<mapsto> RString (Json (JArr []))]), [])
        = (Inr [], (w2, []))"
  by (rule series_ignores_hours [OF mem_cached.cached_bucket_axioms _ _ demo_redis_up demo_series])
     (simp_all add: demo_service_def)

end
