(* ===== verification/Station_Scraper.thy ===== *)
theory Station_Scraper
  imports Station_Service Station_Registry Smn_Clients
begin

text \<open>
  The scraper of the weather stations (\<^verbatim>\<open>services/weather_stations_scraper_service.py\<close>): one cycle
  refreshes the station registry, fetches the observations, stores a snapshot and warms the
  shared cache. The two upstream clients, the hash, the clock, the bundled file and the metrics
  store are parameters of the cycle; the life cycle around it is \<^verbatim>\<open>Sync_Base\<close>. Times have
  whole seconds.
\<close>

section \<open>State\<close>

record 'w station_scraper =
  ss_s3 :: "'w s3"
  ss_redis :: "'w redis option"
  ss_fetch_observations :: "('w, json list) io"      \<comment> \<open>\<^verbatim>\<open>self._smn.fetch_current_weather_stations\<close>\<close>
  ss_fetch_registry_text :: "('w, string) io"         \<comment> \<open>\<^verbatim>\<open>self._registry.fetch_registry_text\<close>\<close>
  ss_record_sync_cycle :: "(string \<Rightarrow> string \<Rightarrow> string \<Rightarrow> int \<Rightarrow> nat \<Rightarrow> nat \<Rightarrow> string \<Rightarrow> ('w, unit) io) option"
  ss_now :: "'w \<Rightarrow> datetime"
  ss_read_bundle :: "('w, string) io"                 \<comment> \<open>\<^verbatim>\<open>path.read_text\<close>\<close>
  ss_sha256 :: "string \<Rightarrow> string"
  ss_isoformat :: "rat \<Rightarrow> string"                     \<comment> \<open>of an instant in UTC, with its offset\<close>
  ss_lib :: station_lib
  ss_source_url :: string
  ss_registry_url :: string
  ss_fallback_enabled :: bool
  ss_fallback_path :: string
  ss_object_ttl_days :: int
  ss_cache_enabled :: bool
  ss_latest_ttl :: int
  ss_tilesets_ttl :: int
  ss_registry_ttl :: int
  ss_snapshot_ttl :: int
  ss_series_ttl :: int
  ss_animation_warm_buckets :: int
  ss_series_hours :: int

record scraper_state =
  sc_lifecycle_applied :: bool
  sc_registry_hash :: "string option"
  sc_registry_bootstrapped :: bool

definition new_scraper_state :: scraper_state where
  "new_scraper_state = \<lparr> sc_lifecycle_applied = False, sc_registry_hash = None, sc_registry_bootstrapped = False \<rparr>"

definition REGISTRY_META_OBJECT :: string where "REGISTRY_META_OBJECT = ''weather-stations/stations.meta.json''"
definition LIFECYCLE_RULE_ID :: string where "LIFECYCLE_RULE_ID = ''weather-stations-expiration''"
type_synonym ('w, 'a) scrape = "('w \<times> scraper_state, 'a) io"

definition set_hash :: "string option \<Rightarrow> ('w, unit) scrape" where
  "set_hash h = on_state2 (\<lambda>st. st \<lparr> sc_registry_hash := h \<rparr>)"

section \<open>Normalising observations\<close>

text \<open>\<^verbatim>\<open>text.replace("+00:00", "Z")\<close>.\<close>

function replace_utc_offset :: "string \<Rightarrow> string" where
  "replace_utc_offset s =
     (if prefix ''+00:00'' s then CHR ''Z'' # replace_utc_offset (drop 6 s)
      else case s of [] \<Rightarrow> [] | c # cs \<Rightarrow> c # replace_utc_offset cs)"
  by auto
termination
proof (relation "measure length")
  fix s :: string
  assume "prefix ''+00:00'' s"
  then show "(drop 6 s, s) \<in> measure length" by (auto simp: prefix_def)
qed auto

declare replace_utc_offset.simps [simp del]

definition normalize_observed_at :: "'w station_scraper \<Rightarrow> json \<Rightarrow> json" where
  "normalize_observed_at P val =
     (case parse_observed_at (ss_lib P) val of
        None \<Rightarrow> val
      | Some ts \<Rightarrow> JStr (replace_utc_offset (ss_isoformat P ts)))"

definition normalize_wind :: "station_lib \<Rightarrow> json \<Rightarrow> json" where
  "normalize_wind L val =
     (if \<not> is_dict val then val
      else JObj [ (''direction'', case dget val ''direction'' of JStr d \<Rightarrow> JStr d | _ \<Rightarrow> JNull),
                  (''deg'', json_of_float (to_float L (dget val ''deg''))),
                  (''speed'', json_of_float (to_float L (dget val ''speed''))) ])"

definition normalize_item :: "'w station_scraper \<Rightarrow> json \<Rightarrow> json option" where
  "normalize_item P item =
     (if \<not> is_dict item then None
      else if json_as_int (dget item ''station_id'') = None then None
      else let num = (\<lambda>k. json_of_float (to_float (ss_lib P) (dget item k)))
           in Some (JObj [ (''station_id'', dget item ''station_id''),
                (''observed_at'', normalize_observed_at P (dget item ''date'')),
                (''temperature'', num ''temperature''), (''feels_like'', num ''feels_like''), (''humidity'', num ''humidity''),
                (''pressure'', num ''pressure''), (''visibility'', num ''visibility''),
                (''weather'', dget item ''weather''), (''wind'', normalize_wind (ss_lib P) (dget item ''wind'')) ]))"

definition build_snapshot :: "'w station_scraper \<Rightarrow> datetime \<Rightarrow> json list \<Rightarrow> json" where
  "build_snapshot P scraped_at raw =
     JObj [ (''scraped_at'', JStr (iso_utc scraped_at)), (''source_url'', JStr (ss_source_url P)),
            (''stations'', JArr (List.map_filter (normalize_item P) raw)) ]"

section \<open>Storing\<close>

definition upload_snapshot :: "'w station_scraper \<Rightarrow> datetime \<Rightarrow> pybytes \<Rightarrow> nat \<Rightarrow> ('w, unit) io" where
  "upload_snapshot P scraped_at snapshot_bytes station_count =
     (let key = snapshot_key scraped_at; meta_key = snapshot_meta_key key;
          meta = JObj [(''scraped_at'', JStr (iso_utc scraped_at)), (''station_count'', JInt (int station_count))]
      in seq (upload_tile (ss_s3 P) key snapshot_bytes ''application/json'')
         (seq (upload_tile (ss_s3 P) meta_key (Json meta) ''application/json'')
              (upload_tile (ss_s3 P) LATEST_OBJECT snapshot_bytes ''application/json'')))"

definition scraper_redis_set :: "'w station_scraper \<Rightarrow> string \<Rightarrow> pybytes \<Rightarrow> int \<Rightarrow> ('w, unit) io" where
  "scraper_redis_set P key data ttl =
     (case ss_redis P of
        None \<Rightarrow> ret ()
      | Some R \<Rightarrow>
          if \<not> ss_cache_enabled P then ret ()
          else bnd (catching any_exception (cache_listing R key data ttl)) (\<lambda>r. ret ()))"

text \<open>\<^verbatim>\<open>int((end - started_at).total_seconds() * 1000)\<close>.\<close>

definition duration_ms :: "datetime \<Rightarrow> datetime \<Rightarrow> int" where
  "duration_ms started_at stopped_at = py_trunc ((instant_of stopped_at - instant_of started_at) * 1000)"

definition stations_record_cycle :: "'w station_scraper \<Rightarrow> datetime \<Rightarrow> nat \<Rightarrow> nat \<Rightarrow> ('w, unit) io" where
  "stations_record_cycle P started_at downloaded errors =
     (case ss_record_sync_cycle P of
        None \<Rightarrow> ret ()
      | Some record_sync_cycle \<Rightarrow>
          bnd (reads (ss_now P)) (\<lambda>stopped.
            bnd (catching any_exception
                   (record_sync_cycle ''weather_stations'' (ss_isoformat P (instant_of started_at)) (ss_isoformat P (instant_of stopped))
                      (duration_ms started_at stopped) downloaded errors (if errors \<noteq> 0 then ''error'' else ''ok''))) (\<lambda>r. ret ())))"

section \<open>Registry\<close>

definition stations_ensure_lifecycle :: "'w station_scraper \<Rightarrow> ('w, unit) scrape" where
  "stations_ensure_lifecycle P =
     bnd (reads (\<lambda>ws. sc_lifecycle_applied (snd ws))) (\<lambda>applied.
       if applied then ret ()
       else bnd (on_world2 (ensure_lifecycle_expiration (ss_s3 P) (ss_object_ttl_days P) LIFECYCLE_RULE_ID SNAPSHOTS_PREFIX)) (\<lambda>ok.
              if ok then on_state2 (\<lambda>st. st \<lparr> sc_lifecycle_applied := True \<rparr>) else ret ()))"

text \<open>The hash a stored meta object names; \<^verbatim>\<open>meta.get\<close> of a document that is no object raises.\<close>

definition stored_hash :: "pybytes option \<Rightarrow> exn + string option" where
  "stored_hash meta_bytes =
     (case Option.bind meta_bytes json_loads of
        None \<Rightarrow> Inr None
      | Some meta \<Rightarrow>
          if \<not> is_dict meta then Inl AttributeError
          else Inr (case jget meta ''source_hash'' of Some (JStr h) \<Rightarrow> Some h | _ \<Rightarrow> None))"

definition maybe_bootstrap_registry_hash :: "'w station_scraper \<Rightarrow> ('w, unit) scrape" where
  "maybe_bootstrap_registry_hash P =
     bnd (reads (\<lambda>ws. sc_registry_bootstrapped (snd ws))) (\<lambda>done.
       if done then ret ()
       else bnd (on_world2 (download_tile (ss_s3 P) REGISTRY_META_OBJECT)) (\<lambda>meta_bytes.
              case stored_hash meta_bytes of
                Inl e \<Rightarrow> raise e
              | Inr h \<Rightarrow>
                  seq (case h of None \<Rightarrow> ret () | Some stored \<Rightarrow> set_hash (Some stored))
                      (on_state2 (\<lambda>st. st \<lparr> sc_registry_bootstrapped := True \<rparr>))))"

definition should_seed_from_bundle :: "'w station_scraper \<Rightarrow> scraper_state \<Rightarrow> bool" where
  "should_seed_from_bundle P st = (ss_fallback_enabled P \<and> sc_registry_hash st = None)"

definition is_os_error :: "exn \<Rightarrow> bool" where
  "is_os_error e = (e = OSError \<or> e = TimeoutError)"

definition read_bundled_registry :: "'w station_scraper \<Rightarrow> ('w, string option) io" where
  "read_bundled_registry P =
     bnd (catching is_os_error (ss_read_bundle P)) (\<lambda>r. case r of Inl e \<Rightarrow> ret None | Inr txt \<Rightarrow> ret (Some txt))"

text \<open>The live text, else on a registry error and nothing stored the bundled one, with its source.\<close>

definition registry_source :: "'w station_scraper \<Rightarrow> ('w, (string \<times> string) option) scrape" where
  "registry_source P =
     bnd (catching is_registry_error (on_world2 (ss_fetch_registry_text P))) (\<lambda>r.
       case r of
         Inr txt \<Rightarrow> ret (Some (txt, ''remote''))
       | Inl e \<Rightarrow>
           bnd (reads (\<lambda>ws. should_seed_from_bundle P (snd ws))) (\<lambda>seed.
             if \<not> seed then ret None
             else bnd (on_world2 (read_bundled_registry P)) (\<lambda>bundled.
                    ret (map_option (\<lambda>txt. (txt, ''bundled'')) bundled))))"

definition registry_payload :: "'w station_scraper \<Rightarrow> datetime \<Rightarrow> string \<Rightarrow> station_metadata list \<Rightarrow> json" where
  "registry_payload P now src stations =
     JObj [ (''fetched_at'', JStr (iso_utc now)),
            (''source_url'', JStr (if src = ''remote'' then ss_registry_url P else ss_fallback_path P)),
            (''source'', JStr src), (''stations'', JArr (station_metadata_to_jsonable stations)) ]"

definition registry_meta_payload :: "string \<Rightarrow> datetime \<Rightarrow> string \<Rightarrow> station_metadata list \<Rightarrow> json" where
  "registry_meta_payload source_hash now src stations =
     JObj [ (''source_hash'', JStr source_hash), (''station_count'', JInt (int (length stations))),
            (''updated_at'', JStr (iso_utc now)), (''source'', JStr src) ]"

definition store_registry :: "'w station_scraper \<Rightarrow> string \<Rightarrow> string \<Rightarrow> ('w, unit) scrape" where
  "store_registry P txt src =
     (let source_hash = ss_sha256 P txt
      in bnd (reads (\<lambda>ws. sc_registry_hash (snd ws))) (\<lambda>known.
        if known = Some source_hash then ret ()
        else let stations = parse_estaciones_txt txt
             in if stations = [] then ret ()
                else bnd (reads (\<lambda>ws. ss_now P (fst ws))) (\<lambda>now.
                  bnd (catching any_exception (on_world2
                         (seq (upload_tile (ss_s3 P) REGISTRY_OBJECT (Json (registry_payload P now src stations)) ''application/json'')
                              (upload_tile (ss_s3 P) REGISTRY_META_OBJECT
                                 (Json (registry_meta_payload source_hash now src stations)) ''application/json'')))) (\<lambda>r.
                    case r of Inl e \<Rightarrow> ret () | Inr _ \<Rightarrow> set_hash (Some source_hash)))))"

definition refresh_registry_if_changed :: "'w station_scraper \<Rightarrow> ('w, unit) scrape" where
  "refresh_registry_if_changed P =
     bnd (registry_source P) (\<lambda>found.
       case found of None \<Rightarrow> ret () | Some (txt, src) \<Rightarrow> store_registry P txt src)"

definition warm_registry_cache :: "'w station_scraper \<Rightarrow> ('w, unit) scrape" where
  "warm_registry_cache P =
     (if \<not> ss_cache_enabled P then ret ()
      else bnd (catching any_exception (on_world2 (download_tile (ss_s3 P) REGISTRY_OBJECT))) (\<lambda>r.
             case r of
               Inl e \<Rightarrow> ret ()
             | Inr None \<Rightarrow>
                 bnd (reads (\<lambda>ws. sc_registry_hash (snd ws))) (\<lambda>h. if h \<noteq> None then set_hash None else ret ())
             | Inr (Some body) \<Rightarrow> on_world2 (scraper_redis_set P registry_key body (ss_registry_ttl P))))"

section \<open>Warming the caches\<close>

definition warm_observation_cache :: "'w station_scraper \<Rightarrow> pybytes \<Rightarrow> ('w, unit) io" where
  "warm_observation_cache P snapshot_bytes =
     (if \<not> ss_cache_enabled P then ret ()
      else seq (scraper_redis_set P latest_key snapshot_bytes (ss_latest_ttl P))
        (bnd (catching any_exception (compute_tilesets_entries (ss_s3 P) (list_object_keys (ss_s3 P)))) (\<lambda>r.
           case r of
             Inl e \<Rightarrow> ret ()
           | Inr entries \<Rightarrow>
               scraper_redis_set P tilesets_key (Json (JArr (map tileset_entry_json entries))) (ss_tilesets_ttl P))))"

definition warm_station_series :: "'w station_scraper \<Rightarrow> json list \<Rightarrow> ('w, unit) io" where
  "warm_station_series P bodies =
     (if \<not> ss_cache_enabled P \<or> ss_series_hours P \<le> 0 \<or> bodies = [] then ret ()
      else bnd (for_each (pivot_station_series (ss_lib P) (py_take (ss_series_hours P) bodies)) (\<lambda>(station_id, points).
             scraper_redis_set P (series_key station_id) (Json (JArr points)) (ss_series_ttl P))) (\<lambda>us. ret ()))"

definition warm_body :: "'w station_scraper \<Rightarrow> nat \<times> string \<Rightarrow> json list \<Rightarrow> ('w, json list) io" where
  "warm_body P = (\<lambda>(index, key) bodies.
     bnd (catching any_exception (download_tile (ss_s3 P) key)) (\<lambda>r.
       case r of
         Inl e \<Rightarrow> ret bodies
       | Inr None \<Rightarrow> ret bodies
       | Inr (Some body) \<Rightarrow>
           seq (if int index < ss_animation_warm_buckets P
                then scraper_redis_set P (snap_body_key key) body (ss_snapshot_ttl P) else ret ())
               (ret (case parse_json_or_none body of None \<Rightarrow> bodies | Some parsed \<Rightarrow> bodies @ [parsed]))))"

definition warm_recent_snapshot_bodies :: "'w station_scraper \<Rightarrow> ('w, unit) io" where
  "warm_recent_snapshot_bodies P =
     (let window = max (ss_animation_warm_buckets P) (ss_series_hours P)
      in if \<not> ss_cache_enabled P \<or> window \<le> 0 then ret ()
         else bnd (catching any_exception (recent_snapshot_keys (list_object_keys (ss_s3 P)) window)) (\<lambda>r.
                case r of
                  Inl e \<Rightarrow> ret ()
                | Inr keys \<Rightarrow> bnd (for_fold (enumerate 0 keys) (warm_body P) []) (warm_station_series P)))"

section \<open>One cycle\<close>

definition is_smn_api_error :: "exn \<Rightarrow> bool" where
  "is_smn_api_error e = (e = SmnApiError)"

text \<open>From the fetch of the observations on.\<close>

definition scrape_observations :: "'w station_scraper \<Rightarrow> datetime \<Rightarrow> ('w, unit) io" where
  "scrape_observations P started_at =
     bnd (catching is_smn_api_error (ss_fetch_observations P)) (\<lambda>r.
       case r of
         Inl e \<Rightarrow> stations_record_cycle P started_at 0 1
       | Inr raw \<Rightarrow>
           bnd (reads (ss_now P)) (\<lambda>scraped_at.
             let stations = List.map_filter (normalize_item P) raw;
                 snapshot_bytes = Json (build_snapshot P scraped_at raw)
             in bnd (catching any_exception (upload_snapshot P scraped_at snapshot_bytes (length stations))) (\<lambda>u.
                  case u of
                    Inl e \<Rightarrow> stations_record_cycle P started_at 0 1
                  | Inr _ \<Rightarrow>
                      seq (stations_record_cycle P started_at (length stations) 0)
                     (seq (warm_observation_cache P snapshot_bytes)
                          (warm_recent_snapshot_bodies P)))))"

definition stations_run_sync :: "'w station_scraper \<Rightarrow> ('w, unit) scrape" where
  "stations_run_sync P =
     bnd (reads (\<lambda>ws. ss_now P (fst ws))) (\<lambda>started_at.
       seq (stations_ensure_lifecycle P)
      (seq (maybe_bootstrap_registry_hash P)
      (seq (refresh_registry_if_changed P)
      (seq (warm_registry_cache P)
           (on_world2 (scrape_observations P started_at))))))"

section \<open>What a cycle keeps\<close>

text \<open>
  The stores around a scraper: an object store in which a failed upload changes nothing, and
  calls of the other parties that do not touch it.
\<close>

locale station_store = object_store "ss_s3 P" \<beta> for P :: "'w station_scraper" and \<beta> :: "'w \<Rightarrow> bucket" +
  assumes put_raises: "b_put_object (ss_s3 P) k d ct w = (Inl e, w') \<Longrightarrow> \<beta> w' = \<beta> w"
    and lifecycle_keeps: "keeps \<beta> (b_put_lifecycle (ss_s3 P) rule pfx days)"
    and fetch_keeps: "keeps \<beta> (ss_fetch_observations P)" "keeps \<beta> (ss_fetch_registry_text P)"
    and bundle_keeps: "keeps \<beta> (ss_read_bundle P)"
    and redis_keeps: "ss_redis P = Some R \<Longrightarrow> keeps \<beta> (rd_set R key data ttl)"
    and record_keeps: "ss_record_sync_cycle P = Some rec \<Longrightarrow> keeps \<beta> (rec a b c ms n m out)"
begin

lemma at_keeps: "keeps \<beta> m \<Longrightarrow> keeps (\<lambda>w. \<beta> w k) m"
  by (simp add: keeps_def)

lemma upload_frame [frame]: "k \<noteq> k' \<Longrightarrow> keeps (\<lambda>w. \<beta> w k') (upload_tile (ss_s3 P) k d ct)"
proof -
  assume ne: "k \<noteq> k'"
  have "keeps (\<lambda>w. \<beta> w k') (b_put_object (ss_s3 P) k d ct)"
    unfolding keeps_def
  proof
    fix w
    obtain r w' where r: "b_put_object (ss_s3 P) k d ct w = (r, w')" by (cases "b_put_object (ss_s3 P) k d ct w")
    then show "\<beta> (snd (b_put_object (ss_s3 P) k d ct w)) k' = \<beta> w k'"
      using ne put_raises [of k d ct w _ w'] put_returns [of k d ct w w'] by (cases r) auto
  qed
  then show ?thesis unfolding upload_tile_def using at_keeps frame by (intro keeps_seq) auto
qed

lemma redis_set_frame [frame]: "keeps \<beta> (scraper_redis_set P key data ttl)"
  unfolding scraper_redis_set_def cache_listing_def conn_def
  by (auto intro!: frame redis_keeps split: option.splits)

lemma record_frame [frame]: "keeps \<beta> (stations_record_cycle P t n m)"
proof (cases "ss_record_sync_cycle P")
  case (Some rec)
  show ?thesis unfolding stations_record_cycle_def Some option.case by (intro frame record_keeps [OF Some])
qed (simp add: stations_record_cycle_def frame)

lemma for_each_frame [frame]: "(\<And>x. keeps v (f x)) \<Longrightarrow> keeps v (for_each xs f)"
  by (induction xs) (auto intro!: frame)

lemma for_fold_frame [frame]: "(\<And>x s. keeps v (f x s)) \<Longrightarrow> keeps v (for_fold xs f s)"
  by (induction xs arbitrary: s) (auto intro!: frame)

lemma listing_frames [frame]:
  "keeps \<beta> (compute_tilesets_entries (ss_s3 P) (list_object_keys (ss_s3 P)))"
  "keeps \<beta> (recent_snapshot_keys (list_object_keys (ss_s3 P)) window)"
  unfolding compute_tilesets_entries_def latest_snapshot_per_bucket_def recent_snapshot_keys_def read_station_count_def
  by (auto intro!: frame simp: Let_def)

lemma warm_frames [frame]:
  "keeps \<beta> (warm_observation_cache P b)" "keeps \<beta> (warm_station_series P bodies)"
  "keeps \<beta> (warm_recent_snapshot_bodies P)"
proof -
  show "keeps \<beta> (warm_observation_cache P b)"
    unfolding warm_observation_cache_def by (auto intro!: frame split: sum.splits)
  show s: "keeps \<beta> (warm_station_series P bodies)" for bodies
    unfolding warm_station_series_def by (auto intro!: frame split: prod.splits)
  have "keeps \<beta> (warm_body P x bs)" for x bs
    unfolding warm_body_def by (auto intro!: frame split: prod.splits sum.splits option.splits)
  then show "keeps \<beta> (warm_recent_snapshot_bodies P)"
    unfolding warm_recent_snapshot_bodies_def using s by (auto intro!: frame simp: Let_def split: sum.splits)
qed

end

text \<open>Where the objects of the scraper live.\<close>

lemma station_objects_distinct:
  "snapshot_key ts \<noteq> REGISTRY_META_OBJECT" "snapshot_meta_key (snapshot_key ts) \<noteq> REGISTRY_META_OBJECT"
  "LATEST_OBJECT \<noteq> REGISTRY_META_OBJECT" "REGISTRY_OBJECT \<noteq> REGISTRY_META_OBJECT"
proof -
  have k: "take 19 (snapshot_key ts) = ''weather-stations/sn''" "24 \<le> length (snapshot_key ts)"
    by (simp_all add: snapshot_key_def SNAPSHOTS_PREFIX_def)
  then have m: "take 19 (snapshot_meta_key (snapshot_key ts)) = ''weather-stations/sn''"
    by (simp add: snapshot_meta_key_def)
  have r: "take 19 REGISTRY_META_OBJECT \<noteq> ''weather-stations/sn''" by (simp add: REGISTRY_META_OBJECT_def)
  show "snapshot_key ts \<noteq> REGISTRY_META_OBJECT" using k(1) r by metis
  show "snapshot_meta_key (snapshot_key ts) \<noteq> REGISTRY_META_OBJECT" using m r by metis
qed (simp_all add: LATEST_OBJECT_def REGISTRY_OBJECT_def REGISTRY_META_OBJECT_def)

text \<open>The remembered hash is the one the stored meta object names.\<close>

definition hash_is_stored :: "('w \<Rightarrow> bucket) \<Rightarrow> 'w \<times> scraper_state \<Rightarrow> bool" where
  "hash_is_stored \<beta> ws \<longleftrightarrow>
     (\<forall>h. sc_registry_hash (snd ws) = Some h \<longrightarrow> stored_hash (\<beta> (fst ws) REGISTRY_META_OBJECT) = Inr (Some h))"

context station_store
begin

abbreviation meta :: "'w \<Rightarrow> pybytes option" where
  "meta w \<equiv> \<beta> w REGISTRY_META_OBJECT"

lemma scrape_observations_frame: "keeps meta (scrape_observations P t)"
proof -
  have "keeps meta (upload_snapshot P ts b n)" for ts b n
    unfolding upload_snapshot_def Let_def using station_objects_distinct by (auto intro!: frame)
  then show ?thesis
    unfolding scrape_observations_def Let_def
    using at_keeps [OF record_frame] at_keeps [OF warm_frames(1)] at_keeps [OF warm_frames(3)] at_keeps [OF fetch_keeps(1)]
    by (auto intro!: frame split: sum.splits)
qed

text \<open>Every step keeps the remembered hash true, also when it raises.\<close>

lemma hash_on_world2 [inv]: "keeps meta m \<Longrightarrow> preserves (hash_is_stored \<beta>) (on_world2 m)"
  by (auto intro!: preservesI simp: hash_is_stored_def on_world2_def keeps_def split: prod.splits) (metis snd_conv)

lemma hash_latches [inv]:
  "preserves (hash_is_stored \<beta>) (on_state2 (\<lambda>st. st \<lparr> sc_lifecycle_applied := b \<rparr>))"
  "preserves (hash_is_stored \<beta>) (on_state2 (\<lambda>st. st \<lparr> sc_registry_bootstrapped := b \<rparr>))"
  "preserves (hash_is_stored \<beta>) (set_hash None)"
  by (auto intro!: preservesI simp: hash_is_stored_def on_state2_def set_hash_def)

lemma hash_lifecycle [inv]: "preserves (hash_is_stored \<beta>) (stations_ensure_lifecycle P)"
proof -
  have "keeps \<beta> (ensure_lifecycle_expiration (ss_s3 P) d r p)" for d r p
    unfolding ensure_lifecycle_expiration_def by (auto intro!: frame lifecycle_keeps split: sum.splits)
  then have "keeps meta (ensure_lifecycle_expiration (ss_s3 P) d r p)" for d r p by (rule at_keeps)
  then show ?thesis unfolding stations_ensure_lifecycle_def by (auto intro!: inv)
qed

lemma hash_bootstrap [inv]: "preserves (hash_is_stored \<beta>) (maybe_bootstrap_registry_hash P)"
proof (rule preservesI)
  fix ws assume i: "hash_is_stored \<beta> ws"
  obtain w st where ws: "ws = (w, st)" by (cases ws)
  obtain r w1 where d: "download_tile (ss_s3 P) REGISTRY_META_OBJECT w = (r, w1)"
    by (cases "download_tile (ss_s3 P) REGISTRY_META_OBJECT w")
  have b: "\<beta> w1 = \<beta> w" using keepsD [OF download_tile_keeps d] .
  have "m = \<beta> w REGISTRY_META_OBJECT" if "r = Inr m" "stored_hash m = Inr (Some h)" for m h
    using that d download_tile_sound [of REGISTRY_META_OBJECT w _ w1] by (cases m) (auto simp: stored_hash_def)
  then show "hash_is_stored \<beta> (snd (maybe_bootstrap_registry_hash P ws))"
    using i b d
    by (auto simp: ws maybe_bootstrap_registry_hash_def bnd_apply seq_apply on_world2_def on_state2_def set_hash_def
        hash_is_stored_def split: sum.splits option.splits)
qed

lemma hash_warm_registry [inv]: "preserves (hash_is_stored \<beta>) (warm_registry_cache P)"
  unfolding warm_registry_cache_def
  using at_keeps [OF redis_set_frame] at_keeps [OF download_tile_keeps]
  by (auto intro!: inv split: sum.splits option.splits)

lemma upload_returns: "upload_tile (ss_s3 P) k d ct w = (Inr (), w') \<Longrightarrow> \<beta> w' = (\<beta> w)(k \<mapsto> d)"
  using ensure_connected_keeps put_returns
  by (fastforce simp: upload_tile_def seq_def bnd_eq_Inr)

lemma upload_raises: "upload_tile (ss_s3 P) k d ct w = (Inl e, w') \<Longrightarrow> \<beta> w' = \<beta> w"
  using ensure_connected_keeps put_raises
  by (fastforce simp: upload_tile_def seq_apply split: prod.splits sum.splits)

lemma hash_store [inv]: "preserves (hash_is_stored \<beta>) (store_registry P txt src)"
proof (rule preservesI)
  fix ws assume i: "hash_is_stored \<beta> ws"
  obtain w st where ws: "ws = (w, st)" by (cases ws)
  let ?stations = "parse_estaciones_txt txt" and ?now = "ss_now P w" and ?h = "ss_sha256 P txt"
  let ?meta = "Json (registry_meta_payload ?h ?now src ?stations)"
  let ?up = "seq (upload_tile (ss_s3 P) REGISTRY_OBJECT (Json (registry_payload P ?now src ?stations)) ''application/json'')
               (upload_tile (ss_s3 P) REGISTRY_META_OBJECT ?meta ''application/json'')"
  obtain r w' where r: "?up w = (r, w')" by (cases "?up w")
  have k: "keeps meta (upload_tile (ss_s3 P) REGISTRY_OBJECT d ct)" for d ct
    by (rule upload_frame [OF station_objects_distinct(4)])
  have "stored_hash (Some ?meta) = Inr (Some ?h)"
    by (simp add: stored_hash_def registry_meta_payload_def is_dict_def)
  moreover have "meta w' = (case r of Inl e \<Rightarrow> meta w | Inr _ \<Rightarrow> Some ?meta)"
    using r keepsD [OF k] upload_returns upload_raises
    by (auto simp: seq_apply split: prod.splits sum.splits) fastforce+
  ultimately show "hash_is_stored \<beta> (snd (store_registry P txt src ws))"
    using i r
    by (auto simp: ws store_registry_def Let_def bnd_apply catching_def on_world2_def on_state2_def set_hash_def
        hash_is_stored_def split: sum.splits prod.splits if_splits)
qed

lemma hash_source [inv]: "preserves (hash_is_stored \<beta>) (registry_source P)"
proof -
  have f: "keeps meta (ss_fetch_registry_text P)" by (rule at_keeps [OF fetch_keeps(2)])
  have "keeps \<beta> (read_bundled_registry P)"
    unfolding read_bundled_registry_def by (auto intro!: frame bundle_keeps split: sum.splits)
  then have "keeps meta (read_bundled_registry P)" by (rule at_keeps)
  then show ?thesis unfolding registry_source_def using f by (auto intro!: inv split: sum.splits)
qed

lemma hash_cycle: "preserves (hash_is_stored \<beta>) (stations_run_sync P)"
  unfolding stations_run_sync_def refresh_registry_if_changed_def
  using scrape_observations_frame by (auto intro!: inv split: option.splits)

lemma seeded_over_stored:
  assumes "sc_registry_bootstrapped st = False" "sc_registry_hash st = None"
    and "download_tile (ss_s3 P) REGISTRY_META_OBJECT w = (Inr None, w1)"
    and "ss_fetch_registry_text P w1 = (Inl SmnRegistryError, w2)"
    and "ss_fallback_enabled P" "ss_read_bundle P w2 = (Inr txt, w3)" "parse_estaciones_txt txt \<noteq> []"
    and "\<And>k d v. \<exists>v'. upload_tile (ss_s3 P) k d ''application/json'' v = (Inr (), v')"
  shows "\<exists>w4 st'. seq (maybe_bootstrap_registry_hash P) (refresh_registry_if_changed P) (w, st) = (Inr (), (w4, st'))
           \<and> \<beta> w4 REGISTRY_OBJECT = Some (Json (registry_payload P (ss_now P w3) ''bundled'' (parse_estaciones_txt txt)))"
proof -
  let ?pay = "Json (registry_payload P (ss_now P w3) ''bundled'' (parse_estaciones_txt txt))"
  let ?meta = "Json (registry_meta_payload (ss_sha256 P txt) (ss_now P w3) ''bundled'' (parse_estaciones_txt txt))"
  obtain v1 where v1: "upload_tile (ss_s3 P) REGISTRY_OBJECT ?pay ''application/json'' w3 = (Inr (), v1)" using assms(8) by blast
  obtain v2 where v2: "upload_tile (ss_s3 P) REGISTRY_META_OBJECT ?meta ''application/json'' v1 = (Inr (), v2)" using assms(8) by blast
  define st1 where "st1 = st \<lparr> sc_registry_bootstrapped := True \<rparr>"
  have b: "maybe_bootstrap_registry_hash P (w, st) = (Inr (), (w1, st1))"
    using assms(1,3)
    by (simp add: maybe_bootstrap_registry_hash_def bnd_apply seq_apply on_world2_def on_state2_def stored_hash_def st1_def)
  have "registry_source P (w1, st1) = (Inr (Some (txt, ''bundled'')), (w3, st1))"
    using assms(2,4,5,6)
    by (simp add: registry_source_def bnd_apply catching_def on_world2_def is_registry_error_def should_seed_from_bundle_def
        read_bundled_registry_def st1_def)
  moreover have "store_registry P txt ''bundled'' (w3, st1) = (Inr (), (v2, st1 \<lparr> sc_registry_hash := Some (ss_sha256 P txt) \<rparr>))"
    using assms(2,7) v1 v2
    by (simp add: store_registry_def Let_def bnd_apply seq_apply catching_def on_world2_def on_state2_def set_hash_def st1_def)
  ultimately have r: "refresh_registry_if_changed P (w1, st1) = (Inr (), (v2, st1 \<lparr> sc_registry_hash := Some (ss_sha256 P txt) \<rparr>))"
    by (simp add: refresh_registry_if_changed_def)
  have "\<beta> v2 REGISTRY_OBJECT = Some ?pay"
    using upload_returns [OF v1] upload_returns [OF v2] station_objects_distinct(4) by simp
  then show ?thesis using b r by (simp add: seq_apply)
qed

end

section \<open>Types of a snapshot\<close>

fun number_or_null :: "json \<Rightarrow> bool" where
  "number_or_null (JFloat q) = True"
| "number_or_null JNull = True"
| "number_or_null _ = False"

fun text_or_null :: "json \<Rightarrow> bool" where
  "text_or_null (JStr s) = True"
| "text_or_null JNull = True"
| "text_or_null _ = False"

text \<open>What the response models and the dew point expect of an observation.\<close>

definition well_typed_observation :: "json \<Rightarrow> bool" where
  "well_typed_observation obs =
     (is_dict obs \<and> json_as_int (dget obs ''station_id'') \<noteq> None
      \<and> list_all (\<lambda>k. number_or_null (dget obs k)) [''temperature'', ''feels_like'', ''humidity'', ''pressure'', ''visibility'']
      \<and> (let wind = dget obs ''wind''
         in if is_dict wind
            then text_or_null (dget wind ''direction'') \<and> number_or_null (dget wind ''deg'') \<and> number_or_null (dget wind ''speed'')
            else True))"

definition has_int_id :: "json \<Rightarrow> bool" where
  "has_int_id item = (is_dict item \<and> json_as_int (dget item ''station_id'') \<noteq> None)"

lemma number_json_of_float [simp]: "number_or_null (json_of_float q)"
  by (cases q) auto

lemma normalize_wind_typed:
  "is_dict (normalize_wind L v) \<Longrightarrow>
   text_or_null (dget (normalize_wind L v) ''direction'') \<and> number_or_null (dget (normalize_wind L v) ''deg'')
   \<and> number_or_null (dget (normalize_wind L v) ''speed'')"
proof (cases "is_dict v")
  case True
  have "text_or_null (case dget v ''direction'' of JStr d \<Rightarrow> JStr d | _ \<Rightarrow> JNull)" by (auto split: json.split)
  then show ?thesis using True by (simp add: normalize_wind_def dget_def)
qed (simp add: normalize_wind_def)

lemma normalize_item_typed:
  "normalize_item P item = Some obs \<Longrightarrow>
   well_typed_observation obs \<and> dget obs ''station_id'' = dget item ''station_id''"
  using normalize_wind_typed [of "ss_lib P" "dget item ''wind''"]
  by (auto simp: normalize_item_def well_typed_observation_def Let_def is_dict_def dget_def split: if_splits)

lemma normalize_item_None: "normalize_item P item = None \<longleftrightarrow> \<not> has_int_id item"
  by (simp add: normalize_item_def has_int_id_def Let_def)

section \<open>Properties\<close>

text \<open>
  C30. A snapshot is well typed whatever the upstream sent. Its stations are observations with an
  integer id, numbers or nulls in all measurements, and in a wind object text or null for the
  direction and numbers or nulls for its degrees and speed; they are, in order and one for one,
  the rows of the answer that are objects with an integer id.
\<close>

theorem snapshot_well_typed:
  "\<exists>obs. dget (build_snapshot P scraped_at raw) ''stations'' = JArr obs
     \<and> list_all well_typed_observation obs
     \<and> map (\<lambda>o'. dget o' ''station_id'') obs = map (\<lambda>item. dget item ''station_id'') (filter has_int_id raw)"
proof -
  let ?obs = "List.map_filter (normalize_item P) raw"
  have "list_all well_typed_observation ?obs
    \<and> map (\<lambda>o'. dget o' ''station_id'') ?obs = map (\<lambda>item. dget item ''station_id'') (filter has_int_id raw)"
  proof (induction raw)
    case (Cons item raw)
    show ?case
    proof (cases "normalize_item P item")
      case None
      then show ?thesis using Cons normalize_item_None [of P item] by (simp add: List.map_filter_simps)
    next
      case (Some obs)
      then have "has_int_id item" using normalize_item_None [of P item] by simp
      then show ?thesis using Cons Some normalize_item_typed [OF Some] by (simp add: List.map_filter_simps)
    qed
  qed (simp add: List.map_filter_simps)
  then show ?thesis by (simp add: build_snapshot_def dget_def)
qed


text \<open>A bucket in memory, and one whose reads all fail while uploads work.\<close>

definition unreadable_s3 :: "(bucket \<times> keyspace) s3" where
  "unreadable_s3 = mem_s3 \<lparr> b_get_object := (\<lambda>k w. (Inl BotoCoreError, w)) \<rparr>"

definition bundle_text :: string where
  "bundle_text = registry_text (\<lambda>_. 12) ''NOMBRE'' ''[gr]'' [pena_row]"

definition demo_scraper :: "(bucket \<times> keyspace) s3 \<Rightarrow> (bucket \<times> keyspace) station_scraper" where
  "demo_scraper S =
     \<lparr> ss_s3 = S, ss_redis = Some (pair_redis mem_redis), ss_fetch_observations = ret [],
       ss_fetch_registry_text = raise SmnRegistryError, ss_record_sync_cycle = None,
       ss_now = (\<lambda>w. DateTime 2026 7 1 12 0 0), ss_read_bundle = ret bundle_text, ss_sha256 = (\<lambda>s. s),
       ss_isoformat = (\<lambda>t. ''2026-07-01T12:00:00+00:00''), ss_lib = demo_lib,
       ss_source_url = ''https://api/weather/station'', ss_registry_url = ''https://registry'', ss_fallback_enabled = True,
       ss_fallback_path = ''resources/estaciones_smn.txt'', ss_object_ttl_days = 3, ss_cache_enabled = True,
       ss_latest_ttl = 600, ss_tilesets_ttl = 600, ss_registry_ttl = 3600, ss_snapshot_ttl = 3600, ss_series_ttl = 3600,
       ss_animation_warm_buckets = 24, ss_series_hours = 48 \<rparr>"


interpretation unreadable_stations: station_store "demo_scraper unreadable_s3" fst
proof unfold_locales
qed (auto simp: demo_scraper_def unreadable_s3_def mem_s3_def keeps_def pair_redis_def on_cache_def mem_redis_def
      mem_listing_def finite_listed members_of_def split: option.splits if_splits prod.splits)


text \<open>
  An outage lets the bundled registry replace the stored one. When the first cycle cannot read
  the stored meta object, because a failed download looks like a missing object, and the live
  registry is unavailable, the bundled copy is uploaded over whatever the bucket holds.
\<close>

theorem outage_seeds_over_stored:
  assumes "station_store P \<beta>" "\<not> sc_registry_bootstrapped st" "sc_registry_hash st = None"
    and "download_tile (ss_s3 P) REGISTRY_META_OBJECT w = (Inr None, w1)"
    and "ss_fetch_registry_text P w1 = (Inl SmnRegistryError, w2)"
    and "ss_fallback_enabled P" "ss_read_bundle P w2 = (Inr txt, w3)" "parse_estaciones_txt txt \<noteq> []"
    and "\<And>k d v. \<exists>v'. upload_tile (ss_s3 P) k d ''application/json'' v = (Inr (), v')"
  shows "\<exists>w4 st'. seq (maybe_bootstrap_registry_hash P) (refresh_registry_if_changed P) (w, st) = (Inr (), (w4, st'))
           \<and> \<beta> w4 REGISTRY_OBJECT = Some (Json (registry_payload P (ss_now P w3) ''bundled'' (parse_estaciones_txt txt)))"
  using assms(2) by (intro station_store.seeded_over_stored [OF assms(1) _ assms(3-9)]) auto

lemma bundle_parses: "parse_estaciones_txt bundle_text \<noteq> []"
proof -
  have "one_line ''NOMBRE''" "one_line ''[gr]''" by (simp_all add: LF_def CR_def)
  then show ?thesis using wf_pena_row by (simp add: bundle_text_def parse_registry_text)
qed

theorem outage_seeds_over_stored_witness:
  "let P = demo_scraper unreadable_s3;
       stored = [REGISTRY_OBJECT \<mapsto> Json (JObj [(''source'', JStr ''remote'')]),
                 REGISTRY_META_OBJECT \<mapsto> Json (JObj [(''source_hash'', JStr ''fresh'')])]
   in \<exists>w4 st'. seq (maybe_bootstrap_registry_hash P) (refresh_registry_if_changed P) ((stored, Map.empty), new_scraper_state)
                = (Inr (), (w4, st'))
        \<and> fst w4 REGISTRY_OBJECT
          = Some (Json (registry_payload P (DateTime 2026 7 1 12 0 0) ''bundled'' (parse_estaciones_txt bundle_text)))"
proof -
  let ?P = "demo_scraper unreadable_s3"
  have d: "download_tile (ss_s3 ?P) k w = (Inr None, w)" for k w
    by (simp add: demo_scraper_def unreadable_s3_def mem_s3_def download_tile_def ensure_connected_def catching_def
        bnd_apply seq_apply)
  have f: "ss_fetch_registry_text ?P w = (Inl SmnRegistryError, w)" "ss_fallback_enabled ?P"
    "ss_read_bundle ?P w = (Inr bundle_text, w)" "ss_now ?P w = DateTime 2026 7 1 12 0 0" for w
    by (simp_all add: demo_scraper_def)
  have u: "\<exists>v'. upload_tile (ss_s3 ?P) k d ct v = (Inr (), v')" for k d ct v
    by (simp add: demo_scraper_def unreadable_s3_def mem_s3_def upload_tile_def ensure_connected_def seq_apply bnd_apply)
  show ?thesis
    using outage_seeds_over_stored [OF unreadable_stations.station_store_axioms _ _ d f(1) f(2) f(3) bundle_parses u,
        of new_scraper_state]
    by (simp add: new_scraper_state_def f(4) Let_def)
qed

end
