(* ===== verification/Sync_Base.thy ===== *)
theory Sync_Base
  imports Prelude
begin

text \<open>
  The life cycle shared by all background loops (\<^verbatim>\<open>services/base_sync_service.py\<close>): the
  file lock that lets one worker sync, start and stop, and the fixed-interval loop.
\<close>

section \<open>Workers and the lock\<close>

text \<open>
  One service object of a worker process. \<^verbatim>\<open>bs_lock\<close> is the open lock file handle,
  \<^verbatim>\<open>bs_task\<close> the loop task.
\<close>

record base_state =
  bs_running :: bool
  bs_task :: bool
  bs_lock :: bool

definition new_base_state :: base_state where
  "new_base_state = \<lparr> bs_running = False, bs_task = False, bs_lock = False \<rparr>"

text \<open>
  What the operating system answers: opening the lock file, and \<^verbatim>\<open>lockf\<close> with
  \<^verbatim>\<open>LOCK_EX | LOCK_NB\<close>. \<^verbatim>\<open>LockBusy\<close> stands for EAGAIN and EACCES, \<^verbatim>\<open>LockBroken\<close> for
  any other errno.
\<close>

datatype lock_answer = LockGranted | LockBusy | LockBroken

datatype start_result = AlreadyRunning | CheckFailed | Disabled | Started

definition start_service ::
  "bool \<Rightarrow> bool \<Rightarrow> lock_answer \<Rightarrow> base_state \<Rightarrow> (exn + start_result) \<times> base_state" where
  "start_service pre_start_check opens answer s =
     (if bs_running s then (Inr AlreadyRunning, s)
      else if \<not> pre_start_check then (Inr CheckFailed, s)
      else if \<not> opens then (Inl OSError, s)
      else let s1 = s\<lparr> bs_lock := True \<rparr>
           in case answer of
                LockBusy \<Rightarrow> (Inr Disabled, s1\<lparr> bs_lock := False \<rparr>)
              | LockBroken \<Rightarrow> (Inl OSError, s1\<lparr> bs_lock := False \<rparr>)
              | LockGranted \<Rightarrow> (Inr Started, s1\<lparr> bs_running := True, bs_task := True \<rparr>))"

text \<open>
  Stopping cancels the task and awaits it: \<^verbatim>\<open>None\<close> when it ends cancelled or had returned,
  \<^verbatim>\<open>Some e\<close> when it had ended with an exception, which leaves \<^verbatim>\<open>stop\<close> before the lock is
  released. Errors while releasing are logged.
\<close>

definition stop_service :: "exn option \<Rightarrow> base_state \<Rightarrow> (exn + unit) \<times> base_state" where
  "stop_service task_error s =
     (if \<not> bs_running s then (Inr (), s)
      else let s1 = s\<lparr> bs_running := False \<rparr>
           in case (if bs_task s then task_error else None) of
                Some e \<Rightarrow> (Inl e, s1)
              | None \<Rightarrow> (Inr (), s1\<lparr> bs_task := False, bs_lock := False \<rparr>))"

section \<open>The loop\<close>

text \<open>
  One pass: the sync runs for \<^verbatim>\<open>elapsed\<close> seconds and ends; then the next sleep is computed
  from the default and floored. \<^verbatim>\<open>next_sleep\<close> is the service's \<^verbatim>\<open>_compute_next_sleep\<close>.
\<close>

datatype cycle_end = CycleDone | CycleRaised exn | CycleCancelled

datatype loop_step = SleepFor rat | LoopEnds | LoopDies exn

definition default_sleep :: "int \<Rightarrow> rat \<Rightarrow> rat" where
  "default_sleep sync_interval elapsed = max 0 (of_int sync_interval - elapsed)"

definition loop_iteration ::
  "int \<Rightarrow> int \<Rightarrow> (rat \<Rightarrow> exn + rat) \<Rightarrow> rat \<Rightarrow> cycle_end \<Rightarrow> bool \<Rightarrow> loop_step" where
  "loop_iteration sync_interval min_sleep next_sleep elapsed ending running =
     (case ending of
        CycleCancelled \<Rightarrow> LoopEnds
      | _ \<Rightarrow> if \<not> running then LoopEnds
             else case next_sleep (default_sleep sync_interval elapsed) of
                    Inl e \<Rightarrow> LoopDies e
                  | Inr t \<Rightarrow> SleepFor (max (of_int min_sleep) t))"

text \<open>The base class returns the default unchanged.\<close>

definition compute_default_sleep :: "rat \<Rightarrow> exn + rat" where
  "compute_default_sleep t = Inr t"

text \<open>The start times of the cycles when the passes last \<^verbatim>\<open>ds\<close> and the service keeps running.\<close>

fun cycle_starts ::
  "int \<Rightarrow> int \<Rightarrow> (rat \<Rightarrow> exn + rat) \<Rightarrow> rat \<Rightarrow> rat list \<Rightarrow> rat list" where
  "cycle_starts interval floor_s next_sleep t [] = [t]"
| "cycle_starts interval floor_s next_sleep t (d # ds) =
     t # (case loop_iteration interval floor_s next_sleep d CycleDone True of
            SleepFor s \<Rightarrow> cycle_starts interval floor_s next_sleep (t + d + s) ds
          | _ \<Rightarrow> [])"

section \<open>Pacing\<close>

text \<open>
  Pacing of the background loops. With the default sleep, a pass that took \<^verbatim>\<open>elapsed\<close>
  seconds, whether it succeeded or raised, is followed by a pause of at least the floor, and
  the next cycle starts at least one interval after this one started; it starts exactly one
  interval later when the pass left room for the floor, and exactly the floor after the end
  of the pass otherwise. No overrun can make the loop spin.
\<close>

theorem loop_pacing:
  assumes "0 \<le> elapsed" "ending \<noteq> CycleCancelled"
  shows "\<exists>s. loop_iteration interval floor_s compute_default_sleep elapsed ending True = SleepFor s
       \<and> of_int floor_s \<le> s \<and> 0 \<le> s \<and> of_int interval \<le> elapsed + s
       \<and> (0 \<le> floor_s \<longrightarrow> elapsed + of_int floor_s \<le> of_int interval \<longrightarrow> elapsed + s = of_int interval)
       \<and> (0 \<le> floor_s \<longrightarrow> of_int interval \<le> elapsed + of_int floor_s \<longrightarrow> s = of_int floor_s)"
  using assms
  by (cases ending)
     (auto simp: loop_iteration_def compute_default_sleep_def default_sleep_def max_def)

theorem loop_pacing_witness:
  "\<exists>s. loop_iteration 60 5 compute_default_sleep 58 (CycleRaised TimeoutError) True = SleepFor s
       \<and> 5 \<le> s \<and> 60 \<le> 58 + s"
  using loop_pacing [of 58 "CycleRaised TimeoutError" 60 5] by auto

text \<open>Consecutive cycles start at least an interval apart.\<close>

lemma cycle_starts_hd: "\<exists>rest. cycle_starts i f n t ds = t # rest"
  by (cases ds) auto

lemma cycle_starts_spaced:
  assumes "\<forall>d\<in>set ds. 0 \<le> d" "0 \<le> interval"
  shows "sorted_wrt (\<lambda>a b. of_int interval \<le> b - a) (cycle_starts interval f compute_default_sleep t ds)
     \<and> (\<forall>x\<in>set (cycle_starts interval f compute_default_sleep t ds). t \<le> x)"
  using assms(1)
proof (induction ds arbitrary: t)
  case (Cons d ds)
  let ?s = "max (of_int f) (default_sleep interval d)"
  have s: "loop_iteration interval f compute_default_sleep d CycleDone True = SleepFor ?s"
    by (simp add: loop_iteration_def compute_default_sleep_def)
  have gap: "of_int interval \<le> d + ?s" "0 \<le> d" using Cons.prems by (auto simp: default_sleep_def max_def)
  have IH: "sorted_wrt (\<lambda>a b. of_int interval \<le> b - a) (cycle_starts interval f compute_default_sleep (t + d + ?s) ds)"
    "\<forall>x\<in>set (cycle_starts interval f compute_default_sleep (t + d + ?s) ds). t + d + ?s \<le> x"
    using Cons by auto
  have i: "0 \<le> (of_int interval :: rat)" using assms(2) by simp
  show ?case using s IH gap i by fastforce
qed simp

section \<open>One writer\<close>

text \<open>
  The worker processes of one host and the record lock on the lock file: \<^verbatim>\<open>lk\<close> is the
  process that holds it. A process that dies loses the lock.
\<close>

record cluster =
  cl_workers :: "nat \<Rightarrow> base_state"
  cl_lock :: "nat option"

definition new_cluster :: cluster where
  "new_cluster = \<lparr> cl_workers = (\<lambda>_. new_base_state), cl_lock = None \<rparr>"

definition lock_answer_for :: "nat \<Rightarrow> cluster \<Rightarrow> lock_answer \<Rightarrow> bool" where
  "lock_answer_for i c a =
     (case a of LockGranted \<Rightarrow> cl_lock c = None \<or> cl_lock c = Some i
              | LockBusy \<Rightarrow> cl_lock c \<noteq> None \<and> cl_lock c \<noteq> Some i
              | LockBroken \<Rightarrow> True)"

definition set_worker :: "nat \<Rightarrow> base_state \<Rightarrow> cluster \<Rightarrow> cluster" where
  "set_worker i s c =
     c\<lparr> cl_workers := (cl_workers c)(i := s),
        cl_lock := (if bs_lock s then Some i else if cl_lock c = Some i then None else cl_lock c) \<rparr>"

inductive cluster_step :: "cluster \<Rightarrow> cluster \<Rightarrow> bool" where
  start: "lock_answer_for i c a \<Longrightarrow> start_service chk opens a (cl_workers c i) = (r, s) \<Longrightarrow>
          cluster_step c (set_worker i s c)"
| stop: "stop_service err (cl_workers c i) = (r, s) \<Longrightarrow> cluster_step c (set_worker i s c)"
| crash: "cluster_step c (set_worker i new_base_state c)"

inductive reachable_cluster :: "cluster \<Rightarrow> bool" where
  init: "reachable_cluster new_cluster"
| step: "reachable_cluster c \<Longrightarrow> cluster_step c c' \<Longrightarrow> reachable_cluster c'"

definition worker_inv :: "nat \<Rightarrow> cluster \<Rightarrow> bool" where
  "worker_inv i c \<longleftrightarrow>
     (bs_lock (cl_workers c i) \<longleftrightarrow> cl_lock c = Some i)
     \<and> (bs_running (cl_workers c i) \<longrightarrow> bs_lock (cl_workers c i) \<and> bs_task (cl_workers c i))"

lemma worker_inv_new: "worker_inv i new_cluster"
  by (simp add: worker_inv_def new_cluster_def new_base_state_def)

text \<open>
  A start of a stopped service whose \<^verbatim>\<open>stop\<close> had raised may find its own handle still
  open; the operating system grants a process the lock it already holds.
\<close>

lemma start_service_cases:
  assumes "start_service chk opens a s = (r, s')"
  obtains (same) "s' = s" | (refused) "a \<noteq> LockGranted" "\<not> bs_running s" "s' = s\<lparr> bs_lock := False \<rparr>"
    | (granted) "a = LockGranted" "s' = s\<lparr> bs_lock := True, bs_running := True, bs_task := True \<rparr>"
  using assms by (auto simp: start_service_def Let_def split: if_splits lock_answer.splits)

lemma stop_service_cases:
  assumes "stop_service err s = (r, s')"
  obtains (idle) "s' = s" | (raised) "s' = s\<lparr> bs_running := False \<rparr>"
    | (stopped) "s' = s\<lparr> bs_running := False, bs_task := False, bs_lock := False \<rparr>"
  using assms by (auto simp: stop_service_def Let_def split: if_splits option.splits)

lemma set_worker_inv:
  assumes "\<And>j. worker_inv j c" "bs_running s \<Longrightarrow> bs_lock s \<and> bs_task s"
    and "bs_lock s \<Longrightarrow> cl_lock c = None \<or> cl_lock c = Some i"
  shows "worker_inv j (set_worker i s c)"
  using assms(1) [of j] assms(1) [of i] assms(2,3)
  by (auto simp: worker_inv_def set_worker_def)

lemma cluster_step_inv:
  assumes "cluster_step c c'" "\<And>i. worker_inv i c"
  shows "worker_inv i c'"
  using assms(1)
proof (cases rule: cluster_step.cases)
  case (start k a chk opens r s)
  note k = assms(2) [of k]
  show ?thesis unfolding start(1)
  proof (rule set_worker_inv [OF assms(2)])
    show "bs_running s \<Longrightarrow> bs_lock s \<and> bs_task s"
      using start(3) k by (cases rule: start_service_cases) (auto simp: worker_inv_def)
    show "bs_lock s \<Longrightarrow> cl_lock c = None \<or> cl_lock c = Some k"
      using start(3) k start(2) by (cases rule: start_service_cases) (auto simp: worker_inv_def lock_answer_for_def)
  qed
next
  case (stop err k r s)
  note k = assms(2) [of k]
  show ?thesis unfolding stop(1)
  proof (rule set_worker_inv [OF assms(2)])
    show "bs_running s \<Longrightarrow> bs_lock s \<and> bs_task s"
      using stop(2) k by (cases rule: stop_service_cases) (auto simp: worker_inv_def)
    show "bs_lock s \<Longrightarrow> cl_lock c = None \<or> cl_lock c = Some k"
      using stop(2) k by (cases rule: stop_service_cases) (auto simp: worker_inv_def)
  qed
next
  case (crash k)
  show ?thesis unfolding crash(1)
    by (rule set_worker_inv [OF assms(2)]) (auto simp: new_base_state_def)
qed

lemma reachable_worker_inv: "reachable_cluster c \<Longrightarrow> worker_inv i c"
proof (induction arbitrary: i rule: reachable_cluster.induct)
  case init
  show ?case by (rule worker_inv_new)
next
  case (step c c')
  show ?case by (rule cluster_step_inv [OF step.hyps(2) step.IH])
qed

text \<open>
  C9. One writer. Whatever the workers do (start, stop, refused and failed locks, a stop
  that raises, a process that dies), at most one of them is running the sync, and it is the
  one that holds the lock; a worker that stopped cleanly or died leaves the lock free, so
  another one can take over.
\<close>

theorem single_writer:
  assumes "reachable_cluster c"
  shows "(bs_running (cl_workers c i) \<longrightarrow> cl_lock c = Some i)
     \<and> (bs_running (cl_workers c i) \<and> bs_running (cl_workers c j) \<longrightarrow> i = j)
     \<and> (stop_service None (cl_workers c i) = (Inr (), s) \<and> bs_running (cl_workers c i)
          \<longrightarrow> cl_lock (set_worker i s c) = None)"
proof (intro conjI impI)
  note wi = reachable_worker_inv [OF assms]
  show a: "cl_lock c = Some i" if "bs_running (cl_workers c i)"
    using that wi [of i] by (auto simp: worker_inv_def)
  show "i = j" if "bs_running (cl_workers c i) \<and> bs_running (cl_workers c j)"
    using that wi [of i] wi [of j] by (auto simp: worker_inv_def)
  show "cl_lock (set_worker i s c) = None"
    if "stop_service None (cl_workers c i) = (Inr (), s) \<and> bs_running (cl_workers c i)"
    using that a by (auto simp: stop_service_def set_worker_def)
qed

theorem single_writer_witness:
  "let s = snd (start_service True True LockGranted new_base_state); c = set_worker 3 s new_cluster
   in bs_running (cl_workers c 3) \<and> cl_lock c = Some 3
      \<and> cl_lock (set_worker 3 (snd (stop_service None s)) c) = None"
proof -
  let ?s = "snd (start_service True True LockGranted new_base_state)"
  let ?c = "set_worker 3 ?s new_cluster"
  have a: "lock_answer_for 3 new_cluster LockGranted" by (simp add: lock_answer_for_def new_cluster_def)
  have st: "start_service True True LockGranted (cl_workers new_cluster 3) = (Inr Started, ?s)"
    by (simp add: start_service_def new_cluster_def new_base_state_def)
  have "reachable_cluster ?c"
    by (rule reachable_cluster.step [OF reachable_cluster.init cluster_step.start [OF a st]])
  moreover have "bs_running (cl_workers ?c 3)"
    by (simp add: set_worker_def start_service_def new_base_state_def)
  moreover have "stop_service None (cl_workers ?c 3) = (Inr (), snd (stop_service None ?s))"
    by (simp add: set_worker_def start_service_def stop_service_def new_base_state_def)
  ultimately show ?thesis using single_writer [of ?c 3 3] by (auto simp: Let_def)
qed

end
