(* ===== verification/Sync_Domain.thy ===== *)
theory Sync_Domain
  imports Sync_Base Redis_Client
begin

text \<open>
  One product loop (\<^verbatim>\<open>services/domain_sync_service.py\<close>): the guarded cycle with its
  watchdog, the counters and the status document in Redis. The service object's own
  attributes sit beside the world, so that what was assigned before an exception stays.
\<close>

record domain_state =
  dm_client :: bool                 \<comment> \<open>the S3 client has been created\<close>
  dm_consecutive_failures :: nat
  dm_consecutive_timeouts :: nat
  dm_total_cycles :: nat

definition new_domain_state :: domain_state where
  "new_domain_state =
     \<lparr> dm_client = False, dm_consecutive_failures = 0, dm_consecutive_timeouts = 0, dm_total_cycles = 0 \<rparr>"

text \<open>
  The surroundings of a cycle: settings, Redis, the metrics store, the clock,
  \<^verbatim>\<open>asyncio.wait_for\<close> with the loop's timeout, and how times print.
\<close>

record 'w domain_env =
  de_domain :: string
  de_s3_configured :: bool
  de_redis :: "'w redis option"
  de_record :: "(string \<Rightarrow> rat \<Rightarrow> rat \<Rightarrow> int \<Rightarrow> nat \<Rightarrow> nat \<Rightarrow> string \<Rightarrow> ('w, unit) io) option"
  de_clock :: "'w \<Rightarrow> rat"
  de_wait_for :: "('w, nat \<times> nat) io \<Rightarrow> ('w, nat \<times> nat) io"
  de_str_time :: "rat \<Rightarrow> string"

text \<open>\<^verbatim>\<open>except Exception\<close>: everything but the cancellation of the task.\<close>

definition not_cancelled :: "exn \<Rightarrow> bool" where
  "not_cancelled e = (e \<noteq> CancelledError)"

definition on_sync_error :: "domain_state \<Rightarrow> domain_state" where
  "on_sync_error s = s\<lparr> dm_consecutive_failures := dm_consecutive_failures s + 1 \<rparr>"

definition record_domain_cycle ::
  "'w domain_env \<Rightarrow> rat \<Rightarrow> rat \<Rightarrow> int \<Rightarrow> nat \<Rightarrow> nat \<Rightarrow> string option \<Rightarrow> ('w, unit) io" where
  "record_domain_cycle env started_at finished_at duration_ms downloaded errors outcome =
     (case de_record env of
        None \<Rightarrow> ret ()
      | Some rec \<Rightarrow>
          let out = (case outcome of Some x \<Rightarrow> x | None \<Rightarrow> if errors \<noteq> 0 then ''error'' else ''ok'')
          in bnd (catching not_cancelled
                   (rec (de_domain env) started_at finished_at duration_ms downloaded errors out)) (\<lambda>_. ret ()))"

definition is_timeout :: "exn \<Rightarrow> bool" where
  "is_timeout e = (e = TimeoutError)"

definition timed_domain :: "'w domain_env \<Rightarrow> ('w, nat \<times> nat) io \<Rightarrow> ('w, nat \<times> nat \<times> bool) io" where
  "timed_domain env coro =
     bnd (reads (de_clock env)) (\<lambda>start_t.
     bnd (catching is_timeout (de_wait_for env coro)) (\<lambda>r.
       let (downloaded, errors, outcome, timed_out) =
             (case r of Inr (d, e) \<Rightarrow> (d, e, None, False) | Inl _ \<Rightarrow> (0, 0, Some ''timeout'', True))
       in bnd (reads (de_clock env)) (\<lambda>end_t.
          seq (record_domain_cycle env start_t end_t (py_trunc ((end_t - start_t) * 1000)) downloaded errors outcome)
              (ret (downloaded, errors, timed_out)))))"

definition count_cycle :: "nat \<Rightarrow> bool \<Rightarrow> domain_state \<Rightarrow> domain_state" where
  "count_cycle errors timed_out s =
     (let s1 = s\<lparr> dm_total_cycles := dm_total_cycles s + 1 \<rparr>
      in if timed_out then s1\<lparr> dm_consecutive_timeouts := dm_consecutive_timeouts s + 1 \<rparr>
         else if errors = 0 then s1\<lparr> dm_consecutive_failures := 0, dm_consecutive_timeouts := 0 \<rparr>
         else s1\<lparr> dm_consecutive_failures := dm_consecutive_failures s + 1 \<rparr>)"

definition status_document ::
  "'w domain_env \<Rightarrow> rat \<Rightarrow> rat \<Rightarrow> nat \<Rightarrow> nat \<Rightarrow> domain_state \<Rightarrow> (string \<times> string) list" where
  "status_document env sync_start sync_end downloaded errors s =
     [ (''is_running'', ''false''),
       (''last_sync_end'', de_str_time env sync_end),
       (''last_sync_duration_ms'', str_of_int (py_trunc ((sync_end - sync_start) * 1000))),
       (''last_sync_downloaded'', str_of_int (int downloaded)),
       (''last_sync_errors'', str_of_int (int errors)),
       (''consecutive_failures'', str_of_int (int (dm_consecutive_failures s))),
       (''consecutive_timeouts'', str_of_int (int (dm_consecutive_timeouts s))),
       (''total_cycles'', str_of_int (int (dm_total_cycles s))) ]"

definition run_single_domain :: "'w domain_env \<Rightarrow> ('w, nat \<times> nat) io \<Rightarrow> ('w \<times> domain_state, unit) io" where
  "run_single_domain env coro =
     (if \<not> de_s3_configured env then ret ()
      else seq (on_state2 (\<lambda>s. s\<lparr> dm_client := True \<rparr>))
          (case de_redis env of
             None \<Rightarrow> ret ()
           | Some R \<Rightarrow>
               bnd (on_world2 (reads (de_clock env))) (\<lambda>sync_start.
               seq (on_world2 (update_domain_sync_status R (de_domain env)
                      [(''is_running'', ''true''), (''last_sync_start'', de_str_time env sync_start)]))
              (bnd (on_world2 (timed_domain env coro)) (\<lambda>(downloaded, errors, timed_out).
               seq (on_state2 (count_cycle errors timed_out))
              (bnd (on_world2 (reads (de_clock env))) (\<lambda>sync_end.
               bnd (reads snd) (\<lambda>s.
                 on_world2 (update_domain_sync_status R (de_domain env)
                   (status_document env sync_start sync_end downloaded errors s))))))))))"

text \<open>
  One pass of the loop body: the cycle, and \<^verbatim>\<open>_on_sync_error\<close> on any exception that is
  not a cancellation.
\<close>

definition domain_pass :: "'w domain_env \<Rightarrow> ('w, nat \<times> nat) io \<Rightarrow> ('w \<times> domain_state, cycle_end) io" where
  "domain_pass env coro ws =
     (case run_single_domain env coro ws of
        (Inr _, ws') \<Rightarrow> (Inr CycleDone, ws')
      | (Inl e, (w', s')) \<Rightarrow>
          if e = CancelledError then (Inr CycleCancelled, (w', s'))
          else (Inr (CycleRaised e), (w', on_sync_error s')))"

section \<open>The counters\<close>

text \<open>How a counted cycle ended.\<close>

datatype outcome = Clean | Failed | TimedOut

fun count_outcome :: "outcome \<Rightarrow> domain_state \<Rightarrow> domain_state" where
  "count_outcome Clean = count_cycle 0 False"
| "count_outcome Failed = count_cycle 1 False"
| "count_outcome TimedOut = count_cycle 0 True"

lemma count_cycle_outcome:
  "count_cycle errors timed_out =
     count_outcome (if timed_out then TimedOut else if errors = 0 then Clean else Failed)"
  by (rule ext) (simp add: count_cycle_def Let_def)

text \<open>The outcomes since the last clean one, newest first.\<close>

definition since_clean :: "outcome list \<Rightarrow> outcome list" where
  "since_clean os = takeWhile (\<lambda>x. x \<noteq> Clean) os"

lemma foldr_count_outcome:
  "foldr count_outcome os s =
     s\<lparr> dm_total_cycles := dm_total_cycles s + length os,
        dm_consecutive_failures :=
          count_list (since_clean os) Failed + (if Clean \<in> set os then 0 else dm_consecutive_failures s),
        dm_consecutive_timeouts :=
          count_list (since_clean os) TimedOut + (if Clean \<in> set os then 0 else dm_consecutive_timeouts s) \<rparr>"
proof (induction os)
  case (Cons x os)
  then show ?case by (cases x) (auto simp: since_clean_def count_cycle_def Let_def)
qed (simp add: since_clean_def)

text \<open>
  What a pass reports and how it counts, from what the watchdog saw: a result, its own
  timeout, a cancellation or another exception.
\<close>

fun pass_effect :: "exn + nat \<times> nat \<Rightarrow> domain_state \<Rightarrow> cycle_end \<times> domain_state" where
  "pass_effect (Inr (d, e)) s = (CycleDone, count_outcome (if e = 0 then Clean else Failed) s)"
| "pass_effect (Inl TimeoutError) s = (CycleDone, count_outcome TimedOut s)"
| "pass_effect (Inl CancelledError) s = (CycleCancelled, s)"
| "pass_effect (Inl e) s = (CycleRaised e, on_sync_error s)"

definition status_up :: "'w domain_env \<Rightarrow> 'w redis \<Rightarrow> bool" where
  "status_up env R \<longleftrightarrow> (\<forall>es w. fst (update_domain_sync_status R (de_domain env) es w) = Inr ())"

definition record_quiet :: "'w domain_env \<Rightarrow> bool" where
  "record_quiet env \<longleftrightarrow>
     (\<forall>rec a b c d e f w. de_record env = Some rec \<longrightarrow> fst (rec (de_domain env) a b c d e f w) \<noteq> Inl CancelledError)"

lemma record_domain_cycle_returns:
  "record_quiet env \<Longrightarrow> \<exists>w'. record_domain_cycle env a b c d e f w = (Inr (), w')"
proof -
  assume q: "record_quiet env"
  show ?thesis
  proof (cases "de_record env")
    case None
    then show ?thesis by (simp add: record_domain_cycle_def)
  next
    case (Some rec)
    let ?out = "case f of Some x \<Rightarrow> x | None \<Rightarrow> if e \<noteq> 0 then ''error'' else ''ok''"
    obtain r w1 where m: "rec (de_domain env) a b c d e ?out w = (r, w1)"
      by (cases "rec (de_domain env) a b c d e ?out w")
    have "fst (rec (de_domain env) a b c d e ?out w) \<noteq> Inl CancelledError"
      using q Some unfolding record_quiet_def by blast
    then have "r \<noteq> Inl CancelledError" using m by simp
    then show ?thesis using Some m
      by (cases r) (auto simp: record_domain_cycle_def Let_def catching_def bnd_def not_cancelled_def)
  qed
qed

lemma timed_domain_result:
  assumes "record_quiet env" "de_wait_for env coro w = (r, w1)"
  shows "\<exists>w2. timed_domain env coro w =
     ((case r of Inr (d, e) \<Rightarrow> Inr (d, e, False)
       | Inl ex \<Rightarrow> if ex = TimeoutError then Inr (0, 0, True) else Inl ex), w2)"
proof (cases r)
  case (Inl ex)
  obtain w2 where "record_domain_cycle env (de_clock env w) (de_clock env w1)
        (py_trunc ((de_clock env w1 - de_clock env w) * 1000)) 0 0 (Some ''timeout'') w1 = (Inr (), w2)"
    using record_domain_cycle_returns [OF assms(1)] by blast
  then show ?thesis
    using assms(2) Inl by (auto simp: timed_domain_def bnd_apply seq_apply catching_def is_timeout_def)
next
  case (Inr de)
  obtain d e where "de = (d, e)" by (cases de)
  moreover obtain w2 where "record_domain_cycle env (de_clock env w) (de_clock env w1)
        (py_trunc ((de_clock env w1 - de_clock env w) * 1000)) d e None w1 = (Inr (), w2)"
    using record_domain_cycle_returns [OF assms(1)] by blast
  ultimately show ?thesis
    using assms(2) Inr by (auto simp: timed_domain_def bnd_apply seq_apply catching_def)
qed

lemma update_status_returns:
  assumes "status_up env R"
  shows "\<exists>w'. update_domain_sync_status R (de_domain env) es w = (Inr (), w')"
  using assms unfolding status_up_def by (metis prod.collapse)

lemma domain_pass_effect:
  assumes "de_s3_configured env" "de_redis env = Some R" "status_up env R" "record_quiet env"
  shows "\<exists>w1 r w2 w'. de_wait_for env coro w1 = (r, w2)
     \<and> domain_pass env coro (w, s) =
         (case pass_effect r (s\<lparr> dm_client := True \<rparr>) of (c, s') \<Rightarrow> (Inr c, (w', s')))"
proof -
  let ?es = "[(''is_running'', ''true''), (''last_sync_start'', de_str_time env (de_clock env w))]"
  obtain w1 where u: "update_domain_sync_status R (de_domain env) ?es w = (Inr (), w1)"
    using update_status_returns [OF assms(3)] by blast
  obtain r wr where r: "de_wait_for env coro w1 = (r, wr)" by (cases "de_wait_for env coro w1")
  obtain w2 where t: "timed_domain env coro w1 =
     ((case r of Inr (d, e) \<Rightarrow> Inr (d, e, False)
       | Inl ex \<Rightarrow> if ex = TimeoutError then Inr (0, 0, True) else Inl ex), w2)"
    using timed_domain_result [OF assms(4) r] by blast
  let ?s1 = "s\<lparr> dm_client := True \<rparr>"
  have ok: "\<exists>w'. run_single_domain env coro (w, s) = (Inr (), (w', count_cycle e to ?s1))"
    if "timed_domain env coro w1 = (Inr (d, e, to), w2)" for d e to
  proof -
    obtain w' where "update_domain_sync_status R (de_domain env)
        (status_document env (de_clock env w) (de_clock env w2) d e (count_cycle e to ?s1)) w2 = (Inr (), w')"
      using update_status_returns [OF assms(3)] by blast
    then show ?thesis
      using assms(1,2) u that
      by (simp add: run_single_domain_def seq_apply bnd_apply on_world2_def on_state2_def)
  qed
  have bad: "run_single_domain env coro (w, s) = (Inl ex, (w2, ?s1))"
    if "timed_domain env coro w1 = (Inl ex, w2)" for ex
    using assms(1,2) u that
    by (simp add: run_single_domain_def seq_apply bnd_apply on_world2_def on_state2_def)
  have "\<exists>w'. domain_pass env coro (w, s) =
         (case pass_effect r ?s1 of (c, s') \<Rightarrow> (Inr c, (w', s')))"
  proof (cases r)
    case (Inr de)
    obtain d e where "de = (d, e)" by (cases de)
    then have "timed_domain env coro w1 = (Inr (d, e, False), w2)" using t Inr by simp
    from ok [OF this] show ?thesis using Inr \<open>de = (d, e)\<close> by (auto simp: domain_pass_def count_cycle_outcome simp del: count_outcome.simps)
  next
    case (Inl ex)
    show ?thesis
    proof (cases "ex = TimeoutError")
      case True
      then have "timed_domain env coro w1 = (Inr (0, 0, True), w2)" using t Inl by simp
      from ok [OF this] show ?thesis using Inl True by (auto simp: domain_pass_def count_cycle_outcome simp del: count_outcome.simps)
    next
      case False
      then have "timed_domain env coro w1 = (Inl ex, w2)" using t Inl by simp
      from bad [OF this] show ?thesis using Inl False by (cases ex) (auto simp: domain_pass_def)
    qed
  qed
  then show ?thesis using r by blast
qed

text \<open>
  A cycle of a product loop counts what the watchdog saw, while the status document can
  be written: a result with errors is a failure, a clean one clears both counters, a timeout
  is neither, an escaped exception is a failure that is not a cycle, a cancellation counts
  nothing. Over any history (newest first) the total is the number of cycles and each
  consecutive counter the number of failures, respectively timeouts, since the last clean cycle.
\<close>

theorem domain_counters:
  assumes "de_s3_configured env" "de_redis env = Some R" "status_up env R" "record_quiet env"
  shows "(\<exists>w1 r w2 w'. de_wait_for env coro w1 = (r, w2)
            \<and> domain_pass env coro (w, s) =
                (case pass_effect r (s\<lparr> dm_client := True \<rparr>) of (c, s') \<Rightarrow> (Inr c, (w', s'))))
     \<and> foldr count_outcome history new_domain_state =
         \<lparr> dm_client = False,
           dm_consecutive_failures = count_list (since_clean history) Failed,
           dm_consecutive_timeouts = count_list (since_clean history) TimedOut,
           dm_total_cycles = length history \<rparr>"
  using domain_pass_effect [OF assms] by (simp add: foldr_count_outcome new_domain_state_def)

definition demo_env :: "keyspace domain_env" where
  "demo_env =
     \<lparr> de_domain = ''gfs'', de_s3_configured = True, de_redis = Some mem_redis, de_record = None,
       de_clock = (\<lambda>_. 0), de_wait_for = id, de_str_time = (\<lambda>_. ''0'') \<rparr>"

theorem domain_counters_witness:
  "\<exists>w'. domain_pass demo_env (raise TimeoutError) (Map.empty, new_domain_state)
      = (Inr CycleDone, (w', count_outcome TimedOut (new_domain_state\<lparr> dm_client := True \<rparr>)))"
proof -
  have h: "de_s3_configured demo_env" "de_redis demo_env = Some mem_redis" "status_up demo_env mem_redis" "record_quiet demo_env"
    by (auto simp: demo_env_def status_up_def record_quiet_def update_domain_sync_status_def conn_def mem_redis_def)
  obtain w1 r w2 w' where r: "de_wait_for demo_env (raise TimeoutError) w1 = (r, w2)"
    and d: "domain_pass demo_env (raise TimeoutError) (Map.empty, new_domain_state) =
        (case pass_effect r (new_domain_state\<lparr> dm_client := True \<rparr>) of (c, s') \<Rightarrow> (Inr c, (w', s')))"
    using domain_counters [OF h, of "raise TimeoutError" Map.empty new_domain_state "[]"] by blast
  have "r = Inl TimeoutError" using r by (simp add: demo_env_def)
  then show ?thesis using d by auto
qed

end
