(* ===== verification/Sync_Services.thy ===== *)
theory Sync_Services
  imports Sync_Domain Read_Strategies
begin

text \<open>
  The six background mirrors: satellite, radar, ECMWF precipitation, ECMWF pressure, WRF and
  GFS (\<^verbatim>\<open>services/*_sync_service.py\<close>). The local counter of downloaded tiles sits beside
  the world, because what was added before an exception is still returned.
\<close>

record sync_settings =
  ss_satellite_tile_ttl :: int
  ss_radar_tile_ttl :: int
  ss_ecmwf_forecasts_to_keep :: int
  ss_ecmwf_tile_ttl :: int
  ss_ecmwf_mslp_geojson_ttl :: int
  ss_wrf_inits_to_keep :: int
  ss_wrf_tile_ttl :: int
  ss_wrf_geojson_ttl :: int
  ss_wrf_overlay_recheck_ttl :: int
  ss_gfs_cycles_to_keep :: int
  ss_gfs_geojson_ttl :: int

record 'w sync_env =
  sy_s3 :: "'w s3 option"
  sy_redis :: "'w redis option"
  sy_clock :: "'w \<Rightarrow> rat"
  sy_conf :: sync_settings

text \<open>\<^verbatim>\<open>if self._client is None or self._redis_client is None: raise RuntimeError\<close>.\<close>

definition with_clients :: "'w sync_env \<Rightarrow> ('w s3 \<Rightarrow> 'w redis \<Rightarrow> ('w, 'a) io) \<Rightarrow> ('w, 'a) io" where
  "with_clients env f =
     (case (sy_s3 env, sy_redis env) of (Some S, Some R) \<Rightarrow> f S R | _ \<Rightarrow> raise RuntimeError)"

definition add_total :: "nat \<Rightarrow> ('w \<times> nat, unit) io" where
  "add_total n = on_state2 (\<lambda>t. t + n)"

text \<open>
  \<^verbatim>\<open>try: body except Exception: errors += 1\<close> around a body that adds to the total; the
  result is \<^verbatim>\<open>(total, errors)\<close>.
\<close>

definition tallied :: "('w \<times> nat, unit) io \<Rightarrow> ('w, nat \<times> nat) io" where
  "tallied body w =
     (case body (w, 0) of
        (Inr _, (w', n)) \<Rightarrow> (Inr (n, 0), w')
      | (Inl e, (w', n)) \<Rightarrow> if any_exception e then (Inr (n, 1), w') else (Inl e, w'))"

definition for_all :: "'a list \<Rightarrow> ('a \<Rightarrow> ('w, unit) io) \<Rightarrow> ('w, unit) io" where
  "for_all xs f = seq (for_each xs f) (ret ())"

section \<open>Satellite\<close>

definition DEFAULT_SYNC_PREFIXES :: "string list" where
  "DEFAULT_SYNC_PREFIXES =
     [''tiles/goes19/abi/c13'', ''tiles/goes19/abi/c09'', ''tiles/goes19/abi/c02'',
      ''tiles/goes19/glm/fed'', ''tiles/goes19/glm/toe'', ''tiles/goes19/glm/mfa'']"

definition PREFIX_TO_CHANNEL :: "(string \<times> string) list" where
  "PREFIX_TO_CHANNEL =
     [(''tiles/goes19/abi/c13'', ''goes19/abi/c13''), (''tiles/goes19/abi/c09'', ''goes19/abi/c09''),
      (''tiles/goes19/abi/c02'', ''goes19/abi/c02''), (''tiles/goes19/glm/fed'', ''goes19/glm/fed''),
      (''tiles/goes19/glm/toe'', ''goes19/glm/toe''), (''tiles/goes19/glm/mfa'', ''goes19/glm/mfa'')]"

definition channel_of :: "string \<Rightarrow> string" where
  "channel_of pfx = (case map_of PREFIX_TO_CHANNEL pfx of Some c \<Rightarrow> c | None \<Rightarrow> last_segment pfx)"

text \<open>One tileset that is not indexed yet: mirror it, and index it if tiles landed.\<close>

definition sync_satellite_tileset ::
  "'w s3 \<Rightarrow> 'w redis \<Rightarrow> sync_settings \<Rightarrow> rat \<Rightarrow> string \<Rightarrow> string list \<Rightarrow> string \<Rightarrow> ('w \<times> nat, unit) io" where
  "sync_satellite_tileset S R conf now channel_dir existing s3_tileset_prefix =
     (let tileset_id = last_segment s3_tileset_prefix
      in if tileset_id \<in> set existing then ret ()
         else bnd (on_world2 (sync_prefix_to_redis S R s3_tileset_prefix channel_dir tileset_id
                     (Some (ss_satellite_tile_ttl conf)))) (\<lambda>downloaded.
              seq (add_total downloaded)
                  (if downloaded > 0
                   then on_world2 (add_satellite_tileset R channel_dir tileset_id now (Some (ss_satellite_tile_ttl conf)))
                   else ret ())))"

definition sync_satellite_prefix ::
  "'w s3 \<Rightarrow> 'w redis \<Rightarrow> sync_settings \<Rightarrow> rat \<Rightarrow> string \<Rightarrow> ('w \<times> nat, unit) io" where
  "sync_satellite_prefix S R conf now pfx =
     (let channel_dir = channel_of pfx; cutoff = now - of_int (ss_satellite_tile_ttl conf)
      in bnd (on_world2 (get_subdirectories S pfx)) (\<lambda>tileset_prefixes.
         bnd (on_world2 (get_satellite_tilesets R channel_dir)) (\<lambda>existing.
         seq (for_all (sort tileset_prefixes) (sync_satellite_tileset S R conf now channel_dir existing))
        (seq (on_world2 (trim_satellite_index R channel_dir cutoff)) (ret ())))))"

definition sync_satellite_prefixes :: "'w sync_env \<Rightarrow> string list \<Rightarrow> ('w, nat \<times> nat) io" where
  "sync_satellite_prefixes env sync_prefixes =
     with_clients env (\<lambda>S R.
       bnd (reads (sy_clock env)) (\<lambda>now.
       bnd (for_each sync_prefixes (\<lambda>pfx. tallied (sync_satellite_prefix S R (sy_conf env) now pfx))) (\<lambda>results.
         ret (sum_list (map fst results), sum_list (map snd results)))))"

section \<open>Radar\<close>

definition sync_radar_tileset ::
  "'w s3 \<Rightarrow> 'w redis \<Rightarrow> sync_settings \<Rightarrow> string \<Rightarrow> rat \<Rightarrow> string \<Rightarrow> string \<Rightarrow> string \<Rightarrow> string list \<Rightarrow> string
     \<Rightarrow> ('w, nat) io" where
  "sync_radar_tileset S R conf network now radar_id variable_id elevation_id existing ts_prefix =
     (let tileset_id = last_segment ts_prefix
      in if tileset_id \<in> set existing then ret 0
         else bnd (sync_radar_prefix_to_redis S R ts_prefix radar_id variable_id tileset_id elevation_id
                     (ss_radar_tile_ttl conf) network) (\<lambda>downloaded.
              if downloaded > 0
              then seq (add_radar_index R radar_id variable_id elevation_id tileset_id now (ss_radar_tile_ttl conf) network)
                       (ret downloaded)
              else ret 0))"

text \<open>
  The dictionary of known tilesets per elevation is filled on the first visit of an
  elevation; the elevations of a variable are distinct directories, so it is read once.
\<close>

definition sync_radar_elevation ::
  "'w s3 \<Rightarrow> 'w redis \<Rightarrow> sync_settings \<Rightarrow> string \<Rightarrow> rat \<Rightarrow> string \<Rightarrow> string \<Rightarrow> string \<Rightarrow> string
     \<Rightarrow> (string \<times> string list) list \<Rightarrow> ('w, nat \<times> (string \<times> string list) list) io" where
  "sync_radar_elevation S R conf network now radar_id variable_id elevation_id elevation_prefix existing_by_elevation =
     bnd (if map_of existing_by_elevation elevation_id = None
          then bnd (get_radar_tilesets R radar_id variable_id elevation_id network) (\<lambda>ts.
                 ret (dict_set existing_by_elevation elevation_id ts))
          else ret existing_by_elevation) (\<lambda>by_elev.
     bnd (get_subdirectories S elevation_prefix) (\<lambda>ts_prefixes.
     bnd (for_each ts_prefixes (sync_radar_tileset S R conf network now radar_id variable_id elevation_id
            (case map_of by_elev elevation_id of Some ts \<Rightarrow> ts | None \<Rightarrow> []))) (\<lambda>counts.
     seq (trim_radar_index R radar_id variable_id elevation_id (now - of_int (ss_radar_tile_ttl conf)) network)
         (ret (sum_list counts, by_elev)))))"

definition sync_radar_variable ::
  "'w s3 \<Rightarrow> 'w redis \<Rightarrow> sync_settings \<Rightarrow> string \<Rightarrow> rat \<Rightarrow> string \<Rightarrow> string \<Rightarrow> ('w \<times> nat, unit) io" where
  "sync_radar_variable S R conf network now radar_id var_prefix =
     (let variable_id = last_segment var_prefix
      in bnd (on_world2 (get_subdirectories S var_prefix)) (\<lambda>elevation_prefixes.
         seq (for_fold elevation_prefixes (\<lambda>elevation_prefix by_elev.
                let elevation_id = last_segment elevation_prefix
                in if \<not> startswith elevation_id ''elev'' then ret by_elev
                   else bnd (on_world2 (sync_radar_elevation S R conf network now radar_id variable_id elevation_id
                               elevation_prefix by_elev)) (\<lambda>(n, by_elev').
                        seq (add_total n) (ret by_elev'))) [])
             (ret ())))"

definition sync_radar :: "'w sync_env \<Rightarrow> string \<Rightarrow> ('w, nat \<times> nat) io" where
  "sync_radar env network =
     with_clients env (\<lambda>S R.
       bnd (reads (sy_clock env)) (\<lambda>now.
         tallied (bnd (on_world2 (get_subdirectories S (radar_s3_prefix network))) (\<lambda>radar_prefixes.
           for_all radar_prefixes (\<lambda>radar_prefix.
             bnd (on_world2 (get_subdirectories S radar_prefix)) (\<lambda>var_prefixes.
               for_all var_prefixes
                 (sync_radar_variable S R (sy_conf env) network now (last_segment radar_prefix))))))))"

section \<open>ECMWF precipitation\<close>

definition newest :: "int \<Rightarrow> string list \<Rightarrow> string list" where
  "newest keep subdirs = py_take keep (sorted_desc (segment_names subdirs))"

definition sync_tp_period ::
  "'w s3 \<Rightarrow> 'w redis \<Rightarrow> sync_settings \<Rightarrow> string \<Rightarrow> string \<Rightarrow> ('w \<times> nat, unit) io" where
  "sync_tp_period S R conf forecast_ts period_ts =
     bnd (on_world2 (sync_ecmwf_tp_period_to_redis S R forecast_ts period_ts (ss_ecmwf_tile_ttl conf))) (\<lambda>stored.
     seq (add_total stored)
         (if stored > 0 then on_world2 (store_ecmwf_tp_index R forecast_ts [period_ts] (ss_ecmwf_tile_ttl conf)) else ret ()))"

definition sync_tp_forecast :: "'w s3 \<Rightarrow> 'w redis \<Rightarrow> sync_settings \<Rightarrow> string \<Rightarrow> ('w \<times> nat, unit) io" where
  "sync_tp_forecast S R conf forecast_ts =
     bnd (on_world2 (get_subdirectories S (''tiles/ecmwf-ifs/total-precipitation/'' @ forecast_ts))) (\<lambda>period_subdirs.
       let periods = sort (filter is_valid_timestamp_format (segment_names period_subdirs))
       in bnd (on_world2 (get_ecmwf_tp_periods R forecast_ts)) (\<lambda>known_periods.
          seq (for_all (filter (\<lambda>p. p \<notin> set known_periods) periods) (sync_tp_period S R conf forecast_ts))
              (on_world2 (store_ecmwf_tp_index R forecast_ts periods (ss_ecmwf_tile_ttl conf)))))"

definition sync_ecmwf_tp :: "'w sync_env \<Rightarrow> ('w, nat \<times> nat) io" where
  "sync_ecmwf_tp env =
     with_clients env (\<lambda>S R.
       tallied (bnd (on_world2 (get_subdirectories S ''tiles/ecmwf-ifs/total-precipitation'')) (\<lambda>subdirs.
         let active_forecasts = newest (ss_ecmwf_forecasts_to_keep (sy_conf env)) subdirs
         in if active_forecasts = [] then ret ()
            else seq (for_all active_forecasts (sync_tp_forecast S R (sy_conf env)))
                (seq (on_world2 (prune_ecmwf_tp_forecasts R active_forecasts)) (ret ())))))"

section \<open>ECMWF pressure\<close>

definition sync_mslp_forecast :: "'w s3 \<Rightarrow> 'w redis \<Rightarrow> sync_settings \<Rightarrow> string \<Rightarrow> ('w \<times> nat, unit) io" where
  "sync_mslp_forecast S R conf forecast_ts =
     bnd (on_world2 (list_object_basenames S (''cog/ecmwf-ifs/mean-sea-level-pressure/'' @ forecast_ts @ ''/'') ''.tif'' '''')) (\<lambda>names.
       let timestamps = sort (filter is_valid_timestamp_format names)
       in bnd (on_world2 (get_ecmwf_mslp_timestamps R forecast_ts)) (\<lambda>known.
            let new_timestamps = filter (\<lambda>t. t \<notin> set known) timestamps
            in bnd (if new_timestamps = [] then ret []
                    else bnd (on_world2 (sync_ecmwf_mslp_forecast_to_redis S R forecast_ts new_timestamps
                                (ss_ecmwf_mslp_geojson_ttl conf))) (\<lambda>stored.
                         seq (add_total (length stored)) (ret stored))) (\<lambda>stored.
               on_world2 (store_ecmwf_mslp_index R forecast_ts
                 (sort (remdups (filter (\<lambda>t. t \<in> set timestamps) known @ stored)))
                 (ss_ecmwf_mslp_geojson_ttl conf)))))"

definition sync_ecmwf_mslp :: "'w sync_env \<Rightarrow> ('w, nat \<times> nat) io" where
  "sync_ecmwf_mslp env =
     with_clients env (\<lambda>S R.
       tallied (bnd (on_world2 (get_subdirectories S ''cog/ecmwf-ifs/mean-sea-level-pressure'')) (\<lambda>subdirs.
         let active_forecasts = newest (ss_ecmwf_forecasts_to_keep (sy_conf env)) subdirs
         in if active_forecasts = [] then ret ()
            else seq (for_all active_forecasts (sync_mslp_forecast S R (sy_conf env)))
                (seq (on_world2 (prune_ecmwf_mslp_forecasts R active_forecasts)) (ret ())))))"

section \<open>WRF\<close>

definition extract_wrf_init_score :: "string \<Rightarrow> rat option" where
  "extract_wrf_init_score init_tag = py_float (filter (\<lambda>c. c \<noteq> CHR ''_'') init_tag)"

definition wrf_step_score :: "string \<Rightarrow> rat option" where
  "wrf_step_score fxxx = (if startswith fxxx ''F'' then map_option of_int (py_int (drop 1 fxxx)) else Some 0)"

definition select_active_inits :: "int \<Rightarrow> string list \<Rightarrow> (string \<times> string) list" where
  "select_active_inits keep init_tag_prefixes =
     py_take keep (sorted_desc_key fst (map (\<lambda>p. (last_segment p, p)) init_tag_prefixes))"

text \<open>
  The overlays of one step. The completion marker is read before the \<^verbatim>\<open>try\<close>; inside it
  every exception is logged.
\<close>

definition sync_wrf_overlays ::
  "'w s3 \<Rightarrow> 'w redis \<Rightarrow> sync_settings \<Rightarrow> string \<Rightarrow> string \<Rightarrow> string \<Rightarrow> ('w, unit) io" where
  "sync_wrf_overlays S R conf product_id init_tag fxxx =
     bnd (is_wrf_overlays_complete R product_id init_tag fxxx) (\<lambda>complete.
       if complete then ret ()
       else bnd (catching any_exception
              (bnd (list_wrf_layers S product_id init_tag fxxx) (\<lambda>s3_layers.
                 if s3_layers = []
                 then set_wrf_overlays_complete R product_id init_tag fxxx (ss_wrf_overlay_recheck_ttl conf)
                 else bnd (get_wrf_layers R product_id init_tag fxxx) (\<lambda>redis_layers.
                   let missing_layers = filter (\<lambda>l. l \<notin> set redis_layers) s3_layers
                   in if missing_layers = []
                      then set_wrf_overlays_complete R product_id init_tag fxxx (ss_wrf_geojson_ttl conf)
                      else seq (add_wrf_layers R product_id init_tag fxxx s3_layers (ss_wrf_geojson_ttl conf))
                          (seq (for_each missing_layers (\<lambda>layer.
                                  sync_wrf_geojson_to_redis S R product_id init_tag fxxx layer (ss_wrf_geojson_ttl conf)))
                               (ret ()))))))
              (\<lambda>_. ret ()))"

definition or_value_error :: "'a option \<Rightarrow> ('w, 'a) io" where
  "or_value_error v = (case v of None \<Rightarrow> raise ValueError | Some x \<Rightarrow> ret x)"

definition sync_wrf_step ::
  "'w s3 \<Rightarrow> 'w redis \<Rightarrow> sync_settings \<Rightarrow> string \<Rightarrow> string \<Rightarrow> string list \<Rightarrow> string \<Rightarrow> ('w \<times> nat, unit) io" where
  "sync_wrf_step S R conf product_id init_tag existing_steps fxxx_prefix =
     (let fxxx = last_segment fxxx_prefix
      in seq (if fxxx \<in> set existing_steps then ret ()
              else bnd (on_world2 (sync_wrf_step_to_redis S R product_id init_tag fxxx (ss_wrf_tile_ttl conf))) (\<lambda>downloaded.
                   if downloaded > 0
                   then bnd (or_value_error (extract_wrf_init_score init_tag)) (\<lambda>init_score.
                        bnd (or_value_error (wrf_step_score fxxx)) (\<lambda>step_score.
                        seq (on_world2 (add_wrf_index R product_id init_tag fxxx init_score step_score (ss_wrf_tile_ttl conf)))
                            (add_total downloaded)))
                   else ret ()))
             (on_world2 (sync_wrf_overlays S R conf product_id init_tag fxxx)))"

definition sync_wrf_product :: "'w s3 \<Rightarrow> 'w redis \<Rightarrow> sync_settings \<Rightarrow> string \<Rightarrow> ('w \<times> nat, unit) io" where
  "sync_wrf_product S R conf product_prefix =
     (let product_id = last_segment product_prefix
      in bnd (on_world2 (get_subdirectories S product_prefix)) (\<lambda>init_tag_prefixes.
           let active_inits = select_active_inits (ss_wrf_inits_to_keep conf) init_tag_prefixes
           in seq (for_all active_inits (\<lambda>(init_tag, init_tag_prefix).
                     bnd (on_world2 (get_subdirectories S init_tag_prefix)) (\<lambda>fxxx_prefixes.
                     bnd (on_world2 (get_wrf_steps R product_id init_tag)) (\<lambda>existing_steps.
                       for_all fxxx_prefixes (sync_wrf_step S R conf product_id init_tag existing_steps)))))
                  (if active_inits \<noteq> []
                   then seq (on_world2 (prune_wrf_inits R product_id (map fst active_inits))) (ret ())
                   else ret ())))"

definition sync_wrf :: "'w sync_env \<Rightarrow> ('w, nat \<times> nat) io" where
  "sync_wrf env =
     with_clients env (\<lambda>S R.
       tallied (bnd (on_world2 (get_subdirectories S ''tiles/wrf-arg4k'')) (\<lambda>product_prefixes.
         for_all product_prefixes (sync_wrf_product S R (sy_conf env)))))"

section \<open>GFS\<close>

definition cycle_score :: "string \<Rightarrow> rat" where
  "cycle_score cycle = of_nat (digits_value (filter is_digit cycle))"

definition step_score :: "string \<Rightarrow> rat" where
  "step_score fxxx =
     (let digits = (if startswith fxxx ''f'' then drop 1 fxxx else fxxx)
      in if py_isdigit digits then of_nat (digits_value digits) else 0)"

definition active_cycles :: "'w s3 \<Rightarrow> sync_settings \<Rightarrow> gfs_product \<Rightarrow> ('w, string list) io" where
  "active_cycles S conf product =
     bnd (get_subdirectories S (gfs_cog_cycle_prefix (gp_s3_segment product))) (\<lambda>subdirs.
       ret (py_take (ss_gfs_cycles_to_keep conf) (sorted_desc (filter (\<lambda>n. n \<noteq> []) (map leaf_segment subdirs)))))"

definition gfs_list_steps :: "'w s3 \<Rightarrow> gfs_product \<Rightarrow> string \<Rightarrow> ('w, string list) io" where
  "gfs_list_steps S product cycle =
     bnd (list_object_basenames S (gfs_cog_cycle_prefix (gp_s3_segment product) @ cycle @ ''/'') ''.tif'' ''/'') (\<lambda>names.
       ret (sort (List.map_filter (\<lambda>name. step_from_basename name cycle) names)))"

text \<open>One overlay: \<^verbatim>\<open>Some copied\<close> when it is retrievable from Redis afterwards.\<close>

definition mirror_overlay ::
  "'w s3 \<Rightarrow> 'w redis \<Rightarrow> sync_settings \<Rightarrow> gfs_product \<Rightarrow> string \<Rightarrow> string \<Rightarrow> string \<Rightarrow> ('w, bool option) io" where
  "mirror_overlay S R conf product cycle fxxx layer =
     bnd (get_gfs_geojson R (gp_product_id product) cycle fxxx layer) (\<lambda>cached.
       if truthy cached then ret (Some False)
       else bnd (download_tile S (build_gfs_geojson_key (gp_s3_segment product) cycle fxxx layer)) (\<lambda>data.
            if \<not> truthy data then ret None
            else seq (store_gfs_geojson R (gp_product_id product) cycle fxxx layer (the data) (Some (ss_gfs_geojson_ttl conf)))
                     (ret (Some True))))"

definition mirror_overlays ::
  "'w s3 \<Rightarrow> 'w redis \<Rightarrow> sync_settings \<Rightarrow> gfs_product \<Rightarrow> string \<Rightarrow> string \<Rightarrow> ('w, string list \<times> nat) io" where
  "mirror_overlays S R conf product cycle fxxx =
     bnd (for_each (gp_layers product) (mirror_overlay S R conf product cycle fxxx)) (\<lambda>rs.
       ret (map fst (filter (\<lambda>(l, r). r \<noteq> None) (zip (gp_layers product) rs)),
            length (filter (\<lambda>r. r = Some True) rs)))"

definition sync_gfs_step ::
  "'w s3 \<Rightarrow> 'w redis \<Rightarrow> sync_settings \<Rightarrow> gfs_product \<Rightarrow> string \<Rightarrow> string \<Rightarrow> ('w, nat) io" where
  "sync_gfs_step S R conf product cycle fxxx =
     seq (add_gfs_index R (gp_product_id product) cycle fxxx (cycle_score cycle) (step_score fxxx) (ss_gfs_geojson_ttl conf))
    (bnd (mirror_overlays S R conf product cycle fxxx) (\<lambda>(present, copied).
     seq (add_gfs_layers R (gp_product_id product) cycle fxxx present (ss_gfs_geojson_ttl conf))
         (ret copied)))"

definition sync_gfs_product :: "'w s3 \<Rightarrow> 'w redis \<Rightarrow> sync_settings \<Rightarrow> gfs_product \<Rightarrow> ('w, nat) io" where
  "sync_gfs_product S R conf product =
     bnd (active_cycles S conf product) (\<lambda>cycles.
       if cycles = [] then ret 0
       else bnd (for_each cycles (\<lambda>cycle.
                   bnd (gfs_list_steps S product cycle) (\<lambda>steps.
                   bnd (for_each steps (sync_gfs_step S R conf product cycle)) (\<lambda>ns. ret (sum_list ns))))) (\<lambda>counts.
            seq (prune_gfs_cycles R (gp_product_id product) cycles) (ret (sum_list counts))))"

text \<open>\<^verbatim>\<open>total += await ...\<close>: a product that raises adds nothing and counts one error.\<close>

definition sync_gfs :: "'w sync_env \<Rightarrow> ('w, nat \<times> nat) io" where
  "sync_gfs env =
     with_clients env (\<lambda>S R.
       bnd (for_each (map snd GFS_PRODUCTS) (\<lambda>product.
              bnd (catching any_exception (sync_gfs_product S R (sy_conf env) product)) (\<lambda>r.
                ret (case r of Inl e \<Rightarrow> (0, 1) | Inr n \<Rightarrow> (n, 0))))) (\<lambda>results.
         ret (sum_list (map fst results), sum_list (map snd results))))"

end
