(* ===== verification/Sync_Frontier.thy ===== *)
theory Sync_Frontier
  imports Sync_Services Read_Coherence
begin

text \<open>
  What the mirrors promise about their indexes: the GFS loop only registers overlays that
  are in Redis; the ECMWF precipitation loop and the WRF overlays can register entries whose
  download failed, and then take them for mirrored.
\<close>

section \<open>Pipelines\<close>






section \<open>GFS overlays\<close>




lemma suffix_clash: "length x = length y \<Longrightarrow> x \<noteq> y \<Longrightarrow> a @ x \<noteq> b @ y"
  by auto




definition demo_settings :: sync_settings where
  "demo_settings =
     \<lparr> ss_satellite_tile_ttl = 3600, ss_radar_tile_ttl = 3600, ss_ecmwf_forecasts_to_keep = 2, ss_ecmwf_tile_ttl = 3600,
       ss_ecmwf_mslp_geojson_ttl = 3600, ss_wrf_inits_to_keep = 2, ss_wrf_tile_ttl = 3600, ss_wrf_geojson_ttl = 3600,
       ss_wrf_overlay_recheck_ttl = 600, ss_gfs_cycles_to_keep = 2, ss_gfs_geojson_ttl = 3600 \<rparr>"


section \<open>Entries registered without their data\<close>

text \<open>
  A bucket whose listings work while its object reads can be down, holding one precipitation
  tile and one WRF overlay. The flag says whether reads work.
\<close>

definition half_s3 :: "(bool \<times> 'k) s3" where
  "half_s3 =
     \<lparr> b_connected = (\<lambda>w. True), b_connect = ret (),
       b_get_object = (\<lambda>k w. if fst w then (Inr (Raw ''data''), w) else (Inl TimeoutError, w)),
       b_put_object = (\<lambda>k d ct. raise BotoCoreError), b_head_object = (\<lambda>k. ret ()),
       b_delete_object = (\<lambda>k. ret ()), b_head_bucket = ret (), b_create_bucket = ret (), b_list_buckets = ret (),
       b_list_one = (\<lambda>p. ret []),
       b_paginate = (\<lambda>p d. ret
          [if p = ''tiles/ecmwf-ifs/total-precipitation/''
           then \<lparr> lp_keys = [], lp_common_prefixes = [p @ ''20260808T0000Z/''] \<rparr>
           else if p = ''tiles/ecmwf-ifs/total-precipitation/20260808T0000Z/''
           then \<lparr> lp_keys = [], lp_common_prefixes = [p @ ''20260808T0300Z/''] \<rparr>
           else if p = ''tiles/ecmwf-ifs/total-precipitation/20260808T0000Z/20260808T0300Z/''
           then \<lparr> lp_keys = [p @ ''3/1/2.webp''], lp_common_prefixes = [] \<rparr>
           else \<lparr> lp_keys = [p @ ''isobars.json''], lp_common_prefixes = [] \<rparr>]),
       b_put_lifecycle = (\<lambda>r p d. ret ()) \<rparr>"

definition half_env :: "(bool \<times> keyspace) sync_env" where
  "half_env = \<lparr> sy_s3 = Some half_s3, sy_redis = Some (pair_redis mem_redis), sy_clock = (\<lambda>_. 0), sy_conf = demo_settings \<rparr>"

lemmas sync_simps =
  with_clients_def tallied_def for_all_def add_total_def on_world2_def on_state2_def
  get_subdirectories_def ensure_connected_def require_client_def list_objects_def
  bnd_apply seq_apply catching_def Let_def conn_def pair_redis_def mem_redis_def on_cache_def
  get_value_def store_value_def sorted_members_def endswith_def suffix_Cons suffix_append

lemma demo_names:
  "last_segment ''tiles/ecmwf-ifs/total-precipitation/20260808T0000Z/'' = ''20260808T0000Z''"
  "last_segment ''tiles/ecmwf-ifs/total-precipitation/20260808T0000Z/20260808T0300Z/'' = ''20260808T0300Z''"
  "is_valid_timestamp_format ''20260808T0300Z''"
  "parse_zxy ''tiles/ecmwf-ifs/total-precipitation/20260808T0000Z/20260808T0300Z/3/1/2.webp'' = Some (3, 1, 2)"
  by code_simp+

lemma tp_keys_distinct:
  "ecmwf_tp_tile_key f p z x y \<noteq> ecmwf_tp_forecasts_key" "ecmwf_tp_tile_key f p z x y \<noteq> ecmwf_tp_periods_key f'"
  "ecmwf_tp_forecasts_key \<noteq> ecmwf_tp_periods_key f'"
  using suffix_clash [of "''casts''" "''riods''" "''idx:ecmwf_tp:fore''" "''idx:ecmwf_tp:'' @ f' @ '':pe''"]
  by (simp_all add: ecmwf_tp_tile_key_def ecmwf_tp_forecasts_key_def ecmwf_tp_periods_key_def)

abbreviation tp_f :: string where "tp_f \<equiv> ''20260808T0000Z''"

abbreviation tp_p :: string where "tp_p \<equiv> ''20260808T0300Z''"

text \<open>The calls of a cycle on this bucket and the in-memory server, one rewrite rule each.\<close>

lemma half_listings:
  "get_subdirectories half_s3 ''tiles/ecmwf-ifs/total-precipitation'' w
     = (Inr [''tiles/ecmwf-ifs/total-precipitation/20260808T0000Z/''], w)"
  "get_subdirectories half_s3 ''tiles/ecmwf-ifs/total-precipitation/20260808T0000Z'' w
     = (Inr [''tiles/ecmwf-ifs/total-precipitation/20260808T0000Z/20260808T0300Z/''], w)"
  "list_objects half_s3 ''tiles/ecmwf-ifs/total-precipitation/20260808T0000Z/20260808T0300Z/'' '''' w
     = (Inr [''tiles/ecmwf-ifs/total-precipitation/20260808T0000Z/20260808T0300Z/3/1/2.webp''], w)"
  "ensure_connected half_s3 w = (Inr (), w)"
  by (simp_all add: half_s3_def sync_simps)

lemma half_calls:
  "b_connected half_s3 w"
  "b_get_object half_s3 k w = (if fst w then (Inr (Raw ''data''), w) else (Inl TimeoutError, w))"
  "rd_connected (pair_redis mem_redis)"
  "rd_set (pair_redis mem_redis) k b ttl (u, ks) = (Inr (), (u, ks(k \<mapsto> RString b)))"
  "rd_pipeline (pair_redis mem_redis) cs (u, ks) = (Inr [], (u, fold run_command cs ks))"
  by (simp_all add: half_s3_def pair_redis_def mem_redis_def on_cache_def)

lemma half_smembers:
  "set_at ks k = Some s \<Longrightarrow> finite s \<Longrightarrow> rd_smembers (pair_redis mem_redis) k (u, ks) = (Inr (members_of s), (u, ks))"
  by (simp add: pair_redis_def mem_redis_def on_cache_def)

lemma half_period:
  "sync_ecmwf_tp_period_to_redis half_s3 (pair_redis mem_redis) tp_f tp_p ttl (up, ks)
     = (if up then (Inr 1, (up, ks(ecmwf_tp_tile_key tp_f tp_p 3 1 2 \<mapsto> RString (Raw ''data''))))
        else (Inr 0, (up, ks)))"
  by (simp add: sync_ecmwf_tp_period_to_redis_def mirror_tiles_def half_listings seq_apply bnd_apply endswith_def
      suffix_Cons download_ecmwf_tp_tile_to_redis_def tile_to_redis_def demo_names catching_def any_exception_def
      download_webp_bytes_def require_client_def half_calls store_ecmwf_tp_tile_def store_value_def conn_def count_true_def)

lemma half_periods:
  "set_at ks (ecmwf_tp_periods_key tp_f) = Some s \<Longrightarrow> finite s \<Longrightarrow>
   get_ecmwf_tp_periods (pair_redis mem_redis) tp_f (up, ks) = (Inr (sort (members_of s)), (up, ks))"
  by (simp add: get_ecmwf_tp_periods_def sorted_members_def conn_def bnd_apply half_smembers half_calls del: set_at.simps)

lemma half_index:
  "store_ecmwf_tp_index (pair_redis mem_redis) tp_f ps ttl (up, ks)
     = (Inr (), (up, fold run_command (index_commands ecmwf_tp_forecasts_key tp_f (ecmwf_tp_periods_key tp_f) ps ttl) ks))"
  by (simp add: store_ecmwf_tp_index_def conn_def seq_apply half_calls)

lemma half_prune:
  "set_at ks ecmwf_tp_forecasts_key = Some {tp_f} \<Longrightarrow>
   prune_ecmwf_tp_forecasts (pair_redis mem_redis) [tp_f] (up, ks) = (Inr 0, (up, ks))"
  by (simp add: prune_ecmwf_tp_forecasts_def prune_index_set_def conn_def seq_apply bnd_apply half_calls half_smembers
      del: set_at.simps)

text \<open>A cycle whose period is new, and one whose period is known.\<close>

definition tp_indexed :: "keyspace \<Rightarrow> keyspace" where
  "tp_indexed ks = ks(ecmwf_tp_forecasts_key \<mapsto> RSet {tp_f}, ecmwf_tp_periods_key tp_f \<mapsto> RSet {tp_p})"

lemma tp_indexed_at:
  "set_at (tp_indexed ks) ecmwf_tp_forecasts_key = Some {tp_f}"
  "set_at (tp_indexed ks) (ecmwf_tp_periods_key tp_f) = Some {tp_p}"
  "tp_indexed ks (ecmwf_tp_tile_key f p z x y) = ks (ecmwf_tp_tile_key f p z x y)"
  "tp_indexed (tp_indexed ks) = tp_indexed ks"
  using tp_keys_distinct by (auto simp: tp_indexed_def fun_eq_iff)

lemma index_fold:
  assumes "set_at ks ecmwf_tp_forecasts_key = Some a" "a \<subseteq> {tp_f}"
    and "set_at ks (ecmwf_tp_periods_key tp_f) = Some b" "b \<subseteq> {tp_p}"
  shows "fold run_command (index_commands ecmwf_tp_forecasts_key tp_f (ecmwf_tp_periods_key tp_f) [tp_p] ttl) ks
           = tp_indexed ks"
proof -
  have i: "insert tp_f a = {tp_f}" "insert tp_p b = {tp_p}" using assms(2,4) by auto
  have d: "set_at (ks(ecmwf_tp_forecasts_key \<mapsto> RSet {tp_f})) (ecmwf_tp_periods_key tp_f) = Some b"
    using assms(3) tp_keys_distinct(3) [of tp_f] by simp
  show ?thesis
    using assms(1) d by (simp add: index_commands_def put_set_def tp_indexed_def i del: set_at.simps)
qed

lemma half_forecast:
  assumes "set_at ks ecmwf_tp_forecasts_key = Some a" "a \<subseteq> {tp_f}"
    and "set_at ks (ecmwf_tp_periods_key tp_f) = Some b" "b \<subseteq> {tp_p}"
  shows "sync_tp_forecast half_s3 (pair_redis mem_redis) conf tp_f ((up, ks), n)
     = (Inr (), if up \<and> b = {}
                then ((up, tp_indexed (ks(ecmwf_tp_tile_key tp_f tp_p 3 1 2 \<mapsto> RString (Raw ''data'')))), n + 1)
                else ((up, tp_indexed ks), n))"
proof -
  have m: "sort (members_of b) = (if b = {} then [] else [tp_p])"
    using assms(4) by (auto simp: members_of_def subset_singleton_iff)
  have f: "finite b" using assms(4) by (auto intro: finite_subset)
  let ?ks = "ks(ecmwf_tp_tile_key tp_f tp_p 3 1 2 \<mapsto> RString (Raw ''data''))"
  have k: "set_at ?ks ecmwf_tp_forecasts_key = Some a" "set_at ?ks (ecmwf_tp_periods_key tp_f) = Some b"
    using assms(1,3) tp_keys_distinct [symmetric] by simp_all
  note ix = index_fold [OF assms] index_fold [OF k(1) assms(2) k(2) assms(4)]
    index_fold [OF tp_indexed_at(1) subset_refl tp_indexed_at(2) subset_refl]
  show ?thesis
    by (simp add: sync_tp_forecast_def bnd_apply on_world2_def half_listings segment_names_def demo_names
        half_periods [OF assms(3) f] m for_all_def seq_apply sync_tp_period_def half_period half_index ix tp_indexed_at(4)
        add_total_def on_state2_def del: set_at.simps)
qed

lemma half_cycle:
  assumes "set_at ks ecmwf_tp_forecasts_key = Some a" "a \<subseteq> {tp_f}"
    and "set_at ks (ecmwf_tp_periods_key tp_f) = Some b" "b \<subseteq> {tp_p}"
  shows "sync_ecmwf_tp half_env (up, ks)
     = (if up \<and> b = {}
        then (Inr (1, 0), (up, tp_indexed (ks(ecmwf_tp_tile_key tp_f tp_p 3 1 2 \<mapsto> RString (Raw ''data'')))))
        else (Inr (0, 0), (up, tp_indexed ks)))"
  by (simp add: sync_ecmwf_tp_def half_env_def with_clients_def tallied_def bnd_apply on_world2_def half_listings newest_def
      segment_names_def demo_names sorted_desc_def py_take_def demo_settings_def for_all_def seq_apply
      half_forecast [OF assms] half_prune tp_indexed_at del: set_at.simps)

text \<open>
  A precipitation period whose tiles could not be read is registered all the same: the
  index write that closes each forecast lists every period found, stored or not. The next
  cycle takes the period for mirrored and downloads nothing although the bucket is readable
  again; a fresh cache would have mirrored it.
\<close>

theorem tp_unread_period_is_indexed:
  "let tile = ecmwf_tp_tile_key ''20260808T0000Z'' ''20260808T0300Z'' 3 1 2;
       first = sync_ecmwf_tp half_env (False, Map.empty);
       second = sync_ecmwf_tp half_env (True, snd (snd first));
       fresh = sync_ecmwf_tp half_env (True, Map.empty)
   in fst first = Inr (0, 0)
      \<and> set_at (snd (snd first)) (ecmwf_tp_periods_key ''20260808T0000Z'') = Some {''20260808T0300Z''}
      \<and> fst second = Inr (0, 0) \<and> snd (snd second) tile = None
      \<and> fst fresh = Inr (1, 0) \<and> snd (snd fresh) tile = Some (RString (Raw ''data''))"
proof -
  have e: "set_at Map.empty k = Some {}" for k by simp
  note c = half_cycle [OF e empty_subsetI e empty_subsetI]
    half_cycle [OF tp_indexed_at(1) subset_refl tp_indexed_at(2) subset_refl]
  show ?thesis by (simp add: Let_def c tp_indexed_at del: set_at.simps)
qed

end
