(* ===== verification/Spec2Isabelle.thy ===== *)
theory Spec2Isabelle
  imports Basemap_Config Basemap_Cycle Basemap_Flight Basemap_Reader Basemap_Scraper
    Basemap_Service Basemap_State_Store Basemap_Sweep Gfs_Config Http_Tile Log_Throttle
    Metrics_Store Prelude Read_Coherence Read_Listings Read_Strategies Redis_Client
    Redis_Keys Redis_Metrics S3_Client S3_Keys S3_Mirror Settings Settings_Boot
    Settings_Shipped Settings_Tables Smn_Clients Startup Startup_Facts Station_Keystore
    Station_Registry Station_Scraper Station_Series Station_Service Station_Snapshots
    Storage_Circuit Sync_Base Sync_Domain Sync_Frontier Sync_Services
begin

text \<open>
  Verification library of the data service, a FastAPI program that serves map tiles and
  meteorological products from an object store, mirrors them into Redis, and backs up the
  tiles of external map providers. File names below are relative to \<^verbatim>\<open>src/src\<close>.

  \<^bold>\<open>Parts and how they interact.\<close> The object store (\<^verbatim>\<open>clients/s3_client.py\<close>) is filled by another
  program. In prefetch mode one background loop per product (\<^verbatim>\<open>services/*_sync_service.py\<close> on
  \<^verbatim>\<open>base_sync_service.py\<close> and \<^verbatim>\<open>domain_sync_service.py\<close>) copies new tiles into Redis
  (\<^verbatim>\<open>clients/redis_client.py\<close>) and keeps its indexes; the read strategies
  (\<^verbatim>\<open>services/*_sync_strategy.py\<close>) answer from Redis first and from the object store second. Base
  maps have a scraper (\<^verbatim>\<open>basemap_scraper_service.py\<close>) with a cursor and a queue of failed tiles in
  SQLite (\<^verbatim>\<open>clients/basemap_state_store.py\<close>), a breaker per provider and storage breakers
  (\<^verbatim>\<open>storage_circuit.py\<close>), and a reader (\<^verbatim>\<open>basemap_tile_reader.py\<close>) that asks the provider
  (\<^verbatim>\<open>clients/http_tile_client.py\<close>), Redis and the object store in turn. Weather stations have a
  scraper, a read service and a store of API keys in the same object store.

  \<^bold>\<open>Theories.\<close>
  \<^item> \<^verbatim>\<open>Prelude\<close>: Python strings, numbers, slices, dictionaries, JSON and byte strings; the
    state-and-exception monad of coroutines; triples and frames.
  \<^item> \<^verbatim>\<open>Storage_Circuit\<close> (\<^verbatim>\<open>services/storage_circuit.py\<close>): the breaker as a record with one function per
    method; its step relation under concurrent callers, invariant, schedule of probes, exhaustion.
  \<^item> \<^verbatim>\<open>Log_Throttle\<close> (\<^verbatim>\<open>log_throttle.py\<close>): backoff of repeated log lines; nothing is lost, bounds.
  \<^item> \<^verbatim>\<open>Basemap_Config\<close> (\<^verbatim>\<open>services/basemap_config.py\<close>): provider registry, tile grid, addresses.
  \<^item> \<^verbatim>\<open>Basemap_State_Store\<close> (\<^verbatim>\<open>clients/basemap_state_store.py\<close>): the SQLite tables as a record, the
    statements as functions; table invariant, survival of a restart, independence of providers.
  \<^item> \<^verbatim>\<open>Basemap_Scraper\<close> (\<^verbatim>\<open>services/basemap_scraper_service.py\<close>): tiles, breaker, watermark, sweep of a
    zoom, a provider, all providers, cooldown and scheduling. \<^verbatim>\<open>Basemap_Sweep\<close> proves that a sweep
    ended in any way can be resumed without losing an attempted tile; \<^verbatim>\<open>Basemap_Cycle\<close> what each end of
    a sweep records, when the breaker trips and that the wait for storage ends.
  \<^item> \<^verbatim>\<open>Http_Tile\<close> (\<^verbatim>\<open>clients/http_tile_client.py\<close>), \<^verbatim>\<open>Basemap_Reader\<close> and \<^verbatim>\<open>Basemap_Flight\<close>
    (\<^verbatim>\<open>services/basemap_tile_reader.py\<close>), \<^verbatim>\<open>Basemap_Service\<close> (\<^verbatim>\<open>services/basemap_service.py\<close>): meaning of a
    download, order of the tiers, the table of shared lookups, availability of providers.
  \<^item> \<^verbatim>\<open>Redis_Keys\<close>, \<^verbatim>\<open>Redis_Client\<close> (\<^verbatim>\<open>clients/redis_client.py\<close>): the key schema is injective; reads after
    writes and pruning of indexes over the locale \<^verbatim>\<open>redis_server\<close>.
  \<^item> \<^verbatim>\<open>Metrics_Store\<close> (\<^verbatim>\<open>clients/metrics_store.py\<close>): the tables of sync cycles, memory samples and server
    information; what a prune and the row cap keep, the live status after any history.
  \<^item> \<^verbatim>\<open>Redis_Metrics\<close> (\<^verbatim>\<open>services/redis_metrics_service.py\<close>): classification of keys, reservoir sampling
    (uniform over all sequences of draws), extrapolation, the census without sampling.
  \<^item> \<^verbatim>\<open>S3_Keys\<close>, \<^verbatim>\<open>S3_Client\<close>, \<^verbatim>\<open>S3_Mirror\<close> (\<^verbatim>\<open>clients/s3_client.py\<close>): keys parse back; mirroring a tileset
    copies the bucket's bytes, over the locales \<^verbatim>\<open>object_store\<close> and \<^verbatim>\<open>mirror\<close>.
  \<^item> \<^verbatim>\<open>Gfs_Config\<close> (\<^verbatim>\<open>services/gfs_config.py\<close>), \<^verbatim>\<open>Read_Strategies\<close>, \<^verbatim>\<open>Read_Coherence\<close>, \<^verbatim>\<open>Read_Listings\<close>
    (\<^verbatim>\<open>services/*_sync_strategy.py\<close>): every read of every product serves the bucket's object through the
    cache (locale \<^verbatim>\<open>cached_bucket\<close>), listings.
  \<^item> \<^verbatim>\<open>Sync_Base\<close>, \<^verbatim>\<open>Sync_Domain\<close>, \<^verbatim>\<open>Sync_Services\<close>, \<^verbatim>\<open>Sync_Frontier\<close> (\<^verbatim>\<open>services/base_sync_service.py\<close>,
    \<^verbatim>\<open>domain_sync_service.py\<close>, \<^verbatim>\<open>*_sync_service.py\<close>): one writer per lock, pacing, counters, what the
    indexes promise.
  \<^item> \<^verbatim>\<open>Station_Keystore\<close> (\<^verbatim>\<open>clients/weather_stations_keystore.py\<close>): which secrets are accepted, revocation.
  \<^item> \<^verbatim>\<open>Station_Snapshots\<close>, \<^verbatim>\<open>Station_Series\<close> (\<^verbatim>\<open>services/weather_stations_cache.py\<close>): names of snapshots and
    tilesets, hour buckets (the listing and the fetch agree), per-station series (the scraper's and the
    reader's computation agree).
  \<^item> \<^verbatim>\<open>Station_Registry\<close> (\<^verbatim>\<open>services/smn_stations_registry.py\<close>): the fixed-width parser inverts the layout of
    the table.
  \<^item> \<^verbatim>\<open>Smn_Clients\<close> (\<^verbatim>\<open>clients/smn_api_client.py\<close>, \<^verbatim>\<open>clients/smn_registry_client.py\<close>): retries, the token cache and
    its refresh, the redacted log. The locale \<^verbatim>\<open>smn_upstream\<close> is a network whose requests can be observed.
  \<^item> \<^verbatim>\<open>Station_Service\<close> (\<^verbatim>\<open>services/weather_stations_service.py\<close>): the read endpoints, against the locale
    \<^verbatim>\<open>cached_bucket\<close> of the product reads.
  \<^item> \<^verbatim>\<open>Station_Scraper\<close> (\<^verbatim>\<open>services/weather_stations_scraper_service.py\<close>): one cycle; the locale \<^verbatim>\<open>station_store\<close>
    states the stores around it, and the remembered registry hash is an invariant of all its runs.
  \<^item> \<^verbatim>\<open>Settings_Tables\<close>, \<^verbatim>\<open>Settings\<close>, \<^verbatim>\<open>Settings_Boot\<close>, \<^verbatim>\<open>Settings_Shipped\<close> (\<^verbatim>\<open>settings.py\<close>): the class
    attributes, the keys read from \<^verbatim>\<open>settings.json\<close> and the environment as tables, the loaders that
    interpret them, validation; the layering of a booted process, the ranges it guarantees, deprecated
    variables, and the repository's own \<^verbatim>\<open>settings.json\<close>.
  \<^item> \<^verbatim>\<open>Startup\<close>, \<^verbatim>\<open>Startup_Facts\<close> (\<^verbatim>\<open>main.py\<close>): start-up and shutdown as traces of actions on the parts,
    whatever the parts answer: what is released, what the web role never starts, how long the start waits.
  \<^bold>\<open>Conventions.\<close> A coroutine is a function from a world to an exception or a value and a new world;
  effects before an exception stay. Code outside the repository is a parameter, with its documented
  behaviour as the laws of a locale: botocore (\<^verbatim>\<open>s3\<close>), the Redis server (\<^verbatim>\<open>redis\<close>), \<^verbatim>\<open>httpx\<close> and
  \<^verbatim>\<open>tenacity\<close> (\<^verbatim>\<open>http\<close>), the operating system's lock, \<^verbatim>\<open>asyncio.wait_for\<close>, clocks, hashes. Each locale
  is interpreted on stores in memory, and each property with hypotheses has an instance there.
  Interleaving is explicit where the code depends on it: completions of a sweep arrive in any order
  (\<^verbatim>\<open>be_next\<close>), breakers, locks and shared lookups are step relations. Elsewhere a spawned task is run
  where its creator returns, and gathered tasks in list order. Semaphores and locks that only bound
  concurrency, and log lines, are not modelled. Floats that carry times or rates are rationals.

  \<^bold>\<open>Bounds.\<close> Loops over lists are structural recursions and always end. Two loops of the code may run for
  ever and carry a bound after which the task is cancelled: the wait for storage (\<^verbatim>\<open>be_naps\<close> sleeps;
  \<^verbatim>\<open>await_storage_cooldown_returns\<close> shows it ends by itself before the bound once the clock advances) and
  the SCAN loop of \<^verbatim>\<open>delete_satellite_tileset\<close> (its passes).

  \<^bold>\<open>Not modelled.\<close> The HTTP routes and response models (\<^verbatim>\<open>routes\<close>, \<^verbatim>\<open>models\<close>) bind the
  services to the framework; the application object and middleware of \<^verbatim>\<open>main.py\<close>; the point value
  service reads rasters through GDAL.
\<close>

end
